(* ===== verification/Hydir_Prelude.thy ===== *)
theory Hydir_Prelude
  imports Main "HOL-Library.Word" "HOL-Library.Char_ord" "HOL-Library.List_Lexorder"
    "HOL-Library.Product_Lexorder"
begin

text \<open>
  Shared vocabulary of the development: Rust's fixed-width integers and their checked
  arithmetic, \<^verbatim>\<open>Result\<close> with the panic of a debug build as a third outcome, early return
  through \<^verbatim>\<open>?\<close>, \<^verbatim>\<open>for\<close> loops that may return early, \<^verbatim>\<open>loop\<close> with \<^verbatim>\<open>break\<close>, and
  bounds-checked indexing. The collections \<open>res_simps\<close> and \<open>res_elims\<close> hold the rules
  that take a chain of fallible steps apart.
\<close>

unbundle bit_operations_syntax

named_theorems res_simps \<open>success of a chain of fallible steps, as rewrite rules\<close>
named_theorems no_panic \<open>functions that never reach a Rust panic\<close>

section \<open>Machine integers\<close>

type_synonym u8 = "8 word"
type_synonym u32 = "32 word"
type_synonym u64 = "64 word"
type_synonym u128 = "128 word"
type_synonym i32 = "32 word" \<comment> \<open>read with \<^const>\<open>sint\<close>\<close>
type_synonym usize = nat \<comment> \<open>lengths and indices, bounded by the collections they count\<close>

definition checked_add :: "'w::len word \<Rightarrow> 'w word \<Rightarrow> 'w word option" where
  "checked_add a b = (if unat a + unat b < 2 ^ LENGTH('w) then Some (a + b) else None)"

definition checked_sub :: "'w::len word \<Rightarrow> 'w word \<Rightarrow> 'w word option" where
  "checked_sub a b = (if b \<le> a then Some (a - b) else None)"

definition checked_mul :: "'w::len word \<Rightarrow> 'w word \<Rightarrow> 'w word option" where
  "checked_mul a b = (if unat a * unat b < 2 ^ LENGTH('w) then Some (a * b) else None)"

lemma checked_add_Some [simp]:
  "checked_add a b = Some c \<longleftrightarrow> unat a + unat b < 2 ^ LENGTH('w) \<and> c = a + (b :: 'w::len word)"
  by (auto simp: checked_add_def)

lemma checked_add_None [simp]:
  "checked_add a (b :: 'w::len word) = None \<longleftrightarrow> 2 ^ LENGTH('w) \<le> unat a + unat b"
  by (auto simp: checked_add_def)

lemma unat_add_no_overflow:
  "unat a + unat b < 2 ^ LENGTH('w) \<Longrightarrow> unat (a + b :: 'w::len word) = unat a + unat b"
  by (simp add: unat_word_ariths)

lemma checked_sub_Some [simp]: "checked_sub a b = Some c \<longleftrightarrow> b \<le> a \<and> c = a - b"
  by (auto simp: checked_sub_def)

lemma checked_mul_Some [simp]:
  "checked_mul a b = Some c \<longleftrightarrow> unat a * unat b < 2 ^ LENGTH('w) \<and> c = a * (b :: 'w::len word)"
  by (auto simp: checked_mul_def)

section \<open>Results, panics and early return\<close>

datatype ('a, 'e) result = Ok 'a | Err 'e | Panic

definition rbind :: "('a, 'e) result \<Rightarrow> ('a \<Rightarrow> ('b, 'e) result) \<Rightarrow> ('b, 'e) result" where
  \<comment> \<open>the question mark operator: go on with the value, or return the error\<close>
  "rbind m f = (case m of Ok a \<Rightarrow> f a | Err e \<Rightarrow> Err e | Panic \<Rightarrow> Panic)"

definition map_err :: "('e \<Rightarrow> 'f) \<Rightarrow> ('a, 'e) result \<Rightarrow> ('a, 'f) result" where
  "map_err f m = (case m of Ok a \<Rightarrow> Ok a | Err e \<Rightarrow> Err (f e) | Panic \<Rightarrow> Panic)"

definition map_ok :: "('a \<Rightarrow> 'b) \<Rightarrow> ('a, 'e) result \<Rightarrow> ('b, 'e) result" where
  "map_ok f m = rbind m (\<lambda>a. Ok (f a))"

definition ok_or :: "'e \<Rightarrow> 'a option \<Rightarrow> ('a, 'e) result" where
  "ok_or e x = (case x of None \<Rightarrow> Err e | Some a \<Rightarrow> Ok a)"

definition to_option :: "('a, 'e) result \<Rightarrow> 'a option" where
  \<comment> \<open>\<^verbatim>\<open>Result::ok\<close>; used on functions that never panic only\<close>
  "to_option m = (case m of Ok a \<Rightarrow> Some a | _ \<Rightarrow> None)"

definition is_ok :: "('a, 'e) result \<Rightarrow> bool" where
  "is_ok m = (case m of Ok _ \<Rightarrow> True | _ \<Rightarrow> False)"

definition add_u64 :: "u64 \<Rightarrow> u64 \<Rightarrow> (u64, 'e) result" where
  \<comment> \<open>unsigned addition, which panics on overflow\<close>
  "add_u64 a b = (case checked_add a b of None \<Rightarrow> Panic | Some c \<Rightarrow> Ok c)"

definition mul_u32 :: "u32 \<Rightarrow> u32 \<Rightarrow> (u32, 'e) result" where
  "mul_u32 a b = (case checked_mul a b of None \<Rightarrow> Panic | Some c \<Rightarrow> Ok c)"

definition shl_u64 :: "u64 \<Rightarrow> u32 \<Rightarrow> (u64, 'e) result" where
  \<comment> \<open>a shift by the width or more panics\<close>
  "shl_u64 v n = (if n < 64 then Ok (push_bit (unat n) v) else Panic)"

definition index_rs :: "'a list \<Rightarrow> nat \<Rightarrow> ('a, 'e) result" where
  \<comment> \<open>\<^verbatim>\<open>xs[i]\<close>: out of range is a panic\<close>
  "index_rs xs i = (if i < length xs then Ok (xs ! i) else Panic)"

definition get_rs :: "'a list \<Rightarrow> nat \<Rightarrow> 'a option" where
  \<comment> \<open>\<^verbatim>\<open>xs.get(i)\<close>\<close>
  "get_rs xs i = (if i < length xs then Some (xs ! i) else None)"

lemma rbind_simps [simp]:
  "rbind (Ok a) f = f a" "rbind (Err e) f = Err e" "rbind Panic f = Panic"
  by (simp_all add: rbind_def)

lemma rbind_Ok [simp]: "rbind m f = Ok b \<longleftrightarrow> (\<exists>a. m = Ok a \<and> f a = Ok b)"
  by (cases m) auto

lemma rbind_Err: "rbind m f = Err e \<longleftrightarrow> m = Err e \<or> (\<exists>a. m = Ok a \<and> f a = Err e)"
  by (cases m) auto

lemma rbind_Panic: "rbind m f = Panic \<longleftrightarrow> m = Panic \<or> (\<exists>a. m = Ok a \<and> f a = Panic)"
  by (cases m) auto

lemma rbind_no_panic [no_panic]:
  "m \<noteq> Panic \<Longrightarrow> (\<And>a. m = Ok a \<Longrightarrow> f a \<noteq> Panic) \<Longrightarrow> rbind m f \<noteq> Panic"
  by (cases m) auto

lemma rbind_cong [fundef_cong]:
  "m = m' \<Longrightarrow> (\<And>a. m' = Ok a \<Longrightarrow> f a = f' a) \<Longrightarrow> rbind m f = rbind m' f'"
  by (cases m') auto

lemma rbind_assoc: "rbind (rbind m f) g = rbind m (\<lambda>a. rbind (f a) g)"
  by (cases m) auto

lemma map_err_simps [simp]:
  "map_err f (Ok a) = Ok a" "map_err f (Err e) = Err (f e)" "map_err f Panic = Panic"
  by (simp_all add: map_err_def)

lemma map_err_iff [simp]:
  "map_err f m = Ok a \<longleftrightarrow> m = Ok a" "map_err f m = Panic \<longleftrightarrow> m = Panic"
  "map_err f m = Err e \<longleftrightarrow> (\<exists>e'. m = Err e' \<and> e = f e')"
  by (cases m; auto)+

lemma map_ok_simps [simp]:
  "map_ok f (Ok a) = Ok (f a)" "map_ok f (Err e) = Err e" "map_ok f Panic = Panic"
  by (simp_all add: map_ok_def)

lemma map_ok_iff [simp]:
  "map_ok f m = Ok b \<longleftrightarrow> (\<exists>a. m = Ok a \<and> b = f a)" "map_ok f m = Panic \<longleftrightarrow> m = Panic"
  "map_ok f m = Err e \<longleftrightarrow> m = Err e"
  by (cases m; auto)+

lemma ok_or_simps [simp]: "ok_or e None = Err e" "ok_or e (Some a) = Ok a"
  by (simp_all add: ok_or_def)

lemma ok_or_iff [simp]:
  "ok_or e x = Ok a \<longleftrightarrow> x = Some a" "ok_or e x \<noteq> Panic" "ok_or e x = Err e' \<longleftrightarrow> x = None \<and> e' = e"
  by (cases x; auto)+

lemma to_option_simps [simp]:
  "to_option (Ok a) = Some a" "to_option (Err e) = None" "to_option Panic = None"
  by (simp_all add: to_option_def)

lemma to_option_Some [simp]: "to_option m = Some a \<longleftrightarrow> m = Ok a"
  by (cases m) auto

lemma is_ok_simps [simp]: "is_ok (Ok a)" "\<not> is_ok (Err e)" "\<not> is_ok Panic"
  by (simp_all add: is_ok_def)

lemma is_ok_iff: "is_ok m \<longleftrightarrow> (\<exists>a. m = Ok a)"
  by (cases m) auto

lemma index_rs_Ok [simp]: "index_rs xs i = Ok a \<longleftrightarrow> i < length xs \<and> a = xs ! i"
  by (auto simp: index_rs_def)

lemma index_rs_in [simp]: "i < length xs \<Longrightarrow> index_rs xs i = Ok (xs ! i)"
  by (simp add: index_rs_def)

lemma index_rs_Cons [simp]:
  "index_rs (x # xs) 0 = Ok x" "index_rs (x # xs) (Suc i) = index_rs xs i" "index_rs [] i = Panic"
  by (simp_all add: index_rs_def)

lemma index_rs_not_Err [simp]: "index_rs xs i \<noteq> Err e"
  by (simp add: index_rs_def)

lemma get_rs_in [simp]: "i < length xs \<Longrightarrow> get_rs xs i = Some (xs ! i)"
  by (simp add: get_rs_def)

lemma get_rs_Some [simp]: "get_rs xs i = Some a \<longleftrightarrow> i < length xs \<and> a = xs ! i"
  by (auto simp: get_rs_def)

section \<open>Loops\<close>

text \<open>
  \<^verbatim>\<open>for x in xs { ... }\<close> with a mutable state and early return: \<open>fold_res\<close>. With nothing but
  checks in the body: \<open>for_each\<close>. \<^verbatim>\<open>.map(f).collect::<Result<Vec<_>,_>>()\<close>: \<open>collect_res\<close>.
\<close>

fun fold_res :: "('s \<Rightarrow> 'x \<Rightarrow> ('s, 'e) result) \<Rightarrow> 's \<Rightarrow> 'x list \<Rightarrow> ('s, 'e) result" where
  "fold_res f s [] = Ok s"
| "fold_res f s (x # xs) = rbind (f s x) (\<lambda>t. fold_res f t xs)"

definition for_each :: "('x \<Rightarrow> (unit, 'e) result) \<Rightarrow> 'x list \<Rightarrow> (unit, 'e) result" where
  "for_each f xs = fold_res (\<lambda>_ x. f x) () xs"

fun collect_res :: "('x \<Rightarrow> ('y, 'e) result) \<Rightarrow> 'x list \<Rightarrow> ('y list, 'e) result" where
  "collect_res f [] = Ok []"
| "collect_res f (x # xs) = rbind (f x) (\<lambda>y. map_ok (\<lambda>ys. y # ys) (collect_res f xs))"

lemma fold_res_cong [fundef_cong]:
  "xs = ys \<Longrightarrow> s = t \<Longrightarrow> (\<And>u x. x \<in> set ys \<Longrightarrow> f u x = g u x) \<Longrightarrow> fold_res f s xs = fold_res g t ys"
proof (induction xs arbitrary: ys s t)
  case (Cons x xs)
  then show ?case by (cases "g t x") auto
qed auto

lemma for_each_cong [fundef_cong]:
  "xs = ys \<Longrightarrow> (\<And>x. x \<in> set ys \<Longrightarrow> f x = g x) \<Longrightarrow> for_each f xs = for_each g ys"
  unfolding for_each_def by (rule fold_res_cong) auto

lemma fold_res_append:
  "fold_res f s (xs @ ys) = rbind (fold_res f s xs) (\<lambda>t. fold_res f t ys)"
  by (induction xs arbitrary: s) (auto simp: rbind_assoc)

lemma fold_res_invariant:
  assumes "fold_res f s xs = Ok t" and "P s"
    and "\<And>s x s'. P s \<Longrightarrow> x \<in> set xs \<Longrightarrow> f s x = Ok s' \<Longrightarrow> P s'"
  shows "P t"
  using assms
proof (induction xs arbitrary: s)
  case (Cons x xs)
  from Cons.prems(1) obtain u where "f s x = Ok u" "fold_res f u xs = Ok t" by auto
  with Cons.prems Cons.IH [of u] show ?case by (metis list.set_intros)
qed simp

lemma fold_res_no_panic:
  assumes "P s" and "\<And>s x. P s \<Longrightarrow> x \<in> set xs \<Longrightarrow> f s x \<noteq> Panic"
    and "\<And>s x s'. P s \<Longrightarrow> x \<in> set xs \<Longrightarrow> f s x = Ok s' \<Longrightarrow> P s'"
  shows "fold_res f s xs \<noteq> Panic"
  using assms
proof (induction xs arbitrary: s)
  case (Cons x xs)
  show ?case
  proof (cases "f s x")
    case (Ok u)
    with Cons.prems have "P u" by (metis list.set_intros(1))
    with Cons Ok show ?thesis by (metis fold_res.simps(2) list.set_intros(2) rbind_simps(1))
  qed (use Cons.prems in auto)
qed simp

lemma for_each_simps [simp]:
  "for_each f [] = Ok ()" "for_each f (x # xs) = rbind (f x) (\<lambda>_. for_each f xs)"
  by (simp_all add: for_each_def)

lemma for_each_Ok [simp]: "for_each f xs = Ok u \<longleftrightarrow> (\<forall>x \<in> set xs. f x = Ok ())"
  by (induction xs) auto

lemma for_each_no_panic [no_panic]:
  "(\<And>x. x \<in> set xs \<Longrightarrow> f x \<noteq> Panic) \<Longrightarrow> for_each f xs \<noteq> Panic"
  unfolding for_each_def by (rule fold_res_no_panic [where P = "\<lambda>_. True"]) auto

lemma collect_res_Ok: "collect_res f xs = Ok ys \<longleftrightarrow> list_all2 (\<lambda>x y. f x = Ok y) xs ys"
  by (induction xs arbitrary: ys) (auto simp: list_all2_Cons1)

lemma collect_res_no_panic [no_panic]:
  "(\<And>x. x \<in> set xs \<Longrightarrow> f x \<noteq> Panic) \<Longrightarrow> collect_res f xs \<noteq> Panic"
  by (induction xs) (auto simp: rbind_Panic)

lemma collect_res_Err: "collect_res f xs = Err e \<Longrightarrow> \<exists>x \<in> set xs. f x = Err e"
  by (induction xs) (auto simp: rbind_Err)

lemma collect_res_length: "collect_res f xs = Ok ys \<Longrightarrow> length ys = length xs"
  by (auto simp: collect_res_Ok list_all2_lengthD)

text \<open>
  \<^verbatim>\<open>.map(|x| { ...; state.push(..); y }).collect()\<close>: a map whose closure also changes a captured
  variable, in the order of the list.
\<close>

fun map_accum :: "('s \<Rightarrow> 'x \<Rightarrow> 's \<times> 'y) \<Rightarrow> 's \<Rightarrow> 'x list \<Rightarrow> 's \<times> 'y list" where
  "map_accum f s [] = (s, [])"
| "map_accum f s (x # xs) =
     (let (t, y) = f s x; (u, ys) = map_accum f t xs in (u, y # ys))"

lemma map_accum_log:
  \<comment> \<open>a closure that only appends to a log\<close>
  assumes "\<And>s x. x \<in> set xs \<Longrightarrow> f s x = (s @ d x, g x)"
  shows "map_accum f s xs = (s @ concat (map d xs), map g xs)"
  using assms by (induction xs arbitrary: s) auto

lemma concat_map_concat: "concat (map g (concat (map h xs))) = concat (map (\<lambda>x. concat (map g (h x))) xs)"
  by (induction xs) auto

text \<open>
  \<^verbatim>\<open>loop { ... break v ... }\<close>: one iteration either goes on with a new state (\<open>Inl\<close>) or
  leaves the loop with a value (\<open>Inr\<close>). \<^const>\<open>None\<close> is the loop that never ends.
\<close>

partial_function (option) run_loop :: "('s \<Rightarrow> 's + 'r) \<Rightarrow> 's \<Rightarrow> 'r option" where
  "run_loop step s = (case step s of Inl s' \<Rightarrow> run_loop step s' | Inr r \<Rightarrow> Some r)"

definition try_step :: "('s \<Rightarrow> ('s + 'r, 'e) result) \<Rightarrow> 's \<Rightarrow> 's + ('r, 'e) result" where
  \<comment> \<open>an iteration that may fail: an error or a panic leaves the loop\<close>
  "try_step step s =
     (case step s of Ok (Inl s') \<Rightarrow> Inl s' | Ok (Inr r) \<Rightarrow> Inr (Ok r) | Err e \<Rightarrow> Inr (Err e) | Panic \<Rightarrow> Inr Panic)"

lemma try_step_simps [simp]:
  "try_step step s = Inl s' \<longleftrightarrow> step s = Ok (Inl s')" "try_step step s = Inr (Ok r) \<longleftrightarrow> step s = Ok (Inr r)"
  "try_step step s = Inr (Err e) \<longleftrightarrow> step s = Err e" "try_step step s = Inr Panic \<longleftrightarrow> step s = Panic"
  by (auto simp: try_step_def split: result.splits sum.splits)

lemma run_loop_unfold:
  "step s = Inr r \<Longrightarrow> run_loop step s = Some r" "step s = Inl s' \<Longrightarrow> run_loop step s = run_loop step s'"
  by (subst run_loop.simps, simp)+

text \<open>
  The interface of a loop that must stop: a step function, an invariant its iterations keep
  and a measure they decrease. Inside it: the loop returns, and what every exit establishes
  from the invariant holds of the result.
\<close>

locale bounded_loop =
  fixes step :: "'s \<Rightarrow> 's + 'r" and inv :: "'s \<Rightarrow> bool" and bound :: "'s \<Rightarrow> nat"
  assumes step_inv: "inv s \<Longrightarrow> step s = Inl s' \<Longrightarrow> inv s'"
    and step_bound: "inv s \<Longrightarrow> step s = Inl s' \<Longrightarrow> bound s' < bound s"
begin

lemma returns: "inv s \<Longrightarrow> \<exists>r. run_loop step s = Some r"
proof (induction "bound s" arbitrary: s rule: less_induct)
  case less
  show ?case
  proof (cases "step s")
    case (Inl s')
    with less show ?thesis by (simp add: run_loop_unfold step_inv step_bound)
  next
    case (Inr r)
    then show ?thesis by (simp add: run_loop_unfold)
  qed
qed

lemma exit_state: "inv s \<Longrightarrow> run_loop step s = Some r \<Longrightarrow> \<exists>t. inv t \<and> step t = Inr r"
proof (induction "bound s" arbitrary: s rule: less_induct)
  case less
  show ?case
  proof (cases "step s")
    case (Inl s')
    with less show ?thesis by (metis run_loop_unfold(2) step_inv step_bound)
  next
    case (Inr r')
    with less show ?thesis by (auto simp: run_loop_unfold)
  qed
qed

lemma run_induct [consumes 2, case_names leave again]:
  assumes "inv s" and "run_loop step s = Some r"
    and leave: "\<And>s. inv s \<Longrightarrow> step s = Inr r \<Longrightarrow> P s"
    and again: "\<And>s s'. inv s \<Longrightarrow> step s = Inl s' \<Longrightarrow> inv s' \<Longrightarrow> P s' \<Longrightarrow> P s"
  shows "P s"
  using assms(1,2)
proof (induction "bound s" arbitrary: s rule: less_induct)
  case less
  show ?case
  proof (cases "step s")
    case (Inl s')
    with less.prems have "inv s'" "bound s' < bound s" "run_loop step s' = Some r"
      by (simp_all add: step_inv step_bound run_loop_unfold)
    with less.hyps less.prems Inl show ?thesis by (blast intro: again)
  next
    case (Inr r')
    with less.prems show ?thesis by (auto simp: run_loop_unfold intro: leave)
  qed
qed

end

end
