(* ===== verification/Hydir_Text.thy ===== *)
theory Hydir_Text
  imports Hydir_Prelude
begin

text \<open>
  Rust strings as lists of UTF-8 bytes (so \<^const>\<open>length\<close> is \<^verbatim>\<open>str::len\<close>), with the parts
  of the standard library the P-code crates use: control-character tests, prefixes, parsing and
  printing of hexadecimal numbers. On top of them the two checks of \<^verbatim>\<open>pcode.rs\<close> that every
  other component calls, \<^verbatim>\<open>bounded_text\<close> and \<^verbatim>\<open>hex_u64\<close>, and the round trip between
  \<^verbatim>\<open>format!("0x{value:x}")\<close> and its parsers.
\<close>

section \<open>Strings of the standard library\<close>

fun has_control :: "string \<Rightarrow> bool" where
  \<comment> \<open>\<^verbatim>\<open>value.chars().any(char::is_control)\<close>: U+0000..U+001F, U+007F and U+0080..U+009F, the
    last range being the byte pairs C2 80 .. C2 9F\<close>
  "has_control [] = False"
| "has_control (c # cs) =
     ((of_char c :: nat) < 32 \<or> (of_char c :: nat) = 127 \<or>
      ((of_char c :: nat) = 194 \<and>
       (case cs of [] \<Rightarrow> False | d # _ \<Rightarrow> (128 :: nat) \<le> of_char d \<and> (of_char d :: nat) \<le> 159)) \<or>
      has_control cs)"

definition strip_prefix :: "string \<Rightarrow> string \<Rightarrow> string option" where
  "strip_prefix p s = (if take (length p) s = p then Some (drop (length p) s) else None)"

definition starts_with :: "string \<Rightarrow> string \<Rightarrow> bool" where
  "starts_with p s = (take (length p) s = p)"

definition hex_digit_value :: "char \<Rightarrow> nat option" where
  "hex_digit_value c =
     (let n = of_char c :: nat in
      if 48 \<le> n \<and> n \<le> 57 then Some (n - 48)
      else if 97 \<le> n \<and> n \<le> 102 then Some (n - 87)
      else if 65 \<le> n \<and> n \<le> 70 then Some (n - 55)
      else None)"

definition is_ascii_hexdigit :: "char \<Rightarrow> bool" where
  "is_ascii_hexdigit c = (hex_digit_value c \<noteq> None)"

definition is_ascii_uppercase :: "char \<Rightarrow> bool" where
  "is_ascii_uppercase c = ((65 :: nat) \<le> of_char c \<and> (of_char c :: nat) \<le> 90)"

definition lower_hex :: "char \<Rightarrow> bool" where
  "lower_hex c = (is_ascii_hexdigit c \<and> \<not> is_ascii_uppercase c)"

definition hex_value :: "string \<Rightarrow> nat" where
  "hex_value ds = fold (\<lambda>c n. 16 * n + (case hex_digit_value c of Some d \<Rightarrow> d | None \<Rightarrow> 0)) ds 0"

definition from_str_radix16 :: "string \<Rightarrow> 'w::len word option" where
  \<comment> \<open>\<^verbatim>\<open>uN::from_str_radix(s, 16)\<close>: an optional leading plus sign, then digits of either case\<close>
  "from_str_radix16 s =
     (let ds = (if s \<noteq> [] \<and> hd s = CHR ''+'' then tl s else s) in
      if ds = [] \<or> \<not> list_all is_ascii_hexdigit ds then None
      else if hex_value ds < 2 ^ LENGTH('w) then Some (word_of_nat (hex_value ds))
      else None)"

definition hex_digit :: "nat \<Rightarrow> char" where
  "hex_digit d = (if d < 10 then char_of (48 + d) else char_of (87 + d))"

fun hex_digits :: "nat \<Rightarrow> string" where
  "hex_digits n = (if n < 16 then [hex_digit n] else hex_digits (n div 16) @ [hex_digit (n mod 16)])"

declare hex_digits.simps [simp del]

definition fmt_hex :: "'w::len word \<Rightarrow> string" where
  \<comment> \<open>\<^verbatim>\<open>format!("0x{value:x}")\<close>\<close>
  "fmt_hex v = ''0x'' @ hex_digits (unat v)"

fun fmt_dec :: "nat \<Rightarrow> string" where
  "fmt_dec n = (if n < 10 then [char_of (48 + n)] else fmt_dec (n div 10) @ [char_of (48 + n mod 10)])"

declare fmt_dec.simps [simp del]

section \<open>\<^verbatim>\<open>bounded_text\<close>, \<^verbatim>\<open>hex_u64\<close>, \<^verbatim>\<open>validate_digest\<close> and \<^verbatim>\<open>parse_trace_value\<close>\<close>

definition text_ok :: "nat \<Rightarrow> string \<Rightarrow> bool" where
  "text_ok limit value = (\<not> (value = [] \<or> length value > limit \<or> has_control value))"

definition bounded_text :: "string \<Rightarrow> string \<Rightarrow> usize \<Rightarrow> (unit, string) result" where
  "bounded_text value label limit =
     (if value = [] \<or> length value > limit \<or> has_control value
      then Err (label @ '' must be nonempty, printable, and at most '' @ fmt_dec limit @ '' bytes'')
      else Ok ())"

definition hex_u64 :: "string \<Rightarrow> (u64, string) result" where
  "hex_u64 value =
     rbind (ok_or ''expected lowercase 0x-prefixed offset'' (strip_prefix ''0x'' value)) (\<lambda>digits.
       if digits = [] \<or> length digits > 16 \<or> \<not> list_all lower_hex digits
       then Err ''invalid lowercase hexadecimal offset''
       else ok_or ''invalid offset'' (from_str_radix16 digits))"

definition validate_digest :: "string \<Rightarrow> (unit, string) result" where
  "validate_digest value =
     (if length value \<noteq> 64 \<or> \<not> list_all lower_hex value
      then Err ''binary_sha256 must be 64 lowercase hex characters''
      else Ok ())"

definition parse_trace_value :: "string \<Rightarrow> (u128, string) result" where
  "parse_trace_value value =
     rbind (ok_or ''trace value requires 0x prefix'' (strip_prefix ''0x'' value)) (\<lambda>digits.
       if digits = [] \<or> length digits > 32 \<or> (starts_with ''0'' digits \<and> length digits > 1)
       then Err ''trace value has invalid hexadecimal width''
       else ok_or ''trace value is invalid hexadecimal'' (from_str_radix16 digits))"

section \<open>Lemmas\<close>

lemma bounded_text_Ok [simp]: "bounded_text v l m = Ok u \<longleftrightarrow> text_ok m v"
  by (simp add: bounded_text_def text_ok_def)

lemma bounded_text_not_Panic [simp, no_panic]: "bounded_text v l m \<noteq> Panic"
  by (simp add: bounded_text_def)

lemma hex_u64_not_Panic [simp, no_panic]: "hex_u64 v \<noteq> Panic"
  by (auto simp: hex_u64_def rbind_Panic split: if_splits)

lemma validate_digest_not_Panic [simp, no_panic]: "validate_digest v \<noteq> Panic"
  by (simp add: validate_digest_def)

lemma strip_prefix_append [simp]: "strip_prefix p (p @ s) = Some s"
  by (simp add: strip_prefix_def)

lemma strip_prefix_Some: "strip_prefix p s = Some t \<longleftrightarrow> s = p @ t"
  by (auto simp: strip_prefix_def) (metis append_take_drop_id)

lemma hex_digit_value_hex_digit: "d < 16 \<Longrightarrow> hex_digit_value (hex_digit d) = Some d"
  by (auto simp: hex_digit_def hex_digit_value_def Let_def)

lemma lower_hex_hex_digit: "d < 16 \<Longrightarrow> lower_hex (hex_digit d)"
  by (simp add: lower_hex_def is_ascii_hexdigit_def hex_digit_value_hex_digit is_ascii_uppercase_def)
    (simp add: hex_digit_def)

lemma hex_value_snoc:
  "hex_value (ds @ [c]) = 16 * hex_value ds + (case hex_digit_value c of Some d \<Rightarrow> d | None \<Rightarrow> 0)"
  by (simp add: hex_value_def)

lemma hex_digits_value [simp]: "hex_value (hex_digits n) = n"
proof (induction n rule: hex_digits.induct)
  case (1 n)
  show ?case
  proof (cases "n < 16")
    case True
    then show ?thesis
      by (simp add: hex_digits.simps [of n] hex_value_def hex_digit_value_hex_digit)
  next
    case False
    with "1" show ?thesis
      by (simp add: hex_digits.simps [of n] hex_value_snoc hex_digit_value_hex_digit)
  qed
qed

lemma hex_digits_lower: "list_all lower_hex (hex_digits n)"
proof (induction n rule: hex_digits.induct)
  case (1 n)
  then show ?case
    by (cases "n < 16") (simp_all add: hex_digits.simps [of n] lower_hex_hex_digit)
qed

lemma hex_digits_nonempty [simp]: "hex_digits n \<noteq> []"
  by (subst hex_digits.simps) simp

lemma hex_digits_length: "0 < k \<Longrightarrow> n < 16 ^ k \<Longrightarrow> length (hex_digits n) \<le> k"
proof (induction k arbitrary: n)
  case (Suc k)
  show ?case
  proof (cases "n < 16")
    case True
    then show ?thesis by (simp add: hex_digits.simps [of n])
  next
    case False
    with Suc.prems have "0 < k" by (cases k) auto
    moreover have "n div 16 < 16 ^ k" using Suc.prems by (simp add: less_mult_imp_div_less mult.commute)
    ultimately have "length (hex_digits (n div 16)) \<le> k" by (rule Suc.IH)
    with False show ?thesis by (simp add: hex_digits.simps [of n])
  qed
qed simp

lemma hex_digits_hd: "0 < n \<Longrightarrow> \<exists>d. 0 < d \<and> d < 16 \<and> hd (hex_digits n) = hex_digit d"
proof (induction n rule: hex_digits.induct)
  case (1 n)
  then show ?case
    by (cases "n < 16") (auto simp: hex_digits.simps [of n] hd_append)
qed

lemma hex_digit_neq_zero: "0 < d \<Longrightarrow> d < 16 \<Longrightarrow> hex_digit d \<noteq> CHR ''0''"
  using hex_digit_value_hex_digit [of d] by (auto simp: hex_digit_value_def)

lemma lower_hex_digit: "lower_hex c \<Longrightarrow> is_ascii_hexdigit c"
  by (simp add: lower_hex_def)

lemma plus_not_hex [simp]: "\<not> is_ascii_hexdigit (CHR ''+'')"
  by (simp add: is_ascii_hexdigit_def hex_digit_value_def)

lemma from_str_radix16_digits:
  assumes "ds \<noteq> []" and "list_all is_ascii_hexdigit ds" and "hex_value ds < 2 ^ LENGTH('w)"
  shows "from_str_radix16 ds = Some (word_of_nat (hex_value ds) :: 'w::len word)"
proof -
  from assms have "hd ds \<noteq> CHR ''+''" by (cases ds) auto
  with assms show ?thesis by (simp add: from_str_radix16_def)
qed

lemma hex_digits_ascii: "list_all is_ascii_hexdigit (hex_digits n)"
  using hex_digits_lower by (auto simp: list_all_iff lower_hex_digit)

lemma from_str_radix16_fmt:
  "from_str_radix16 (hex_digits (unat v)) = Some (v :: 'w::len word)"
  by (subst from_str_radix16_digits) (simp_all add: hex_digits_ascii)

lemma hex_u64_fmt: "hex_u64 (fmt_hex v) = Ok v"
proof -
  have "length (hex_digits (unat v)) \<le> 16"
    using unsigned_less [of v, where ?'a = nat] by (intro hex_digits_length) simp_all
  then show ?thesis
    by (simp add: hex_u64_def fmt_hex_def strip_prefix_def hex_digits_lower from_str_radix16_fmt)
qed

lemma parse_trace_value_fmt: "parse_trace_value (fmt_hex v) = Ok v"
proof -
  have len: "length (hex_digits (unat v)) \<le> 32"
    using unsigned_less [of v, where ?'a = nat] by (intro hex_digits_length) simp_all
  have zero: "\<not> (starts_with ''0'' (hex_digits (unat v)) \<and> length (hex_digits (unat v)) > 1)"
  proof (cases "unat v = 0")
    case True
    then show ?thesis by (simp add: hex_digits.simps)
  next
    case False
    then obtain d where d: "0 < d" "d < 16" "hd (hex_digits (unat v)) = hex_digit d"
      using hex_digits_hd by blast
    then have "hd (hex_digits (unat v)) \<noteq> CHR ''0''" by (simp add: hex_digit_neq_zero)
    then show ?thesis by (cases "hex_digits (unat v)") (auto simp: starts_with_def)
  qed
  from len zero show ?thesis
    by (simp add: parse_trace_value_def fmt_hex_def strip_prefix_def from_str_radix16_fmt)
qed

lemma hex_u64_Ok:
  "hex_u64 s = Ok v \<Longrightarrow> \<exists>ds. s = ''0x'' @ ds \<and> ds \<noteq> [] \<and> length ds \<le> 16 \<and> list_all lower_hex ds"
  by (auto simp: hex_u64_def strip_prefix_Some split: if_splits)

end
