(* ===== verification/Pcode_Model.thy ===== *)
theory Pcode_Model
  imports Hydir_Text
begin

text \<open>
  The data model of \<^verbatim>\<open>hydir-ir/src/pcode.rs\<close>: raw P-code operations and varnodes, the Ghidra
  snapshot with its evidence records, and the imported function IR. A record stands for a Rust
  struct, a datatype for an enum; field names carry a two-letter prefix for their struct, because
  record selectors are global. \<^verbatim>\<open>GhidraDataTypeEvidence\<close> and \<^verbatim>\<open>GhidraFieldEvidence\<close>
  are mutually recursive and therefore datatypes with selectors.
\<close>

section \<open>Limits\<close>

definition GHIDRA_SNAPSHOT_VERSION :: u32 where "GHIDRA_SNAPSHOT_VERSION = 2"
definition PCODE_IR_VERSION :: u32 where "PCODE_IR_VERSION = 1"
definition MAX_GHIDRA_SNAPSHOT_BYTES :: usize where "MAX_GHIDRA_SNAPSHOT_BYTES = 16 * 1024 * 1024"
definition MAX_FUNCTIONS :: usize where "MAX_FUNCTIONS = 65536"
definition MAX_MEMORY_BLOCKS :: usize where "MAX_MEMORY_BLOCKS = 4096"
definition MAX_SYMBOLS :: usize where "MAX_SYMBOLS = 65536"
definition MAX_PROTOTYPE_PARAMETERS :: usize where "MAX_PROTOTYPE_PARAMETERS = 256"
definition MAX_PROTOTYPE_TYPE_DEPTH :: usize where "MAX_PROTOTYPE_TYPE_DEPTH = 4"
definition MAX_PROTOTYPE_FIELDS :: usize where "MAX_PROTOTYPE_FIELDS = 128"
definition MAX_INSTRUCTIONS :: usize where "MAX_INSTRUCTIONS = 16384"
definition MAX_OPERATIONS :: usize where "MAX_OPERATIONS = 262144"
definition MAX_HIGH_PCODE_OPERATIONS :: usize where "MAX_HIGH_PCODE_OPERATIONS = 16384"

section \<open>Raw P-code\<close>

record pcode_address =
  pa_space :: string
  pa_offset :: string

record pcode_varnode =
  vn_space :: string
  vn_offset :: string
  vn_size :: u32

record pcode_operation =
  op_mnemonic :: string
  op_opcode :: u32
  op_sequence_index :: u32
  op_sequence_time :: i32
  op_source_address :: pcode_address
  op_userop_name :: "string option"
  op_output :: "pcode_varnode option"
  op_inputs :: "pcode_varnode list"

record pcode_instruction =
  in_address :: pcode_address
  in_bytes :: string
  in_parsed_bytes :: string
  in_mnemonic :: string
  in_pcode :: "pcode_operation list"

section \<open>The Ghidra snapshot\<close>

record ghidra_program =
  pr_name :: string
  pr_ghidra_version :: string
  pr_language_id :: string
  pr_compiler_spec_id :: string
  pr_image_base :: pcode_address

record ghidra_address_space =
  as_name :: string
  as_id :: i32
  as_space_type :: i32
  as_addressable_unit_size :: u32
  as_pointer_size :: u32

datatype ghidra_data_type_kind =
  DTPrimitive | DTPointer | DTArray | DTStruct | DTUnion | DTEnum | DTTypedef | DTUnknown

datatype ghidra_data_type =
  DataType (dt_display_name: string) (dt_path: string) (dt_size_bytes: "u32 option")
    (dt_kind: ghidra_data_type_kind) (dt_target_type: "ghidra_data_type option")
    (dt_element_count: "u32 option") (dt_detail_truncated: bool) (dt_fields: "ghidra_field list")
and ghidra_field =
  Field (fd_offset_bytes: u32) (fd_size_bytes: u32) (fd_name: "string option")
    (fd_data_type: ghidra_data_type)

record ghidra_parameter =
  pm_name :: string
  pm_data_type :: ghidra_data_type
  pm_source_type :: string
  pm_auto_parameter :: bool

record ghidra_prototype =
  pt_signature_source :: string
  pt_calling_convention :: "string option"
  pt_has_varargs :: bool
  pt_return_type :: ghidra_data_type
  pt_return_source :: string
  pt_parameters :: "ghidra_parameter list"

record ghidra_function_entry =
  fe_entry :: pcode_address
  fe_name :: string
  fe_size :: u64
  fe_prototype :: "ghidra_prototype option"

record ghidra_memory_block =
  mb_name :: string
  mb_start :: pcode_address
  mb_end :: pcode_address
  mb_size :: u64
  mb_read :: bool
  mb_write :: bool
  mb_execute :: bool
  mb_initialized :: bool
  mb_loaded :: bool
  mb_overlay :: bool
  mb_block_type :: string

record ghidra_symbol =
  sy_address :: pcode_address
  sy_name :: string
  sy_namespace :: string
  sy_symbol_type :: string
  sy_source_type :: string
  sy_primary :: bool
  sy_external :: bool

record ghidra_register_layout =
  rl_name :: string
  rl_storage :: pcode_address
  rl_size_bytes :: u32

datatype ghidra_flow_kind = Fallthrough | Branch | Call | Other

record ghidra_flow_edge =
  fl_source :: pcode_address
  fl_target :: "pcode_address option"
  fl_kind :: ghidra_flow_kind
  fl_conditional :: bool
  fl_computed :: bool

record ghidra_call_target =
  ct_call_site :: pcode_address
  ct_target :: "pcode_address option"
  ct_conditional :: bool
  ct_computed :: bool

record ghidra_high_varnode =
  hv_varnode :: pcode_varnode
  hv_ssa_id :: i32
  hv_is_input :: bool
  hv_high_name :: "string option"
  hv_high_type :: "ghidra_data_type option"

record ghidra_high_operation =
  ho_index :: u32
  ho_mnemonic :: string
  ho_opcode :: u32
  ho_sequence_time :: i32
  ho_source_address :: pcode_address
  ho_is_dead :: bool
  ho_output :: "ghidra_high_varnode option"
  ho_inputs :: "ghidra_high_varnode list"

datatype ghidra_high_status = HighComplete | HighUnavailable | HighOmittedLimit

record ghidra_high_pcode =
  hp_source :: string
  hp_simplification_style :: string
  hp_status :: ghidra_high_status
  hp_detail :: string
  hp_operations :: "ghidra_high_operation list"

record ghidra_selected_function =
  sf_entry :: pcode_address
  sf_instructions :: "pcode_instruction list"
  sf_flow_edges :: "ghidra_flow_edge list"
  sf_call_targets :: "ghidra_call_target list"
  sf_high_pcode :: "ghidra_high_pcode option"

record ghidra_snapshot =
  gs_schema_version :: u32
  gs_source :: string
  gs_flow_overrides_applied :: bool
  gs_binary_sha256 :: string
  gs_program :: ghidra_program
  gs_address_spaces :: "ghidra_address_space list"
  gs_register_layout :: "ghidra_register_layout list"
  gs_memory_blocks :: "ghidra_memory_block list"
  gs_symbols :: "ghidra_symbol list"
  gs_functions :: "ghidra_function_entry list"
  gs_selected_function :: ghidra_selected_function

section \<open>The imported function\<close>

datatype semantic_fidelity = Unknown | Conservative | ExactUnderModel
datatype verification_status = NotRun | StaticallyValidated | DifferentiallyTested

record pcode_function_ir =
  fi_schema_version :: u32
  fi_binary_sha256 :: string
  fi_source :: string
  fi_flow_overrides_applied :: bool
  fi_ghidra_version :: string
  fi_language_id :: string
  fi_compiler_spec_id :: string
  fi_address_spaces :: "ghidra_address_space list"
  fi_entry :: pcode_address
  fi_name :: string
  fi_instructions :: "pcode_instruction list"
  fi_semantic_fidelity :: semantic_fidelity
  fi_verification :: verification_status

end
