(* ===== verification/Pcode_Validate.thy ===== *)
theory Pcode_Validate
  imports Pcode_Model
begin

text \<open>
  The import boundary of \<^verbatim>\<open>hydir-ir/src/pcode.rs\<close>: \<^verbatim>\<open>validate_ghidra_snapshot\<close> with the
  checks it is made of, in the order the code makes them, and \<^verbatim>\<open>pcode_function_ir\<close>. A loop of
  the code that keeps a previous element or a set of seen keys is a \<^const>\<open>fold_res\<close> over that
  state. The lemmas say what acceptance means for later components: strictly sorted instruction
  addresses, parseable offsets, known address spaces, flow and call evidence anchored at selected
  instructions; and that validation itself never panics.
\<close>

section \<open>Types, prototypes and varnodes\<close>

definition validate_ghidra_source :: "string \<Rightarrow> string \<Rightarrow> (unit, string) result" where
  "validate_ghidra_source value label =
     (if value \<notin> {''DEFAULT'', ''ANALYSIS'', ''AI'', ''IMPORTED'', ''USER_DEFINED''}
      then Err (label @ '' is not a recognized Ghidra source type'')
      else Ok ())"

definition data_type_shape :: "ghidra_data_type \<Rightarrow> (unit, string) result" where
  \<comment> \<open>the checks of \<^verbatim>\<open>validate_ghidra_data_type\<close> on one node, before it recurses\<close>
  "data_type_shape dt =
     rbind (bounded_text (dt_display_name dt) ''Ghidra type display name'' 4096) (\<lambda>_.
     rbind (bounded_text (dt_path dt) ''Ghidra type path'' 4096) (\<lambda>_.
     if (case dt_size_bytes dt of None \<Rightarrow> False | Some n \<Rightarrow> n > 2147483647)
       then Err ''Ghidra type size exceeds the supported limit''
     else if dt_kind dt = DTArray \<and> dt_element_count dt = None
       then Err ''Ghidra array type requires an element count''
     else if dt_kind dt \<noteq> DTArray \<and> dt_element_count dt \<noteq> None
       then Err ''Ghidra element count requires an array type''
     else if dt_target_type dt \<noteq> None \<and> dt_kind dt \<notin> {DTPointer, DTArray, DTTypedef}
       then Err ''Ghidra type target requires pointer, array, or typedef''
     else if dt_fields dt \<noteq> [] \<and> dt_kind dt \<notin> {DTStruct, DTUnion}
       then Err ''Ghidra type fields require a struct or union''
     else if length (dt_fields dt) > MAX_PROTOTYPE_FIELDS
       then Err ''Ghidra composite exceeds field limit''
     else if dt_detail_truncated dt \<and> dt_target_type dt \<noteq> None
       then Err ''Ghidra truncated type cannot contain a target''
     else if dt_detail_truncated dt \<and>
        dt_kind dt \<notin> {DTPointer, DTArray, DTTypedef, DTStruct, DTUnion}
       then Err ''Ghidra truncated type requires pointer, array, or typedef''
     else Ok ()))"

definition field_layout_bad :: "ghidra_data_type \<Rightarrow> u32 \<Rightarrow> ghidra_field \<Rightarrow> bool" where
  "field_layout_bad dt previous_offset f =
     (fd_offset_bytes f < previous_offset \<or>
      (case fd_name f of None \<Rightarrow> False
        | Some name \<Rightarrow> \<not> is_ok (bounded_text name ''Ghidra field name'' 4096)) \<or>
      (case dt_size_bytes dt of None \<Rightarrow> False
        | Some width \<Rightarrow>
            (case checked_add (fd_offset_bytes f) (fd_size_bytes f) of None \<Rightarrow> True
              | Some stop \<Rightarrow> stop > width)))"

function validate_ghidra_data_type :: "ghidra_data_type \<Rightarrow> usize \<Rightarrow> (unit, string) result" where
  "validate_ghidra_data_type dt depth =
     (if depth \<ge> MAX_PROTOTYPE_TYPE_DEPTH then Err ''Ghidra prototype type exceeds nesting limit''
      else
        rbind (data_type_shape dt) (\<lambda>_.
        rbind (case dt_target_type dt of None \<Rightarrow> Ok ()
                | Some target \<Rightarrow> validate_ghidra_data_type target (depth + 1)) (\<lambda>_.
        map_ok (\<lambda>_. ())
          (fold_res
            (\<lambda>previous_offset f.
               if field_layout_bad dt previous_offset f
               then Err ''invalid Ghidra composite field layout evidence''
               else map_ok (\<lambda>_. fd_offset_bytes f)
                      (validate_ghidra_data_type (fd_data_type f) (depth + 1)))
            0 (dt_fields dt)))))"
  by pat_completeness auto
termination
  by (relation "measure (\<lambda>(_, depth). MAX_PROTOTYPE_TYPE_DEPTH - depth)") auto

declare validate_ghidra_data_type.simps [simp del]

definition validate_ghidra_prototype :: "ghidra_prototype \<Rightarrow> (unit, string) result" where
  "validate_ghidra_prototype p =
     rbind (validate_ghidra_source (pt_signature_source p) ''signature source'') (\<lambda>_.
     rbind (validate_ghidra_source (pt_return_source p) ''return source'') (\<lambda>_.
     rbind (case pt_calling_convention p of None \<Rightarrow> Ok ()
             | Some name \<Rightarrow> bounded_text name ''Ghidra calling convention'' 256) (\<lambda>_.
     rbind (validate_ghidra_data_type (pt_return_type p) 0) (\<lambda>_.
     if length (pt_parameters p) > MAX_PROTOTYPE_PARAMETERS
     then Err ''Ghidra prototype exceeds parameter limit 256''
     else for_each (\<lambda>q.
       rbind (bounded_text (pm_name q) ''Ghidra parameter name'' 4096) (\<lambda>_.
       rbind (validate_ghidra_data_type (pm_data_type q) 0) (\<lambda>_.
       validate_ghidra_source (pm_source_type q) ''parameter source''))) (pt_parameters p)))))"

definition address_offset :: "pcode_address \<Rightarrow> (u64, string) result" where
  \<comment> \<open>\<^verbatim>\<open>fn offset\<close>\<close>
  "address_offset a =
     rbind (bounded_text (pa_space a) ''P-code address space'' 128) (\<lambda>_. hex_u64 (pa_offset a))"

definition validate_varnode :: "pcode_varnode \<Rightarrow> (unit, string) result" where
  "validate_varnode v =
     rbind (bounded_text (vn_space v) ''P-code varnode space'' 128) (\<lambda>_.
     rbind (hex_u64 (vn_offset v)) (\<lambda>_.
     if \<not> (1 \<le> vn_size v \<and> vn_size v \<le> 4096)
     then Err ''P-code varnode size must be 1..=4096 bytes''
     else Ok ()))"

section \<open>High P-code evidence\<close>

definition validate_high_varnode :: "string set \<Rightarrow> ghidra_high_varnode \<Rightarrow> (unit, string) result" where
  "validate_high_varnode space_names node =
     rbind (validate_varnode (hv_varnode node)) (\<lambda>_.
     if vn_space (hv_varnode node) \<notin> space_names \<and> vn_space (hv_varnode node) \<noteq> ''VARIABLE''
     then Err ''high P-code varnode references an unknown address space''
     else
       rbind (case hv_high_name node of None \<Rightarrow> Ok ()
               | Some name \<Rightarrow> bounded_text name ''high P-code variable name'' 4096) (\<lambda>_.
       case hv_high_type node of None \<Rightarrow> Ok ()
        | Some dt \<Rightarrow> validate_ghidra_data_type dt 0))"

definition validate_high_operation ::
  "string set \<Rightarrow> nat \<Rightarrow> ghidra_high_operation \<Rightarrow> (unit, string) result" where
  "validate_high_operation space_names index opn =
     (if unat (ho_index opn) \<noteq> index
      then Err ''high P-code operation indices must be contiguous''
      else
        rbind (bounded_text (ho_mnemonic opn) ''high P-code mnemonic'' 128) (\<lambda>_.
        if ho_opcode opn > 65535 \<or> length (ho_inputs opn) > 256
          then Err ''high P-code opcode or input count exceeds limit''
        else if sint (ho_sequence_time opn) < 0
          then Err ''high P-code sequence time must be nonnegative''
        else
          rbind (address_offset (ho_source_address opn)) (\<lambda>_.
          if pa_space (ho_source_address opn) \<notin> space_names
          then Err ''high P-code source references an unknown address space''
          else
            rbind (case ho_output opn of None \<Rightarrow> Ok ()
                    | Some v \<Rightarrow> validate_high_varnode space_names v) (\<lambda>_.
            for_each (validate_high_varnode space_names) (ho_inputs opn)))))"

definition validate_high_pcode :: "ghidra_high_pcode \<Rightarrow> string set \<Rightarrow> (unit, string) result" where
  "validate_high_pcode ev space_names =
     (if hp_source ev \<noteq> ''ghidra_decompiler'' \<or> hp_simplification_style ev \<noteq> ''decompile''
      then Err ''high P-code must identify Ghidra decompiler analysis''
      else
        rbind (if hp_status ev = HighComplete \<and> hp_detail ev \<noteq> []
                 then Err ''complete high P-code cannot have a failure detail''
               else if hp_status ev = HighComplete then Ok ()
               else if hp_operations ev \<noteq> []
                 then Err ''incomplete high P-code cannot contain operations''
               else bounded_text (hp_detail ev) ''high P-code failure detail'' 4096) (\<lambda>_.
        if length (hp_operations ev) > MAX_HIGH_PCODE_OPERATIONS
        then Err ''high P-code exceeds operation limit''
        else for_each (\<lambda>(index, opn). validate_high_operation space_names index opn)
               (List.enumerate 0 (hp_operations ev))))"

section \<open>The parts of \<^verbatim>\<open>validate_ghidra_snapshot\<close>\<close>

type_synonym address_key = "string \<times> u64"
type_synonym flow_key = "address_key \<times> address_key option \<times> ghidra_flow_kind \<times> bool \<times> bool"
type_synonym call_key = "address_key \<times> address_key option \<times> bool \<times> bool"

definition validate_header :: "ghidra_snapshot \<Rightarrow> string \<Rightarrow> (unit, string) result" where
  "validate_header s binary_sha256 =
     (if gs_schema_version s \<noteq> GHIDRA_SNAPSHOT_VERSION \<or> gs_source s \<noteq> ''ghidra''
        then Err ''unsupported Ghidra snapshot schema or source''
      else if \<not> gs_flow_overrides_applied s
        then Err ''Ghidra snapshot must record applied flow overrides''
      else
        rbind (validate_digest binary_sha256) (\<lambda>_.
        rbind (validate_digest (gs_binary_sha256 s)) (\<lambda>_.
        if gs_binary_sha256 s \<noteq> binary_sha256
        then Err ''Ghidra snapshot binary digest does not match supplied binary''
        else
          rbind (bounded_text (pr_name (gs_program s)) ''program name'' 4096) (\<lambda>_.
          rbind (bounded_text (pr_ghidra_version (gs_program s)) ''Ghidra version'' 128) (\<lambda>_.
          rbind (bounded_text (pr_language_id (gs_program s)) ''Ghidra language ID'' 256) (\<lambda>_.
          rbind (bounded_text (pr_compiler_spec_id (gs_program s)) ''Ghidra compiler spec ID'' 256) (\<lambda>_.
          rbind (address_offset (pr_image_base (gs_program s))) (\<lambda>_.
          if gs_address_spaces s = [] \<or> length (gs_address_spaces s) > 256
          then Err ''Ghidra snapshot must have 1..=256 address spaces''
          else Ok ()))))))))"

definition validate_space ::
  "string set \<times> i32 set \<Rightarrow> ghidra_address_space \<Rightarrow> (string set \<times> i32 set, string) result" where
  "validate_space st sp =
     (let (space_names, space_ids) = st in
      rbind (bounded_text (as_name sp) ''Ghidra address space name'' 128) (\<lambda>_.
      if as_name sp \<in> space_names \<or> as_id sp \<in> space_ids
        then Err ''duplicate Ghidra address space name or ID''
      else if as_addressable_unit_size sp = 0 \<or> as_addressable_unit_size sp > 4096 \<or>
          as_pointer_size sp > 64
        then Err ''Ghidra address space unit or pointer size exceeds limit''
      else Ok (insert (as_name sp) space_names, insert (as_id sp) space_ids)))"

definition validate_register ::
  "string set \<Rightarrow> string option \<Rightarrow> ghidra_register_layout \<Rightarrow> (string option, string) result" where
  "validate_register space_names previous r =
     rbind (bounded_text (rl_name r) ''Ghidra register name'' 128) (\<lambda>_.
     rbind (address_offset (rl_storage r)) (\<lambda>address.
     if pa_space (rl_storage r) \<noteq> ''register'' \<or> ''register'' \<notin> space_names \<or>
        \<not> (1 \<le> rl_size_bytes r \<and> rl_size_bytes r \<le> 8) \<or>
        checked_add address (ucast (rl_size_bytes r)) = None
       then Err ''Ghidra register layout has invalid storage or width''
     else if (case previous of None \<Rightarrow> False | Some prior \<Rightarrow> prior \<ge> rl_name r)
       then Err ''Ghidra register layout must be strictly name sorted''
     else Ok (Some (rl_name r))))"

definition expected_block_size :: "u64 \<Rightarrow> u64 \<Rightarrow> u64 \<Rightarrow> u64 option" where
  "expected_block_size start stop unit_size =
     Option.bind (checked_sub stop start) (\<lambda>span.
     Option.bind (checked_add span 1) (\<lambda>units. checked_mul units unit_size))"

definition validate_memory_block ::
  "ghidra_snapshot \<Rightarrow> string set \<Rightarrow> (string \<times> u64 \<times> u64) option \<Rightarrow> ghidra_memory_block \<Rightarrow>
   ((string \<times> u64 \<times> u64) option, string) result" where
  "validate_memory_block s space_names previous b =
     rbind (bounded_text (mb_name b) ''memory block name'' 4096) (\<lambda>_.
     rbind (bounded_text (mb_block_type b) ''memory block type'' 128) (\<lambda>_.
     rbind (address_offset (mb_start b)) (\<lambda>start.
     rbind (address_offset (mb_end b)) (\<lambda>stop.
     if pa_space (mb_start b) \<notin> space_names \<or> pa_space (mb_start b) \<noteq> pa_space (mb_end b)
       then Err ''memory block references unknown or differing address spaces''
     else if start > stop \<or> mb_size b = 0 \<or> mb_size b > 2 ^ 40
       then Err ''memory block has invalid range or byte size''
     else
       rbind (case List.find (\<lambda>sp. as_name sp = pa_space (mb_start b)) (gs_address_spaces s) of
                None \<Rightarrow> Panic
              | Some sp \<Rightarrow> Ok (ucast (as_addressable_unit_size sp) :: u64)) (\<lambda>unit_size.
       rbind (ok_or ''memory block range byte size overflows''
                (expected_block_size start stop unit_size)) (\<lambda>expected_size.
       if mb_size b \<noteq> expected_size
         then Err ''memory block byte size disagrees with its address range''
       else if (case previous of None \<Rightarrow> False
                 | Some (prior_space, prior_start, prior_end) \<Rightarrow>
                     (prior_space, prior_start) \<ge> (pa_space (mb_start b), start))
         then Err ''Ghidra memory blocks must be strictly sorted''
       else if (case previous of None \<Rightarrow> False
                 | Some (prior_space, prior_start, prior_end) \<Rightarrow>
                     prior_space = pa_space (mb_start b) \<and> start \<le> prior_end)
         then Err ''Ghidra memory blocks overlap''
       else Ok (Some (pa_space (mb_start b), start, stop))))))))"

type_synonym symbol_key = "string \<times> u64 \<times> string \<times> string \<times> string \<times> string \<times> bool \<times> bool"

definition validate_symbol ::
  "string set \<Rightarrow> symbol_key option \<Rightarrow> ghidra_symbol \<Rightarrow> (symbol_key option, string) result" where
  "validate_symbol space_names previous y =
     rbind (address_offset (sy_address y)) (\<lambda>symbol_offset.
     if pa_space (sy_address y) \<notin> space_names
     then Err ''symbol references an unknown address space''
     else
       rbind (bounded_text (sy_name y) ''symbol name'' 4096) (\<lambda>_.
       rbind (if sy_namespace y \<noteq> [] then bounded_text (sy_namespace y) ''symbol namespace'' 4096
              else Ok ()) (\<lambda>_.
       rbind (bounded_text (sy_symbol_type y) ''symbol type'' 128) (\<lambda>_.
       rbind (bounded_text (sy_source_type y) ''symbol source'' 128) (\<lambda>_.
       let key = (pa_space (sy_address y), symbol_offset, sy_namespace y, sy_name y,
                  sy_symbol_type y, sy_source_type y, sy_primary y, sy_external y)
       in if (case previous of None \<Rightarrow> False | Some prior \<Rightarrow> prior \<ge> key)
          then Err ''Ghidra symbols must be strictly sorted and unique''
          else Ok (Some key))))))"

definition validate_function_entry ::
  "string set \<Rightarrow> address_key set \<Rightarrow> ghidra_function_entry \<Rightarrow> (address_key set, string) result" where
  "validate_function_entry space_names entries f =
     rbind (address_offset (fe_entry f)) (\<lambda>key.
     if pa_space (fe_entry f) \<notin> space_names
     then Err ''function entry references an unknown address space''
     else
       rbind (bounded_text (fe_name f) ''function name'' 4096) (\<lambda>_.
       if fe_size f = 0 then Err ''Ghidra function size must be nonzero''
       else
         rbind (case fe_prototype f of None \<Rightarrow> Ok () | Some p \<Rightarrow> validate_ghidra_prototype p) (\<lambda>_.
         if (pa_space (fe_entry f), key) \<in> entries then Err ''duplicate Ghidra function entry''
         else Ok (insert (pa_space (fe_entry f), key) entries))))"

definition validate_operation :: "string set \<Rightarrow> nat \<Rightarrow> pcode_operation \<Rightarrow> (unit, string) result" where
  "validate_operation space_names index opn =
     (if unat (op_sequence_index opn) \<noteq> index
      then Err ''P-code operations must have contiguous per-instruction sequence indices''
      else
        rbind (bounded_text (op_mnemonic opn) ''P-code mnemonic'' 128) (\<lambda>_.
        rbind (case op_userop_name opn of None \<Rightarrow> Ok ()
                | Some name \<Rightarrow> bounded_text name ''P-code userop name'' 256) (\<lambda>_.
        if sint (op_sequence_time opn) < 0 then Err ''P-code sequence time must be nonnegative''
        else
          rbind (address_offset (op_source_address opn)) (\<lambda>_.
          if pa_space (op_source_address opn) \<notin> space_names
            then Err ''P-code source references an unknown address space''
          else if op_opcode opn > 65535 \<or> length (op_inputs opn) > 256
            then Err ''P-code opcode or input count exceeds limit''
          else
            rbind (case op_output opn of None \<Rightarrow> Ok ()
                    | Some v \<Rightarrow> rbind (validate_varnode v) (\<lambda>_.
                        if vn_space v \<notin> space_names
                        then Err ''P-code output references an unknown address space'' else Ok ())) (\<lambda>_.
            for_each (\<lambda>v. rbind (validate_varnode v) (\<lambda>_.
              if vn_space v \<notin> space_names
              then Err ''P-code input references an unknown address space'' else Ok ()))
              (op_inputs opn))))))"

definition instruction_bytes_ok :: "string \<Rightarrow> bool" where
  "instruction_bytes_ok bytes =
     (\<not> (bytes = [] \<or> length bytes > 64 \<or> length bytes mod 2 \<noteq> 0 \<or> \<not> list_all lower_hex bytes))"

record instruction_scan =
  is_previous :: "u64 option"
  is_addresses :: "address_key set"
  is_operation_count :: nat

definition validate_instruction ::
  "string set \<Rightarrow> string \<Rightarrow> instruction_scan \<Rightarrow> pcode_instruction \<Rightarrow>
   (instruction_scan, string) result" where
  "validate_instruction space_names selected_space st i =
     rbind (address_offset (in_address i)) (\<lambda>address.
     if pa_space (in_address i) \<notin> space_names
       then Err ''instruction references an unknown address space''
     else if pa_space (in_address i) \<noteq> selected_space
       then Err ''instruction address space differs from function entry''
     else if (case is_previous st of None \<Rightarrow> False | Some prior \<Rightarrow> prior \<ge> address)
       then Err ''Ghidra instructions must be strictly sorted by address''
     else
       rbind (bounded_text (in_mnemonic i) ''instruction mnemonic'' 128) (\<lambda>_.
       if \<not> (instruction_bytes_ok (in_bytes i) \<and> instruction_bytes_ok (in_parsed_bytes i))
         then Err ''instruction bytes must be 1..=32 bytes of lowercase hex''
       else
         let operation_count = is_operation_count st + length (in_pcode i) in
         if length (in_pcode i) > 256 \<or> operation_count > MAX_OPERATIONS
         then Err ''Ghidra snapshot exceeds P-code operation limit''
         else
           rbind (for_each (\<lambda>(index, opn). validate_operation space_names index opn)
                    (List.enumerate 0 (in_pcode i))) (\<lambda>_.
           Ok \<lparr>is_previous = Some address,
               is_addresses = insert (pa_space (in_address i), address) (is_addresses st),
               is_operation_count = operation_count\<rparr>)))"

definition target_key ::
  "string set \<Rightarrow> string \<Rightarrow> pcode_address option \<Rightarrow> (address_key option, string) result" where
  "target_key space_names what target =
     (case target of
        None \<Rightarrow> Ok None
      | Some t \<Rightarrow> rbind (address_offset t) (\<lambda>value.
          if pa_space t \<notin> space_names
          then Err (what @ '' references an unknown address space'')
          else Ok (Some (pa_space t, value))))"

definition validate_flow_edge ::
  "string set \<Rightarrow> address_key set \<Rightarrow> flow_key set \<Rightarrow> ghidra_flow_edge \<Rightarrow>
   (flow_key set, string) result" where
  "validate_flow_edge space_names addresses flow_keys e =
     rbind (address_offset (fl_source e)) (\<lambda>source_offset.
     if (pa_space (fl_source e), source_offset) \<notin> addresses
     then Err ''Ghidra flow source is not a selected instruction''
     else
       rbind (target_key space_names ''Ghidra flow target'' (fl_target e)) (\<lambda>target.
       if fl_kind e = Fallthrough \<and> (fl_conditional e \<or> fl_computed e)
       then Err ''Ghidra fallthrough cannot be conditional or computed''
       else
         let key = ((pa_space (fl_source e), source_offset), target, fl_kind e,
                    fl_conditional e, fl_computed e)
         in if key \<in> flow_keys then Err ''duplicate Ghidra flow edge''
            else Ok (insert key flow_keys)))"

definition validate_call_target ::
  "string set \<Rightarrow> address_key set \<Rightarrow> flow_key set \<Rightarrow> call_key set \<Rightarrow> ghidra_call_target \<Rightarrow>
   (call_key set, string) result" where
  "validate_call_target space_names addresses flow_keys call_keys c =
     rbind (address_offset (ct_call_site c)) (\<lambda>source_offset.
     if (pa_space (ct_call_site c), source_offset) \<notin> addresses
     then Err ''Ghidra call site is not a selected instruction''
     else
       rbind (target_key space_names ''Ghidra call target'' (ct_target c)) (\<lambda>target.
       let source = (pa_space (ct_call_site c), source_offset);
           key = (source, target, ct_conditional c, ct_computed c)
       in if key \<in> call_keys then Err ''duplicate Ghidra call target''
          else if flow_keys \<noteq> {} \<and>
            (source, target, Call, ct_conditional c, ct_computed c) \<notin> flow_keys
          then Err ''Ghidra call target has no matching call flow edge''
          else Ok (insert key call_keys)))"

section \<open>\<^verbatim>\<open>validate_ghidra_snapshot\<close> and \<^verbatim>\<open>pcode_function_ir\<close>\<close>

definition validate_layout :: "ghidra_snapshot \<Rightarrow> (string set, string) result" where
  \<comment> \<open>spaces, image base, registers, memory blocks and symbols\<close>
  "validate_layout s =
     rbind (map_ok fst (fold_res validate_space ({}, {}) (gs_address_spaces s))) (\<lambda>space_names.
     if pa_space (pr_image_base (gs_program s)) \<notin> space_names
       then Err ''image base references an unknown address space''
     else if length (gs_register_layout s) > 256
       then Err ''Ghidra register layout exceeds 256 base registers''
     else
       rbind (fold_res (validate_register space_names) None (gs_register_layout s)) (\<lambda>_.
       if length (gs_memory_blocks s) > MAX_MEMORY_BLOCKS
       then Err ''Ghidra snapshot exceeds memory block limit 4096''
       else
         rbind (fold_res (validate_memory_block s space_names) None (gs_memory_blocks s)) (\<lambda>_.
         if length (gs_symbols s) > MAX_SYMBOLS
         then Err ''Ghidra snapshot exceeds symbol limit 65536''
         else
           rbind (fold_res (validate_symbol space_names) None (gs_symbols s)) (\<lambda>_.
           Ok space_names))))"

definition validate_selected :: "ghidra_snapshot \<Rightarrow> string set \<Rightarrow> (address_key set, string) result" where
  \<comment> \<open>the function index and the selected function's instructions\<close>
  "validate_selected s space_names =
     (if gs_functions s = [] \<or> length (gs_functions s) > MAX_FUNCTIONS
      then Err ''Ghidra function index must have 1..=65536 entries''
      else
        rbind (fold_res (validate_function_entry space_names) {} (gs_functions s)) (\<lambda>entries.
        rbind (address_offset (sf_entry (gs_selected_function s))) (\<lambda>selected_offset.
        let selected_space = pa_space (sf_entry (gs_selected_function s));
            instructions = sf_instructions (gs_selected_function s)
        in if (selected_space, selected_offset) \<notin> entries
             then Err ''selected function is absent from Ghidra function index''
           else if instructions = [] \<or> length instructions > MAX_INSTRUCTIONS
             then Err ''selected function must have 1..=16384 instructions''
           else
             map_ok is_addresses
               (fold_res (validate_instruction space_names selected_space)
                 \<lparr>is_previous = None, is_addresses = {}, is_operation_count = 0\<rparr> instructions))))"

definition validate_evidence ::
  "ghidra_snapshot \<Rightarrow> string set \<Rightarrow> address_key set \<Rightarrow> (unit, string) result" where
  \<comment> \<open>decompiler, flow and call evidence\<close>
  "validate_evidence s space_names addresses =
     (let f = gs_selected_function s in
      rbind (case sf_high_pcode f of None \<Rightarrow> Ok ()
              | Some ev \<Rightarrow> validate_high_pcode ev space_names) (\<lambda>_.
      if length (sf_flow_edges f) > MAX_OPERATIONS \<or> length (sf_call_targets f) > MAX_OPERATIONS
      then Err ''Ghidra flow or call evidence exceeds limit''
      else
        rbind (fold_res (validate_flow_edge space_names addresses) {} (sf_flow_edges f)) (\<lambda>flow_keys.
        map_ok (\<lambda>_. ())
          (fold_res (validate_call_target space_names addresses flow_keys) {} (sf_call_targets f)))))"

definition validate_ghidra_snapshot :: "ghidra_snapshot \<Rightarrow> string \<Rightarrow> (unit, string) result" where
  "validate_ghidra_snapshot s binary_sha256 =
     rbind (validate_header s binary_sha256) (\<lambda>_.
     rbind (validate_layout s) (\<lambda>space_names.
     rbind (validate_selected s space_names) (\<lambda>addresses.
     validate_evidence s space_names addresses)))"

definition parse_ghidra_snapshot ::
  "(u8 list \<Rightarrow> (ghidra_snapshot, string) result) \<Rightarrow> u8 list \<Rightarrow> string \<Rightarrow>
   (ghidra_snapshot, string) result" where
  \<comment> \<open>\<open>from_slice\<close> is \<^verbatim>\<open>serde_json::from_slice\<close>\<close>
  "parse_ghidra_snapshot from_slice bytes binary_sha256 =
     (if bytes = [] \<or> length bytes > MAX_GHIDRA_SNAPSHOT_BYTES
      then Err ''Ghidra snapshot must be 1..=16777216 bytes''
      else
        rbind (map_err (\<lambda>e. ''invalid Ghidra snapshot JSON: '' @ e) (from_slice bytes)) (\<lambda>snapshot.
        rbind (validate_ghidra_snapshot snapshot binary_sha256) (\<lambda>_. Ok snapshot)))"

definition pcode_function_ir :: "ghidra_snapshot \<Rightarrow> (pcode_function_ir, string) result" where
  "pcode_function_ir s =
     rbind (validate_ghidra_snapshot s (gs_binary_sha256 s)) (\<lambda>_.
     rbind (address_offset (sf_entry (gs_selected_function s))) (\<lambda>selected_offset.
     rbind (ok_or ''selected function is absent from Ghidra function index''
       (List.find
         (\<lambda>f. pa_space (fe_entry f) = pa_space (sf_entry (gs_selected_function s)) \<and>
              to_option (hex_u64 (pa_offset (fe_entry f))) = Some selected_offset)
         (gs_functions s))) (\<lambda>function.
     Ok \<lparr>fi_schema_version = PCODE_IR_VERSION,
         fi_binary_sha256 = gs_binary_sha256 s,
         fi_source = ''ghidra_raw_pcode'',
         fi_flow_overrides_applied = gs_flow_overrides_applied s,
         fi_ghidra_version = pr_ghidra_version (gs_program s),
         fi_language_id = pr_language_id (gs_program s),
         fi_compiler_spec_id = pr_compiler_spec_id (gs_program s),
         fi_address_spaces = gs_address_spaces s,
         fi_entry = sf_entry (gs_selected_function s),
         fi_name = fe_name function,
         fi_instructions = sf_instructions (gs_selected_function s),
         fi_semantic_fidelity = Unknown,
         fi_verification = NotRun\<rparr>)))"

section \<open>Validation never panics\<close>

lemma data_type_shape_not_Panic [no_panic]: "data_type_shape dt \<noteq> Panic"
  by (simp add: data_type_shape_def rbind_Panic)

lemma validate_ghidra_data_type_not_Panic [no_panic]: "validate_ghidra_data_type dt depth \<noteq> Panic"
proof (induction dt depth rule: validate_ghidra_data_type.induct)
  case (1 dt depth)
  show ?case
  proof (cases "depth \<ge> MAX_PROTOTYPE_TYPE_DEPTH")
    case False
    have fields: "fold_res (\<lambda>previous_offset f.
        if field_layout_bad dt previous_offset f
        then Err ''invalid Ghidra composite field layout evidence''
        else map_ok (\<lambda>_. fd_offset_bytes f)
          (validate_ghidra_data_type (fd_data_type f) (depth + 1))) 0 (dt_fields dt) \<noteq> Panic"
      if "data_type_shape dt = Ok ()" and
        "(case dt_target_type dt of None \<Rightarrow> Ok ()
          | Some target \<Rightarrow> validate_ghidra_data_type target (depth + 1)) = Ok ()"
      using "1.IH"(2) [OF False that] by (intro fold_res_no_panic [where P = "\<lambda>_. True"]) auto
    have target: "(case dt_target_type dt of None \<Rightarrow> Ok ()
        | Some target \<Rightarrow> validate_ghidra_data_type target (depth + 1)) \<noteq> Panic"
      if "data_type_shape dt = Ok ()"
      using "1.IH"(1) [OF False that] by (auto split: option.split)
    from False fields target show ?thesis
      by (subst validate_ghidra_data_type.simps)
        (auto simp: rbind_Panic data_type_shape_not_Panic)
  qed (simp add: validate_ghidra_data_type.simps)
qed

lemma validate_ghidra_source_not_Panic [simp, no_panic]: "validate_ghidra_source v l \<noteq> Panic"
  by (simp add: validate_ghidra_source_def)

lemma address_offset_not_Panic [simp, no_panic]: "address_offset a \<noteq> Panic"
  by (simp add: address_offset_def rbind_Panic)

lemma validate_varnode_not_Panic [simp, no_panic]: "validate_varnode v \<noteq> Panic"
  by (simp add: validate_varnode_def rbind_Panic)

lemma validate_ghidra_prototype_not_Panic [no_panic]: "validate_ghidra_prototype p \<noteq> Panic"
  unfolding validate_ghidra_prototype_def
  by (auto simp: rbind_Panic validate_ghidra_data_type_not_Panic
      intro!: for_each_no_panic dest!: for_each_no_panic [THEN notE, rotated] split: option.splits)

lemma validate_high_varnode_not_Panic [no_panic]: "validate_high_varnode names node \<noteq> Panic"
  unfolding validate_high_varnode_def
  by (auto simp: rbind_Panic validate_ghidra_data_type_not_Panic split: option.splits)

lemma validate_high_operation_not_Panic [no_panic]: "validate_high_operation names i opn \<noteq> Panic"
  unfolding validate_high_operation_def
  by (auto simp: rbind_Panic validate_high_varnode_not_Panic
      dest!: for_each_no_panic [THEN notE, rotated] split: option.splits if_splits)

lemma validate_high_pcode_not_Panic [no_panic]: "validate_high_pcode ev names \<noteq> Panic"
  unfolding validate_high_pcode_def
  by (auto simp: rbind_Panic validate_high_operation_not_Panic
      dest!: for_each_no_panic [THEN notE, rotated] split: if_splits)

lemma validate_operation_not_Panic [no_panic]: "validate_operation names i opn \<noteq> Panic"
  unfolding validate_operation_def
  by (auto simp: rbind_Panic dest!: for_each_no_panic [THEN notE, rotated]
      split: option.splits if_splits)

lemma validate_instruction_not_Panic [no_panic]: "validate_instruction names sp st i \<noteq> Panic"
  unfolding validate_instruction_def
  by (auto simp: rbind_Panic validate_operation_not_Panic Let_def
      dest!: for_each_no_panic [THEN notE, rotated] split: option.splits if_splits)

lemma validate_space_not_Panic [no_panic]: "validate_space st sp \<noteq> Panic"
  unfolding validate_space_def by (auto simp: rbind_Panic split: prod.splits if_splits)

lemma validate_register_not_Panic [no_panic]: "validate_register names st r \<noteq> Panic"
  unfolding validate_register_def by (auto simp: rbind_Panic split: option.splits if_splits)

lemma validate_symbol_not_Panic [no_panic]: "validate_symbol names st y \<noteq> Panic"
  unfolding validate_symbol_def by (auto simp: rbind_Panic Let_def split: option.splits if_splits)

lemma validate_function_entry_not_Panic [no_panic]: "validate_function_entry names st f \<noteq> Panic"
  unfolding validate_function_entry_def
  by (auto simp: rbind_Panic validate_ghidra_prototype_not_Panic split: option.splits if_splits)

lemma target_key_not_Panic [no_panic]: "target_key names what target \<noteq> Panic"
  unfolding target_key_def by (auto simp: rbind_Panic split: option.splits if_splits)

lemma validate_flow_edge_not_Panic [no_panic]: "validate_flow_edge names as ks e \<noteq> Panic"
  unfolding validate_flow_edge_def
  by (auto simp: rbind_Panic target_key_not_Panic Let_def split: if_splits)

lemma validate_call_target_not_Panic [no_panic]: "validate_call_target names as fs ks c \<noteq> Panic"
  unfolding validate_call_target_def
  by (auto simp: rbind_Panic target_key_not_Panic Let_def split: if_splits)

lemma validate_header_not_Panic [no_panic]: "validate_header s d \<noteq> Panic"
  unfolding validate_header_def by (auto simp: rbind_Panic split: if_splits)

text \<open>The scan over the address spaces collects their names and keeps names and IDs distinct.\<close>

lemma validate_space_accepts:
  assumes "validate_space (names, ids) sp = Ok st"
  shows "st = (insert (as_name sp) names, insert (as_id sp) ids) \<and> as_name sp \<notin> names \<and>
    as_id sp \<notin> ids \<and> 0 < as_addressable_unit_size sp \<and> as_pointer_size sp \<le> 64"
  using assms by (auto simp: validate_space_def word_gt_0 split: if_splits)

lemma validate_space_fold:
  assumes "fold_res validate_space (names, ids) sps = Ok (names', ids')"
  shows "names' = names \<union> as_name ` set sps \<and> ids' = ids \<union> as_id ` set sps \<and>
    distinct (map as_name sps) \<and> distinct (map as_id sps) \<and>
    names \<inter> as_name ` set sps = {} \<and> ids \<inter> as_id ` set sps = {} \<and>
    (\<forall>sp \<in> set sps. 0 < as_addressable_unit_size sp \<and> as_pointer_size sp \<le> 64)"
  using assms
proof (induction sps arbitrary: names ids)
  case (Cons sp sps)
  from Cons.prems obtain st where "validate_space (names, ids) sp = Ok st"
    and rest: "fold_res validate_space st sps = Ok (names', ids')" by auto
  note acc = validate_space_accepts [OF this(1)]
  with rest have "fold_res validate_space (insert (as_name sp) names, insert (as_id sp) ids) sps =
      Ok (names', ids')" by simp
  from Cons.IH [OF this] acc show ?case by auto
qed simp

lemma validate_memory_block_not_Panic [no_panic]:
  assumes "names = as_name ` set (gs_address_spaces s)"
  shows "validate_memory_block s names st b \<noteq> Panic"
proof -
  have "n \<notin> names" if "List.find (\<lambda>sp. as_name sp = n) (gs_address_spaces s) = None" for n
    using that assms by (auto simp: find_None_iff)
  then show ?thesis
    unfolding validate_memory_block_def
    by (auto simp: rbind_Panic split: option.splits if_splits)
qed

lemma fold_res_total: "(\<And>s x. f s x \<noteq> Panic) \<Longrightarrow> fold_res f s xs \<noteq> Panic"
  by (rule fold_res_no_panic [where P = "\<lambda>_. True"]) auto

lemma validate_layout_not_Panic [no_panic]: "validate_layout s \<noteq> Panic"
proof -
  have blocks: "fold_res (validate_memory_block s names) None (gs_memory_blocks s) \<noteq> Panic"
    if "fold_res validate_space ({}, {}) (gs_address_spaces s) = Ok (names, ids)" for names ids
    using validate_space_fold [OF that]
    by (intro fold_res_total validate_memory_block_not_Panic) simp
  have others: "fold_res validate_space st xs \<noteq> Panic"
      "fold_res (validate_register names) None rs \<noteq> Panic"
      "fold_res (validate_symbol names) None ys \<noteq> Panic" for st xs names rs ys
    by (rule fold_res_total, simp add: validate_space_not_Panic validate_register_not_Panic
        validate_symbol_not_Panic)+
  show ?thesis
    unfolding validate_layout_def using blocks others
    by (auto simp: rbind_Panic split: if_splits)
qed

lemma validate_selected_not_Panic [no_panic]: "validate_selected s names \<noteq> Panic"
proof -
  have "fold_res (validate_function_entry names) st xs \<noteq> Panic"
      "fold_res (validate_instruction names sp) st' is \<noteq> Panic" for st xs sp st' "is"
    by (rule fold_res_total, simp add: validate_function_entry_not_Panic validate_instruction_not_Panic)+
  then show ?thesis
    unfolding validate_selected_def by (auto simp: rbind_Panic Let_def split: if_splits)
qed

lemma validate_evidence_not_Panic [no_panic]: "validate_evidence s names addrs \<noteq> Panic"
proof -
  have "fold_res (validate_flow_edge names addrs) st xs \<noteq> Panic"
      "fold_res (validate_call_target names addrs fs) st' cs \<noteq> Panic" for st xs fs st' cs
    by (rule fold_res_total, simp add: validate_flow_edge_not_Panic validate_call_target_not_Panic)+
  then show ?thesis
    unfolding validate_evidence_def
    by (auto simp: rbind_Panic Let_def validate_high_pcode_not_Panic split: if_splits option.splits)
qed

lemma validate_snapshot_not_Panic: "validate_ghidra_snapshot s d \<noteq> Panic"
  unfolding validate_ghidra_snapshot_def
  by (simp add: rbind_Panic validate_header_not_Panic validate_layout_not_Panic
      validate_selected_not_Panic validate_evidence_not_Panic)

section \<open>What acceptance establishes\<close>

definition address_key :: "pcode_address \<Rightarrow> (address_key, string) result" where
  \<comment> \<open>\<^verbatim>\<open>cfg.rs\<close>: the space and the parsed offset, by which instructions are looked up\<close>
  "address_key a = map_ok (\<lambda>v. (pa_space a, v)) (hex_u64 (pa_offset a))"

lemma address_key_not_Panic [simp, no_panic]: "address_key a \<noteq> Panic"
  by (simp add: address_key_def)

lemma address_offset_key: "address_offset a = Ok v \<Longrightarrow> address_key a = Ok (pa_space a, v)"
  by (auto simp: address_offset_def address_key_def)

definition key_of :: "pcode_address \<Rightarrow> address_key" where
  \<comment> \<open>the key of an address whose offset parses\<close>
  "key_of a = (case address_key a of Ok k \<Rightarrow> k | _ \<Rightarrow> (pa_space a, 0))"

lemma key_of_Ok: "address_key a = Ok k \<Longrightarrow> key_of a = k"
  by (simp add: key_of_def)

definition instruction_accepted :: "string set \<Rightarrow> string \<Rightarrow> pcode_instruction \<Rightarrow> bool" where
  "instruction_accepted names space i =
     (pa_space (in_address i) = space \<and> is_ok (address_key (in_address i)) \<and>
      length (in_pcode i) \<le> 256 \<and>
      (\<forall>n < length (in_pcode i). validate_operation names n (in_pcode i ! n) = Ok ()))"

lemma validate_instruction_accepts:
  assumes "validate_instruction names space st i = Ok st'"
  shows "instruction_accepted names space i" and "is_previous st' = Some (snd (key_of (in_address i)))"
    and "is_addresses st' = insert (key_of (in_address i)) (is_addresses st)"
    and "is_operation_count st' = is_operation_count st + length (in_pcode i)"
    and "is_operation_count st' \<le> MAX_OPERATIONS"
    and "\<forall>p. is_previous st = Some p \<longrightarrow> p < snd (key_of (in_address i))"
proof -
  from assms obtain v where v: "address_offset (in_address i) = Ok v"
      and space: "pa_space (in_address i) = space"
      and prev: "\<forall>p. is_previous st = Some p \<longrightarrow> p < v"
      and count: "length (in_pcode i) \<le> 256"
        "is_operation_count st + length (in_pcode i) \<le> MAX_OPERATIONS"
      and ops: "\<forall>n opn. (n, opn) \<in> set (List.enumerate 0 (in_pcode i)) \<longrightarrow> validate_operation names n opn = Ok ()"
      and st': "st' = \<lparr>is_previous = Some v,
          is_addresses = insert (pa_space (in_address i), v) (is_addresses st),
          is_operation_count = is_operation_count st + length (in_pcode i)\<rparr>"
    by (auto simp: validate_instruction_def Let_def not_le split: if_splits option.splits prod.splits)
  note k = address_offset_key [OF v] key_of_Ok [OF address_offset_key [OF v]]
  from ops have "validate_operation names n (in_pcode i ! n) = Ok ()" if "n < length (in_pcode i)" for n
    using that by (auto simp: in_set_enumerate_eq)
  with k space count show "instruction_accepted names space i"
    by (simp add: instruction_accepted_def)
  from k st' prev count show "is_previous st' = Some (snd (key_of (in_address i)))"
    "is_addresses st' = insert (key_of (in_address i)) (is_addresses st)"
    "is_operation_count st' = is_operation_count st + length (in_pcode i)"
    "is_operation_count st' \<le> MAX_OPERATIONS"
    "\<forall>p. is_previous st = Some p \<longrightarrow> p < snd (key_of (in_address i))"
    by simp_all
qed

lemma validate_instruction_fold:
  assumes "fold_res (validate_instruction names space) st is = Ok st'"
  shows "(\<forall>i \<in> set is. instruction_accepted names space i) \<and>
    sorted_wrt (<) (map (\<lambda>i. snd (key_of (in_address i))) is) \<and>
    (\<forall>p. is_previous st = Some p \<longrightarrow> (\<forall>i \<in> set is. p < snd (key_of (in_address i)))) \<and>
    is_addresses st' = is_addresses st \<union> (key_of \<circ> in_address) ` set is \<and>
    is_operation_count st' = is_operation_count st + sum_list (map (length \<circ> in_pcode) is)"
  using assms
proof (induction "is" arbitrary: st)
  case (Cons i "is")
  from Cons.prems obtain st1 where st1: "validate_instruction names space st i = Ok st1"
    and rest: "fold_res (validate_instruction names space) st1 is = Ok st'" by auto
  note acc = validate_instruction_accepts [OF st1]
  from Cons.IH [OF rest] acc show ?case by (auto dest: order.strict_trans)
qed simp

lemma validate_instruction_fold_count:
  assumes "fold_res (validate_instruction names space) st is = Ok st'"
    and "is_operation_count st \<le> MAX_OPERATIONS"
  shows "is_operation_count st' \<le> MAX_OPERATIONS"
  using assms(1,2) by (rule fold_res_invariant) (use validate_instruction_accepts(5) in blast)

definition varnode_ok :: "pcode_varnode \<Rightarrow> bool" where
  "varnode_ok v = (is_ok (hex_u64 (vn_offset v)) \<and> 1 \<le> vn_size v \<and> vn_size v \<le> 4096)"

lemma validate_varnode_Ok: "validate_varnode v = Ok u \<Longrightarrow> varnode_ok v"
  by (auto simp: validate_varnode_def varnode_ok_def is_ok_iff split: if_splits)

lemma validate_operation_accepts:
  assumes "validate_operation names n opn = Ok ()"
  shows "unat (op_sequence_index opn) = n" and "length (op_inputs opn) \<le> 256"
    and "\<forall>v \<in> set (op_inputs opn). varnode_ok v \<and> vn_space v \<in> names"
    and "\<forall>v. op_output opn = Some v \<longrightarrow> varnode_ok v \<and> vn_space v \<in> names"
    and "is_ok (address_key (op_source_address opn))"
proof -
  from assms show "unat (op_sequence_index opn) = n" "length (op_inputs opn) \<le> 256"
    by (auto simp: validate_operation_def split: if_splits)
  from assms have "\<forall>v \<in> set (op_inputs opn). validate_varnode v = Ok () \<and> vn_space v \<in> names"
    by (auto simp: validate_operation_def split: if_splits)
  then show "\<forall>v \<in> set (op_inputs opn). varnode_ok v \<and> vn_space v \<in> names"
    using validate_varnode_Ok by blast
  from assms show "\<forall>v. op_output opn = Some v \<longrightarrow> varnode_ok v \<and> vn_space v \<in> names"
    by (auto simp: validate_operation_def validate_varnode_Ok split: if_splits option.splits)
  from assms show "is_ok (address_key (op_source_address opn))"
    by (auto simp: validate_operation_def is_ok_iff dest: address_offset_key split: if_splits)
qed

lemma target_key_accepts:
  "target_key names what target = Ok k \<Longrightarrow> target = Some t \<Longrightarrow>
    k = Some (key_of t) \<and> address_key t = Ok (key_of t) \<and> pa_space t \<in> names"
  by (auto simp: target_key_def key_of_Ok dest: address_offset_key split: if_splits)

definition edge_anchored :: "address_key set \<Rightarrow> pcode_address \<Rightarrow> pcode_address option \<Rightarrow> bool" where
  "edge_anchored addresses src tgt =
     (address_key src = Ok (key_of src) \<and> key_of src \<in> addresses \<and>
      (\<forall>t. tgt = Some t \<longrightarrow> address_key t = Ok (key_of t)))"

lemma validate_flow_edge_accepts:
  assumes "validate_flow_edge names addresses ks e = Ok ks'"
  shows "edge_anchored addresses (fl_source e) (fl_target e)"
    and "fl_kind e = Fallthrough \<longrightarrow> \<not> fl_conditional e \<and> \<not> fl_computed e"
  using assms
  by (auto simp: validate_flow_edge_def edge_anchored_def key_of_Ok Let_def
      dest: address_offset_key target_key_accepts split: if_splits)

lemma validate_call_target_accepts:
  assumes "validate_call_target names addresses fs ks c = Ok ks'"
  shows "edge_anchored addresses (ct_call_site c) (ct_target c)"
  using assms
  by (auto simp: validate_call_target_def edge_anchored_def key_of_Ok Let_def
      dest: address_offset_key target_key_accepts split: if_splits)

lemma fold_res_each:
  assumes "fold_res f s xs = Ok t" and "\<And>s x t. f s x = Ok t \<Longrightarrow> P x"
  shows "\<forall>x \<in> set xs. P x"
  using assms(1)
proof (induction xs arbitrary: s)
  case (Cons x xs)
  from Cons.prems obtain u where "f s x = Ok u" "fold_res f u xs = Ok t" by auto
  with Cons.IH assms(2) show ?case by auto
qed simp

definition selection_wf :: "ghidra_snapshot \<Rightarrow> bool" where
  "selection_wf s =
     (let f = gs_selected_function s;
          addresses = (key_of \<circ> in_address) ` set (sf_instructions f)
      in distinct (map as_name (gs_address_spaces s)) \<and> distinct (map as_id (gs_address_spaces s)) \<and>
         sf_instructions f \<noteq> [] \<and> length (sf_instructions f) \<le> MAX_INSTRUCTIONS \<and>
         sum_list (map (length \<circ> in_pcode) (sf_instructions f)) \<le> MAX_OPERATIONS \<and>
         address_key (sf_entry f) = Ok (key_of (sf_entry f)) \<and>
         (\<forall>i \<in> set (sf_instructions f).
            instruction_accepted (as_name ` set (gs_address_spaces s)) (pa_space (sf_entry f)) i) \<and>
         sorted_wrt (<) (map (\<lambda>i. snd (key_of (in_address i))) (sf_instructions f)) \<and>
         (\<forall>e \<in> set (sf_flow_edges f). edge_anchored addresses (fl_source e) (fl_target e)) \<and>
         (\<forall>c \<in> set (sf_call_targets f). edge_anchored addresses (ct_call_site c) (ct_target c)))"

lemma validate_layout_accepts:
  assumes "validate_layout s = Ok names"
  shows "names = as_name ` set (gs_address_spaces s)" and "distinct (map as_name (gs_address_spaces s))"
    and "distinct (map as_id (gs_address_spaces s))"
proof -
  from assms obtain ids where
    "fold_res validate_space ({}, {}) (gs_address_spaces s) = Ok (names, ids)"
    by (auto simp: validate_layout_def split: if_splits)
  from validate_space_fold [OF this] show "names = as_name ` set (gs_address_spaces s)"
    "distinct (map as_name (gs_address_spaces s))" "distinct (map as_id (gs_address_spaces s))"
    by auto
qed

lemma validate_selected_accepts:
  assumes "validate_selected s names = Ok addresses"
  shows "addresses = (key_of \<circ> in_address) ` set (sf_instructions (gs_selected_function s))"
    and "sf_instructions (gs_selected_function s) \<noteq> []"
    and "length (sf_instructions (gs_selected_function s)) \<le> MAX_INSTRUCTIONS"
    and "sum_list (map (length \<circ> in_pcode) (sf_instructions (gs_selected_function s))) \<le> MAX_OPERATIONS"
    and "address_key (sf_entry (gs_selected_function s)) = Ok (key_of (sf_entry (gs_selected_function s)))"
    and "\<forall>i \<in> set (sf_instructions (gs_selected_function s)).
      instruction_accepted names (pa_space (sf_entry (gs_selected_function s))) i"
    and "sorted_wrt (<) (map (\<lambda>i. snd (key_of (in_address i))) (sf_instructions (gs_selected_function s)))"
proof -
  from assms obtain st v where fold: "fold_res (validate_instruction names
        (pa_space (sf_entry (gs_selected_function s))))
        \<lparr>is_previous = None, is_addresses = {}, is_operation_count = 0\<rparr>
        (sf_instructions (gs_selected_function s)) = Ok st"
    and addrs: "addresses = is_addresses st"
    and v: "address_offset (sf_entry (gs_selected_function s)) = Ok v"
    and shape: "sf_instructions (gs_selected_function s) \<noteq> []"
      "length (sf_instructions (gs_selected_function s)) \<le> MAX_INSTRUCTIONS"
    by (auto simp: validate_selected_def Let_def not_less split: if_splits)
  from validate_instruction_fold [OF fold] validate_instruction_fold_count [OF fold]
    addrs shape address_offset_key [OF v] key_of_Ok [OF address_offset_key [OF v]]
  show "addresses = (key_of \<circ> in_address) ` set (sf_instructions (gs_selected_function s))"
    "sf_instructions (gs_selected_function s) \<noteq> []"
    "length (sf_instructions (gs_selected_function s)) \<le> MAX_INSTRUCTIONS"
    "sum_list (map (length \<circ> in_pcode) (sf_instructions (gs_selected_function s))) \<le> MAX_OPERATIONS"
    "address_key (sf_entry (gs_selected_function s)) = Ok (key_of (sf_entry (gs_selected_function s)))"
    "\<forall>i \<in> set (sf_instructions (gs_selected_function s)).
      instruction_accepted names (pa_space (sf_entry (gs_selected_function s))) i"
    "sorted_wrt (<) (map (\<lambda>i. snd (key_of (in_address i))) (sf_instructions (gs_selected_function s)))"
    by simp_all
qed

lemma validate_evidence_accepts:
  assumes "validate_evidence s names addresses = Ok ()"
  shows "\<forall>e \<in> set (sf_flow_edges (gs_selected_function s)).
      edge_anchored addresses (fl_source e) (fl_target e)"
    and "\<forall>c \<in> set (sf_call_targets (gs_selected_function s)).
      edge_anchored addresses (ct_call_site c) (ct_target c)"
proof -
  from assms obtain fs ks where
    fs: "fold_res (validate_flow_edge names addresses) {} (sf_flow_edges (gs_selected_function s)) = Ok fs"
    and ks: "fold_res (validate_call_target names addresses fs) {}
      (sf_call_targets (gs_selected_function s)) = Ok ks"
    by (auto simp: validate_evidence_def Let_def split: if_splits)
  from fs show "\<forall>e \<in> set (sf_flow_edges (gs_selected_function s)).
      edge_anchored addresses (fl_source e) (fl_target e)"
    by (rule fold_res_each) (rule validate_flow_edge_accepts(1))
  from ks show "\<forall>c \<in> set (sf_call_targets (gs_selected_function s)).
      edge_anchored addresses (ct_call_site c) (ct_target c)"
    by (rule fold_res_each) (rule validate_call_target_accepts)
qed

lemma validated_selection_wf:
  assumes "validate_ghidra_snapshot s d = Ok ()"
  shows "selection_wf s"
proof -
  from assms obtain names addresses where
    layout: "validate_layout s = Ok names" and
    selected: "validate_selected s names = Ok addresses" and
    evidence: "validate_evidence s names addresses = Ok ()"
    by (auto simp: validate_ghidra_snapshot_def)
  show ?thesis
    using validate_layout_accepts [OF layout] validate_selected_accepts [OF selected]
      validate_evidence_accepts [OF evidence]
    by (simp add: selection_wf_def Let_def)
qed

lemma validated_digest: "validate_ghidra_snapshot s d = Ok () \<Longrightarrow> gs_binary_sha256 s = d"
  by (auto simp: validate_ghidra_snapshot_def validate_header_def split: if_splits)

lemma pcode_function_ir_Ok:
  assumes "pcode_function_ir s = Ok f"
  shows "fi_instructions f = sf_instructions (gs_selected_function s)"
    and "fi_address_spaces f = gs_address_spaces s" and "fi_schema_version f = PCODE_IR_VERSION"
    and "fi_source f = ''ghidra_raw_pcode''" and "fi_entry f = sf_entry (gs_selected_function s)"
    and "fi_flow_overrides_applied f" and "fi_language_id f = pr_language_id (gs_program s)"
    and "selection_wf s"
  using assms
  by (auto simp: pcode_function_ir_def validate_ghidra_snapshot_def validate_header_def
      intro!: validated_selection_wf split: if_splits)

text \<open>An accepted snapshot always yields the function IR of its selected function.\<close>

lemma validate_function_entry_fold:
  assumes "fold_res (validate_function_entry names) entries fs = Ok entries'"
  shows "entries' = entries \<union> (key_of \<circ> fe_entry) ` set fs \<and>
    (\<forall>f \<in> set fs. address_key (fe_entry f) = Ok (key_of (fe_entry f)))"
  using assms
proof (induction fs arbitrary: entries)
  case (Cons f fs)
  from Cons.prems obtain es where f: "validate_function_entry names entries f = Ok es"
    and rest: "fold_res (validate_function_entry names) es fs = Ok entries'" by auto
  from f obtain v where "address_offset (fe_entry f) = Ok v"
    and es: "es = insert (pa_space (fe_entry f), v) entries"
    by (auto simp: validate_function_entry_def split: if_splits)
  then have "address_key (fe_entry f) = Ok (key_of (fe_entry f))"
    "key_of (fe_entry f) = (pa_space (fe_entry f), v)"
    by (simp_all add: address_offset_key key_of_Ok)
  with Cons.IH [OF rest] es show ?case by auto
qed simp

lemma pcode_function_ir_total:
  assumes "validate_ghidra_snapshot s (gs_binary_sha256 s) = Ok ()"
  shows "\<exists>f. pcode_function_ir s = Ok f"
proof -
  let ?e = "sf_entry (gs_selected_function s)"
  from assms obtain names addresses where "validate_selected s names = Ok addresses"
    by (auto simp: validate_ghidra_snapshot_def)
  then obtain entries v where
    fold: "fold_res (validate_function_entry names) {} (gs_functions s) = Ok entries" and
    v: "address_offset ?e = Ok v" and mem: "(pa_space ?e, v) \<in> entries"
    by (auto simp: validate_selected_def Let_def split: if_splits)
  from validate_function_entry_fold [OF fold] mem obtain f where
    f: "f \<in> set (gs_functions s)" "address_key (fe_entry f) = Ok (pa_space ?e, v)"
    by fastforce
  then have "pa_space (fe_entry f) = pa_space ?e \<and> to_option (hex_u64 (pa_offset (fe_entry f))) = Some v"
    by (auto simp: address_key_def)
  with f(1) have "List.find (\<lambda>f. pa_space (fe_entry f) = pa_space ?e \<and>
      to_option (hex_u64 (pa_offset (fe_entry f))) = Some v) (gs_functions s) \<noteq> None"
    by (auto simp: find_None_iff)
  with assms v show ?thesis by (auto simp: pcode_function_ir_def)
qed

end
