(* ===== verification/Pcode_Semantics.thy ===== *)
theory Pcode_Semantics
  imports Pcode_Validate "HOL-Library.Signed_Division"
begin

text \<open>
  \<^verbatim>\<open>hydir-ir/src/pcode/semantics.rs\<close>, the data and the classification: the exact operations, the
  effect classes, and \<^verbatim>\<open>lower_operation\<close>, which decides from opcode, mnemonic, widths and spaces
  whether a raw operation has an exact value semantics. The evaluator is in \<open>Pcode_Eval\<close>, the lowering
  of a whole function in \<open>Pcode_State\<close>.
\<close>

section \<open>Data\<close>

definition PCODE_SEMANTIC_IR_VERSION :: u32 where "PCODE_SEMANTIC_IR_VERSION = 1"

datatype pcode_exact_op =
    Copy | Add | Sub | UnsignedCarry | SignedCarry | SignedBorrow | TwosComplement | BitwiseNegate
  | Xor | And | Or | Equal | NotEqual | UnsignedLess | UnsignedLessEqual | SignedLess
  | SignedLessEqual | ZeroExtend | SignExtend | ShiftLeft | LogicalShiftRight
  | ArithmeticShiftRight | Multiply | UnsignedDivide | SignedDivide | UnsignedRemainder
  | SignedRemainder | BooleanNegate | BooleanXor | BooleanAnd | BooleanOr | FloatEqual
  | FloatNotEqual | FloatLess | FloatLessEqual | FloatNan | Piece | Subpiece | PopCount
  | LeadingZeroCount | PackSignedWordsToBytes

datatype pcode_opaque_class =
  MemoryRead | MemoryWrite | ControlTransfer | UserOperation | UnmodelledValue | UnknownEffect

datatype pcode_effect =
    Assign (ef_operation: pcode_exact_op) (ef_result_width_bits: u32)
  | Opaque (ef_class: pcode_opaque_class) (ef_reason: string) (ef_may_read_memory: bool)
      (ef_may_write_memory: bool) (ef_may_change_control: bool) (ef_may_write_output: bool)

record pcode_semantic_operation =
  so_source :: pcode_operation
  so_effect :: pcode_effect

record pcode_semantic_instruction =
  si_address :: pcode_address
  si_bytes :: string
  si_parsed_bytes :: string
  si_mnemonic :: string
  si_operations :: "pcode_semantic_operation list"

record pcode_diagnostic =
  dg_code :: string
  dg_message :: string
  dg_source_address :: pcode_address
  dg_sequence_index :: u32

record pcode_semantic_function_ir =
  se_schema_version :: u32
  se_binary_sha256 :: string
  se_source :: string
  se_entry :: pcode_address
  se_name :: string
  se_ghidra_version :: string
  se_language_id :: string
  se_compiler_spec_id :: string
  se_flow_overrides_applied :: bool
  se_address_spaces :: "ghidra_address_space list"
  se_instructions :: "pcode_semantic_instruction list"
  se_semantic_fidelity :: semantic_fidelity
  se_verification :: verification_status
  se_diagnostics :: "pcode_diagnostic list"

section \<open>\<^verbatim>\<open>lower_operation\<close>\<close>

definition exact_opcode :: "u32 \<Rightarrow> (pcode_exact_op \<times> string) option" where
  "exact_opcode opcode = map_of
    [(1, (Copy, ''COPY'')), (11, (Equal, ''INT_EQUAL'')), (12, (NotEqual, ''INT_NOTEQUAL'')),
     (13, (SignedLess, ''INT_SLESS'')), (14, (SignedLessEqual, ''INT_SLESSEQUAL'')),
     (15, (UnsignedLess, ''INT_LESS'')), (16, (UnsignedLessEqual, ''INT_LESSEQUAL'')),
     (17, (ZeroExtend, ''INT_ZEXT'')), (18, (SignExtend, ''INT_SEXT'')), (19, (Add, ''INT_ADD'')),
     (20, (Sub, ''INT_SUB'')), (21, (UnsignedCarry, ''INT_CARRY'')),
     (22, (SignedCarry, ''INT_SCARRY'')), (23, (SignedBorrow, ''INT_SBORROW'')),
     (24, (TwosComplement, ''INT_2COMP'')), (25, (BitwiseNegate, ''INT_NEGATE'')),
     (26, (Xor, ''INT_XOR'')), (27, (And, ''INT_AND'')), (28, (Or, ''INT_OR'')),
     (29, (ShiftLeft, ''INT_LEFT'')), (30, (LogicalShiftRight, ''INT_RIGHT'')),
     (31, (ArithmeticShiftRight, ''INT_SRIGHT'')), (32, (Multiply, ''INT_MULT'')),
     (33, (UnsignedDivide, ''INT_DIV'')), (34, (SignedDivide, ''INT_SDIV'')),
     (35, (UnsignedRemainder, ''INT_REM'')), (36, (SignedRemainder, ''INT_SREM'')),
     (37, (BooleanNegate, ''BOOL_NEGATE'')), (38, (BooleanXor, ''BOOL_XOR'')),
     (39, (BooleanAnd, ''BOOL_AND'')), (40, (BooleanOr, ''BOOL_OR'')),
     (41, (FloatEqual, ''FLOAT_EQUAL'')), (42, (FloatNotEqual, ''FLOAT_NOTEQUAL'')),
     (43, (FloatLess, ''FLOAT_LESS'')), (44, (FloatLessEqual, ''FLOAT_LESSEQUAL'')),
     (46, (FloatNan, ''FLOAT_NAN'')), (62, (Piece, ''PIECE'')), (63, (Subpiece, ''SUBPIECE'')),
     (72, (PopCount, ''POPCOUNT'')), (73, (LeadingZeroCount, ''LZCOUNT''))] opcode"

fun opaque_flags :: "pcode_opaque_class \<Rightarrow> bool \<times> bool \<times> bool" where
  \<comment> \<open>may read memory, may write memory, may change control\<close>
  "opaque_flags MemoryRead = (True, False, False)"
| "opaque_flags MemoryWrite = (False, True, False)"
| "opaque_flags ControlTransfer = (True, True, True)"
| "opaque_flags UserOperation = (True, True, True)"
| "opaque_flags UnknownEffect = (True, True, True)"
| "opaque_flags UnmodelledValue = (False, False, False)"

definition opaque :: "pcode_opaque_class \<Rightarrow> string \<Rightarrow> bool \<Rightarrow> pcode_effect" where
  "opaque class reason may_write_output =
     (let (r, w, c) = opaque_flags class in Opaque class reason r w c may_write_output)"

definition scalar_space :: "string \<Rightarrow> bool" where
  "scalar_space sp = (sp = ''register'' \<or> sp = ''unique'')"

definition operand_space :: "string \<Rightarrow> bool" where
  "operand_space sp = (scalar_space sp \<or> sp = ''const'')"

definition size_in :: "u32 \<Rightarrow> u32 \<Rightarrow> u32 \<Rightarrow> bool" where
  \<comment> \<open>\<^verbatim>\<open>(lo..=hi).contains(&size)\<close>\<close>
  "size_in lo hi n = (lo \<le> n \<and> n \<le> hi)"

definition packsswb_valid :: "pcode_operation \<Rightarrow> bool" where
  "packsswb_valid s =
     ((case op_output s of None \<Rightarrow> False | Some out \<Rightarrow> vn_size out = 16 \<and> scalar_space (vn_space out)) \<and>
      length (op_inputs s) = 3 \<and>
      vn_space (op_inputs s ! 0) = ''const'' \<and> size_in 1 8 (vn_size (op_inputs s ! 0)) \<and>
      list_all (\<lambda>v. vn_size v = 16 \<and> scalar_space (vn_space v)) (tl (op_inputs s)))"

definition subpiece_valid :: "pcode_operation \<Rightarrow> pcode_varnode \<Rightarrow> bool" where
  "subpiece_valid s out =
     (length (op_inputs s) = 2 \<and> vn_space (op_inputs s ! 1) = ''const'' \<and>
      (case Option.bind (to_option (hex_u64 (vn_offset (op_inputs s ! 1))))
              (\<lambda>dropped. checked_add dropped (ucast (vn_size out))) of
         None \<Rightarrow> False
       | Some stop \<Rightarrow> stop \<le> ucast (vn_size (op_inputs s ! 0))))"

fun widths_valid :: "pcode_exact_op \<Rightarrow> pcode_operation \<Rightarrow> pcode_varnode \<Rightarrow> u32 list \<Rightarrow> bool" where
  "widths_valid Copy s out sizes = (sizes = [vn_size out])"
| "widths_valid TwosComplement s out sizes = (sizes = [vn_size out])"
| "widths_valid BitwiseNegate s out sizes = (sizes = [vn_size out])"
| "widths_valid BooleanNegate s out sizes = (vn_size out = 1 \<and> sizes = [1])"
| "widths_valid BooleanXor s out sizes = (vn_size out = 1 \<and> sizes = [1, 1])"
| "widths_valid BooleanAnd s out sizes = (vn_size out = 1 \<and> sizes = [1, 1])"
| "widths_valid BooleanOr s out sizes = (vn_size out = 1 \<and> sizes = [1, 1])"
| "widths_valid FloatEqual s out sizes = (vn_size out = 1 \<and> (sizes = [4, 4] \<or> sizes = [8, 8]))"
| "widths_valid FloatNotEqual s out sizes = (vn_size out = 1 \<and> (sizes = [4, 4] \<or> sizes = [8, 8]))"
| "widths_valid FloatLess s out sizes = (vn_size out = 1 \<and> (sizes = [4, 4] \<or> sizes = [8, 8]))"
| "widths_valid FloatLessEqual s out sizes = (vn_size out = 1 \<and> (sizes = [4, 4] \<or> sizes = [8, 8]))"
| "widths_valid FloatNan s out sizes = (vn_size out = 1 \<and> (sizes = [4] \<or> sizes = [8]))"
| "widths_valid Piece s out sizes = (length sizes = 2 \<and> sizes ! 0 + sizes ! 1 = vn_size out)"
| "widths_valid Subpiece s out sizes = subpiece_valid s out"
| "widths_valid PopCount s out sizes = (length sizes = 1)"
| "widths_valid LeadingZeroCount s out sizes = (length sizes = 1)"
| "widths_valid ZeroExtend s out sizes = (length sizes = 1 \<and> sizes ! 0 < vn_size out)"
| "widths_valid SignExtend s out sizes = (length sizes = 1 \<and> sizes ! 0 < vn_size out)"
| "widths_valid ShiftLeft s out sizes = (length sizes = 2 \<and> sizes ! 0 = vn_size out)"
| "widths_valid LogicalShiftRight s out sizes = (length sizes = 2 \<and> sizes ! 0 = vn_size out)"
| "widths_valid ArithmeticShiftRight s out sizes = (length sizes = 2 \<and> sizes ! 0 = vn_size out)"
| "widths_valid opn s out sizes =
     (if opn \<in> {Equal, NotEqual, UnsignedLess, UnsignedLessEqual, SignedLess, SignedLessEqual,
                UnsignedCarry, SignedCarry, SignedBorrow}
      then length sizes = 2 \<and> sizes ! 0 = sizes ! 1 \<and> vn_size out = 1
      else sizes = [vn_size out, vn_size out])"

definition lower_exact ::
  "pcode_operation \<Rightarrow> pcode_exact_op \<Rightarrow> string \<Rightarrow> pcode_effect" where
  "lower_exact s operation expected_mnemonic =
     (if op_mnemonic s \<noteq> expected_mnemonic
        then opaque UnknownEffect (''opcode '' @ fmt_dec (unat (op_opcode s)) @ '' expects mnemonic '' @
          expected_mnemonic) (op_output s \<noteq> None)
      else
        case op_output s of
          None \<Rightarrow> opaque UnknownEffect ''value operation has no output'' False
        | Some out \<Rightarrow>
            if \<not> scalar_space (vn_space out)
              then opaque UnknownEffect (''output address space '' @ vn_space out @
                '' lacks exact state semantics'') True
            else if list_ex (\<lambda>v. \<not> operand_space (vn_space v)) (op_inputs s)
              then (if operation = Copy \<and> length (op_inputs s) = 1 \<and>
                       vn_size (op_inputs s ! 0) = vn_size out
                    then opaque MemoryRead
                      ''direct address-space COPY requires fully known concrete bytes'' True
                    else opaque UnknownEffect ''input address space lacks exact state semantics'' True)
            else if vn_size out = 0 \<or> vn_size out > 16
              then opaque UnmodelledValue ''output must be a varnode of 1..=16 bytes'' True
            else if list_ex (\<lambda>v. vn_size v = 0 \<or> vn_size v > 16) (op_inputs s)
              then opaque UnmodelledValue ''input exceeds supported 1..=16 byte bitvector width'' True
            else if \<not> widths_valid operation s out (map vn_size (op_inputs s))
              then opaque UnmodelledValue (''invalid '' @ expected_mnemonic @
                '' input/output widths or arity'') True
            else Assign operation (vn_size out * 8))"

definition lower_operation :: "pcode_operation \<Rightarrow> pcode_effect" where
  "lower_operation s =
     (if op_opcode s = 9 \<and> op_mnemonic s = ''CALLOTHER'' \<and> op_userop_name s = Some ''packsswb''
      then (if packsswb_valid s then Assign PackSignedWordsToBytes 128
            else opaque UserOperation
              ''packsswb requires two 128-bit register or unique inputs and output''
              (op_output s \<noteq> None))
      else
        case exact_opcode (op_opcode s) of
          Some (operation, expected_mnemonic) \<Rightarrow> lower_exact s operation expected_mnemonic
        | None \<Rightarrow>
            if op_opcode s = 2
              then opaque MemoryRead ''LOAD address-space and pointer semantics are not lowered''
                (op_output s \<noteq> None)
            else if op_opcode s = 3
              then opaque MemoryWrite ''STORE address-space and pointer semantics are not lowered''
                (op_output s \<noteq> None)
            else if (4 \<le> op_opcode s \<and> op_opcode s \<le> 8) \<or> op_opcode s = 10
              then opaque ControlTransfer ''control transfer is retained without CFG edges''
                (op_output s \<noteq> None)
            else if op_opcode s = 9
              then opaque UserOperation ''CALLOTHER requires its user operation definition''
                (op_output s \<noteq> None)
            else opaque UnknownEffect ''P-code operation has no validated Rust semantics yet''
                (op_output s \<noteq> None))"

end
