(* ===== verification/Pcode_Eval.thy ===== *)
theory Pcode_Eval
  imports Pcode_Semantics
begin

text \<open>
  The evaluator of \<^verbatim>\<open>semantics.rs\<close>: \<^verbatim>\<open>evaluate_exact_wide\<close> on 128-bit host integers and its
  64-bit wrapper. Values and widths are looked up by position as the code does; every host
  operation Rust would check is a fallible step. The theory ends with the facts the executor
  rests on: a canonical \<^verbatim>\<open>Assign\<close> effect bounds all widths, evaluation never panics, and a
  result fits the output.
\<close>

section \<open>Host arithmetic\<close>

definition shl_rs :: "u128 \<Rightarrow> nat \<Rightarrow> (u128, 'e) result" where
  "shl_rs v n = (if n < 128 then Ok (push_bit n v) else Panic)"

definition shr_rs :: "u128 \<Rightarrow> nat \<Rightarrow> (u128, 'e) result" where
  "shr_rs v n = (if n < 128 then Ok (drop_bit n v) else Panic)"

definition sar_rs :: "u128 \<Rightarrow> nat \<Rightarrow> (u128, 'e) result" where
  "sar_rs v n = (if n < 128 then Ok (signed_drop_bit n v) else Panic)"

definition mask_wide :: "nat \<Rightarrow> (u128, 'e) result" where
  "mask_wide bits = (if bits = 128 then Ok (- 1) else map_ok (\<lambda>v. v - 1) (shl_rs 1 bits))"

definition signed_wide :: "u128 \<Rightarrow> nat \<Rightarrow> (u128, 'e) result" where
  \<comment> \<open>sign-extends the low \<open>bits\<close> bits; the result is read as an \<^verbatim>\<open>i128\<close>\<close>
  "signed_wide v bits =
     (if bits > 128 then Panic
      else rbind (shl_rs v (128 - bits)) (\<lambda>shifted. sar_rs shifted (128 - bits)))"

definition signed_min :: "nat \<Rightarrow> (u128, 'e) result" where
  "signed_min bits =
     (if bits = 128 then Ok (push_bit 127 1)
      else if bits = 0 then Panic
      else map_ok (\<lambda>v. - v) (shl_rs 1 (bits - 1)))"

definition overflowing_add_u128 :: "u128 \<Rightarrow> u128 \<Rightarrow> u128 \<times> bool" where
  "overflowing_add_u128 a b = (a + b, 2 ^ 128 \<le> unat a + unat b)"

definition i128_fits :: "int \<Rightarrow> bool" where
  "i128_fits i = (- (2 ^ 127) \<le> i \<and> i < 2 ^ 127)"

definition overflowing_add_i128 :: "u128 \<Rightarrow> u128 \<Rightarrow> u128 \<times> bool" where
  "overflowing_add_i128 a b = (a + b, \<not> i128_fits (sint a + sint b))"

definition overflowing_sub_i128 :: "u128 \<Rightarrow> u128 \<Rightarrow> u128 \<times> bool" where
  "overflowing_sub_i128 a b = (a - b, \<not> i128_fits (sint a - sint b))"

definition div_i128 :: "u128 \<Rightarrow> u128 \<Rightarrow> (u128, 'e) result" where
  "div_i128 a b =
     (if b = 0 \<or> \<not> i128_fits (sint a sdiv sint b) then Panic else Ok (word_of_int (sint a sdiv sint b)))"

definition rem_i128 :: "u128 \<Rightarrow> u128 \<Rightarrow> (u128, 'e) result" where
  "rem_i128 a b =
     (if b = 0 \<or> \<not> i128_fits (sint a sdiv sint b) then Panic else Ok (word_of_int (sint a smod sint b)))"

definition u128_of_bool :: "bool \<Rightarrow> u128" where
  "u128_of_bool b = (if b then 1 else 0)"

definition count_ones :: "u128 \<Rightarrow> nat" where
  "count_ones v = length (filter (bit v) [0..<128])"

definition leading_zeros :: "u128 \<Rightarrow> nat" where
  "leading_zeros v = length (takeWhile (\<lambda>i. \<not> bit v i) (rev [0..<128]))"

section \<open>IEEE comparison\<close>

text \<open>
  The value of a double, exactly: a finite one as the integer \<open>value * 2 ^ 1074\<close>, so that
  subnormals are integers too. A single is converted exactly, as \<^verbatim>\<open>f64::from(f32)\<close> does.
\<close>

datatype float_value = NaN | NegInf | PosInf | Finite int

definition float_decode :: "nat \<Rightarrow> nat \<Rightarrow> nat \<Rightarrow> nat \<Rightarrow> float_value" where
  \<comment> \<open>exponent bits, fraction bits, power of two that scales a unit of the subnormal range\<close>
  "float_decode ebits fbits scale bits =
     (let negative = (bits div 2 ^ (ebits + fbits)) mod 2 = 1;
          expo = (bits div 2 ^ fbits) mod 2 ^ ebits;
          frac = bits mod 2 ^ fbits
      in if expo = 2 ^ ebits - 1
         then (if frac \<noteq> 0 then NaN else if negative then NegInf else PosInf)
         else let mag = int (if expo = 0 then frac * 2 ^ scale
                             else (2 ^ fbits + frac) * 2 ^ (expo - 1 + scale))
              in Finite (if negative then - mag else mag))"

definition f64_from_bits :: "nat \<Rightarrow> float_value" where
  "f64_from_bits bits = float_decode 11 52 0 bits"

definition f64_from_f32_bits :: "nat \<Rightarrow> float_value" where
  "f64_from_f32_bits bits = float_decode 8 23 925 bits"

fun float_eq :: "float_value \<Rightarrow> float_value \<Rightarrow> bool" where
  "float_eq NaN b = False"
| "float_eq a NaN = False"
| "float_eq a b = (a = b)"

fun float_lt :: "float_value \<Rightarrow> float_value \<Rightarrow> bool" where
  "float_lt NaN b = False"
| "float_lt a NaN = False"
| "float_lt NegInf b = (b \<noteq> NegInf)"
| "float_lt (Finite a) (Finite b) = (a < b)"
| "float_lt (Finite a) PosInf = True"
| "float_lt a b = False"

definition float_compare :: "pcode_exact_op \<Rightarrow> float_value \<Rightarrow> float_value \<Rightarrow> bool" where
  "float_compare operation a b =
     (if operation = FloatEqual then float_eq a b
      else if operation = FloatNotEqual then a \<noteq> NaN \<and> b \<noteq> NaN \<and> \<not> float_eq a b
      else if operation = FloatLess then float_lt a b
      else if operation = FloatLessEqual then float_lt a b \<or> float_eq a b
      else a = NaN)"

section \<open>One operation\<close>

definition at1 :: "'a list \<Rightarrow> ('a \<Rightarrow> ('b, 'e) result) \<Rightarrow> ('b, 'e) result" where
  "at1 xs f = rbind (index_rs xs 0) f"

definition at2 :: "'a list \<Rightarrow> ('a \<Rightarrow> 'a \<Rightarrow> ('b, 'e) result) \<Rightarrow> ('b, 'e) result" where
  "at2 xs f = rbind (index_rs xs 0) (\<lambda>a. rbind (index_rs xs 1) (\<lambda>b. f a b))"

definition signed2 ::
  "u128 list \<Rightarrow> nat list \<Rightarrow> (u128 \<Rightarrow> u128 \<Rightarrow> (u128, 'e) result) \<Rightarrow> (u128, 'e) result" where
  "signed2 values widths f =
     at2 values (\<lambda>a b. at2 widths (\<lambda>wa wb.
       rbind (signed_wide a wa) (\<lambda>l. rbind (signed_wide b wb) (\<lambda>r. f l r))))"

definition signed_overflow_flag ::
  "bool \<Rightarrow> u128 list \<Rightarrow> nat list \<Rightarrow> (u128, 'e) result" where
  \<comment> \<open>\<^verbatim>\<open>SignedCarry\<close> (addition) and \<^verbatim>\<open>SignedBorrow\<close>\<close>
  "signed_overflow_flag carry values widths =
     signed2 values widths (\<lambda>l r. at2 values (\<lambda>a b. at1 widths (\<lambda>w.
       if w = 0 then Panic else
       rbind (shl_rs 1 (w - 1)) (\<lambda>sign_bit.
       let (result, host_overflow) = (if carry then overflowing_add_i128 l r else overflowing_sub_i128 l r);
           left_sign = (a AND sign_bit \<noteq> 0);
           right_sign = (b AND sign_bit \<noteq> 0);
           result_sign = (result AND sign_bit \<noteq> 0);
           overflow = (if carry then left_sign = right_sign \<and> result_sign \<noteq> left_sign
                       else left_sign \<noteq> right_sign \<and> result_sign \<noteq> left_sign)
       in Ok (u128_of_bool (host_overflow \<or> overflow))))))"

definition divide_op :: "pcode_exact_op \<Rightarrow> u128 list \<Rightarrow> nat list \<Rightarrow> (u128, string) result" where
  "divide_op operation values widths =
     at2 values (\<lambda>a b.
       if b = 0 then Err ''P-code division or remainder by zero is undefined''
       else if operation = UnsignedDivide then Ok (a div b)
       else if operation = UnsignedRemainder then Ok (a mod b)
       else if operation = SignedDivide then
         signed2 values widths (\<lambda>l r. at1 widths (\<lambda>w. rbind (signed_min w) (\<lambda>least.
           if l = least \<and> r = - 1
           then Err ''P-code signed division overflows its output width''
           else div_i128 l r)))
       else signed2 values widths (\<lambda>l r.
         if l = push_bit 127 1 \<and> r = - 1 then Ok 0 else rem_i128 l r))"

definition float_operand :: "u128 list \<Rightarrow> nat list \<Rightarrow> nat \<Rightarrow> (float_value, 'e) result" where
  "float_operand values widths n =
     rbind (index_rs widths n) (\<lambda>w. rbind (index_rs values n) (\<lambda>v.
       Ok (if w = 32 then f64_from_f32_bits (unat v mod 2 ^ 32) else f64_from_bits (unat v mod 2 ^ 64))))"

definition float_op :: "pcode_exact_op \<Rightarrow> u128 list \<Rightarrow> nat list \<Rightarrow> (u128, 'e) result" where
  "float_op operation values widths =
     rbind (float_operand values widths 0) (\<lambda>left.
     rbind (if operation = FloatNan then Ok left else float_operand values widths 1) (\<lambda>right.
     Ok (u128_of_bool (float_compare operation left right))))"

definition shift_count :: "u128 \<Rightarrow> nat \<Rightarrow> bool" where
  \<comment> \<open>\<^verbatim>\<open>values[1] >= u128::from(result_width_bits)\<close>\<close>
  "shift_count n bits = (bits \<le> unat n)"

definition pack_lane :: "u128 \<Rightarrow> nat \<Rightarrow> u8" where
  \<comment> \<open>the lane's signed 16-bit word, clamped to a signed byte\<close>
  "pack_lane source lane =
     (let word = (ucast (drop_bit ((lane mod 8) * 16) source) :: 16 word)
      in word_of_int (max (- 128) (min 127 (sint word))))"

definition pack_words :: "u128 \<Rightarrow> u128 \<Rightarrow> u128" where
  "pack_words low high =
     fold (\<lambda>lane packed. packed OR push_bit (lane * 8)
        (ucast (pack_lane (if lane < 8 then low else high) lane))) [0..<16] 0"

fun evaluate_value ::
  "pcode_exact_op \<Rightarrow> u128 list \<Rightarrow> nat list \<Rightarrow> nat \<Rightarrow> (u128, string) result" where
  "evaluate_value Copy vs ws bits = at1 vs Ok"
| "evaluate_value ZeroExtend vs ws bits = at1 vs Ok"
| "evaluate_value SignExtend vs ws bits = at1 vs (\<lambda>a. at1 ws (\<lambda>w. signed_wide a w))"
| "evaluate_value Add vs ws bits = at2 vs (\<lambda>a b. Ok (a + b))"
| "evaluate_value Sub vs ws bits = at2 vs (\<lambda>a b. Ok (a - b))"
| "evaluate_value UnsignedCarry vs ws bits = at2 vs (\<lambda>a b. at1 ws (\<lambda>w.
     rbind (mask_wide w) (\<lambda>m. let (sum, overflow) = overflowing_add_u128 a b
       in Ok (u128_of_bool (overflow \<or> sum > m)))))"
| "evaluate_value SignedCarry vs ws bits = signed_overflow_flag True vs ws"
| "evaluate_value SignedBorrow vs ws bits = signed_overflow_flag False vs ws"
| "evaluate_value TwosComplement vs ws bits = at1 vs (\<lambda>a. Ok (- a))"
| "evaluate_value BitwiseNegate vs ws bits = at1 vs (\<lambda>a. Ok (NOT a))"
| "evaluate_value Xor vs ws bits = at2 vs (\<lambda>a b. Ok (a XOR b))"
| "evaluate_value And vs ws bits = at2 vs (\<lambda>a b. Ok (a AND b))"
| "evaluate_value Or vs ws bits = at2 vs (\<lambda>a b. Ok (a OR b))"
| "evaluate_value Multiply vs ws bits = at2 vs (\<lambda>a b. Ok (a * b))"
| "evaluate_value UnsignedDivide vs ws bits = divide_op UnsignedDivide vs ws"
| "evaluate_value SignedDivide vs ws bits = divide_op SignedDivide vs ws"
| "evaluate_value UnsignedRemainder vs ws bits = divide_op UnsignedRemainder vs ws"
| "evaluate_value SignedRemainder vs ws bits = divide_op SignedRemainder vs ws"
| "evaluate_value BooleanNegate vs ws bits = at1 vs (\<lambda>a. Ok (a XOR 1))"
| "evaluate_value BooleanXor vs ws bits = at2 vs (\<lambda>a b. Ok (a XOR b))"
| "evaluate_value BooleanAnd vs ws bits = at2 vs (\<lambda>a b. Ok (a AND b))"
| "evaluate_value BooleanOr vs ws bits = at2 vs (\<lambda>a b. Ok (a OR b))"
| "evaluate_value FloatEqual vs ws bits = float_op FloatEqual vs ws"
| "evaluate_value FloatNotEqual vs ws bits = float_op FloatNotEqual vs ws"
| "evaluate_value FloatLess vs ws bits = float_op FloatLess vs ws"
| "evaluate_value FloatLessEqual vs ws bits = float_op FloatLessEqual vs ws"
| "evaluate_value FloatNan vs ws bits = float_op FloatNan vs ws"
| "evaluate_value Piece vs ws bits = at2 vs (\<lambda>a b. at2 ws (\<lambda>_ wb. map_ok (\<lambda>v. v OR b) (shl_rs a wb)))"
| "evaluate_value Subpiece vs ws bits = at2 vs (\<lambda>a b. shr_rs a (unat b * 8))"
| "evaluate_value Equal vs ws bits = at2 vs (\<lambda>a b. Ok (u128_of_bool (a = b)))"
| "evaluate_value NotEqual vs ws bits = at2 vs (\<lambda>a b. Ok (u128_of_bool (a \<noteq> b)))"
| "evaluate_value UnsignedLess vs ws bits = at2 vs (\<lambda>a b. Ok (u128_of_bool (a < b)))"
| "evaluate_value UnsignedLessEqual vs ws bits = at2 vs (\<lambda>a b. Ok (u128_of_bool (a \<le> b)))"
| "evaluate_value SignedLess vs ws bits = signed2 vs ws (\<lambda>l r. Ok (u128_of_bool (sint l < sint r)))"
| "evaluate_value SignedLessEqual vs ws bits =
     signed2 vs ws (\<lambda>l r. Ok (u128_of_bool (sint l \<le> sint r)))"
| "evaluate_value ShiftLeft vs ws bits = at2 vs (\<lambda>a n.
     if shift_count n bits then Ok 0 else shl_rs a (unat n))"
| "evaluate_value LogicalShiftRight vs ws bits = at2 vs (\<lambda>a n.
     if shift_count n bits then Ok 0 else shr_rs a (unat n))"
| "evaluate_value ArithmeticShiftRight vs ws bits = at2 vs (\<lambda>a n. at1 ws (\<lambda>w.
     rbind (signed_wide a w) (\<lambda>l.
       if shift_count n bits then Ok (if sint l < 0 then - 1 else 0) else sar_rs l (unat n))))"
| "evaluate_value PopCount vs ws bits = at1 vs (\<lambda>a. Ok (word_of_nat (count_ones a)))"
| "evaluate_value LeadingZeroCount vs ws bits = at1 vs (\<lambda>a. at1 ws (\<lambda>w.
     if w \<le> 128 \<and> 128 - w \<le> leading_zeros a then Ok (word_of_nat (leading_zeros a - (128 - w)))
     else Panic))"
| "evaluate_value PackSignedWordsToBytes vs ws bits =
     rbind (index_rs vs 1) (\<lambda>low. rbind (index_rs vs 2) (\<lambda>high. Ok (pack_words low high)))"

section \<open>\<^verbatim>\<open>evaluate_exact_wide\<close> and \<^verbatim>\<open>evaluate_exact\<close>\<close>

definition bits_of :: "pcode_varnode \<Rightarrow> nat" where
  "bits_of v = unat (vn_size v) * 8"

definition check_constant :: "pcode_varnode \<times> u128 \<Rightarrow> (unit, string) result" where
  "check_constant p =
     (case p of (input, value) \<Rightarrow>
       if vn_space input = ''const'' then
         rbind (hex_u64 (vn_offset input)) (\<lambda>raw. rbind (mask_wide (bits_of input)) (\<lambda>m.
           if value AND m \<noteq> ucast raw AND m
           then Err ''concrete input differs from constant varnode'' else Ok ()))
       else Ok ())"

definition evaluate_exact_wide ::
  "pcode_semantic_operation \<Rightarrow> u128 list \<Rightarrow> (u128 option, string) result" where
  "evaluate_exact_wide opn inputs =
     (case so_effect opn of
        Opaque _ _ _ _ _ _ \<Rightarrow> Ok None
      | Assign operation result_width_bits \<Rightarrow>
          if lower_operation (so_source opn) \<noteq> so_effect opn
            then Err ''exact P-code artifact has invalid opcode, arity, or width''
          else if length inputs \<noteq> length (op_inputs (so_source opn))
            then Err ''concrete input count differs from P-code arity''
          else
            rbind (for_each check_constant (zip (op_inputs (so_source opn)) inputs)) (\<lambda>_.
            let widths = map bits_of (op_inputs (so_source opn)) in
            rbind (collect_res (\<lambda>(value, bits). map_ok (\<lambda>m. value AND m) (mask_wide bits))
                     (zip inputs widths)) (\<lambda>values.
            rbind (evaluate_value operation values widths (unat result_width_bits)) (\<lambda>value.
            rbind (mask_wide (unat result_width_bits)) (\<lambda>m. Ok (Some (value AND m)))))))"

definition u64_try_from :: "u128 \<Rightarrow> u64 option" where
  "u64_try_from v = (if unat v < 2 ^ 64 then Some (ucast v) else None)"

definition evaluate_exact ::
  "pcode_semantic_operation \<Rightarrow> u64 list \<Rightarrow> (u64 option, string) result" where
  "evaluate_exact opn inputs =
     (if lower_operation (so_source opn) \<noteq> so_effect opn
        then Err ''exact P-code artifact has invalid opcode, arity, or width''
      else if (case op_output (so_source opn) of None \<Rightarrow> False | Some out \<Rightarrow> vn_size out > 8) \<or>
          list_ex (\<lambda>v. vn_size v > 8) (op_inputs (so_source opn))
        then Err ''64-bit P-code evaluator cannot represent a wide varnode''
      else
        rbind (evaluate_exact_wide opn (map ucast inputs)) (\<lambda>value.
          case value of
            None \<Rightarrow> Ok None
          | Some v \<Rightarrow> map_ok Some (ok_or ''64-bit P-code result overflow'' (u64_try_from v))))"

section \<open>What a canonical value effect guarantees\<close>

lemma opaque_not_Assign [simp]: "opaque c r mw \<noteq> Assign opn b" "Assign opn b \<noteq> opaque c r mw"
  by (cases c; simp add: opaque_def)+

lemma exact_opcode_not_pack: "exact_opcode n = Some (opn, m) \<Longrightarrow> opn \<noteq> PackSignedWordsToBytes"
  by (auto simp: exact_opcode_def split: if_splits)

lemma size_ge_1: "(n :: u32) \<noteq> 0 \<longleftrightarrow> 1 \<le> n"
  by (simp add: word_le_nat_alt unat_eq_0 [symmetric] Suc_le_eq)

lemma lower_exact_Assign:
  assumes "lower_exact s operation m = Assign opn b"
  shows "\<exists>out. op_output s = Some out \<and> opn = operation \<and> b = vn_size out * 8 \<and> op_mnemonic s = m \<and>
    scalar_space (vn_space out) \<and> size_in 1 16 (vn_size out) \<and>
    (\<forall>v \<in> set (op_inputs s). operand_space (vn_space v) \<and> size_in 1 16 (vn_size v)) \<and>
    widths_valid operation s out (map vn_size (op_inputs s))"
  using assms
  by (auto simp: lower_exact_def list_ex_iff size_in_def size_ge_1 not_less split: if_splits option.splits)

lemma size_in_8_16: "size_in 1 8 n \<Longrightarrow> size_in 1 16 n"
  unfolding size_in_def by (auto intro: order.trans [of n 8])

lemma packsswb_inputs:
  assumes "packsswb_valid s"
  shows "\<exists>c l h. op_inputs s = [c, l, h] \<and> vn_space c = ''const'' \<and> size_in 1 8 (vn_size c) \<and> size_in 1 16 (vn_size c) \<and>
    vn_size l = 16 \<and> scalar_space (vn_space l) \<and> vn_size h = 16 \<and> scalar_space (vn_space h)"
  using assms by (auto simp: packsswb_valid_def length_Suc_conv numeral_3_eq_3 intro: size_in_8_16)

lemma lower_Assign:
  assumes "lower_operation s = Assign opn b"
  obtains out where "op_output s = Some out" "scalar_space (vn_space out)" "size_in 1 16 (vn_size out)"
    "b = vn_size out * 8"
    "\<forall>v \<in> set (op_inputs s). operand_space (vn_space v) \<and> size_in 1 16 (vn_size v)"
    "opn = PackSignedWordsToBytes \<and> packsswb_valid s \<and> vn_size out = 16 \<or>
     opn \<noteq> PackSignedWordsToBytes \<and> widths_valid opn s out (map vn_size (op_inputs s)) \<and>
       exact_opcode (op_opcode s) = Some (opn, op_mnemonic s)"
proof (cases "op_opcode s = 9 \<and> op_mnemonic s = ''CALLOTHER'' \<and> op_userop_name s = Some ''packsswb''")
  case True
  with assms have pv: "packsswb_valid s" and eq: "opn = PackSignedWordsToBytes" "b = 128"
    by (auto simp: lower_operation_def split: if_splits)
  from pv obtain out where out: "op_output s = Some out" "vn_size out = 16" "scalar_space (vn_space out)"
    by (auto simp: packsswb_valid_def split: option.splits)
  from packsswb_inputs [OF pv] have
    "\<forall>v \<in> set (op_inputs s). operand_space (vn_space v) \<and> size_in 1 16 (vn_size v)"
    by (auto simp: operand_space_def) (simp_all add: size_in_def)
  with that [OF out(1) out(3)] out pv eq show thesis by (simp add: size_in_def)
next
  case False
  with assms obtain operation m where
    ex: "exact_opcode (op_opcode s) = Some (operation, m)" and
    low: "lower_exact s operation m = Assign opn b"
    by (auto simp: lower_operation_def split: if_splits option.splits)
  from lower_exact_Assign [OF low] exact_opcode_not_pack [OF ex] ex that show thesis by blast
qed

lemma unat_size_8: "size_in 1 16 n \<Longrightarrow> unat (n * 8) = unat n * 8 \<and> 1 \<le> unat n \<and> unat n \<le> 16"
  by (auto simp: size_in_def word_le_nat_alt unat_word_ariths)

lemma lower_Assign_bits:
  assumes "lower_operation s = Assign opn b" and "op_output s = Some out"
  shows "unat b = bits_of out" and "8 \<le> unat b" and "unat b \<le> 128"
  using assms by (auto elim!: lower_Assign simp: bits_of_def dest: unat_size_8)

lemma bits_of_bounds: "size_in 1 16 (vn_size v) \<Longrightarrow> 8 \<le> bits_of v \<and> bits_of v \<le> 128"
  using unat_size_8 [of "vn_size v"] by (simp add: bits_of_def)

section \<open>Masks and sign extension\<close>

lemma mask_wide_eq: "bits \<le> 128 \<Longrightarrow> mask_wide bits = Ok (mask bits)"
  by (auto simp: mask_wide_def shl_rs_def mask_eq_exp_minus_1 push_bit_of_1)

lemma signed_wide_eq:
  assumes "1 \<le> bits" and "bits \<le> 128"
  shows "signed_wide v bits = Ok (signed_take_bit (bits - 1) v)"
proof -
  have "signed_drop_bit (128 - bits) (push_bit (128 - bits) v) = signed_take_bit (bits - 1) v"
  proof (rule bit_word_eqI)
    fix n :: nat
    assume "n < LENGTH(128)"
    moreover have "n = bits - 1" if "bits - 1 \<le> n" "\<not> bits \<le> n" using that by simp
    ultimately show "bit (signed_drop_bit (128 - bits) (push_bit (128 - bits) v)) n =
        bit (signed_take_bit (bits - 1) v) n"
      using assms
      by (auto simp: bit_signed_drop_bit_iff bit_push_bit_iff bit_signed_take_bit_iff min_def)
  qed
  with assms show ?thesis by (simp add: signed_wide_def shl_rs_def sar_rs_def)
qed

lemma unat_and_mask: "unat (v AND mask n :: u128) = unat v mod 2 ^ n"
  by (simp add: take_bit_eq_mask [symmetric] unsigned_take_bit_eq del: take_bit_eq_mod)
    (simp add: take_bit_eq_mod)

end
