(* ===== verification/Pcode_EvalSpec.thy ===== *)
theory Pcode_EvalSpec
  imports Pcode_Eval
begin

text \<open>
  The mathematical contract of the scalar evaluator. \<open>spec_value\<close> gives the integer each exact
  P-code operation denotes, over unbounded integers and without host arithmetic; the
  refinement lemmas show that \<open>evaluate_value\<close> computes exactly that integer modulo
  \<open>2 ^ 128\<close> for every canonical operation, so \<open>evaluate_exact_wide\<close> never panics, fails exactly
  where the contract has no value, and returns the integer modulo its output width.
\<close>

section \<open>The contract\<close>

definition sval :: "nat \<Rightarrow> int \<Rightarrow> int" where
  \<comment> \<open>two's complement value of a \<open>w\<close>-bit pattern\<close>
  "sval w a = (if a < 2 ^ (w - 1) then a else a - 2 ^ w)"

definition sfits :: "nat \<Rightarrow> int \<Rightarrow> bool" where
  "sfits w i = (- (2 ^ (w - 1)) \<le> i \<and> i < 2 ^ (w - 1))"

definition bits_set :: "nat \<Rightarrow> int \<Rightarrow> nat" where
  "bits_set w a = length (filter (\<lambda>i. (a div 2 ^ i) mod 2 = 1) [0..<w])"

definition top_zeros :: "nat \<Rightarrow> int \<Rightarrow> nat" where
  \<comment> \<open>how far below \<open>2 ^ w\<close> the value is, in powers of two\<close>
  "top_zeros w a = length (filter (\<lambda>i. a < 2 ^ i) [0..<w])"

definition spec_float :: "nat \<Rightarrow> int \<Rightarrow> float_value" where
  "spec_float w a = (if w = 32 then f64_from_f32_bits (nat a) else f64_from_bits (nat a))"

definition saturate :: "int \<Rightarrow> int" where
  \<comment> \<open>a 16-bit pattern as a signed value, saturated to a signed byte, as a byte pattern\<close>
  "saturate a = max (- 128) (min 127 (sval 16 a)) mod 256"

definition spec_pack :: "int \<Rightarrow> int \<Rightarrow> int" where
  "spec_pack low high =
     (\<Sum>lane<8. saturate (low div 2 ^ (16 * lane) mod 2 ^ 16) * 2 ^ (8 * lane)) +
     (\<Sum>lane<8. saturate (high div 2 ^ (16 * lane) mod 2 ^ 16) * 2 ^ (8 * (lane + 8)))"

definition spec_division :: "pcode_exact_op \<Rightarrow> nat \<Rightarrow> int \<Rightarrow> int \<Rightarrow> int option" where
  "spec_division opn w a b =
     (if b = 0 then None
      else if opn = UnsignedDivide then Some (a div b)
      else if opn = UnsignedRemainder then Some (a mod b)
      else if opn = SignedDivide
        then (if sfits w (sval w a sdiv sval w b) then Some (sval w a sdiv sval w b) else None)
      else Some (sval w a smod sval w b))"

fun spec_value :: "pcode_exact_op \<Rightarrow> int list \<Rightarrow> nat list \<Rightarrow> int option" where
  "spec_value Copy vs ws = Some (vs ! 0)"
| "spec_value ZeroExtend vs ws = Some (vs ! 0)"
| "spec_value SignExtend vs ws = Some (sval (ws ! 0) (vs ! 0))"
| "spec_value Add vs ws = Some (vs ! 0 + vs ! 1)"
| "spec_value Sub vs ws = Some (vs ! 0 - vs ! 1)"
| "spec_value UnsignedCarry vs ws = Some (of_bool (2 ^ (ws ! 0) \<le> vs ! 0 + vs ! 1))"
| "spec_value SignedCarry vs ws =
     Some (of_bool (\<not> sfits (ws ! 0) (sval (ws ! 0) (vs ! 0) + sval (ws ! 0) (vs ! 1))))"
| "spec_value SignedBorrow vs ws =
     Some (of_bool (\<not> sfits (ws ! 0) (sval (ws ! 0) (vs ! 0) - sval (ws ! 0) (vs ! 1))))"
| "spec_value TwosComplement vs ws = Some (- vs ! 0)"
| "spec_value BitwiseNegate vs ws = Some (- 1 - vs ! 0)"
| "spec_value Xor vs ws = Some (vs ! 0 XOR vs ! 1)"
| "spec_value And vs ws = Some (vs ! 0 AND vs ! 1)"
| "spec_value Or vs ws = Some (vs ! 0 OR vs ! 1)"
| "spec_value Multiply vs ws = Some (vs ! 0 * vs ! 1)"
| "spec_value UnsignedDivide vs ws = spec_division UnsignedDivide (ws ! 0) (vs ! 0) (vs ! 1)"
| "spec_value SignedDivide vs ws = spec_division SignedDivide (ws ! 0) (vs ! 0) (vs ! 1)"
| "spec_value UnsignedRemainder vs ws = spec_division UnsignedRemainder (ws ! 0) (vs ! 0) (vs ! 1)"
| "spec_value SignedRemainder vs ws = spec_division SignedRemainder (ws ! 0) (vs ! 0) (vs ! 1)"
| "spec_value BooleanNegate vs ws = Some (vs ! 0 XOR 1)"
| "spec_value BooleanXor vs ws = Some (vs ! 0 XOR vs ! 1)"
| "spec_value BooleanAnd vs ws = Some (vs ! 0 AND vs ! 1)"
| "spec_value BooleanOr vs ws = Some (vs ! 0 OR vs ! 1)"
| "spec_value FloatEqual vs ws =
     Some (of_bool (float_eq (spec_float (ws ! 0) (vs ! 0)) (spec_float (ws ! 1) (vs ! 1))))"
| "spec_value FloatNotEqual vs ws =
     (let l = spec_float (ws ! 0) (vs ! 0); r = spec_float (ws ! 1) (vs ! 1)
      in Some (of_bool (l \<noteq> NaN \<and> r \<noteq> NaN \<and> l \<noteq> r)))"
| "spec_value FloatLess vs ws =
     Some (of_bool (float_lt (spec_float (ws ! 0) (vs ! 0)) (spec_float (ws ! 1) (vs ! 1))))"
| "spec_value FloatLessEqual vs ws =
     (let l = spec_float (ws ! 0) (vs ! 0); r = spec_float (ws ! 1) (vs ! 1)
      in Some (of_bool (float_lt l r \<or> float_eq l r)))"
| "spec_value FloatNan vs ws = Some (of_bool (spec_float (ws ! 0) (vs ! 0) = NaN))"
| "spec_value Piece vs ws = Some (vs ! 0 * 2 ^ (ws ! 1) + vs ! 1)"
| "spec_value Subpiece vs ws = Some (vs ! 0 div 2 ^ (8 * nat (vs ! 1)))"
| "spec_value Equal vs ws = Some (of_bool (vs ! 0 = vs ! 1))"
| "spec_value NotEqual vs ws = Some (of_bool (vs ! 0 \<noteq> vs ! 1))"
| "spec_value UnsignedLess vs ws = Some (of_bool (vs ! 0 < vs ! 1))"
| "spec_value UnsignedLessEqual vs ws = Some (of_bool (vs ! 0 \<le> vs ! 1))"
| "spec_value SignedLess vs ws = Some (of_bool (sval (ws ! 0) (vs ! 0) < sval (ws ! 1) (vs ! 1)))"
| "spec_value SignedLessEqual vs ws = Some (of_bool (sval (ws ! 0) (vs ! 0) \<le> sval (ws ! 1) (vs ! 1)))"
| "spec_value ShiftLeft vs ws = Some (vs ! 0 * 2 ^ nat (vs ! 1))"
| "spec_value LogicalShiftRight vs ws = Some (vs ! 0 div 2 ^ nat (vs ! 1))"
| "spec_value ArithmeticShiftRight vs ws = Some (sval (ws ! 0) (vs ! 0) div 2 ^ nat (vs ! 1))"
| "spec_value PopCount vs ws = Some (int (bits_set (ws ! 0) (vs ! 0)))"
| "spec_value LeadingZeroCount vs ws = Some (int (top_zeros (ws ! 0) (vs ! 0)))"
| "spec_value PackSignedWordsToBytes vs ws = Some (spec_pack (vs ! 1) (vs ! 2))"

section \<open>Words and their integers\<close>

definition fits :: "u128 \<Rightarrow> nat \<Rightarrow> bool" where
  "fits v w = (1 \<le> w \<and> w \<le> 128 \<and> uint v < 2 ^ w)"

lemma int_unat_u128: "int (unat (v :: u128)) = uint v"
  by simp

lemma top_bit: "0 \<le> a \<Longrightarrow> a < 2 ^ Suc n \<Longrightarrow> bit (a :: int) n \<longleftrightarrow> 2 ^ n \<le> a"
proof (cases "2 ^ n \<le> a")
  case True
  assume "a < 2 ^ Suc n"
  with True have "a div 2 ^ n = 1" by (simp add: int_div_pos_eq [where r = "a - 2 ^ n"])
  with True show ?thesis by (simp add: bit_iff_odd)
qed (simp add: bit_iff_odd div_pos_pos_trivial)

lemma sval_eq:
  assumes "1 \<le> w" and "0 \<le> a" and "a < 2 ^ w"
  shows "signed_take_bit (w - 1) a = sval w a"
proof -
  from assms obtain n where w: "w = Suc n" by (cases w) auto
  have "(a + 2 ^ n) mod (2 * 2 ^ n) = a + 2 ^ n" if "a < 2 ^ n"
    using that assms by (intro mod_pos_pos_trivial) auto
  moreover have "(a + 2 ^ n) mod (2 * 2 ^ n) = a - 2 ^ n" if "\<not> a < 2 ^ n"
  proof -
    have "(a + 2 ^ n) mod (2 * 2 ^ n) = ((a - 2 ^ n) + 2 * 2 ^ n) mod (2 * 2 ^ n)" by (simp add: add.commute)
    also have "\<dots> = (a - 2 ^ n) mod (2 * 2 ^ n)" by (rule mod_add_self2)
    also have "\<dots> = a - 2 ^ n" using that assms w by (intro mod_pos_pos_trivial) auto
    finally show ?thesis .
  qed
  ultimately show ?thesis
    using w by (auto simp: signed_take_bit_eq_take_bit_shift take_bit_eq_mod sval_def)
qed

lemma sval_range: "1 \<le> w \<Longrightarrow> 0 \<le> a \<Longrightarrow> a < 2 ^ w \<Longrightarrow> sfits w (sval w a)"
  by (cases w) (auto simp: sval_def sfits_def)

lemma sfits_mono: "sfits w i \<Longrightarrow> w \<le> w' \<Longrightarrow> sfits w' i"
proof -
  assume "sfits w i" "w \<le> w'"
  moreover from \<open>w \<le> w'\<close> have "(2 :: int) ^ (w - 1) \<le> 2 ^ (w' - 1)" by (intro power_increasing) auto
  ultimately show ?thesis unfolding sfits_def by linarith
qed

lemma i128_fits_eq: "i128_fits i = sfits 128 i"
  by (simp add: i128_fits_def sfits_def)

lemma sint_of_int: "sfits 128 i \<Longrightarrow> sint (word_of_int i :: u128) = i"
  unfolding sfits_def by (simp add: sint_sbintrunc' signed_take_bit_int_eq_self)

lemma fits_word:
  assumes "fits v w"
  shows "1 \<le> w" "w \<le> 128" "uint v < 2 ^ w" "0 \<le> uint v" "take_bit w v = v"
proof -
  show "1 \<le> w" "w \<le> 128" "uint v < 2 ^ w" "0 \<le> uint v" using assms by (auto simp: fits_def)
  then show "take_bit w v = v"
    by (intro word_uint_eqI) (simp add: unsigned_take_bit_eq take_bit_int_eq_self)
qed

lemma signed_wide_sval:
  assumes "fits v w"
  shows "signed_wide v w = Ok (word_of_int (sval w (uint v)))"
proof -
  have "signed_take_bit (w - 1) v = (word_of_int (signed_take_bit (w - 1) (uint v)) :: u128)"
    by (rule bit_word_eqI) (simp add: bit_signed_take_bit_iff bit_word_of_int_iff bit_uint_iff min_def)
  then show ?thesis
    by (simp only: signed_wide_eq [OF fits_word(1,2) [OF assms]]
      sval_eq [OF fits_word(1,4,3) [OF assms]])
qed

lemma sfits_sval: "fits v w \<Longrightarrow> sfits w (sval w (uint v))"
  by (rule sval_range) (auto dest: fits_word)

lemma sint_sval:
  assumes "fits v w"
  shows "sint (word_of_int (sval w (uint v)) :: u128) = sval w (uint v)"
  using sfits_sval [OF assms] fits_word(2) [OF assms] by (rule sint_of_int [OF sfits_mono])

lemma of_int_eq_iff: "sfits 128 i \<Longrightarrow> sfits 128 j \<Longrightarrow> word_of_int i = (word_of_int j :: u128) \<longleftrightarrow> i = j"
  by (metis sint_of_int)

lemma sval_sign:
  assumes "fits v w"
  shows "bit v (w - 1) \<longleftrightarrow> sval w (uint v) < 0" and "sval w (uint v) = 0 \<longleftrightarrow> v = 0"
proof -
  obtain n where w: "w = Suc n" using fits_word(1) [OF assms] by (cases w) auto
  with top_bit [of "uint v" n] fits_word [OF assms] show "bit v (w - 1) \<longleftrightarrow> sval w (uint v) < 0"
    by (auto simp: sval_def bit_uint_iff)
  show "sval w (uint v) = 0 \<longleftrightarrow> v = 0"
    using fits_word(3,4) [OF assms] by (auto simp: sval_def uint_0_iff)
qed

lemma mid_bit:
  assumes "- (2 ^ Suc n) \<le> i" and "i < 2 ^ Suc n"
  shows "bit (i :: int) n \<longleftrightarrow> 2 ^ n \<le> i \<or> - (2 ^ n) \<le> i \<and> i < 0"
proof -
  consider "i < - (2 ^ n)" | "- (2 ^ n) \<le> i" "i < 0" | "0 \<le> i" by linarith
  then show ?thesis
  proof cases
    case 1
    then have "i div 2 ^ n = - 2" using assms by (intro int_div_pos_eq [where r = "i + 2 * 2 ^ n"]) auto
    moreover from 1 have "\<not> 2 ^ n \<le> i" by (smt (verit) zero_le_power)
    ultimately show ?thesis using 1 by (simp add: bit_iff_odd)
  next
    case 2
    then have "i div 2 ^ n = - 1" by (intro int_div_pos_eq [where r = "i + 2 ^ n"]) auto
    with 2 show ?thesis by (simp add: bit_iff_odd)
  next
    case 3
    with top_bit [of i n] assms show ?thesis by auto
  qed
qed

lemma and_sign_bit: "(v :: u128) AND push_bit n 1 \<noteq> 0 \<longleftrightarrow> bit v n"
  by (simp add: push_bit_of_1 and_exp_eq_0_iff_not_bit)

lemma word_mid_bit:
  assumes "1 \<le> w" and "w \<le> 128" and "- (2 ^ w) \<le> i" and "i < 2 ^ w"
  shows "bit (word_of_int i :: u128) (w - 1) \<longleftrightarrow> 2 ^ (w - 1) \<le> i \<or> - (2 ^ (w - 1)) \<le> i \<and> i < 0"
proof -
  from assms obtain n where w: "w = Suc n" by (cases w) auto
  have "bit (word_of_int i :: u128) n \<longleftrightarrow> bit i n" using assms w by (simp add: bit_word_of_int_iff)
  with mid_bit [of n i] assms w show ?thesis by simp
qed

lemma sfits_double:
  assumes "sfits w a" and "sfits w b" and "1 \<le> w"
  shows "- (2 ^ w) \<le> a + b" "a + b < 2 ^ w" "- (2 ^ w) \<le> a - b" "a - b < 2 ^ w"
proof -
  from assms obtain n where w: "w = Suc n" by (cases w) auto
  with assms show "- (2 ^ w) \<le> a + b" "a + b < 2 ^ w" "- (2 ^ w) \<le> a - b" "a - b < 2 ^ w"
    by (auto simp: sfits_def)
qed

lemma sum_overflow:
  assumes "sfits w a" and "sfits w b" and w: "1 \<le> w" "w \<le> 128"
  shows "sfits w (a + b) \<longleftrightarrow>
      \<not> ((a < 0 \<longleftrightarrow> b < 0) \<and> (bit (word_of_int (a + b) :: u128) (w - 1) \<noteq> (a < 0)))"
    and "sfits w (a - b) \<longleftrightarrow>
      \<not> ((a < 0) \<noteq> (b < 0) \<and> (bit (word_of_int (a - b) :: u128) (w - 1) \<noteq> (a < 0)))"
  using assms(1,2) unfolding word_mid_bit [OF w sfits_double(1,2) [OF assms(1-3)]]
    word_mid_bit [OF w sfits_double(3,4) [OF assms(1-3)]] sfits_def
  by linarith+

lemma minus_one_int: "(- 1 :: u128) = word_of_int (- 1)"
  by simp

lemma u128_of_bool_int: "u128_of_bool b = word_of_int (of_bool b)"
  by (simp add: u128_of_bool_def)

lemma overflow_flag_spec:
  assumes "fits a w" and "fits b w"
  shows "signed_overflow_flag carry [a, b] [w, w] = Ok (word_of_int (of_bool (\<not> sfits w
    (if carry then sval w (uint a) + sval w (uint b) else sval w (uint a) - sval w (uint b)))))"
proof -
  let ?A = "sval w (uint a)" and ?B = "sval w (uint b)"
  note w = fits_word(1,2) [OF assms(1)]
  have A: "sfits w ?A" and B: "sfits w ?B" using assms by (auto intro: sfits_sval)
  have wide: "sfits 128 i" if "sfits w i" for i using that w by (blast intro: sfits_mono)
  have run: "signed_overflow_flag carry [a, b] [w, w] =
    (let R = (if carry then ?A + ?B else ?A - ?B) in
     Ok (u128_of_bool (\<not> sfits 128 R \<or>
       (if carry then (?A < 0 \<longleftrightarrow> ?B < 0) \<and> (bit (word_of_int R :: u128) (w - 1) \<noteq> (?A < 0))
        else (?A < 0) \<noteq> (?B < 0) \<and> (bit (word_of_int R :: u128) (w - 1) \<noteq> (?A < 0))))))"
  proof -
    have sign: "(v AND push_bit (w - 1) 1 \<noteq> 0) = bit v (w - 1)" for v :: u128
      by (rule and_sign_bit)
    have "\<not> w = 0" "w - 1 < 128" using w by auto
    then show ?thesis
      unfolding signed_overflow_flag_def signed2_def at2_def at1_def index_rs_Cons rbind_simps
        One_nat_def [symmetric] signed_wide_sval [OF assms(1)] signed_wide_sval [OF assms(2)]
        index_rs_Cons(1) index_rs_Cons(2) [of _ _ 0, folded One_nat_def] shl_rs_def
        overflowing_add_i128_def overflowing_sub_i128_def sint_sval [OF assms(1)] sint_sval [OF assms(2)]
        i128_fits_eq Let_def
      by (cases carry) (simp_all only: if_True if_False rbind_simps split sign sval_sign(1) [OF assms(1)]
          sval_sign(1) [OF assms(2)] of_int_add of_int_diff)
  qed
  have "\<not> sfits 128 (?A + ?B) \<or> (?A < 0 \<longleftrightarrow> ?B < 0) \<and> (bit (word_of_int (?A + ?B) :: u128) (w - 1) \<noteq> (?A < 0))
      \<longleftrightarrow> \<not> sfits w (?A + ?B)"
    and "\<not> sfits 128 (?A - ?B) \<or> (?A < 0) \<noteq> (?B < 0) \<and> (bit (word_of_int (?A - ?B) :: u128) (w - 1) \<noteq> (?A < 0))
      \<longleftrightarrow> \<not> sfits w (?A - ?B)"
    using sum_overflow [OF A B w] wide by blast+
  then show ?thesis
    unfolding run Let_def u128_of_bool_int by (cases carry) (simp_all only: if_True if_False)
qed

section \<open>Division\<close>

definition denotes :: "(u128, string) result \<Rightarrow> int option \<Rightarrow> bool" where
  \<comment> \<open>the evaluator's outcome, before the final mask, against the contract's\<close>
  "denotes m expected = (case expected of Some i \<Rightarrow> m = Ok (word_of_int i) | None \<Rightarrow> \<exists>e. m = Err e)"

lemma denotes_simps [simp]:
  "denotes m (Some i) \<longleftrightarrow> m = Ok (word_of_int i)" "denotes m None \<longleftrightarrow> (\<exists>e. m = Err e)"
  by (simp_all add: denotes_def)

lemma signed_min_eq: "1 \<le> w \<Longrightarrow> w \<le> 128 \<Longrightarrow> signed_min w = Ok (word_of_int (- (2 ^ (w - 1))))"
  by (auto simp: signed_min_def shl_rs_def push_bit_of_1)

lemma i128_min_int: "(push_bit 127 1 :: u128) = word_of_int (- (2 ^ 127))"
  by (simp add: word_eq_iff_unsigned)

lemma sdiv_int: "(a :: int) sdiv b = sgn a * sgn b * (\<bar>a\<bar> div \<bar>b\<bar>)"
  by (simp add: signed_divide_int_def)

lemma sdiv_shrinks: "2 \<le> \<bar>b\<bar> \<Longrightarrow> a \<noteq> 0 \<Longrightarrow> \<bar>(a :: int) sdiv b\<bar> < \<bar>a\<bar>"
proof -
  assume b: "2 \<le> \<bar>b\<bar>" and a: "a \<noteq> 0"
  then have "\<bar>sgn a * sgn b\<bar> = 1" by (simp add: abs_mult abs_sgn_eq)
  then have "\<bar>a sdiv b\<bar> = \<bar>\<bar>a\<bar> div \<bar>b\<bar>\<bar>" unfolding sdiv_int abs_mult [of "sgn a * sgn b"] by simp
  also have "\<dots> = \<bar>a\<bar> div \<bar>b\<bar>" using b by (intro abs_of_nonneg) (subst pos_imp_zdiv_nonneg_iff, auto)
  finally show ?thesis using int_div_less_self [of "\<bar>a\<bar>" "\<bar>b\<bar>"] a b by simp
qed

lemma sdiv_fits:
  assumes "sfits w a" and "b \<noteq> 0"
  shows "sfits w (a sdiv b) \<longleftrightarrow> \<not> (a = - (2 ^ (w - 1)) \<and> b = - 1)"
proof -
  consider "b = 1" | "b = - 1" | "2 \<le> \<bar>b\<bar>" using assms(2) by linarith
  then show ?thesis
  proof cases
    case 1
    then have "a sdiv b = a" by (simp add: sdiv_int sgn_mult_abs)
    with assms 1 show ?thesis by simp
  next
    case 2
    then have "a sdiv b = - a" by (simp add: sdiv_int sgn_mult_abs)
    with assms 2 show ?thesis unfolding sfits_def by auto
  next
    case 3
    show ?thesis
    proof (cases "a = 0")
      case True
      with 3 show ?thesis by (simp add: sdiv_int sfits_def)
    next
      case False
      with sdiv_shrinks [OF 3] assms 3 show ?thesis unfolding sfits_def by fastforce
    qed
  qed
qed

lemma divide_spec:
  assumes "fits a w" and "fits b w"
    and "opn \<in> {UnsignedDivide, SignedDivide, UnsignedRemainder, SignedRemainder}"
  shows "denotes (divide_op opn [a, b] [w, w]) (spec_division opn w (uint a) (uint b))"
proof -
  let ?A = "sval w (uint a)" and ?B = "sval w (uint b)"
  note w = fits_word(1,2) [OF assms(1)]
  have A: "sfits w ?A" and B: "sfits w ?B" using assms by (auto intro: sfits_sval)
  then have wide: "sfits 128 ?A" "sfits 128 ?B" using w by (blast intro: sfits_mono)+
  have b0: "uint b = 0 \<longleftrightarrow> b = 0" "?B = 0 \<longleftrightarrow> b = 0"
    by (simp_all add: uint_0_iff sval_sign(2) [OF assms(2)])
  have B0: "(word_of_int ?B :: u128) = 0 \<longleftrightarrow> b = 0"
    using of_int_eq_iff [OF wide(2), of 0] b0 by (simp add: sfits_def)
  have least: "sfits 128 (- (2 ^ (w - 1)))" and m1: "sfits 128 (- 1)"
    using w sfits_mono [of w "- (2 ^ (w - 1))" 128] by (auto simp: sfits_def)
  have q: "sfits 128 (?A sdiv ?B)" if "b \<noteq> 0" "\<not> (?A = - (2 ^ 127) \<and> ?B = - 1)"
    using sdiv_fits [OF wide(1), of ?B] that b0 by simp
  have eqs: "(word_of_int ?A = (word_of_int (- (2 ^ (w - 1))) :: u128)) = (?A = - (2 ^ (w - 1)))"
    "(word_of_int ?B = (word_of_int (- 1) :: u128)) = (?B = - 1)"
    by (rule of_int_eq_iff; use wide least m1 in simp)+
  note run = divide_op_def at2_def at1_def signed2_def spec_division_def index_rs_Cons rbind_simps
    One_nat_def [symmetric] index_rs_Cons(2) [of _ _ 0, folded One_nat_def]
    signed_wide_sval [OF assms(1)] signed_wide_sval [OF assms(2)] b0 B0 eqs
  show ?thesis
  proof (cases "b = 0")
    case True
    then show ?thesis unfolding run by simp
  next
    case False
    note sints = sint_sval [OF assms(1)] sint_sval [OF assms(2)]
    consider "opn = UnsignedDivide" | "opn = UnsignedRemainder" | "opn = SignedDivide" | "opn = SignedRemainder"
      using assms(3) by blast
    then show ?thesis
    proof cases
      case 1
      with False show ?thesis unfolding run by (simp add: word_div_def)
    next
      case 2
      with False show ?thesis unfolding run by (simp add: word_mod_def)
    next
      case 3
      have "divide_op SignedDivide [a, b] [w, w] =
        (if ?A = - (2 ^ (w - 1)) \<and> ?B = - 1 then Err ''P-code signed division overflows its output width''
         else div_i128 (word_of_int ?A) (word_of_int ?B))"
        using False unfolding run signed_min_eq [OF w] rbind_simps minus_one_int eqs by simp
      moreover have "div_i128 (word_of_int ?A) (word_of_int ?B) = Ok (word_of_int (?A sdiv ?B))"
        if "sfits w (?A sdiv ?B)"
        using that False w(2) sfits_mono by (simp add: div_i128_def B0 sints i128_fits_eq)
      moreover have "sfits w (?A sdiv ?B) \<longleftrightarrow> \<not> (?A = - (2 ^ (w - 1)) \<and> ?B = - 1)"
        using sdiv_fits [OF A] False b0 by blast
      ultimately show ?thesis
        using False 3 by (cases "sfits w (?A sdiv ?B)") (simp_all only: spec_division_def b0 denotes_simps if_False if_True
          pcode_exact_op.distinct simp_thms, auto)
    next
      case 4
      have min: "(word_of_int ?A = (push_bit 127 1 :: u128)) = (?A = - (2 ^ 127))"
        unfolding i128_min_int by (rule of_int_eq_iff [OF wide(1)]) (simp add: sfits_def)
      have "divide_op SignedRemainder [a, b] [w, w] =
        (if ?A = - (2 ^ 127) \<and> ?B = - 1 then Ok 0 else rem_i128 (word_of_int ?A) (word_of_int ?B))"
        using False unfolding run minus_one_int eqs min by simp
      moreover have "?A smod ?B = 0" if "?B = - 1"
        using that by (simp add: signed_modulo_int_def sdiv_int sgn_mult_abs)
      moreover have "rem_i128 (word_of_int ?A) (word_of_int ?B) = Ok (word_of_int (?A smod ?B))"
        if "\<not> (?A = - (2 ^ 127) \<and> ?B = - 1)"
        using q [OF False that] False by (simp add: rem_i128_def B0 sints i128_fits_eq)
      moreover have "spec_division opn w (uint a) (uint b) = Some (?A smod ?B)"
        using False 4 by (simp add: spec_division_def b0)
      ultimately show ?thesis
        using 4 by (cases "?A = - (2 ^ 127) \<and> ?B = - 1") (simp_all only: denotes_simps if_False if_True
          simp_thms of_int_0 minus_one_int [symmetric], auto)
    qed
  qed
qed

section \<open>Counting, carrying and shifting\<close>

lemma u128_less_int: "(a :: u128) < b \<longleftrightarrow> uint a < uint b" "a \<le> b \<longleftrightarrow> uint a \<le> uint b"
  by (simp_all add: word_less_def word_le_def)

lemma uint_mask_u128:
  assumes "w \<le> 128"
  shows "uint (mask w :: u128) = 2 ^ w - 1"
proof -
  have "uint (mask w :: u128) = take_bit w (uint (- 1 :: u128))"
    by (simp only: take_bit_minus_one_eq_mask [symmetric] unsigned_take_bit_eq)
  also have "\<dots> = mask w"
    using assms by (simp only: unsigned_minus_1_eq_mask take_bit_of_mask min_def) simp
  finally show ?thesis by (simp only: mask_eq_exp_minus_1)
qed

lemma carry_spec:
  assumes "fits a w" and "fits b w"
  shows "evaluate_value UnsignedCarry [a, b] [w, w] =
    (\<lambda>n. Ok (word_of_int (of_bool (2 ^ w \<le> uint a + uint b))))"
proof -
  note w = fits_word(1,2) [OF assms(1)]
  have over: "2 ^ 128 \<le> unat a + unat b \<longleftrightarrow> (2 :: int) ^ 128 \<le> uint a + uint b"
    using of_nat_le_iff [of "2 ^ 128" "unat a + unat b", where ?'a = int] by simp
  have "2 ^ 128 \<le> unat a + unat b \<or> a + b > mask w \<longleftrightarrow> (2 :: int) ^ w \<le> uint a + uint b"
  proof (cases "(2 :: int) ^ 128 \<le> uint a + uint b")
    case True
    moreover have "(2 :: int) ^ w \<le> 2 ^ 128" using w by (intro power_increasing) auto
    ultimately show ?thesis using over by linarith
  next
    case False
    then have "uint (a + b) = uint a + uint b"
      by (simp add: uint_word_ariths)
    with False over show ?thesis by (auto simp: u128_less_int uint_mask_u128 w)
  qed
  then show ?thesis
    unfolding evaluate_value.simps at2_def at1_def index_rs_Cons rbind_simps
      index_rs_Cons(2) [of _ _ 0, folded One_nat_def] mask_wide_eq [OF w(2)] overflowing_add_u128_def
      prod.case Let_def u128_of_bool_int
    by presburger
qed

lemma count_ones_spec:
  assumes "fits a w"
  shows "count_ones a = bits_set w (uint a)"
proof -
  have split: "[0..<128] = [0..<w] @ [w..<128]" using fits_word(2) [OF assms] upt_add_eq_append [of 0 w "128 - w"] by simp
  have high: "\<not> bit a i" if "w \<le> i" for i
    using that fits_word(5) [OF assms] by (metis bit_take_bit_iff not_less)
  have bit: "bit a i \<longleftrightarrow> (uint a div 2 ^ i) mod 2 = 1" for i
    by (metis bit_iff_odd bit_uint_iff bit_imp_le_length odd_iff_mod_2_eq_one)
  have "filter (bit a) [w..<128] = []" using high by (auto simp: filter_empty_conv)
  then show ?thesis unfolding count_ones_def bits_set_def split bit [abs_def] by simp
qed

lemma top_zeros_rev:
  "0 \<le> a \<Longrightarrow> a < 2 ^ n \<Longrightarrow> length (takeWhile (\<lambda>i. \<not> bit a i) (rev [0..<n])) = top_zeros n a"
proof (induction n)
  case (Suc n)
  show ?case
  proof (cases "2 ^ n \<le> a")
    case True
    then have "\<not> a < 2 ^ i" if "i \<le> n" for i
      using that power_increasing [of i n "2 :: int"] \<open>2 ^ n \<le> a\<close> by linarith
    with True Suc.prems top_bit [of a n] show ?thesis
      by (auto simp: top_zeros_def filter_empty_conv)
  next
    case False
    with Suc top_bit [of a n] show ?thesis by (simp add: top_zeros_def)
  qed
qed (simp add: top_zeros_def)

lemma leading_zeros_spec:
  assumes "fits a w"
  shows "leading_zeros a = (128 - w) + top_zeros w (uint a)"
proof -
  have parts: "[0..<128] = [0..<w] @ [w..<128]" using fits_word(2) [OF assms] upt_add_eq_append [of 0 w "128 - w"] by simp
  have "uint a < 2 ^ i" if "w \<le> i" for i
    using fits_word(3) [OF assms] power_increasing [OF that, of "2 :: int"] by linarith
  then have "filter (\<lambda>i. uint a < 2 ^ i) [w..<128] = [w..<128]" by (simp add: filter_id_conv)
  moreover have "leading_zeros a = top_zeros 128 (uint a)"
    unfolding leading_zeros_def
  proof (subst top_zeros_rev [symmetric])
    show "uint a < 2 ^ 128" using uint_lt2p [of a] by simp
    show "length (takeWhile (\<lambda>i. \<not> bit a i) (rev [0..<128])) =
      length (takeWhile (\<lambda>i. \<not> bit (uint a) i) (rev [0..<128]))"
      by (rule arg_cong [OF takeWhile_cong]) (auto simp: bit_uint_iff)
  qed simp
  ultimately show ?thesis by (simp add: top_zeros_def parts del: upt_rec_numeral upt_conv_Cons_Cons)
qed

section \<open>Joining bit fields\<close>

lemma or_push_bit:
  assumes "uint x < 2 ^ k" and "uint y < 2 ^ m" and "k + m \<le> 128"
  shows "uint (x OR push_bit k y :: u128) = uint x + uint y * 2 ^ k"
proof -
  have "uint y * 2 ^ k < 2 ^ m * 2 ^ k" using assms(2) by simp
  also have "\<dots> = (2 :: int) ^ (k + m)" by (simp add: power_add)
  also have "\<dots> \<le> 2 ^ 128" using assms(3) by (intro power_increasing) auto
  finally have small: "uint y * 2 ^ k < 2 ^ 128" .
  have "uint (push_bit k y) = take_bit 128 (push_bit k (uint y))"
    by (simp add: unsigned_push_bit_eq)
  also have "\<dots> = push_bit k (uint y)"
    using small by (intro take_bit_int_eq_self) (auto simp: push_bit_eq_mult)
  finally have "uint (x OR push_bit k y) = take_bit k (uint x) OR push_bit k (uint y)"
    using assms(1) by (simp add: unsigned_or_eq take_bit_int_eq_self)
  also have "\<dots> = take_bit k (uint x) + push_bit k (uint y)"
    using concat_bit_eq [of k "uint x" "uint y"] by (simp add: concat_bit_def)
  finally show ?thesis using assms(1) by (simp add: take_bit_int_eq_self push_bit_eq_mult)
qed

lemma pack_lane_spec:
  "uint (pack_lane source lane) = saturate (uint source div 2 ^ (16 * (lane mod 8)) mod 2 ^ 16)"
proof -
  let ?word = "ucast (drop_bit ((lane mod 8) * 16) source) :: 16 word"
  have "uint ?word = uint source div 2 ^ (16 * (lane mod 8)) mod 2 ^ 16"
    using uint_lt2p [of source]
    by (simp only: unsigned_ucast_eq unsigned_drop_bit_eq)
      (simp add: drop_bit_eq_div take_bit_eq_mod mult.commute [of 16])
  moreover have "sint ?word = sval 16 (uint ?word)"
    using sval_eq [of 16 "uint ?word"] uint_lt2p [of ?word] by (simp add: sint_uint)
  ultimately show ?thesis
    by (simp add: pack_lane_def Let_def saturate_def uint_word_of_int)
qed

lemma fold_lanes:
  assumes "n \<le> 16"
  shows "uint (fold (\<lambda>lane packed. packed OR push_bit (lane * 8) (ucast (b lane :: u8))) [0..<n] (0 :: u128)) =
      (\<Sum>lane<n. uint (b lane) * 2 ^ (8 * lane)) \<and>
    (\<Sum>lane<n. uint (b lane) * 2 ^ (8 * lane)) < 2 ^ (8 * n)"
  using assms
proof (induction n)
  case (Suc n)
  let ?u = "fold (\<lambda>lane packed. packed OR push_bit (lane * 8) (ucast (b lane :: u8))) [0..<n] (0 :: u128)"
  let ?s = "\<Sum>lane<n. uint (b lane) * 2 ^ (8 * lane)"
  have byte: "uint (ucast (b n) :: u128) = uint (b n)" by (simp add: unsigned_ucast_eq take_bit_int_eq_self
    order.strict_trans [OF uint_lt2p])
  have lt: "uint (b n) < 2 ^ 8" using uint_lt2p [of "b n"] by simp
  from Suc have IH: "uint ?u = ?s" "?s < 2 ^ (8 * n)" by auto
  then have "uint (?u OR push_bit (8 * n) (ucast (b n))) = ?s + uint (b n) * 2 ^ (8 * n)"
    using or_push_bit [of ?u "8 * n" "ucast (b n)" 8] Suc.prems lt byte by simp
  moreover have "?s + uint (b n) * 2 ^ (8 * n) < 2 ^ (8 * Suc n)"
  proof -
    have "uint (b n) * 2 ^ (8 * n) \<le> 255 * 2 ^ (8 * n)" using lt by (intro mult_right_mono) auto
    moreover have "(2 :: int) ^ (8 * Suc n) = 256 * 2 ^ (8 * n)" by (simp add: power_add)
    ultimately show ?thesis using IH(2) by linarith
  qed
  ultimately show ?case by (simp add: mult.commute)
qed simp

lemma sum_lessThan_split:
  fixes m n :: nat
  shows "(\<Sum>i<m + n. f i) = (\<Sum>i<m. f i) + (\<Sum>i<n. f (i + m) :: int)"
  by (induction n) (simp_all add: add.commute)

lemma pack_words_spec: "uint (pack_words low high) = spec_pack (uint low) (uint high)"
proof -
  let ?b = "\<lambda>lane. pack_lane (if lane < 8 then low else high) lane"
  have "uint (pack_words low high) = (\<Sum>lane<16. uint (?b lane) * 2 ^ (8 * lane))"
    using fold_lanes [of 16 ?b] by (simp only: pack_words_def)
  also have "\<dots> = (\<Sum>lane<8. uint (?b lane) * 2 ^ (8 * lane)) +
      (\<Sum>lane<8. uint (?b (lane + 8)) * 2 ^ (8 * (lane + 8)))"
    using sum_lessThan_split [of "\<lambda>lane. uint (?b lane) * 2 ^ (8 * lane)" 8 8] by simp
  also have "\<dots> = spec_pack (uint low) (uint high)"
    by (simp add: spec_pack_def pack_lane_spec)
  finally show ?thesis .
qed

section \<open>The evaluator refines the contract\<close>

definition computes :: "nat \<Rightarrow> (u128, string) result \<Rightarrow> int option \<Rightarrow> bool" where
  \<comment> \<open>the same, modulo the output width\<close>
  "computes n m expected =
     (case expected of Some i \<Rightarrow> \<exists>v. m = Ok v \<and> take_bit n v = take_bit n (word_of_int i) | None \<Rightarrow> \<exists>e. m = Err e)"

lemma denotes_computes: "denotes m x \<Longrightarrow> computes n m x"
  by (cases x) (auto simp: computes_def)

lemma computes_word [intro]: "m = Ok v \<Longrightarrow> v = word_of_int i \<Longrightarrow> computes n m (Some i)"
  by (simp add: computes_def)

definition word_args :: "u128 list \<Rightarrow> nat list \<Rightarrow> bool" where
  "word_args vs ws = list_all2 fits vs ws"

lemma length_1: "length xs = 1 \<longleftrightarrow> (\<exists>a. xs = [a])"
  and length_2: "length xs = 2 \<longleftrightarrow> (\<exists>a b. xs = [a, b])"
  and length_3: "length xs = 3 \<longleftrightarrow> (\<exists>a b c. xs = [a, b, c])"
  by (auto simp: length_Suc_conv numeral_2_eq_2 numeral_3_eq_3)

lemma float_operand_spec:
  assumes "n < length ws" and "word_args vs ws" and "ws ! n = 32 \<or> ws ! n = 64"
  shows "float_operand vs ws n = Ok (spec_float (ws ! n) (uint (vs ! n)))"
proof -
  from assms have "fits (vs ! n) (ws ! n)" "n < length vs"
    by (auto simp: word_args_def list_all2_conv_all_nth)
  moreover from this have "unat (vs ! n) < 2 ^ (ws ! n)"
    using fits_word(3) [of "vs ! n" "ws ! n"] by (metis int_unat_u128 of_nat_less_iff of_nat_numeral of_nat_power)
  ultimately show ?thesis
    using assms by (auto simp: float_operand_def spec_float_def)
qed

lemma float_op_spec:
  assumes "word_args vs ws" and "length ws = (if opn = FloatNan then 1 else 2)"
    and "\<forall>w \<in> set ws. w = 32 \<or> w = 64"
  shows "float_op opn vs ws = Ok (u128_of_bool (float_compare opn (spec_float (ws ! 0) (uint (vs ! 0)))
    (if opn = FloatNan then spec_float (ws ! 0) (uint (vs ! 0)) else spec_float (ws ! 1) (uint (vs ! 1)))))"
  using assms float_operand_spec [of 0 ws vs] float_operand_spec [of 1 ws vs]
  by (auto simp: float_op_def)

lemma float_eq_iff: "a \<noteq> NaN \<Longrightarrow> float_eq a b \<longleftrightarrow> a = b"
  by (cases a; cases b) auto

lemma float_compare_simps:
  "float_compare FloatEqual a b = float_eq a b"
  "float_compare FloatNotEqual a b = (a \<noteq> NaN \<and> b \<noteq> NaN \<and> a \<noteq> b)"
  "float_compare FloatLess a b = float_lt a b"
  "float_compare FloatLessEqual a b = (float_lt a b \<or> float_eq a b)"
  "float_compare FloatNan a b = (a = NaN)"
  by (auto simp: float_compare_def float_eq_iff)

lemma shift_left_spec:
  assumes "n \<le> 128"
  shows "computes n (if shift_count b n then Ok 0 else shl_rs a (unat b)) (Some (uint a * 2 ^ nat (uint b)))"
proof (cases "shift_count b n")
  case True
  then have "take_bit n (uint a * 2 ^ unat b) = 0"
    by (simp add: shift_count_def take_bit_eq_0_iff dvd_mult le_imp_power_dvd)
  then have "take_bit n (word_of_int (uint a * 2 ^ unat b) :: u128) = 0"
    by (metis of_int_0 take_bit_of_int)
  with True show ?thesis by (simp add: computes_def)
next
  case False
  with assms show ?thesis
    by (auto simp: shift_count_def shl_rs_def push_bit_eq_mult)
qed

lemma uint_drop_bit: "uint (drop_bit k (a :: u128)) = uint a div 2 ^ k"
  using uint_lt2p [of a]
  by (simp only: unsigned_drop_bit_eq) (simp add: drop_bit_eq_div take_bit_eq_mod)

lemma shift_right_spec:
  assumes "fits a n"
  shows "computes n (if shift_count b n then Ok 0 else shr_rs a (unat b)) (Some (uint a div 2 ^ nat (uint b)))"
proof (cases "shift_count b n")
  case True
  then have "(2 :: int) ^ n \<le> 2 ^ unat b" by (intro power_increasing) (auto simp: shift_count_def)
  then have "uint a < 2 ^ unat b" using fits_word(3) [OF assms] by linarith
  then have "uint a div 2 ^ unat b = 0" by (intro div_pos_pos_trivial) auto
  with True show ?thesis by auto
next
  case False
  have "drop_bit (unat b) a = word_of_int (uint a div 2 ^ unat b)"
    by (metis uint_drop_bit word_of_int_uint)
  with False fits_word(2) [OF assms] show ?thesis
    by (auto simp: shift_count_def shr_rs_def)
qed

lemma sar_spec:
  assumes "fits a n"
  shows "computes n
    (rbind (signed_wide a n) (\<lambda>l. if shift_count b n then Ok (if sint l < 0 then - 1 else 0) else sar_rs l (unat b)))
    (Some (sval n (uint a) div 2 ^ nat (uint b)))"
proof (cases "shift_count b n")
  case True
  have "(2 :: int) ^ n \<le> 2 ^ unat b" using True by (intro power_increasing) (auto simp: shift_count_def)
  moreover have "- (2 ^ n) \<le> sval n (uint a)" "sval n (uint a) < 2 ^ n"
    using fits_word(3,4) [OF assms] zero_less_power [of "2 :: int" n] unfolding sval_def
    by (cases "uint a < 2 ^ (n - 1)"; simp only: if_True if_False; linarith)+
  ultimately have "- (2 ^ unat b) \<le> sval n (uint a)" "sval n (uint a) < 2 ^ unat b" by linarith+
  then have "sval n (uint a) div 2 ^ unat b = (if sval n (uint a) < 0 then - 1 else 0)"
    by (auto intro!: div_pos_pos_trivial int_div_pos_eq [where r = "sval n (uint a) + 2 ^ unat b"])
  with True show ?thesis by (auto simp: signed_wide_sval [OF assms] sint_sval [OF assms])
next
  case False
  let ?l = "word_of_int (sval n (uint a)) :: u128"
  have "signed_drop_bit (unat b) ?l = word_of_int (sval n (uint a) div 2 ^ unat b)"
  proof -
    have "signed_drop_bit (unat b) ?l = word_of_int (sint (signed_drop_bit (unat b) ?l))"
      by (simp only: of_int_sint scast_id)
    then show ?thesis by (simp only: sint_signed_drop_bit_eq sint_sval [OF assms] drop_bit_eq_div)
  qed
  with False fits_word(2) [OF assms] show ?thesis
    by (auto simp: shift_count_def sar_rs_def signed_wide_sval [OF assms])
qed

lemma piece_spec:
  assumes "fits a wa" and "fits b wb" and "wa + wb \<le> 128"
  shows "map_ok (\<lambda>v. v OR b) (shl_rs a wb) = Ok (word_of_int (uint a * 2 ^ wb + uint b))"
proof -
  have "uint (push_bit wb a OR b) = uint a * 2 ^ wb + uint b"
    using or_push_bit [of b wb a wa] fits_word [OF assms(1)] fits_word [OF assms(2)] assms(3)
    by (simp add: or.commute)
  moreover have "wb < 128" using assms(3) fits_word(1) [OF assms(1)] by simp
  ultimately show ?thesis by (metis map_ok_simps(1) shl_rs_def word_of_int_uint)
qed

lemma index_rs_pair: "index_rs [a, b] 1 = Ok b"
  by simp

lemma compare_spec:
  assumes "fits a wa" and "fits b wb"
  shows "signed2 [a, b] [wa, wb] (\<lambda>l r. Ok (u128_of_bool (sint l < sint r))) =
      Ok (word_of_int (of_bool (sval wa (uint a) < sval wb (uint b))))"
    and "signed2 [a, b] [wa, wb] (\<lambda>l r. Ok (u128_of_bool (sint l \<le> sint r))) =
      Ok (word_of_int (of_bool (sval wa (uint a) \<le> sval wb (uint b))))"
  using assms
  by (simp_all only: signed2_def at2_def index_rs_Cons index_rs_pair rbind_simps signed_wide_sval sint_sval u128_of_bool_int)

lemma word_args_1: "word_args vs [w] \<Longrightarrow> \<exists>a. vs = [a] \<and> fits a w"
  and word_args_2: "word_args vs [w, w'] \<Longrightarrow> \<exists>a b. vs = [a, b] \<and> fits a w \<and> fits b w'"
  and word_args_3: "word_args vs [w, w', w''] \<Longrightarrow> \<exists>a b c. vs = [a, b, c] \<and> fits a w \<and> fits b w' \<and> fits c w''"
  by (auto simp: word_args_def list_all2_Cons2)

text \<open>
  The widths a canonical effect allows, in bits. It is what \<open>widths_valid\<close> gives for the
  lowered operations, and all the refinement needs.
\<close>

definition unary_ops :: "pcode_exact_op set" where
  "unary_ops = {Copy, ZeroExtend, SignExtend, TwosComplement, BitwiseNegate, BooleanNegate, PopCount, LeadingZeroCount}"

definition equal_ops :: "pcode_exact_op set" where
  \<comment> \<open>two inputs of one width\<close>
  "equal_ops = {Add, Sub, UnsignedCarry, SignedCarry, SignedBorrow, Xor, And, Or, Multiply, UnsignedDivide,
     SignedDivide, UnsignedRemainder, SignedRemainder, BooleanXor, BooleanAnd, BooleanOr, Equal, NotEqual,
     UnsignedLess, UnsignedLessEqual, SignedLess, SignedLessEqual}"

definition float_ops :: "pcode_exact_op set" where
  "float_ops = {FloatEqual, FloatNotEqual, FloatLess, FloatLessEqual}"

definition shape_ok :: "pcode_exact_op \<Rightarrow> nat list \<Rightarrow> nat \<Rightarrow> bool" where
  "shape_ok opn ws n =
     ((opn \<in> unary_ops \<longrightarrow> length ws = 1) \<and>
      (opn \<in> equal_ops \<longrightarrow> (\<exists>w. ws = [w, w])) \<and>
      (opn \<in> float_ops \<longrightarrow> ws = [32, 32] \<or> ws = [64, 64]) \<and>
      (opn = FloatNan \<longrightarrow> ws = [32] \<or> ws = [64]) \<and>
      (opn = Piece \<longrightarrow> (\<exists>wa wb. ws = [wa, wb] \<and> wa + wb = n)) \<and>
      (opn = Subpiece \<longrightarrow> length ws = 2) \<and>
      (opn \<in> {ShiftLeft, LogicalShiftRight, ArithmeticShiftRight} \<longrightarrow> (\<exists>w. ws = [n, w])) \<and>
      (opn = PackSignedWordsToBytes \<longrightarrow> length ws = 3))"

lemma evaluate_unary:
  assumes "opn \<in> unary_ops" and "fits a w"
  shows "denotes (evaluate_value opn [a] [w] n) (spec_value opn [uint a] [w])"
proof -
  have "NOT a = word_of_int (- 1 - uint a)" by (simp add: not_eq_complement)
  moreover have "a XOR 1 = word_of_int (uint a XOR 1)"
    by (metis of_int_1 of_int_xor_eq word_of_int_uint)
  moreover have "128 - w \<le> leading_zeros a" "leading_zeros a - (128 - w) = top_zeros w (uint a)"
    by (simp_all add: leading_zeros_spec [OF assms(2)])
  ultimately show ?thesis
    using assms(1) fits_word(2) [OF assms(2)]
    by (auto simp: unary_ops_def at1_def signed_wide_sval [OF assms(2)] count_ones_spec [OF assms(2)])
qed

lemma evaluate_equal:
  assumes "opn \<in> equal_ops" and "fits a w" and "fits b w"
  shows "denotes (evaluate_value opn [a, b] [w, w] n) (spec_value opn [uint a, uint b] [w, w])"
proof -
  have bits: "a XOR b = word_of_int (uint a XOR uint b)" "a AND b = word_of_int (uint a AND uint b)"
    "a OR b = word_of_int (uint a OR uint b)"
    by (metis of_int_xor_eq of_int_and_eq of_int_or_eq word_of_int_uint)+
  have same: "uint a = uint b \<longleftrightarrow> a = b" by (simp add: word_uint_eq_iff)
  note rules = carry_spec [OF assms(2,3)] overflow_flag_spec [OF assms(2,3), of True]
    overflow_flag_spec [OF assms(2,3), of False] compare_spec [OF assms(2,3), unfolded u128_of_bool_int]
  note divides = divide_spec [OF assms(2,3), of UnsignedDivide] divide_spec [OF assms(2,3), of SignedDivide]
    divide_spec [OF assms(2,3), of UnsignedRemainder] divide_spec [OF assms(2,3), of SignedRemainder]
  show ?thesis
  proof (cases "opn \<in> {UnsignedDivide, SignedDivide, UnsignedRemainder, SignedRemainder}")
    case True
    with divides show ?thesis by (elim insertE emptyE) simp_all
  next
    case False
    with assms(1) have "opn \<in> {Add, Sub, UnsignedCarry, SignedCarry, SignedBorrow, Xor, And, Or, Multiply,
        BooleanXor, BooleanAnd, BooleanOr, Equal, NotEqual, UnsignedLess, UnsignedLessEqual, SignedLess,
        SignedLessEqual}" by (auto simp: equal_ops_def)
    then show ?thesis
      by (elim insertE emptyE) (simp_all add: rules at2_def u128_of_bool_int u128_less_int same bits del: of_int_of_bool)
  qed
qed

lemma evaluate_float:
  assumes "opn \<in> float_ops \<or> opn = FloatNan" and "word_args vs ws" and "shape_ok opn ws n"
  shows "denotes (evaluate_value opn vs ws n) (spec_value opn (map uint vs) ws)"
proof -
  have len: "length vs = length ws" using assms(2) by (simp add: word_args_def list_all2_lengthD)
  have ws: "length ws = (if opn = FloatNan then 1 else 2)" "\<forall>w \<in> set ws. w = 32 \<or> w = 64"
  proof -
    have "opn \<noteq> FloatNan \<Longrightarrow> ws = [32, 32] \<or> ws = [64, 64]" "opn = FloatNan \<Longrightarrow> ws = [32] \<or> ws = [64]"
      using assms(1,3) unfolding shape_ok_def by blast+
    then show "length ws = (if opn = FloatNan then 1 else 2)" "\<forall>w \<in> set ws. w = 32 \<or> w = 64"
      by (cases "opn = FloatNan"; auto)+
  qed
  note run = float_op_spec [OF assms(2) ws]
  show ?thesis
  proof (cases "opn = FloatNan")
    case True
    with run len ws(1) show ?thesis
      by (simp add: float_compare_simps u128_of_bool_int del: of_int_of_bool)
  next
    case False
    with assms(1) have "opn \<in> float_ops" by simp
    with run len ws(1) show ?thesis
      unfolding float_ops_def
      by (elim insertE emptyE) (simp_all add: float_compare_simps u128_of_bool_int Let_def del: of_int_of_bool)
  qed
qed

lemma drop_bit_word: "drop_bit k (a :: u128) = word_of_int (uint a div 2 ^ k)"
  by (metis uint_drop_bit word_of_int_uint)

lemma evaluate_value_spec:
  assumes "word_args vs ws" and "shape_ok opn ws n" and "n \<le> 128"
    and "opn = Subpiece \<Longrightarrow> unat (vs ! 1) * 8 < 128"
  shows "computes n (evaluate_value opn vs ws n) (spec_value opn (map uint vs) ws)"
proof -
  note one = index_rs_pair index_rs_Cons(1) at2_def at1_def rbind_simps
  consider "opn \<in> unary_ops" | "opn \<in> equal_ops" | "opn \<in> float_ops \<or> opn = FloatNan" | "opn = Piece"
    | "opn = Subpiece" | "opn \<in> {ShiftLeft, LogicalShiftRight, ArithmeticShiftRight}" | "opn = PackSignedWordsToBytes"
    by (cases opn) (simp_all add: unary_ops_def equal_ops_def float_ops_def)
  then show ?thesis
  proof cases
    case 1
    with assms(2) obtain w where "ws = [w]" unfolding shape_ok_def length_1 by blast
    with word_args_1 assms(1) obtain a where "vs = [a]" "fits a w" by blast
    with evaluate_unary [OF 1] \<open>ws = [w]\<close> show ?thesis by (simp add: denotes_computes)
  next
    case 2
    with assms(2) obtain w where "ws = [w, w]" unfolding shape_ok_def by blast
    with word_args_2 assms(1) obtain a b where "vs = [a, b]" "fits a w" "fits b w" by blast
    with evaluate_equal [OF 2] \<open>ws = [w, w]\<close> show ?thesis by (simp add: denotes_computes)
  next
    case 3
    with evaluate_float assms show ?thesis by (blast intro: denotes_computes)
  next
    case 4
    with assms(2) obtain wa wb where ws: "ws = [wa, wb]" "wa + wb = n" unfolding shape_ok_def by blast
    with word_args_2 assms(1) obtain a b where "vs = [a, b]" "fits a wa" "fits b wb" by blast
    moreover from this ws assms(3) have
      "map_ok (\<lambda>v. v OR b) (shl_rs a wb) = Ok (word_of_int (uint a * 2 ^ wb + uint b))"
      by (intro piece_spec) auto
    ultimately show ?thesis using ws 4 by (auto simp: at2_def simp del: map_ok_iff of_int_add of_int_mult intro!: computes_word)
  next
    case 5
    with assms(2) obtain wa wb where ws: "ws = [wa, wb]" unfolding shape_ok_def length_2 by blast
    with word_args_2 assms(1) obtain a b where "vs = [a, b]" by blast
    with assms(4) 5 ws show ?thesis by (simp add: at2_def shr_rs_def drop_bit_word mult.commute [of 8] computes_def)
  next
    case 6
    with assms(2) obtain w where ws: "ws = [n, w]" unfolding shape_ok_def by blast
    with word_args_2 assms(1) obtain a b where vs: "vs = [a, b]" "fits a n" "fits b w" by blast
    from 6 shift_left_spec [OF assms(3), of b a] shift_right_spec [OF vs(2), of b] sar_spec [OF vs(2), of b]
    show ?thesis unfolding ws vs(1) by (elim insertE emptyE) (simp_all add: at2_def at1_def)
  next
    case 7
    with assms(2) obtain w w' w'' where ws: "ws = [w, w', w'']"
      unfolding shape_ok_def length_3 by blast
    with word_args_3 assms(1) obtain a b c where "vs = [a, b, c]" by blast
    moreover have "pack_words b c = word_of_int (spec_pack (uint b) (uint c))"
      by (metis pack_words_spec word_of_int_uint)
    ultimately show ?thesis using 7 ws by (auto simp: numeral_2_eq_2)
  qed
qed

lemma sum_sizes:
  "size_in 1 16 a \<Longrightarrow> size_in 1 16 b \<Longrightarrow> unat (a + b) = unat a + unat b"
  using unat_size_8 [of a] unat_size_8 [of b] by (simp add: unat_word_ariths)

lemma widths_valid_shape:
  assumes "lower_operation s = Assign opn b"
  shows "shape_ok opn (map bits_of (op_inputs s)) (unat b)"
proof -
  from assms obtain out where out: "op_output s = Some out" "b = vn_size out * 8" "size_in 1 16 (vn_size out)"
    and ins: "\<forall>v \<in> set (op_inputs s). size_in 1 16 (vn_size v)"
    and valid: "opn = PackSignedWordsToBytes \<and> packsswb_valid s \<or>
      opn \<noteq> PackSignedWordsToBytes \<and> widths_valid opn s out (map vn_size (op_inputs s))"
    by (elim lower_Assign) blast
  have b: "unat b = bits_of out" using lower_Assign_bits(1) [OF assms out(1)] .
  show ?thesis
  proof (cases "opn = PackSignedWordsToBytes")
    case True
    with valid show ?thesis by (auto simp: shape_ok_def packsswb_valid_def unary_ops_def equal_ops_def float_ops_def)
  next
    case False
    with valid have v: "widths_valid opn s out (map vn_size (op_inputs s))" by blast
    show ?thesis
    proof (cases "opn = Piece")
      case True
      with v obtain x y where "op_inputs s = [x, y]" "vn_size x + vn_size y = vn_size out"
        by (auto simp: length_2)
      with True ins b out(3) show ?thesis
        using sum_sizes [of "vn_size x" "vn_size y"]
        by (auto simp: shape_ok_def bits_of_def unary_ops_def equal_ops_def float_ops_def)
    next
      case False
      with v \<open>opn \<noteq> PackSignedWordsToBytes\<close> b show ?thesis
        by (cases opn)
          (auto simp: shape_ok_def bits_of_def unary_ops_def equal_ops_def float_ops_def
            length_1 length_2 subpiece_valid_def map_eq_Cons_conv)
    qed
  qed
qed

section \<open>\<^verbatim>\<open>evaluate_exact_wide\<close> refines the contract\<close>

definition spec_inputs :: "u128 list \<Rightarrow> nat list \<Rightarrow> int list" where
  \<comment> \<open>each host value read at its varnode's width\<close>
  "spec_inputs inputs ws = map2 (\<lambda>v w. uint v mod 2 ^ w) inputs ws"

definition masked :: "u128 list \<Rightarrow> nat list \<Rightarrow> u128 list" where
  "masked inputs ws = map2 (\<lambda>v w. take_bit w v) inputs ws"

definition constants_agree :: "pcode_operation \<Rightarrow> u128 list \<Rightarrow> bool" where
  "constants_agree s inputs = (\<forall>p \<in> set (zip (op_inputs s) inputs). check_constant p = Ok ())"

lemma uint_take_bit: "uint (take_bit w (v :: u128)) = uint v mod 2 ^ w"
  by (rule trans [OF unsigned_take_bit_eq take_bit_eq_mod])

lemma unat_ucast_64 [simp]: "unat (ucast (v :: u64) :: u128) = unat v"
proof -
  have "unat v < 2 ^ 128" using unsigned_less [of v, where ?'a = nat] by (rule order.strict_trans) simp
  then show ?thesis by (simp add: unsigned_ucast_eq take_bit_nat_eq_self)
qed

lemma unat_ucast_32 [simp]: "unat (ucast (v :: u32) :: u64) = unat v"
proof -
  have "unat v < 2 ^ 64" using unsigned_less [of v, where ?'a = nat] by (rule order.strict_trans) simp
  then show ?thesis by (simp add: unsigned_ucast_eq take_bit_nat_eq_self)
qed

lemma masked_collect:
  "\<forall>w \<in> set ws. w \<le> 128 \<Longrightarrow>
   collect_res (\<lambda>(value, bits). map_ok (\<lambda>m. value AND m) (mask_wide bits)) (zip inputs ws) = Ok (masked inputs ws)"
proof (induction ws arbitrary: inputs)
  case (Cons w ws)
  then show ?case
    by (cases inputs) (auto simp: masked_def mask_wide_eq take_bit_eq_mask)
qed (simp add: masked_def)

lemma masked_inputs: "map uint (masked inputs ws) = spec_inputs inputs ws"
  by (auto simp: masked_def spec_inputs_def uint_take_bit)

lemma masked_args:
  assumes "length inputs = length ws" and "\<forall>w \<in> set ws. 1 \<le> w \<and> w \<le> 128"
  shows "word_args (masked inputs ws) ws"
  using assms by (auto simp: word_args_def masked_def list_all2_conv_all_nth fits_def uint_take_bit)

lemma canonical_widths:
  assumes "lower_operation s = Assign operation b"
  shows "\<forall>w \<in> set (map bits_of (op_inputs s)). 1 \<le> w \<and> w \<le> 128" and "8 \<le> unat b" and "unat b \<le> 128"
proof -
  from assms obtain out where "op_output s = Some out"
    and "\<forall>v \<in> set (op_inputs s). size_in 1 16 (vn_size v)"
    by (elim lower_Assign) blast
  then show "\<forall>w \<in> set (map bits_of (op_inputs s)). 1 \<le> w \<and> w \<le> 128" "8 \<le> unat b" "unat b \<le> 128"
    using lower_Assign_bits(2,3) [OF assms] bits_of_bounds by force+
qed

lemma check_constant_no_panic:
  assumes "bits_of v \<le> 128"
  shows "check_constant (v, x) \<noteq> Panic"
  using assms hex_u64_not_Panic [of "vn_offset v"]
  by (auto simp: check_constant_def mask_wide_eq rbind_Panic)

lemma subpiece_shift:
  assumes "lower_operation s = Assign Subpiece b" and "length inputs = length (op_inputs s)"
    and "constants_agree s inputs"
  shows "unat (masked inputs (map bits_of (op_inputs s)) ! 1) * 8 < 128"
proof -
  from assms(1) obtain out where out: "subpiece_valid s out" "size_in 1 16 (vn_size out)"
    and ins: "\<forall>v \<in> set (op_inputs s). size_in 1 16 (vn_size v)"
    by (elim lower_Assign) auto
  then obtain x c raw where s: "op_inputs s = [x, c]" "vn_space c = ''const''" "hex_u64 (vn_offset c) = Ok raw"
    and le: "unat raw + unat (vn_size out) \<le> unat (vn_size x)"
    by (auto simp: subpiece_valid_def length_2 word_le_nat_alt unat_add_no_overflow
      Option.bind_eq_Some_conv split: option.splits)
  obtain i j where "inputs = [i, j]" using assms(2) s length_2 [of inputs] by auto
  with assms(3) s ins have "j AND mask (bits_of c) = ucast raw AND mask (bits_of c)"
    by (auto simp: constants_agree_def check_constant_def mask_wide_eq bits_of_bounds split: if_splits)
  then have "unat (take_bit (bits_of c) j) = unat (ucast raw :: u128) mod 2 ^ bits_of c"
    by (simp add: take_bit_eq_mask unat_and_mask)
  also have "\<dots> \<le> unat raw" by simp
  also have "\<dots> \<le> 15" using le unat_size_8 [of "vn_size x"] unat_size_8 [OF out(2)] ins s(1) by simp
  finally show ?thesis using \<open>inputs = [i, j]\<close> s(1) by (simp add: masked_def)
qed

lemma evaluate_wide_run:
  assumes "so_effect x = Assign operation b" and "lower_operation (so_source x) = Assign operation b"
    and "length inputs = length (op_inputs (so_source x))" and "constants_agree (so_source x) inputs"
  shows "evaluate_exact_wide x inputs =
    (let ws = map bits_of (op_inputs (so_source x))
     in map_ok (\<lambda>v. Some (take_bit (unat b) v)) (evaluate_value operation (masked inputs ws) ws (unat b)))"
proof -
  note ws = canonical_widths [OF assms(2)]
  from assms(4) have checks: "for_each check_constant (zip (op_inputs (so_source x)) inputs) = Ok ()"
    by (simp add: constants_agree_def)
  have vals: "collect_res (\<lambda>(value, bits). map_ok (\<lambda>m. value AND m) (mask_wide bits))
      (zip inputs (map bits_of (op_inputs (so_source x)))) = Ok (masked inputs (map bits_of (op_inputs (so_source x))))"
    using ws(1) by (intro masked_collect) auto
  have "evaluate_exact_wide x inputs =
      rbind (evaluate_value operation (masked inputs (map bits_of (op_inputs (so_source x))))
        (map bits_of (op_inputs (so_source x))) (unat b)) (\<lambda>v. Ok (Some (v AND mask (unat b))))"
    unfolding evaluate_exact_wide_def assms(1,2) pcode_effect.case
    by (simp only: assms(3) simp_thms if_False Let_def checks vals rbind_simps mask_wide_eq [OF ws(3)])
  then show ?thesis by (simp only: Let_def map_ok_def take_bit_eq_mask)
qed

lemma evaluate_wide_computes:
  assumes "so_effect x = Assign operation b" and "lower_operation (so_source x) = Assign operation b"
    and "length inputs = length (op_inputs (so_source x))" and "constants_agree (so_source x) inputs"
  shows "case spec_value operation (spec_inputs inputs (map bits_of (op_inputs (so_source x))))
        (map bits_of (op_inputs (so_source x))) of
      Some i \<Rightarrow> evaluate_exact_wide x inputs = Ok (Some (word_of_int (i mod 2 ^ unat b)))
    | None \<Rightarrow> \<exists>e. evaluate_exact_wide x inputs = Err e"
proof -
  let ?ws = "map bits_of (op_inputs (so_source x))"
  have "computes (unat b) (evaluate_value operation (masked inputs ?ws) ?ws (unat b))
      (spec_value operation (map uint (masked inputs ?ws)) ?ws)"
    using canonical_widths [OF assms(2)] widths_valid_shape [OF assms(2)] assms subpiece_shift
    by (intro evaluate_value_spec masked_args) auto
  moreover have "take_bit (unat b) (word_of_int i :: u128) = word_of_int (i mod 2 ^ unat b)" for i
    by (metis take_bit_eq_mod take_bit_of_int)
  ultimately show ?thesis
    unfolding evaluate_wide_run [OF assms] computes_def masked_inputs Let_def
    by (auto split: option.splits)
qed

lemma evaluate_wide_no_panic: "evaluate_exact_wide x inputs \<noteq> Panic"
proof (cases "\<exists>operation b. so_effect x = Assign operation b \<and> lower_operation (so_source x) = Assign operation b \<and>
    length inputs = length (op_inputs (so_source x))")
  case True
  then obtain operation b where x: "so_effect x = Assign operation b" "lower_operation (so_source x) = Assign operation b"
      "length inputs = length (op_inputs (so_source x))" by blast
  show ?thesis
  proof (cases "constants_agree (so_source x) inputs")
    case True
    from evaluate_wide_computes [OF x True] show ?thesis by (auto split: option.splits)
  next
    case False
    have "for_each check_constant (zip (op_inputs (so_source x)) inputs) \<noteq> Panic"
      using canonical_widths(1) [OF x(2)]
      by (intro for_each_no_panic) (auto intro!: check_constant_no_panic dest: set_zip_leftD)
    moreover have "for_each check_constant (zip (op_inputs (so_source x)) inputs) \<noteq> Ok ()"
      using False by (auto simp: constants_agree_def)
    ultimately obtain e where "for_each check_constant (zip (op_inputs (so_source x)) inputs) = Err e"
      by (cases "for_each check_constant (zip (op_inputs (so_source x)) inputs)") auto
    with x show ?thesis by (simp add: evaluate_exact_wide_def)
  qed
qed (auto simp: evaluate_exact_wide_def split: pcode_effect.splits)

lemma evaluate_wide_bounds:
  assumes "evaluate_exact_wide x inputs = Ok (Some v)"
  obtains operation b out where "so_effect x = Assign operation b" "lower_operation (so_source x) = so_effect x"
    "op_output (so_source x) = Some out" "unat b = bits_of out" "uint v < 2 ^ bits_of out"
proof -
  from assms obtain operation b where x: "so_effect x = Assign operation b" "lower_operation (so_source x) = Assign operation b"
      "length inputs = length (op_inputs (so_source x))" and c: "constants_agree (so_source x) inputs"
    by (auto simp: evaluate_exact_wide_def constants_agree_def split: pcode_effect.splits if_splits)
  from x(2) obtain out where out: "op_output (so_source x) = Some out" by (elim lower_Assign)
  from assms obtain w where "v = take_bit (unat b) w" by (auto simp: evaluate_wide_run [OF x c] Let_def)
  then have "uint v < 2 ^ unat b" by (simp add: uint_take_bit)
  with that x out lower_Assign_bits(1) [OF x(2) out] show thesis by simp
qed

end
