(* ===== verification/Pcode_State.thy ===== *)
theory Pcode_State
  imports Pcode_EvalSpec
begin

text \<open>
  Whole functions: \<^verbatim>\<open>PcodeFunctionIr::lower_semantics\<close> (\<^verbatim>\<open>semantics.rs\<close>) attaches to every raw
  operation its effect, and \<^verbatim>\<open>PcodeSemanticFunctionIr::lower_state\<close> (\<^verbatim>\<open>state.rs\<close>) lists the state
  accesses of every operation after checking the claimed effect against the raw operation
  again. Both keep a diagnostics log in the order of the operations. The lemmas state that no
  operation is lost, reordered or made more exact than its raw form allows.
\<close>

section \<open>\<^verbatim>\<open>lower_semantics\<close>\<close>

definition diagnostic_code :: "pcode_opaque_class \<Rightarrow> string" where
  "diagnostic_code class =
     (case class of
        UnknownEffect \<Rightarrow> ''pcode_unknown_effect''
      | UnmodelledValue \<Rightarrow> ''pcode_unmodelled_value''
      | _ \<Rightarrow> ''pcode_unmodelled_effect'')"

definition lower_source ::
  "pcode_diagnostic list \<Rightarrow> pcode_operation \<Rightarrow> pcode_diagnostic list \<times> pcode_semantic_operation" where
  "lower_source diagnostics source =
     (let effect = lower_operation source;
          diagnostics' =
            (case effect of
               Opaque class reason _ _ _ _ \<Rightarrow>
                 diagnostics @ [\<lparr>dg_code = diagnostic_code class, dg_message = op_mnemonic source @ '': '' @ reason,
                   dg_source_address = op_source_address source, dg_sequence_index = op_sequence_index source\<rparr>]
             | Assign _ _ \<Rightarrow> diagnostics)
      in (diagnostics', \<lparr>so_source = source, so_effect = effect\<rparr>))"

definition lower_instruction ::
  "pcode_diagnostic list \<Rightarrow> pcode_instruction \<Rightarrow> pcode_diagnostic list \<times> pcode_semantic_instruction" where
  "lower_instruction diagnostics i =
     (let (diagnostics', operations) = map_accum lower_source diagnostics (in_pcode i)
      in (diagnostics', \<lparr>si_address = in_address i, si_bytes = in_bytes i, si_parsed_bytes = in_parsed_bytes i,
            si_mnemonic = in_mnemonic i, si_operations = operations\<rparr>))"

definition lower_semantics :: "pcode_function_ir \<Rightarrow> pcode_semantic_function_ir" where
  "lower_semantics f =
     (let (diagnostics, instructions) = map_accum lower_instruction [] (fi_instructions f)
      in \<lparr>se_schema_version = PCODE_SEMANTIC_IR_VERSION, se_binary_sha256 = fi_binary_sha256 f,
          se_source = fi_source f, se_entry = fi_entry f, se_name = fi_name f,
          se_ghidra_version = fi_ghidra_version f, se_language_id = fi_language_id f,
          se_compiler_spec_id = fi_compiler_spec_id f,
          se_flow_overrides_applied = fi_flow_overrides_applied f,
          se_address_spaces = fi_address_spaces f, se_instructions = instructions,
          se_semantic_fidelity = Unknown, se_verification = NotRun, se_diagnostics = diagnostics\<rparr>)"

section \<open>\<^verbatim>\<open>lower_state\<close>\<close>

definition PCODE_STATE_IR_VERSION :: u32 where "PCODE_STATE_IR_VERSION = 1"

datatype pcode_state_access_kind = Immediate | Read | MayRead | Write | MayWrite

record pcode_state_access =
  ac_kind :: pcode_state_access_kind
  ac_input_index :: "u32 option"
  ac_varnode :: pcode_varnode

record pcode_state_operation =
  to_source :: pcode_operation
  to_effect :: pcode_effect
  to_accesses :: "pcode_state_access list"
  to_may_clobber_unlisted_state :: bool

record pcode_state_instruction =
  ti_address :: pcode_address
  ti_bytes :: string
  ti_parsed_bytes :: string
  ti_mnemonic :: string
  ti_operations :: "pcode_state_operation list"

record pcode_state_function_ir =
  st_schema_version :: u32
  st_binary_sha256 :: string
  st_source :: string
  st_entry :: pcode_address
  st_name :: string
  st_ghidra_version :: string
  st_language_id :: string
  st_compiler_spec_id :: string
  st_flow_overrides_applied :: bool
  st_address_spaces :: "ghidra_address_space list"
  st_instructions :: "pcode_state_instruction list"
  st_semantic_fidelity :: semantic_fidelity
  st_verification :: verification_status
  st_diagnostics :: "pcode_diagnostic list"

definition is_assign :: "pcode_effect \<Rightarrow> bool" where
  "is_assign effect = (case effect of Assign _ _ \<Rightarrow> True | Opaque _ _ _ _ _ _ \<Rightarrow> False)"

definition may_clobber :: "pcode_effect \<Rightarrow> bool" where
  "may_clobber effect =
     (case effect of
        Assign _ _ \<Rightarrow> False
      | Opaque class _ _ _ _ _ \<Rightarrow> class = ControlTransfer \<or> class = UserOperation \<or> class = UnknownEffect)"

definition state_accesses :: "pcode_operation \<Rightarrow> bool \<Rightarrow> pcode_state_access list" where
  "state_accesses source exact =
     map (\<lambda>(index, varnode).
        \<lparr>ac_kind = (if vn_space varnode = ''const'' then Immediate else if exact then Read else MayRead),
         ac_input_index = Some (word_of_nat index), ac_varnode = varnode\<rparr>)
       (List.enumerate 0 (op_inputs source)) @
     (case op_output source of
        None \<Rightarrow> []
      | Some out \<Rightarrow>
          [\<lparr>ac_kind = (if exact then Write else MayWrite), ac_input_index = None, ac_varnode = out\<rparr>])"

definition mismatch_effect :: "pcode_operation \<Rightarrow> pcode_effect" where
  "mismatch_effect source =
     Opaque UnknownEffect ''semantic effect disagrees with raw P-code'' True True True (op_output source \<noteq> None)"

definition mismatch_diagnostic :: "pcode_operation \<Rightarrow> pcode_diagnostic" where
  "mismatch_diagnostic source =
     \<lparr>dg_code = ''pcode_semantic_effect_mismatch'',
      dg_message = op_mnemonic source @ '': semantic effect disagrees with raw P-code'',
      dg_source_address = op_source_address source, dg_sequence_index = op_sequence_index source\<rparr>"

definition lower_state_operation ::
  "pcode_diagnostic list \<Rightarrow> pcode_semantic_operation \<Rightarrow> pcode_diagnostic list \<times> pcode_state_operation" where
  "lower_state_operation diagnostics operation =
     (let source = so_source operation;
          canonical = lower_operation source;
          (diagnostics', effect) =
            (if so_effect operation = canonical then (diagnostics, canonical)
             else (diagnostics @ [mismatch_diagnostic source], mismatch_effect source))
      in (diagnostics', \<lparr>to_source = source, to_effect = effect,
            to_accesses = state_accesses source (is_assign effect),
            to_may_clobber_unlisted_state = may_clobber effect\<rparr>))"

definition lower_state_instruction ::
  "pcode_diagnostic list \<Rightarrow> pcode_semantic_instruction \<Rightarrow> pcode_diagnostic list \<times> pcode_state_instruction" where
  "lower_state_instruction diagnostics i =
     (let (diagnostics', operations) = map_accum lower_state_operation diagnostics (si_operations i)
      in (diagnostics', \<lparr>ti_address = si_address i, ti_bytes = si_bytes i, ti_parsed_bytes = si_parsed_bytes i,
            ti_mnemonic = si_mnemonic i, ti_operations = operations\<rparr>))"

definition lower_state :: "pcode_semantic_function_ir \<Rightarrow> pcode_state_function_ir" where
  "lower_state f =
     (let (diagnostics, instructions) = map_accum lower_state_instruction (se_diagnostics f) (se_instructions f)
      in \<lparr>st_schema_version = PCODE_STATE_IR_VERSION, st_binary_sha256 = se_binary_sha256 f,
          st_source = se_source f, st_entry = se_entry f, st_name = se_name f,
          st_ghidra_version = se_ghidra_version f, st_language_id = se_language_id f,
          st_compiler_spec_id = se_compiler_spec_id f,
          st_flow_overrides_applied = se_flow_overrides_applied f,
          st_address_spaces = se_address_spaces f, st_instructions = instructions,
          st_semantic_fidelity = Unknown, st_verification = NotRun, st_diagnostics = diagnostics\<rparr>)"

definition lower_state_raw :: "pcode_function_ir \<Rightarrow> pcode_state_function_ir" where
  "lower_state_raw f = lower_state (lower_semantics f)"

section \<open>Nothing is lost, reordered or strengthened\<close>

definition opaque_diagnostic :: "pcode_operation \<Rightarrow> pcode_diagnostic list" where
  "opaque_diagnostic source = fst (lower_source [] source)"

lemma lower_source_log:
  "lower_source ds s = (ds @ opaque_diagnostic s, \<lparr>so_source = s, so_effect = lower_operation s\<rparr>)"
  by (auto simp: opaque_diagnostic_def lower_source_def Let_def split: pcode_effect.splits)

lemma opaque_diagnostic_cases:
  "lower_operation s = Assign opn b \<Longrightarrow> opaque_diagnostic s = []"
  "lower_operation s = Opaque c r mr mw mc mo \<Longrightarrow> \<exists>d. opaque_diagnostic s = [d] \<and>
     dg_source_address d = op_source_address s \<and> dg_sequence_index d = op_sequence_index s"
  by (auto simp: opaque_diagnostic_def lower_source_def)

definition semantic_of :: "pcode_instruction \<Rightarrow> pcode_semantic_instruction" where
  "semantic_of i = snd (lower_instruction [] i)"

lemma lower_instruction_log:
  "lower_instruction ds i = (ds @ concat (map opaque_diagnostic (in_pcode i)), semantic_of i)"
  and semantic_of_operations: "si_operations (semantic_of i) =
    map (\<lambda>s. \<lparr>so_source = s, so_effect = lower_operation s\<rparr>) (in_pcode i)"
  and semantic_of_address [simp]: "si_address (semantic_of i) = in_address i"
  by (simp_all add: lower_instruction_def semantic_of_def
      map_accum_log [of _ lower_source, OF lower_source_log])

lemma lower_semantics_instructions:
  "se_instructions (lower_semantics f) = map semantic_of (fi_instructions f)"
  and lower_semantics_diagnostics: "se_diagnostics (lower_semantics f) =
    concat (map opaque_diagnostic (concat (map in_pcode (fi_instructions f))))"
  by (simp_all add: lower_semantics_def concat_map_concat
      map_accum_log [of _ lower_instruction, OF lower_instruction_log])

lemma lower_semantics_canonical:
  assumes "i \<in> set (se_instructions (lower_semantics f))" and "opn \<in> set (si_operations i)"
  shows "so_effect opn = lower_operation (so_source opn)"
  using assms by (auto simp: lower_semantics_instructions semantic_of_operations)

definition state_of :: "pcode_semantic_operation \<Rightarrow> pcode_state_operation" where
  "state_of opn = snd (lower_state_operation [] opn)"

definition mismatch_log :: "pcode_semantic_operation \<Rightarrow> pcode_diagnostic list" where
  "mismatch_log opn =
     (if so_effect opn = lower_operation (so_source opn) then [] else [mismatch_diagnostic (so_source opn)])"

lemma lower_state_operation_log: "lower_state_operation ds opn = (ds @ mismatch_log opn, state_of opn)"
  by (simp add: lower_state_operation_def state_of_def mismatch_log_def Let_def)

lemma state_of_simps:
  "to_source (state_of opn) = so_source opn"
  "to_effect (state_of opn) = (if so_effect opn = lower_operation (so_source opn) then so_effect opn
     else mismatch_effect (so_source opn))"
  "to_accesses (state_of opn) = state_accesses (so_source opn) (is_assign (to_effect (state_of opn)))"
  "to_may_clobber_unlisted_state (state_of opn) = may_clobber (to_effect (state_of opn))"
  by (auto simp: state_of_def lower_state_operation_def Let_def)

definition state_instruction_of :: "pcode_semantic_instruction \<Rightarrow> pcode_state_instruction" where
  "state_instruction_of i = snd (lower_state_instruction [] i)"

lemma lower_state_instruction_log:
  "lower_state_instruction ds i = (ds @ concat (map mismatch_log (si_operations i)), state_instruction_of i)"
  and state_instruction_operations: "ti_operations (state_instruction_of i) = map state_of (si_operations i)"
  and state_instruction_address [simp]: "ti_address (state_instruction_of i) = si_address i"
  by (simp_all add: lower_state_instruction_def state_instruction_of_def
      map_accum_log [of _ lower_state_operation, OF lower_state_operation_log])

lemma lower_state_instructions: "st_instructions (lower_state f) = map state_instruction_of (se_instructions f)"
  and lower_state_diagnostics: "st_diagnostics (lower_state f) =
    se_diagnostics f @ concat (map mismatch_log (concat (map si_operations (se_instructions f))))"
  by (simp_all add: lower_state_def concat_map_concat
      map_accum_log [of _ lower_state_instruction, OF lower_state_instruction_log])

section \<open>What the recheck guarantees\<close>

definition exact_kinds :: "pcode_state_access_kind set" where
  "exact_kinds = {Read, Write}"

definition conservative :: "pcode_operation \<Rightarrow> pcode_state_operation \<Rightarrow> bool" where
  \<comment> \<open>nothing is known of it: opaque in every respect, every access only possible, and others not excluded\<close>
  "conservative source lowered \<longleftrightarrow>
     (\<exists>reason. to_effect lowered = Opaque UnknownEffect reason True True True (op_output source \<noteq> None)) \<and>
     to_may_clobber_unlisted_state lowered \<and> (\<forall>a \<in> set (to_accesses lowered). ac_kind a \<notin> exact_kinds)"

definition rechecked :: "pcode_semantic_operation \<Rightarrow> pcode_state_operation \<Rightarrow> bool" where
  \<comment> \<open>all operands are listed; the effect is claimed, and an access called exact, only as the raw operation has it\<close>
  "rechecked opn lowered \<longleftrightarrow> to_source lowered = so_source opn \<and>
     map ac_varnode (to_accesses lowered) = op_inputs (so_source opn) @ (case op_output (so_source opn) of None \<Rightarrow> [] | Some out \<Rightarrow> [out]) \<and>
     (if so_effect opn = lower_operation (so_source opn)
      then to_effect lowered = lower_operation (so_source opn) \<and>
        (\<forall>a \<in> set (to_accesses lowered). ac_kind a \<in> exact_kinds \<longrightarrow> is_assign (lower_operation (so_source opn))) \<and>
        (case lower_operation (so_source opn) of Assign _ _ \<Rightarrow> True
         | Opaque cl _ _ _ _ _ \<Rightarrow> to_may_clobber_unlisted_state lowered \<or> cl \<in> {UnmodelledValue, MemoryRead, MemoryWrite})
      else conservative (so_source opn) lowered)"

lemma access_varnodes:
  "map ac_varnode (state_accesses source exact) = op_inputs source @ (case op_output source of None \<Rightarrow> [] | Some out \<Rightarrow> [out])"
  by (auto simp: state_accesses_def o_def case_prod_unfold map_snd_enumerate split: option.split)

lemma access_exact: "a \<in> set (state_accesses source exact) \<Longrightarrow> ac_kind a \<in> exact_kinds \<Longrightarrow> exact"
  by (auto simp: state_accesses_def exact_kinds_def split: option.splits if_splits)

lemma clobber_class: "may_clobber (Opaque cl reason mr mw mc mo) \<or> cl \<in> {UnmodelledValue, MemoryRead, MemoryWrite}"
  by (cases cl) (simp_all add: may_clobber_def)

lemma state_of_rechecked: "rechecked opn (state_of opn)"
proof (cases "so_effect opn = lower_operation (so_source opn)")
  case True
  with access_exact clobber_class show ?thesis
    by (auto simp: rechecked_def state_of_simps access_varnodes split: pcode_effect.split)
next
  case False
  have "may_clobber (mismatch_effect (so_source opn))" "\<not> is_assign (mismatch_effect (so_source opn))"
    by (simp_all add: may_clobber_def mismatch_effect_def is_assign_def)
  with False access_exact show ?thesis
    by (auto simp: rechecked_def conservative_def state_of_simps access_varnodes mismatch_effect_def)
qed

lemma state_rechecked:
  "list_all2 (list_all2 rechecked) (map si_operations (se_instructions f)) (map ti_operations (st_instructions (lower_state f)))"
  by (simp add: lower_state_instructions state_instruction_operations list.rel_map state_of_rechecked list_all2_same o_def)

definition diagnosed :: "pcode_semantic_operation \<Rightarrow> pcode_diagnostic \<Rightarrow> bool" where
  "diagnosed opn d \<longleftrightarrow> dg_code d = ''pcode_semantic_effect_mismatch'' \<and>
     dg_source_address d = op_source_address (so_source opn) \<and> dg_sequence_index d = op_sequence_index (so_source opn)"

lemma state_diagnosed:
  "\<exists>ds. st_diagnostics (lower_state f) = se_diagnostics f @ ds \<and>
     list_all2 diagnosed (filter (\<lambda>opn. so_effect opn \<noteq> lower_operation (so_source opn)) (concat (map si_operations (se_instructions f)))) ds"
proof -
  have "list_all2 diagnosed (filter (\<lambda>opn. so_effect opn \<noteq> lower_operation (so_source opn)) ops) (concat (map mismatch_log ops))" for ops
    by (induction ops) (auto simp: mismatch_log_def diagnosed_def mismatch_diagnostic_def)
  then show ?thesis by (auto simp: lower_state_diagnostics)
qed

end
