(* ===== verification/Hydir_BTree.thy ===== *)
theory Hydir_BTree
  imports Hydir_Prelude
begin

text \<open>
  \<^verbatim>\<open>BTreeMap\<close> and \<^verbatim>\<open>BTreeSet\<close> of the Rust standard library, as association lists and
  lists kept in strictly increasing key order, so that iteration, equality and \<^verbatim>\<open>len\<close> are
  those of the code. The locale \<open>ordered_map\<close> is the interface the concrete P-code state relies
  on; inside it stands what a loop of insertions does to lookups and to the number of entries.
\<close>

section \<open>Operations\<close>

type_synonym ('k, 'v) btree_map = "('k \<times> 'v) list"
type_synonym 'k btree_set = "'k list"

fun bm_insert :: "'k::linorder \<Rightarrow> 'v \<Rightarrow> ('k, 'v) btree_map \<Rightarrow> ('k, 'v) btree_map" where
  "bm_insert k v [] = [(k, v)]"
| "bm_insert k v ((k', v') # m) =
     (if k < k' then (k, v) # (k', v') # m
      else if k = k' then (k, v) # m
      else (k', v') # bm_insert k v m)"

definition bm_get :: "('k, 'v) btree_map \<Rightarrow> 'k \<Rightarrow> 'v option" where
  "bm_get m k = map_of m k"

definition bm_contains :: "('k, 'v) btree_map \<Rightarrow> 'k \<Rightarrow> bool" where
  "bm_contains m k = (bm_get m k \<noteq> None)"

definition bm_len :: "('k, 'v) btree_map \<Rightarrow> usize" where
  "bm_len m = length m"

definition bm_retain :: "('k \<Rightarrow> 'v \<Rightarrow> bool) \<Rightarrow> ('k, 'v) btree_map \<Rightarrow> ('k, 'v) btree_map" where
  "bm_retain p m = filter (\<lambda>(k, v). p k v) m"

definition bm_wf :: "('k::linorder, 'v) btree_map \<Rightarrow> bool" where
  "bm_wf m = sorted_wrt (<) (map fst m)"

fun bs_insert :: "'k::linorder \<Rightarrow> 'k btree_set \<Rightarrow> 'k btree_set" where
  "bs_insert k [] = [k]"
| "bs_insert k (x # s) =
     (if k < x then k # x # s else if k = x then x # s else x # bs_insert k s)"

definition bs_contains :: "'k btree_set \<Rightarrow> 'k \<Rightarrow> bool" where
  "bs_contains s k = List.member s k"

section \<open>The interface\<close>

text \<open>
  What a client of \<^verbatim>\<open>BTreeMap\<close> relies on: a lookup after an insertion, the entry count, and
  the well-formedness that both need.
\<close>

locale ordered_map =
  fixes empty :: "'m" and ins :: "'k \<Rightarrow> 'v \<Rightarrow> 'm \<Rightarrow> 'm" and get :: "'m \<Rightarrow> 'k \<Rightarrow> 'v option"
    and len :: "'m \<Rightarrow> nat" and wf :: "'m \<Rightarrow> bool"
  assumes get_empty: "get empty k = None"
    and get_ins: "get (ins k v m) k' = (if k' = k then Some v else get m k')"
    and wf_empty: "wf empty"
    and wf_ins: "wf m \<Longrightarrow> wf (ins k v m)"
    and len_empty: "len empty = 0"
    and len_ins: "wf m \<Longrightarrow> len (ins k v m) = len m + (if get m k = None then 1 else 0)"
begin

lemma wf_fold_ins: "wf m \<Longrightarrow> wf (fold (\<lambda>i. ins (key i) (val i)) is m)"
  by (induction "is" arbitrary: m) (auto simp: wf_ins)

lemma get_fold_ins_other:
  "k \<notin> key ` set is \<Longrightarrow> get (fold (\<lambda>i. ins (key i) (val i)) is m) k = get m k"
  by (induction "is" arbitrary: m) (auto simp: get_ins)

lemma get_fold_ins:
  assumes "inj_on key (set is)" and "distinct is" and "i \<in> set is"
  shows "get (fold (\<lambda>i. ins (key i) (val i)) is m) (key i) = Some (val i)"
  using assms
proof (induction "is" arbitrary: m)
  case (Cons j js)
  show ?case
  proof (cases "i = j")
    case True
    with Cons.prems have "key i \<notin> key ` set js" by (auto simp: inj_on_def)
    with True show ?thesis by (simp add: get_fold_ins_other get_ins)
  next
    case False
    with Cons show ?thesis by auto
  qed
qed simp

lemma len_fold_ins:
  assumes "wf m" and "inj_on key (set is)" and "distinct is"
  shows "len (fold (\<lambda>i. ins (key i) (val i)) is m) =
    len m + length (filter (\<lambda>i. get m (key i) = None) is)"
  using assms
proof (induction "is" arbitrary: m)
  case (Cons j js)
  have "filter (\<lambda>i. get (ins (key j) (val j) m) (key i) = None) js =
      filter (\<lambda>i. get m (key i) = None) js"
    using Cons.prems by (intro filter_cong) (auto simp: get_ins inj_on_def)
  with Cons show ?case by (simp add: wf_ins len_ins)
qed simp

lemma get_fold_ins_cases:
  "get (fold (\<lambda>i. ins (key i) (val i)) is m) k = Some v \<Longrightarrow>
    get m k = Some v \<or> (\<exists>i \<in> set is. key i = k \<and> val i = v)"
proof (induction "is" arbitrary: m)
  case (Cons i "is")
  then have "get (ins (key i) (val i) m) k = Some v \<or> (\<exists>i \<in> set is. key i = k \<and> val i = v)" by simp
  then show ?case by (auto simp: get_ins split: if_splits)
qed simp

lemma get_fold_ins_domain:
  "get (fold (\<lambda>i. ins (key i) (val i)) is m) k \<noteq> None \<longleftrightarrow> get m k \<noteq> None \<or> k \<in> key ` set is"
  by (induction "is" arbitrary: m) (auto simp: get_ins)

end

section \<open>The implementation meets the interface\<close>

lemma set_bm_insert_keys: "fst ` set (bm_insert k v m) = insert k (fst ` set m)"
  by (induction k v m rule: bm_insert.induct) (simp_all add: insert_commute)

lemma bm_wf_insert: "bm_wf m \<Longrightarrow> bm_wf (bm_insert k v m)"
proof (induction m)
  case (Cons p m)
  obtain k' v' where p: "p = (k', v')" by force
  have keys: "set (map fst (bm_insert k v m)) = insert k (set (map fst m))"
    using set_bm_insert_keys [of k v m] by simp
  from Cons show ?case
    by (auto simp: p bm_wf_def keys simp del: set_map dest: order.strict_trans)
qed (simp add: bm_wf_def)

lemma bm_get_insert: "bm_get (bm_insert k v m) k' = (if k' = k then Some v else bm_get m k')"
  unfolding bm_get_def by (induction m) auto

lemma bm_wf_Cons_get:
  assumes "bm_wf ((k', v') # m)" and "k < k'"
  shows "bm_get m k = None"
proof -
  from assms have "k \<notin> fst ` set m" by (auto simp: bm_wf_def)
  then show ?thesis by (simp add: bm_get_def map_of_eq_None_iff)
qed

lemma bm_len_insert:
  "bm_wf m \<Longrightarrow> bm_len (bm_insert k v m) = bm_len m + (if bm_get m k = None then 1 else 0)"
proof (induction m)
  case (Cons p m)
  obtain k' v' where p: "p = (k', v')" by force
  show ?case
  proof (cases "k < k'")
    case True
    with Cons.prems have "bm_get m k = None" unfolding p by (rule bm_wf_Cons_get)
    with True show ?thesis by (simp add: p bm_len_def bm_get_def)
  next
    case False
    with Cons show ?thesis by (auto simp: p bm_len_def bm_get_def bm_wf_def)
  qed
qed (simp add: bm_len_def bm_get_def)

interpretation bm: ordered_map "[]" bm_insert bm_get bm_len bm_wf
  by unfold_locales
    (simp_all add: bm_get_insert bm_wf_insert bm_len_insert, simp_all add: bm_get_def bm_wf_def bm_len_def)

lemma bm_wf_distinct: "bm_wf m \<Longrightarrow> distinct (map fst m)"
  unfolding bm_wf_def by (rule strict_sorted_iff [THEN iffD1, THEN conjunct2])

lemma bm_get_in_set: "bm_wf m \<Longrightarrow> (k, v) \<in> set m \<longleftrightarrow> bm_get m k = Some v"
  unfolding bm_get_def using bm_wf_distinct by (metis map_of_SomeD map_of_is_SomeI)

lemma bm_wf_retain: "bm_wf m \<Longrightarrow> bm_wf (bm_retain p m)"
  by (induction m) (auto simp: bm_wf_def bm_retain_def)

lemma bm_get_retain:
  "bm_wf m \<Longrightarrow> bm_get (bm_retain p m) k =
    (case bm_get m k of None \<Rightarrow> None | Some v \<Rightarrow> if p k v then Some v else None)"
proof (induction m)
  case (Cons q m)
  obtain k' v' where q: "q = (k', v')" by force
  from Cons.prems have "bm_wf m" and lt: "\<forall>x \<in> fst ` set m. k' < x" by (auto simp: q bm_wf_def)
  then have "k' \<notin> fst ` set m" by auto
  then have "bm_get m k' = None" by (simp add: bm_get_def map_of_eq_None_iff)
  with Cons.IH [OF \<open>bm_wf m\<close>] show ?case
    by (auto simp: q bm_get_def bm_retain_def split: option.splits)
qed (simp add: bm_get_def bm_retain_def)

lemma bm_len_retain: "bm_len (bm_retain p m) \<le> bm_len m"
  by (simp add: bm_len_def bm_retain_def)

lemma set_bs_insert [simp]: "set (bs_insert k s) = insert k (set s)"
  by (induction s) auto

lemma bs_contains_iff [simp]: "bs_contains s k \<longleftrightarrow> k \<in> set s"
  by (simp add: bs_contains_def)

lemma bm_contains_iff: "bm_contains m k \<longleftrightarrow> k \<in> fst ` set m"
  by (simp add: bm_contains_def bm_get_def map_of_eq_None_iff)

end
