(* ===== verification/Pcode_Concrete.thy ===== *)
theory Pcode_Concrete
  imports Pcode_State Hydir_BTree
begin

text \<open>
  \<^verbatim>\<open>PcodeConcreteState\<close> of \<^verbatim>\<open>execution.rs\<close>: sparse bytes of the register and unique spaces and of
  each named memory space, read and written as little-endian scalars of at most 16 bytes. The
  memory writers create the map of a space before they check the byte limit, so they return the
  state beside their result. The lemmas give the byte every address holds after a write, the
  round trip, the byte count and the invariant that execution keeps.
\<close>

section \<open>State\<close>

definition MAX_KNOWN_STATE_BYTES :: usize where "MAX_KNOWN_STATE_BYTES = 1048576"

type_synonym byte_map = "(u64, u8) btree_map"

record concrete_state =
  cs_register_bytes :: byte_map
  cs_unique_bytes :: byte_map
  cs_memory_bytes :: "(string, byte_map) btree_map"

definition known_byte_count :: "concrete_state \<Rightarrow> usize" where
  "known_byte_count s =
     bm_len (cs_register_bytes s) + bm_len (cs_unique_bytes s) +
     sum_list (map (bm_len \<circ> snd) (cs_memory_bytes s))"

section \<open>Ranges\<close>

definition checked_memory_range_wide :: "u64 \<Rightarrow> u32 \<Rightarrow> (unit, string) result" where
  "checked_memory_range_wide byte_offset width =
     (if \<not> size_in 1 16 width then Err ''concrete memory read width must be 1..=16 bytes''
      else if checked_add byte_offset (ucast (width - 1)) = None
        then Err ''concrete memory byte range overflows u64''
      else Ok ())"

definition checked_memory_range :: "u64 \<Rightarrow> u32 \<Rightarrow> (unit, string) result" where
  "checked_memory_range byte_offset width =
     (if \<not> size_in 1 8 width then Err ''concrete memory access width must be 1..=8 bytes''
      else checked_memory_range_wide byte_offset width)"

definition checked_range :: "pcode_varnode \<Rightarrow> (u64, string) result" where
  "checked_range node =
     (if \<not> size_in 1 16 (vn_size node) then Err ''concrete varnode width must be 1..=16 bytes''
      else rbind (hex_u64 (vn_offset node)) (\<lambda>byte_offset.
        if checked_add byte_offset (ucast (vn_size node - 1)) = None
        then Err ''concrete varnode byte range overflows u64''
        else Ok byte_offset))"

definition signed_relative_pcode_offset :: "pcode_varnode \<Rightarrow> (u64, string) result" where
  \<comment> \<open>the displacement, read as an \<^verbatim>\<open>i64\<close>\<close>
  "signed_relative_pcode_offset node =
     (if vn_space node \<noteq> ''const'' \<or> \<not> size_in 1 8 (vn_size node)
        then Err ''relative P-code target requires a 1..=8 byte constant''
      else rbind (hex_u64 (vn_offset node)) (\<lambda>raw.
        let shift = 64 - unat (vn_size node) * 8 in
        if raw > drop_bit shift (- 1) then Err ''relative P-code target exceeds its declared width''
        else Ok (signed_drop_bit shift (push_bit shift raw))))"

section \<open>Little-endian loops\<close>

definition byte_at :: "u64 \<Rightarrow> nat \<Rightarrow> u64" where
  \<comment> \<open>the address of a byte of a checked range\<close>
  "byte_at byte_offset index = byte_offset + word_of_nat index"

fun read_loop ::
  "(u64 \<Rightarrow> u8 option) \<Rightarrow> u64 \<Rightarrow> nat list \<Rightarrow> 'w::len word \<Rightarrow> 'w word option" where
  "read_loop look byte_offset [] value = Some value"
| "read_loop look byte_offset (index # rest) value =
     (case look (byte_at byte_offset index) of
        None \<Rightarrow> None
      | Some byte \<Rightarrow> read_loop look byte_offset rest (value OR push_bit (index * 8) (ucast byte)))"

definition byte_of :: "'w::len word \<Rightarrow> nat \<Rightarrow> u8" where
  "byte_of value index = ucast (drop_bit (index * 8) value)"

definition write_loop :: "u64 \<Rightarrow> nat \<Rightarrow> 'w::len word \<Rightarrow> byte_map \<Rightarrow> byte_map" where
  "write_loop byte_offset width value bytes =
     fold (\<lambda>index. bm_insert (byte_at byte_offset index) (byte_of value index)) [0..<width] bytes"

definition missing_bytes :: "u64 \<Rightarrow> nat \<Rightarrow> byte_map \<Rightarrow> nat" where
  "missing_bytes byte_offset width bytes =
     length (filter (\<lambda>index. \<not> bm_contains bytes (byte_at byte_offset index)) [0..<width])"

section \<open>Varnodes\<close>

definition write_varnode_wide :: "concrete_state \<Rightarrow> pcode_varnode \<Rightarrow> u128 \<Rightarrow> (concrete_state, string) result" where
  "write_varnode_wide s node value =
     rbind (checked_range node) (\<lambda>byte_offset.
       let width = unat (vn_size node);
           put = (\<lambda>bytes update.
             if known_byte_count s + missing_bytes byte_offset width bytes > MAX_KNOWN_STATE_BYTES
             then Err ''concrete P-code state exceeds byte limit''
             else Ok (update (write_loop byte_offset width value bytes)))
       in if vn_space node = ''register''
            then put (cs_register_bytes s) (\<lambda>bytes. s\<lparr>cs_register_bytes := bytes\<rparr>)
          else if vn_space node = ''unique''
            then put (cs_unique_bytes s) (\<lambda>bytes. s\<lparr>cs_unique_bytes := bytes\<rparr>)
          else Err ''concrete output must use register or unique space'')"

definition write_varnode :: "concrete_state \<Rightarrow> pcode_varnode \<Rightarrow> u64 \<Rightarrow> (concrete_state, string) result" where
  "write_varnode s node value =
     (if \<not> size_in 1 8 (vn_size node) then Err ''64-bit concrete varnode width must be 1..=8 bytes''
      else write_varnode_wide s node (ucast value))"

definition read_varnode_wide :: "concrete_state \<Rightarrow> pcode_varnode \<Rightarrow> (u128 option, string) result" where
  "read_varnode_wide s node =
     (if vn_space node = ''const'' then
        (if \<not> size_in 1 16 (vn_size node) then Err ''concrete varnode width must be 1..=16 bytes''
         else rbind (hex_u64 (vn_offset node)) (\<lambda>raw.
           rbind (mask_wide (bits_of node)) (\<lambda>m. Ok (Some (ucast raw AND m)))))
      else rbind (checked_range node) (\<lambda>byte_offset.
        let get = (\<lambda>bytes. Ok (read_loop (bm_get bytes) byte_offset [0..<unat (vn_size node)] 0))
        in if vn_space node = ''register'' then get (cs_register_bytes s)
           else if vn_space node = ''unique'' then get (cs_unique_bytes s)
           else Err ''concrete input must use register, unique or const space''))"

definition read_varnode :: "concrete_state \<Rightarrow> pcode_varnode \<Rightarrow> (u64 option, string) result" where
  "read_varnode s node =
     (if \<not> size_in 1 8 (vn_size node) then Err ''64-bit concrete varnode width must be 1..=8 bytes''
      else rbind (read_varnode_wide s node) (\<lambda>value.
        case value of
          None \<Rightarrow> Ok None
        | Some v \<Rightarrow> map_ok Some (ok_or ''64-bit concrete varnode overflow'' (u64_try_from v))))"

definition clear_unique :: "concrete_state \<Rightarrow> concrete_state" where
  "clear_unique s = s\<lparr>cs_unique_bytes := []\<rparr>"

definition retain_register_ranges :: "concrete_state \<Rightarrow> (u64 \<times> u32) list \<Rightarrow> concrete_state" where
  "retain_register_ranges s ranges =
     clear_unique (s\<lparr>cs_register_bytes := bm_retain (\<lambda>address _.
       list_ex (\<lambda>(start, width). start \<le> address \<and> address - start < ucast width) ranges) (cs_register_bytes s)\<rparr>)"

section \<open>Memory spaces\<close>

definition space_name_ok :: "string \<Rightarrow> bool" where
  "space_name_ok sp = (sp \<noteq> [] \<and> length sp \<le> 128 \<and> \<not> has_control sp)"

definition entry_or_default :: "(string, byte_map) btree_map \<Rightarrow> string \<Rightarrow> (string, byte_map) btree_map" where
  "entry_or_default m sp = (if bm_contains m sp then m else bm_insert sp [] m)"

definition space_bytes :: "concrete_state \<Rightarrow> string \<Rightarrow> byte_map" where
  \<comment> \<open>the bytes of a space; none when the space has no map\<close>
  "space_bytes s sp = (case bm_get (cs_memory_bytes s) sp of None \<Rightarrow> [] | Some bytes \<Rightarrow> bytes)"

definition store_bytes ::
  "concrete_state \<Rightarrow> string \<Rightarrow> u64 \<Rightarrow> u32 \<Rightarrow> 'w::len word \<Rightarrow> concrete_state \<times> (unit, string) result" where
  \<comment> \<open>the part the two memory writers share, after their width check\<close>
  "store_bytes s sp byte_offset width value =
     (if \<not> space_name_ok sp then (s, Err ''concrete memory space name is invalid'')
      else
        let current_bytes = known_byte_count s;
            s' = s\<lparr>cs_memory_bytes := entry_or_default (cs_memory_bytes s) sp\<rparr>;
            bytes = space_bytes s' sp
        in if current_bytes + missing_bytes byte_offset (unat width) bytes > MAX_KNOWN_STATE_BYTES
           then (s', Err ''concrete P-code state exceeds byte limit'')
           else (s'\<lparr>cs_memory_bytes := bm_insert sp (write_loop byte_offset (unat width) value bytes)
                    (cs_memory_bytes s')\<rparr>, Ok ()))"

definition write_memory ::
  "concrete_state \<Rightarrow> string \<Rightarrow> u64 \<Rightarrow> u32 \<Rightarrow> u64 \<Rightarrow> concrete_state \<times> (unit, string) result" where
  "write_memory s sp byte_offset width value =
     (case checked_memory_range byte_offset width of
        Ok _ \<Rightarrow> store_bytes s sp byte_offset width value
      | Err e \<Rightarrow> (s, Err e)
      | Panic \<Rightarrow> (s, Panic))"

definition write_memory_wide ::
  "concrete_state \<Rightarrow> string \<Rightarrow> u64 \<Rightarrow> u32 \<Rightarrow> u128 \<Rightarrow> concrete_state \<times> (unit, string) result" where
  "write_memory_wide s sp byte_offset width value =
     (case checked_memory_range_wide byte_offset width of
        Ok _ \<Rightarrow> store_bytes s sp byte_offset width value
      | Err e \<Rightarrow> (s, Err e)
      | Panic \<Rightarrow> (s, Panic))"

definition read_memory :: "concrete_state \<Rightarrow> string \<Rightarrow> u64 \<Rightarrow> u32 \<Rightarrow> (u64 option, string) result" where
  "read_memory s sp byte_offset width =
     rbind (checked_memory_range byte_offset width) (\<lambda>_.
       case bm_get (cs_memory_bytes s) sp of
         None \<Rightarrow> Ok None
       | Some bytes \<Rightarrow> Ok (read_loop (bm_get bytes) byte_offset [0..<unat width] 0))"

record initial_memory =
  \<comment> \<open>the trait \<^verbatim>\<open>PcodeInitialMemory\<close>, as the methods of one object\<close>
  im_byte :: "string \<Rightarrow> u64 \<Rightarrow> u8 option"
  im_mapped :: "string \<Rightarrow> u64 \<Rightarrow> bool"
  im_writable :: "string \<Rightarrow> u64 \<Rightarrow> bool"
  im_reject_unmapped_writes :: bool
  im_validate_for :: "ghidra_snapshot \<Rightarrow> concrete_state \<Rightarrow> (unit, string) result"

definition memory_byte :: "concrete_state \<Rightarrow> initial_memory option \<Rightarrow> string \<Rightarrow> u64 \<Rightarrow> u8 option" where
  \<comment> \<open>a known byte of the state, or else the image's\<close>
  "memory_byte s img sp address =
     (case Option.bind (bm_get (cs_memory_bytes s) sp) (\<lambda>bytes. bm_get bytes address) of
        Some byte \<Rightarrow> Some byte
      | None \<Rightarrow> Option.bind img (\<lambda>im. im_byte im sp address))"

definition read_memory_with_image_wide ::
  "concrete_state \<Rightarrow> string \<Rightarrow> u64 \<Rightarrow> u32 \<Rightarrow> initial_memory option \<Rightarrow> (u128 option, string) result" where
  "read_memory_with_image_wide s sp byte_offset width img =
     rbind (checked_memory_range_wide byte_offset width) (\<lambda>_.
       Ok (read_loop (memory_byte s img sp) byte_offset [0..<unat width] 0))"

section \<open>Ranges do not wrap\<close>

lemma size_in_unat: "size_in 1 16 w \<Longrightarrow> unat (w - 1) = unat w - 1"
  "size_in 1 8 w \<Longrightarrow> unat (w - 1) = unat w - 1"
  by (auto simp: size_in_def word_le_nat_alt unat_sub)

lemma checked_memory_range_wide_Ok [simp]:
  "checked_memory_range_wide b w = Ok u \<longleftrightarrow> size_in 1 16 w \<and> unat b + unat w \<le> 2 ^ 64"
  using size_in_unat(1) [of w] unat_size_8 [of w]
  by (auto simp: checked_memory_range_wide_def not_le simp del: One_nat_def)

lemma checked_memory_range_Ok [simp]:
  "checked_memory_range b w = Ok u \<longleftrightarrow> size_in 1 8 w \<and> unat b + unat w \<le> 2 ^ 64"
  by (auto simp: checked_memory_range_def size_in_8_16)

lemma checked_range_Ok [simp]:
  "checked_range node = Ok b \<longleftrightarrow> size_in 1 16 (vn_size node) \<and> hex_u64 (vn_offset node) = Ok b \<and>
     unat b + unat (vn_size node) \<le> 2 ^ 64"
  using size_in_unat(1) [of "vn_size node"] unat_size_8 [of "vn_size node"]
  by (auto simp: checked_range_def not_le simp del: One_nat_def intro!: exI [of _ b])

lemma ranges_no_panic [simp, no_panic]:
  "checked_memory_range_wide b w \<noteq> Panic" "checked_memory_range b w \<noteq> Panic" "checked_range node \<noteq> Panic"
  by (auto simp: checked_memory_range_wide_def checked_memory_range_def checked_range_def rbind_Panic)

lemma unat_byte_at: "unat b + n \<le> 2 ^ 64 \<Longrightarrow> i < n \<Longrightarrow> unat (byte_at b i) = unat b + i"
  by (simp add: byte_at_def unat_word_ariths unat_of_nat)

definition in_range :: "u64 \<Rightarrow> u64 \<Rightarrow> nat \<Rightarrow> bool" where
  "in_range a b n = (unat b \<le> unat a \<and> unat a < unat b + n)"

lemma in_range_byte_at:
  assumes "unat b + n \<le> 2 ^ 64"
  shows "in_range a b n \<longleftrightarrow> (\<exists>i < n. a = byte_at b i)"
proof
  assume "in_range a b n"
  then have i: "unat a - unat b < n" "unat b + (unat a - unat b) = unat a" by (auto simp: in_range_def)
  with unat_byte_at [OF assms i(1)] have "a = byte_at b (unat a - unat b)" by (simp add: word_unat_eq_iff)
  with i show "\<exists>i < n. a = byte_at b i" by blast
qed (auto simp: in_range_def unat_byte_at [OF assms])

lemma byte_at_inj:
  assumes "unat b + n \<le> 2 ^ 64"
  shows "inj_on (byte_at b) (set [0..<n])"
  by (rule inj_onI) (metis assms atLeastLessThan_iff add_left_cancel set_upt unat_byte_at)

section \<open>Bytes after a write\<close>

lemma write_loop_get:
  assumes "unat b + n \<le> 2 ^ 64"
  shows "bm_get (write_loop b n v bytes) a =
    (if in_range a b n then Some (byte_of v (unat a - unat b)) else bm_get bytes a)"
proof (cases "in_range a b n")
  case True
  then obtain i where i: "i < n" "a = byte_at b i" unfolding in_range_byte_at [OF assms] by blast
  then have "bm_get (write_loop b n v bytes) a = Some (byte_of v i)"
    using bm.get_fold_ins [OF byte_at_inj [OF assms], of i "byte_of v" bytes] by (simp add: write_loop_def)
  moreover have "unat a - unat b = i" using i unat_byte_at [OF assms] by simp
  ultimately show ?thesis using True by simp
next
  case False
  then have "a \<notin> byte_at b ` set [0..<n]" unfolding in_range_byte_at [OF assms] by auto
  with False show ?thesis by (simp add: write_loop_def bm.get_fold_ins_other)
qed

lemma write_loop_wf: "bm_wf bytes \<Longrightarrow> bm_wf (write_loop b n v bytes)"
  unfolding write_loop_def by (rule bm.wf_fold_ins)

lemma write_loop_len:
  "bm_wf bytes \<Longrightarrow> unat b + n \<le> 2 ^ 64 \<Longrightarrow> bm_len (write_loop b n v bytes) = bm_len bytes + missing_bytes b n bytes"
  by (simp add: write_loop_def missing_bytes_def bm_contains_def bm.len_fold_ins byte_at_inj
    del: set_upt)

section \<open>Scalars of bytes\<close>

definition le_value :: "nat \<Rightarrow> (nat \<Rightarrow> u8) \<Rightarrow> 'w::len word" where
  "le_value n f = fold (\<lambda>i v. v OR push_bit (i * 8) (ucast (f i))) [0..<n] 0"

lemma read_loop_eq:
  "read_loop look b is v =
    (if \<forall>i \<in> set is. look (byte_at b i) \<noteq> None
     then Some (fold (\<lambda>i v. v OR push_bit (i * 8) (ucast (the (look (byte_at b i))))) is v) else None)"
  by (induction "is" arbitrary: v) (auto split: option.splits)

lemma read_loop_Some:
  "read_loop look b [0..<n] (0 :: 'w::len word) = Some v \<longleftrightarrow>
    (\<forall>i < n. look (byte_at b i) \<noteq> None) \<and> v = le_value n (\<lambda>i. the (look (byte_at b i)))"
  by (auto simp: read_loop_eq le_value_def)

lemma bit_le_value:
  "bit (le_value n f :: 'w::len word) k \<longleftrightarrow> k < LENGTH('w) \<and> k < 8 * n \<and> bit (f (k div 8)) (k mod 8)"
proof (induction n)
  case (Suc n)
  have step: "le_value (Suc n) f = (le_value n f OR push_bit (n * 8) (ucast (f n)) :: 'w word)"
    by (simp add: le_value_def)
  have "bit (f n) (k - 8 * n) \<Longrightarrow> k - 8 * n < 8" using bit_imp_le_length [of "f n" "k - 8 * n"] by simp
  moreover have "k div 8 = n" if "8 * n \<le> k" "k < 8 + 8 * n" using that by (simp add: div_nat_eqI)
  moreover have "k mod 8 = k - 8 * (k div 8)" by (simp add: minus_mult_div_eq_mod)
  ultimately show ?case
    unfolding step bit_or_iff Suc.IH bit_push_bit_iff
    by (auto simp: bit_ucast_iff mult.commute dest: bit_imp_le_length)
qed (simp add: le_value_def)

lemma bit_byte_of: "bit (byte_of v i) k \<longleftrightarrow> k < 8 \<and> bit (v :: 'w::len word) (i * 8 + k)"
  by (auto simp: byte_of_def bit_ucast_iff bit_drop_bit_eq dest: bit_imp_le_length)

lemma le_value_bytes: "le_value n (byte_of v) = take_bit (8 * n) (v :: 'w::len word)"
  by (rule bit_word_eqI) (simp add: bit_le_value bit_byte_of bit_take_bit_iff)

lemma byte_of_le_value: "i < n \<Longrightarrow> 8 * n \<le> LENGTH('w) \<Longrightarrow> byte_of (le_value n f :: 'w::len word) i = f i"
  by (rule bit_word_eqI) (auto simp: bit_byte_of bit_le_value)

lemma le_value_cong: "(\<And>i. i < n \<Longrightarrow> f i = g i) \<Longrightarrow> le_value n f = le_value n g"
  unfolding le_value_def by (rule fold_cong) auto

lemma le_value_bound: "8 * n \<le> 128 \<Longrightarrow> uint (le_value n f :: u128) < 2 ^ (8 * n)"
proof -
  assume "8 * n \<le> 128"
  have "take_bit (8 * n) (le_value n f) = (le_value n f :: u128)"
    by (rule bit_word_eqI) (auto simp: bit_take_bit_iff bit_le_value)
  then show ?thesis by (metis uint_take_bit pos_mod_bound zero_less_numeral zero_less_power)
qed

section \<open>The invariant and the byte count\<close>

definition state_wf :: "concrete_state \<Rightarrow> bool" where
  \<comment> \<open>every map is in key order, and the known bytes fit the limit\<close>
  "state_wf s =
     (bm_wf (cs_register_bytes s) \<and> bm_wf (cs_unique_bytes s) \<and> bm_wf (cs_memory_bytes s) \<and>
      (\<forall>bytes \<in> snd ` set (cs_memory_bytes s). bm_wf bytes) \<and> known_byte_count s \<le> MAX_KNOWN_STATE_BYTES)"

definition state_sorted :: "concrete_state \<Rightarrow> bool" where
  \<comment> \<open>what the type \<^verbatim>\<open>BTreeMap\<close> guarantees of every state\<close>
  "state_sorted s =
     (bm_wf (cs_register_bytes s) \<and> bm_wf (cs_unique_bytes s) \<and> bm_wf (cs_memory_bytes s) \<and>
      (\<forall>bytes \<in> snd ` set (cs_memory_bytes s). bm_wf bytes))"

lemma state_wf_sorted: "state_wf s \<longleftrightarrow> state_sorted s \<and> known_byte_count s \<le> MAX_KNOWN_STATE_BYTES"
  by (auto simp: state_wf_def state_sorted_def)

lemma sum_bm_insert:
  "bm_wf m \<Longrightarrow> sum_list (map (f \<circ> snd) (bm_insert k v m)) + (case bm_get m k of None \<Rightarrow> 0 | Some w \<Rightarrow> f w) =
    sum_list (map (f \<circ> snd) m) + (f v :: nat)"
proof (induction m)
  case (Cons p m)
  obtain k' v' where p: "p = (k', v')" by force
  show ?case
  proof (cases "k < k'")
    case True
    with Cons.prems bm_wf_Cons_get [of k' v' m k] have "bm_get (p # m) k = None" by (simp add: p bm_get_def)
    with True show ?thesis by (simp add: p)
  next
    case False
    with Cons show ?thesis by (auto simp: p bm_get_def bm_wf_def split: option.splits)
  qed
qed (simp add: bm_get_def)

lemma set_bm_insert: "set (bm_insert k v m) \<subseteq> insert (k, v) (set m)"
  by (induction k v m rule: bm_insert.induct) (auto split: if_splits)

lemma set_snd_bm_insert: "snd ` set (bm_insert k v m) \<subseteq> insert v (snd ` set m)"
  using image_mono [OF set_bm_insert, of snd k v m] by simp

lemma bm_get_in_snd: "bm_get m k = Some v \<Longrightarrow> v \<in> snd ` set m"
  unfolding bm_get_def by (auto dest!: map_of_SomeD simp: rev_image_eqI)

lemma space_bytes_wf: "state_wf s \<Longrightarrow> bm_wf (space_bytes s sp)"
  using bm_get_in_snd [of "cs_memory_bytes s" sp]
  using bm.wf_empty by (auto simp: space_bytes_def state_wf_def split: option.splits)

lemma entry_wf:
  assumes "state_wf s"
  shows "state_wf (s\<lparr>cs_memory_bytes := entry_or_default (cs_memory_bytes s) sp\<rparr>)"
    and "known_byte_count (s\<lparr>cs_memory_bytes := entry_or_default (cs_memory_bytes s) sp\<rparr>) = known_byte_count s"
    and "space_bytes (s\<lparr>cs_memory_bytes := entry_or_default (cs_memory_bytes s) sp\<rparr>) sp' = space_bytes s sp'"
    and "bm_get (entry_or_default (cs_memory_bytes s) sp) sp \<noteq> None"
proof -
  have wf: "bm_wf (cs_memory_bytes s)" using assms by (simp add: state_wf_def)
  show count: "known_byte_count (s\<lparr>cs_memory_bytes := entry_or_default (cs_memory_bytes s) sp\<rparr>) = known_byte_count s"
    using sum_bm_insert [OF wf, of bm_len sp "[]"]
    by (auto simp: known_byte_count_def entry_or_default_def bm_contains_def bm.len_empty)
  show "space_bytes (s\<lparr>cs_memory_bytes := entry_or_default (cs_memory_bytes s) sp\<rparr>) sp' = space_bytes s sp'"
    "bm_get (entry_or_default (cs_memory_bytes s) sp) sp \<noteq> None"
    by (auto simp: space_bytes_def entry_or_default_def bm_contains_def bm.get_ins split: option.splits)
  have sub: "snd ` set (entry_or_default (cs_memory_bytes s) sp) \<subseteq> insert [] (snd ` set (cs_memory_bytes s))"
    using set_snd_bm_insert [of sp "[]" "cs_memory_bytes s"] by (simp add: entry_or_default_def subset_insertI)
  have "\<forall>bytes \<in> snd ` set (entry_or_default (cs_memory_bytes s) sp). bm_wf bytes"
  proof
    fix bytes
    assume "bytes \<in> snd ` set (entry_or_default (cs_memory_bytes s) sp)"
    with sub have "bytes = [] \<or> bytes \<in> snd ` set (cs_memory_bytes s)" by blast
    with assms show "bm_wf bytes" by (auto simp: state_wf_def bm.wf_empty)
  qed
  moreover have "bm_wf (entry_or_default (cs_memory_bytes s) sp)"
    using wf by (simp add: entry_or_default_def bm.wf_ins)
  ultimately show "state_wf (s\<lparr>cs_memory_bytes := entry_or_default (cs_memory_bytes s) sp\<rparr>)"
    using assms count by (simp add: state_wf_def)
qed

lemma put_space_count:
  assumes "state_wf s" and "bm_get (cs_memory_bytes s) sp \<noteq> None"
  shows "known_byte_count (s\<lparr>cs_memory_bytes := bm_insert sp bytes (cs_memory_bytes s)\<rparr>) + bm_len (space_bytes s sp) =
    known_byte_count s + bm_len bytes"
proof -
  have wf: "bm_wf (cs_memory_bytes s)" using assms by (simp add: state_wf_def)
  from assms(2) obtain w where "bm_get (cs_memory_bytes s) sp = Some w" by auto
  with sum_bm_insert [OF wf, of bm_len sp bytes] show ?thesis
    by (simp add: known_byte_count_def space_bytes_def)
qed

section \<open>Varnode writes\<close>

definition scalar_bytes :: "concrete_state \<Rightarrow> string \<Rightarrow> byte_map" where
  "scalar_bytes s sp = (if sp = ''register'' then cs_register_bytes s else cs_unique_bytes s)"

definition set_scalar_bytes :: "concrete_state \<Rightarrow> string \<Rightarrow> byte_map \<Rightarrow> concrete_state" where
  "set_scalar_bytes s sp bytes =
     (if sp = ''register'' then s\<lparr>cs_register_bytes := bytes\<rparr> else s\<lparr>cs_unique_bytes := bytes\<rparr>)"

definition node_start :: "pcode_varnode \<Rightarrow> u64" where
  "node_start node = (case hex_u64 (vn_offset node) of Ok b \<Rightarrow> b | _ \<Rightarrow> 0)"

definition node_len :: "pcode_varnode \<Rightarrow> nat" where
  "node_len node = unat (vn_size node)"

definition node_range_ok :: "pcode_varnode \<Rightarrow> bool" where
  "node_range_ok node = (is_ok (checked_range node))"

lemma node_range_ok_iff:
  "node_range_ok node \<longleftrightarrow> size_in 1 16 (vn_size node) \<and> hex_u64 (vn_offset node) = Ok (node_start node) \<and>
    unat (node_start node) + node_len node \<le> 2 ^ 64"
  unfolding node_range_ok_def is_ok_iff checked_range_Ok node_start_def node_len_def by auto

lemma checked_range_node: "node_range_ok node \<Longrightarrow> checked_range node = Ok (node_start node)"
  by (simp add: node_range_ok_iff node_len_def)

lemma write_varnode_wide_Ok:
  "write_varnode_wide s node v = Ok s' \<longleftrightarrow>
     node_range_ok node \<and> scalar_space (vn_space node) \<and>
     known_byte_count s + missing_bytes (node_start node) (node_len node) (scalar_bytes s (vn_space node))
       \<le> MAX_KNOWN_STATE_BYTES \<and>
     s' = set_scalar_bytes s (vn_space node)
       (write_loop (node_start node) (node_len node) v (scalar_bytes s (vn_space node)))"
proof (cases "checked_range node")
  case (Ok b)
  then have "node_range_ok node" unfolding node_range_ok_def by (simp only: is_ok_simps)
  moreover from this have "b = node_start node" using checked_range_node Ok by simp
  ultimately show ?thesis
    using checked_range_node
    by (auto simp: write_varnode_wide_def scalar_space_def scalar_bytes_def set_scalar_bytes_def
        node_len_def Let_def not_less)
qed (auto simp: write_varnode_wide_def node_range_ok_def)

lemma write_varnode_wide_no_panic [simp, no_panic]: "write_varnode_wide s node v \<noteq> Panic"
  by (auto simp: write_varnode_wide_def rbind_Panic Let_def)

lemma read_varnode_wide_no_panic [simp, no_panic]: "read_varnode_wide s node \<noteq> Panic"
  by (auto simp: read_varnode_wide_def rbind_Panic Let_def mask_wide_eq bits_of_bounds)

lemma read_varnode_no_panic [simp, no_panic]: "read_varnode s node \<noteq> Panic"
  by (auto simp: read_varnode_def rbind_Panic split: option.splits)

lemma scalar_bytes_set [simp]:
  "scalar_space sp \<Longrightarrow> scalar_space sp' \<Longrightarrow>
    scalar_bytes (set_scalar_bytes s sp bytes) sp' = (if sp' = sp then bytes else scalar_bytes s sp')"
  by (auto simp: scalar_bytes_def set_scalar_bytes_def scalar_space_def)

lemma set_scalar_memory [simp]:
  "cs_memory_bytes (set_scalar_bytes s sp bytes) = cs_memory_bytes s"
  by (simp add: set_scalar_bytes_def)

lemma scalar_bytes_wf: "state_wf s \<Longrightarrow> bm_wf (scalar_bytes s sp)"
  by (simp add: scalar_bytes_def state_wf_def)

lemma set_scalar_count:
  "known_byte_count (set_scalar_bytes s sp bytes) + bm_len (scalar_bytes s sp) = known_byte_count s + bm_len bytes"
  by (simp add: known_byte_count_def set_scalar_bytes_def scalar_bytes_def)

lemma write_varnode_wide_wf:
  assumes "state_wf s" and "write_varnode_wide s node v = Ok s'"
  shows "state_wf s'"
    and "known_byte_count s' = known_byte_count s +
      missing_bytes (node_start node) (node_len node) (scalar_bytes s (vn_space node))"
proof -
  from assms(2) have ok: "node_range_ok node" "scalar_space (vn_space node)"
    and limit: "known_byte_count s + missing_bytes (node_start node) (node_len node) (scalar_bytes s (vn_space node))
       \<le> MAX_KNOWN_STATE_BYTES"
    and s': "s' = set_scalar_bytes s (vn_space node)
       (write_loop (node_start node) (node_len node) v (scalar_bytes s (vn_space node)))"
    unfolding write_varnode_wide_Ok by blast+
  have wf: "bm_wf (write_loop (node_start node) (node_len node) v (scalar_bytes s (vn_space node)))"
    by (rule write_loop_wf [OF scalar_bytes_wf [OF assms(1)]])
  have "bm_len (write_loop (node_start node) (node_len node) v (scalar_bytes s (vn_space node))) =
    bm_len (scalar_bytes s (vn_space node)) + missing_bytes (node_start node) (node_len node) (scalar_bytes s (vn_space node))"
    using ok(1) by (intro write_loop_len scalar_bytes_wf [OF assms(1)]) (simp add: node_range_ok_iff)
  then show count: "known_byte_count s' = known_byte_count s +
      missing_bytes (node_start node) (node_len node) (scalar_bytes s (vn_space node))"
    using set_scalar_count [of s "vn_space node" "write_loop (node_start node) (node_len node) v (scalar_bytes s (vn_space node))"]
    unfolding s' by linarith
  with wf limit assms(1) show "state_wf s'"
    by (auto simp: s' state_wf_def set_scalar_bytes_def)
qed

lemma read_scalar:
  assumes "node_range_ok node" and "scalar_space (vn_space node)"
  shows "read_varnode_wide s node =
    Ok (read_loop (bm_get (scalar_bytes s (vn_space node))) (node_start node) [0..<node_len node] 0)"
  using assms
  by (auto simp: read_varnode_wide_def checked_range_node scalar_space_def scalar_bytes_def node_len_def)

lemma node_range: "node_range_ok node \<Longrightarrow> unat (node_start node) + node_len node \<le> 2 ^ 64"
  by (simp add: node_range_ok_iff)

lemma write_varnode_wide_get:
  assumes "write_varnode_wide s node v = Ok s'" and "scalar_space sp"
  shows "bm_get (scalar_bytes s' sp) a =
    (if sp = vn_space node \<and> in_range a (node_start node) (node_len node)
     then Some (byte_of v (unat a - unat (node_start node))) else bm_get (scalar_bytes s sp) a)"
  using assms(1) [unfolded write_varnode_wide_Ok] assms(2)
  by (auto simp: write_loop_get [OF node_range])

lemma node_len_bits: "node_range_ok node \<Longrightarrow> 8 * node_len node = bits_of node \<and> bits_of node \<le> 128"
  by (auto simp: node_len_def bits_of_def node_range_ok_iff dest: unat_size_8)

lemma read_back:
  assumes "write_varnode_wide s node v = Ok s'"
  shows "read_varnode_wide s' node = Ok (Some (take_bit (bits_of node) v))"
proof -
  from assms have ok: "node_range_ok node" "scalar_space (vn_space node)" unfolding write_varnode_wide_Ok by blast+
  let ?look = "bm_get (scalar_bytes s' (vn_space node))"
  have at: "?look (byte_at (node_start node) i) = Some (byte_of v i)" if "i < node_len node" for i
    using that in_range_byte_at [OF node_range [OF ok(1)]] unat_byte_at [OF node_range [OF ok(1)] that]
    by (auto simp: write_varnode_wide_get [OF assms ok(2)])
  then have "read_loop ?look (node_start node) [0..<node_len node] 0 =
      Some (le_value (node_len node) (\<lambda>i. the (?look (byte_at (node_start node) i))) :: u128)"
    unfolding read_loop_Some by auto
  also have "le_value (node_len node) (\<lambda>i. the (?look (byte_at (node_start node) i))) =
      (le_value (node_len node) (byte_of v) :: u128)"
    by (rule le_value_cong) (simp add: at)
  finally show ?thesis
    using ok by (simp add: read_scalar le_value_bytes node_len_bits del: take_bit_eq_mod)
qed

definition nodes_disjoint :: "pcode_varnode \<Rightarrow> pcode_varnode \<Rightarrow> bool" where
  \<comment> \<open>no byte in common\<close>
  "nodes_disjoint a b = (vn_space a \<noteq> vn_space b \<or>
     unat (node_start a) + node_len a \<le> unat (node_start b) \<or> unat (node_start b) + node_len b \<le> unat (node_start a))"

lemma read_loop_cong:
  "(\<And>i. i \<in> set is \<Longrightarrow> look (byte_at b i) = look' (byte_at b i)) \<Longrightarrow> read_loop look b is v = read_loop look' b is v"
  by (induction "is" arbitrary: v) (auto split: option.splits)

lemma read_const: "vn_space node = ''const'' \<Longrightarrow> read_varnode_wide s node = read_varnode_wide s' node"
  by (simp add: read_varnode_wide_def)

lemma read_other_space:
  "\<not> operand_space (vn_space node) \<Longrightarrow> read_varnode_wide s node = read_varnode_wide s' node"
  by (auto simp: read_varnode_wide_def operand_space_def scalar_space_def)

lemma read_bad_range: "\<not> node_range_ok node \<Longrightarrow> read_varnode_wide s node = read_varnode_wide s' node"
  by (cases "checked_range node") (auto simp: read_varnode_wide_def node_range_ok_def simp del: checked_range_Ok)

lemma read_frame:
  assumes "write_varnode_wide s node v = Ok s'" and "nodes_disjoint node other"
  shows "read_varnode_wide s' other = read_varnode_wide s other"
proof (cases "node_range_ok other \<and> scalar_space (vn_space other)")
  case True
  have "bm_get (scalar_bytes s' (vn_space other)) (byte_at (node_start other) i) =
      bm_get (scalar_bytes s (vn_space other)) (byte_at (node_start other) i)" if "i < node_len other" for i
    using that assms(2) True unat_byte_at [OF node_range, of other i]
    by (auto simp: write_varnode_wide_get [OF assms(1)] in_range_def nodes_disjoint_def)
  with True show ?thesis by (simp add: read_scalar) (rule read_loop_cong, simp)
next
  case False
  then show ?thesis
    by (metis operand_space_def read_bad_range read_const read_other_space)
qed

lemma read_varnode_wide_bound:
  assumes "read_varnode_wide s node = Ok (Some v)"
  shows "uint v < 2 ^ bits_of node" and "size_in 1 16 (vn_size node)" and "operand_space (vn_space node)"
proof -
  have "uint v < 2 ^ bits_of node \<and> size_in 1 16 (vn_size node) \<and> operand_space (vn_space node)"
  proof (cases "vn_space node = ''const''")
    case True
    with assms obtain raw where s16: "size_in 1 16 (vn_size node)" and "v = ucast (raw :: u64) AND mask (bits_of node)"
      by (auto simp: read_varnode_wide_def mask_wide_eq bits_of_bounds split: if_splits)
    then have "v = take_bit (bits_of node) (ucast raw)" by (simp add: take_bit_eq_mask)
    with s16 True show ?thesis by (simp add: uint_take_bit operand_space_def)
  next
    case False
    with assms have ok: "node_range_ok node" "scalar_space (vn_space node)"
      by (auto simp: read_varnode_wide_def node_range_ok_def is_ok_iff scalar_space_def split: if_splits)
    with assms have "\<exists>f. v = le_value (node_len node) f" by (auto simp: read_scalar read_loop_Some)
    with node_len_bits [OF ok(1)] le_value_bound [of "node_len node"] ok show ?thesis
      by (auto simp: operand_space_def node_range_ok_iff)
  qed
  then show "uint v < 2 ^ bits_of node" "size_in 1 16 (vn_size node)" "operand_space (vn_space node)" by blast+
qed

lemma read_const_value:
  assumes "read_varnode_wide s node = Ok (Some v)" and "vn_space node = ''const''"
  shows "check_constant (node, v) = Ok ()"
proof -
  from assms obtain raw where "hex_u64 (vn_offset node) = Ok raw" "(mask_wide (bits_of node) :: (u128, string) result) = Ok (mask (bits_of node))"
    "v = ucast (raw :: u64) AND mask (bits_of node)"
    by (auto simp: read_varnode_wide_def mask_wide_eq bits_of_bounds split: if_splits)
  moreover have "x AND m AND m = x AND m" for x m :: u128 by (simp add: and.assoc)
  ultimately show ?thesis unfolding check_constant_def by (simp only: prod.case rbind_simps) simp
qed

section \<open>Memory writes\<close>

lemma space_bytes_get: "Option.bind (bm_get (cs_memory_bytes s) sp) (\<lambda>bytes. bm_get bytes a) = bm_get (space_bytes s sp) a"
  by (simp add: space_bytes_def bm.get_empty split: option.split)

lemma memory_byte_eq:
  "memory_byte s img sp a = (case bm_get (space_bytes s sp) a of
     Some byte \<Rightarrow> Some byte | None \<Rightarrow> Option.bind img (\<lambda>im. im_byte im sp a))"
  by (simp add: memory_byte_def space_bytes_get)

lemma store_bytes_spec:
  fixes v :: "'w::len word"
  assumes "store_bytes s sp b w v = (s', r)" and "state_wf s" and "unat b + unat w \<le> 2 ^ 64"
  shows "state_wf s'" and "r \<noteq> Panic" and "cs_register_bytes s' = cs_register_bytes s"
    and "cs_unique_bytes s' = cs_unique_bytes s"
    and "bm_get (space_bytes s' sp') a =
      (if r = Ok () \<and> sp' = sp \<and> in_range a b (unat w) then Some (byte_of v (unat a - unat b))
       else bm_get (space_bytes s sp') a)"
    and "r \<noteq> Ok () \<Longrightarrow> known_byte_count s' = known_byte_count s"
proof -
  let ?e = "s\<lparr>cs_memory_bytes := entry_or_default (cs_memory_bytes s) sp\<rparr>"
  let ?m = "missing_bytes b (unat w) (space_bytes s sp)"
  let ?new = "write_loop b (unat w) v (space_bytes s sp)"
  note e = entry_wf [OF assms(2)]
  have run: "store_bytes s sp b w v =
    (if \<not> space_name_ok sp then (s, Err ''concrete memory space name is invalid'')
     else if known_byte_count s + ?m > MAX_KNOWN_STATE_BYTES
       then (?e, Err ''concrete P-code state exceeds byte limit'')
     else (?e\<lparr>cs_memory_bytes := bm_insert sp ?new (cs_memory_bytes ?e)\<rparr>, Ok ()))"
    unfolding store_bytes_def Let_def e(3) ..
  have wfn: "bm_wf ?new" by (rule write_loop_wf [OF space_bytes_wf [OF assms(2)]])
  have count: "known_byte_count (?e\<lparr>cs_memory_bytes := bm_insert sp ?new (cs_memory_bytes ?e)\<rparr>) = known_byte_count s + ?m"
  proof -
    have "known_byte_count (?e\<lparr>cs_memory_bytes := bm_insert sp ?new (cs_memory_bytes ?e)\<rparr>) + bm_len (space_bytes ?e sp) =
      known_byte_count ?e + bm_len ?new"
      using e(4) by (intro put_space_count [OF e(1)]) simp
    moreover have "bm_len ?new = bm_len (space_bytes s sp) + ?m"
      by (rule write_loop_len [OF space_bytes_wf [OF assms(2)] assms(3)])
    ultimately show ?thesis unfolding e(2,3) by linarith
  qed
  have wf_new: "state_wf (?e\<lparr>cs_memory_bytes := bm_insert sp ?new (cs_memory_bytes ?e)\<rparr>)"
    if "known_byte_count s + ?m \<le> MAX_KNOWN_STATE_BYTES"
  proof -
    have "\<forall>bytes \<in> snd ` set (bm_insert sp ?new (cs_memory_bytes ?e)). bm_wf bytes"
    proof
      fix bytes
      assume "bytes \<in> snd ` set (bm_insert sp ?new (cs_memory_bytes ?e))"
      then have "bytes \<in> insert ?new (snd ` set (cs_memory_bytes ?e))"
        by (rule subsetD [OF set_snd_bm_insert])
      then consider "bytes = ?new" | "bytes \<in> snd ` set (cs_memory_bytes ?e)" by blast
      then show "bm_wf bytes" by cases (use wfn e(1) in \<open>simp_all only: state_wf_def\<close>)
    qed
    with that count e(1) show ?thesis by (simp add: state_wf_def bm.wf_ins)
  qed
  show "r \<noteq> Panic" using assms(1) run by (auto split: if_splits)
  show "state_wf s'" using assms(1) run wf_new e(1) assms(2) by (auto split: if_splits)
  show "cs_register_bytes s' = cs_register_bytes s" "cs_unique_bytes s' = cs_unique_bytes s"
    using assms(1) run by (auto split: if_splits)
  show "r \<noteq> Ok () \<Longrightarrow> known_byte_count s' = known_byte_count s"
    using assms(1) run e(2) by (auto split: if_splits)
  have "bm_get (space_bytes (?e\<lparr>cs_memory_bytes := bm_insert sp ?new (cs_memory_bytes ?e)\<rparr>) sp') a =
    (if sp' = sp then bm_get ?new a else bm_get (space_bytes s sp') a)"
    using e(3) [of sp sp'] by (simp add: space_bytes_def bm.get_ins)
  then show "bm_get (space_bytes s' sp') a =
      (if r = Ok () \<and> sp' = sp \<and> in_range a b (unat w) then Some (byte_of v (unat a - unat b))
       else bm_get (space_bytes s sp') a)"
    using assms(1) run e(3) [of sp sp'] by (auto simp: write_loop_get [OF assms(3)] split: if_splits)
qed

end
