(* ===== verification/Pcode_Execute.thy ===== *)
theory Pcode_Execute
  imports Pcode_Concrete
begin

text \<open>
  One P-code operation on a concrete state (\<^verbatim>\<open>execution.rs\<close>): the direct RAM copy, LOAD and STORE,
  the exact scalar operations, the dispatch between them, the checks before a run and the run of
  an ordered prefix. An operation returns the state beside its result, because a STORE that meets
  the byte limit has already created the map of its space. The lemmas show that an operation never
  panics, keeps the state invariant, and changes nothing it can observe when it stops.
\<close>

section \<open>Records of a trace\<close>

definition PCODE_EXECUTION_TRACE_VERSION :: u32 where "PCODE_EXECUTION_TRACE_VERSION = 3"

datatype memory_access_kind = Load | Store

record memory_access =
  ma_kind :: memory_access_kind
  ma_space :: string
  ma_space_id :: i32
  ma_pointer_offset :: u64
  ma_byte_offset :: u64
  ma_width_bytes :: u32
  ma_value :: u64

datatype memory_boundary_kind =
  UnsupportedLayout | UnknownSpace | UnknownAlias | UnknownBytes | AddressOverflow | StateLimit
  | ReadOnlyImageWrite | UnmappedWrite

record executed_operation =
  ex_source :: pcode_operation
  ex_input_values :: "u128 list"
  ex_output_value :: "u128 option"
  ex_memory_access :: "memory_access option"

datatype execution_stop =
    EndOfListedInstructions
  | OpaqueBoundary pcode_operation pcode_effect
  | MissingInput pcode_operation u32 pcode_varnode
  | MemoryBoundary pcode_operation "string option" "u64 option" memory_boundary_kind string
  | InvalidOperation pcode_operation string
  | OperationBudget pcode_operation

record execution_trace =
  et_schema_version :: u32
  et_binary_sha256 :: string
  et_entry :: pcode_address
  et_executed :: "executed_operation list"
  et_final_state :: concrete_state
  et_stop :: execution_stop
  et_semantic_fidelity :: semantic_fidelity
  et_verification :: verification_status

type_synonym op_outcome = "concrete_state \<times> (executed_operation, execution_stop) result"

section \<open>Direct RAM copy\<close>

definition find_space_name :: "ghidra_address_space list \<Rightarrow> string \<Rightarrow> ghidra_address_space option" where
  "find_space_name spaces n = List.find (\<lambda>sp. as_name sp = n) spaces"

definition memory_space :: "ghidra_address_space list \<Rightarrow> u64 \<Rightarrow> ghidra_address_space option" where
  \<comment> \<open>by ID; a negative ID has no unsigned reading\<close>
  "memory_space spaces i = List.find (\<lambda>sp. 0 \<le> sint (as_id sp) \<and> sint (as_id sp) = uint i) spaces"

definition copy_layout :: "pcode_operation \<Rightarrow> (pcode_varnode \<times> pcode_varnode, execution_stop) result" where
  \<comment> \<open>the source and output of a well-shaped direct copy\<close>
  "copy_layout source =
     (case op_inputs source of
        [] \<Rightarrow> Err (MemoryBoundary source None None UnsupportedLayout ''direct COPY requires one source varnode'')
      | inp # rest \<Rightarrow>
          case op_output source of
            None \<Rightarrow> Err (MemoryBoundary source None None UnsupportedLayout ''direct COPY requires an output varnode'')
          | Some out \<Rightarrow>
              if op_opcode source \<noteq> 1 \<or> op_mnemonic source \<noteq> ''COPY'' \<or> rest \<noteq> [] \<or>
                 vn_size inp \<noteq> vn_size out \<or> \<not> size_in 1 16 (vn_size inp) \<or> \<not> scalar_space (vn_space out)
              then Err (MemoryBoundary source (Some (vn_space inp)) None UnsupportedLayout
                ''direct COPY width, arity or output storage is unsupported'')
              else Ok (inp, out))"

definition copy_address ::
  "ghidra_address_space list \<Rightarrow> pcode_operation \<Rightarrow> pcode_varnode \<Rightarrow>
   (ghidra_address_space \<times> u64 \<times> u64, execution_stop) result" where
  \<comment> \<open>the space, the pointer offset and the byte offset of the source\<close>
  "copy_address spaces source inp =
     rbind (ok_or (MemoryBoundary source (Some (vn_space inp)) None UnknownSpace
              ''direct COPY source address space is absent'') (find_space_name spaces (vn_space inp)))
       (\<lambda>sp.
     let at = MemoryBoundary source (Some (as_name sp)) in
     if as_space_type sp \<noteq> 1 \<or> as_pointer_size sp \<noteq> 8 \<or> as_addressable_unit_size sp = 0
     then Err (at None UnsupportedLayout
       ''direct COPY requires a 64-bit RAM address space with a known addressable unit'')
     else
       rbind (map_err (at None UnsupportedLayout) (hex_u64 (vn_offset inp))) (\<lambda>pointer_offset.
       rbind (ok_or (at (Some pointer_offset) AddressOverflow ''direct COPY address scaling overflows u64'')
                (checked_mul pointer_offset (ucast (as_addressable_unit_size sp)))) (\<lambda>byte_offset.
       rbind (map_err (at (Some pointer_offset) AddressOverflow)
                (checked_memory_range_wide byte_offset (vn_size inp))) (\<lambda>_.
       Ok (sp, pointer_offset, byte_offset)))))"

definition execute_direct_ram_copy ::
  "ghidra_address_space list \<Rightarrow> pcode_operation \<Rightarrow> concrete_state \<Rightarrow> initial_memory option \<Rightarrow> op_outcome" where
  "execute_direct_ram_copy spaces source s img =
     (let run =
        rbind (copy_layout source) (\<lambda>(inp, out).
        rbind (copy_address spaces source inp) (\<lambda>(sp, pointer_offset, byte_offset).
        let at = MemoryBoundary source (Some (as_name sp)) (Some pointer_offset) in
        rbind (map_err (at AddressOverflow)
                 (read_memory_with_image_wide s (as_name sp) byte_offset (vn_size inp) img)) (\<lambda>known.
        rbind (ok_or (at UnknownBytes ''one or more direct COPY source bytes are unknown'') known) (\<lambda>v.
        rbind (map_err (at StateLimit) (write_varnode_wide s out v)) (\<lambda>s'.
        Ok (s', \<lparr>ex_source = source, ex_input_values = [v], ex_output_value = Some v,
                  ex_memory_access = None\<rparr>))))))
      in case run of
           Ok (s', executed) \<Rightarrow> (s', Ok executed)
         | Err stop \<Rightarrow> (s, Err stop)
         | Panic \<Rightarrow> (s, Panic))"

section \<open>LOAD and STORE\<close>

definition memory_kind :: "pcode_operation \<Rightarrow> (memory_access_kind, execution_stop) result" where
  "memory_kind source =
     (if op_opcode source = 2 \<and> op_mnemonic source = ''LOAD'' \<and> length (op_inputs source) = 2 \<and>
         op_output source \<noteq> None
        then Ok Load
      else if op_opcode source = 3 \<and> op_mnemonic source = ''STORE'' \<and> length (op_inputs source) = 3 \<and>
         op_output source = None
        then Ok Store
      else Err (MemoryBoundary source None None UnsupportedLayout
        ''LOAD/STORE opcode, mnemonic, arity or output is invalid''))"

definition memory_space_id :: "pcode_operation \<Rightarrow> pcode_varnode \<Rightarrow> (u64, execution_stop) result" where
  "memory_space_id source id_node =
     (let bad = MemoryBoundary source None None UnsupportedLayout in
      if vn_space id_node \<noteq> ''const'' \<or> \<not> size_in 1 8 (vn_size id_node)
        then Err (bad ''memory space ID must be a bounded constant varnode'')
      else rbind (map_err bad (hex_u64 (vn_offset id_node))) (\<lambda>i.
        let id_mask = (if vn_size id_node = 8 then - 1 else push_bit (unat (vn_size id_node) * 8) 1 - 1)
        in if i > id_mask then Err (bad ''memory space ID exceeds its constant varnode width'')
           else Ok i))"

definition memory_target ::
  "ghidra_address_space list \<Rightarrow> pcode_operation \<Rightarrow> pcode_varnode \<Rightarrow> u64 \<Rightarrow>
   (ghidra_address_space, execution_stop) result" where
  "memory_target spaces source pointer_node i =
     rbind (ok_or (MemoryBoundary source None None UnknownSpace
              (''no Ghidra address space has ID '' @ fmt_dec (unat i))) (memory_space spaces i)) (\<lambda>sp.
     let bad = MemoryBoundary source (Some (as_name sp)) None UnsupportedLayout in
     if as_space_type sp \<noteq> 1 \<or> as_name sp = ''const'' \<or> as_name sp = ''register'' \<or> as_name sp = ''unique''
       then Err (bad ''only Ghidra RAM address spaces have concrete memory semantics'')
     else if \<not> size_in 1 8 (as_pointer_size sp) \<or> vn_size pointer_node \<noteq> as_pointer_size sp \<or>
         \<not> operand_space (vn_space pointer_node)
       then Err (bad ''pointer varnode must match the target space pointer width'')
     else Ok sp)"

definition memory_width ::
  "pcode_operation \<Rightarrow> memory_access_kind \<Rightarrow> ghidra_address_space \<Rightarrow> (u32, execution_stop) result" where
  "memory_width source kind sp =
     (let bad = MemoryBoundary source (Some (as_name sp)) None UnsupportedLayout in
      rbind (case kind of
          Load \<Rightarrow> (case op_output source of
              None \<Rightarrow> Panic
            | Some out \<Rightarrow>
                if \<not> scalar_space (vn_space out)
                then Err (bad ''LOAD output must be register or unique storage'') else Ok (vn_size out))
        | Store \<Rightarrow> rbind (index_rs (op_inputs source) 2) (\<lambda>data.
                if \<not> operand_space (vn_space data)
                then Err (bad ''STORE data must be a bounded concrete varnode'') else Ok (vn_size data)))
        (\<lambda>width.
          if \<not> size_in 1 16 width \<or> as_addressable_unit_size sp = 0
          then Err (bad ''memory width or target addressable unit size is unsupported'')
          else Ok width))"

definition memory_pointer ::
  "pcode_operation \<Rightarrow> ghidra_address_space \<Rightarrow> concrete_state \<Rightarrow> pcode_varnode \<Rightarrow> u32 \<Rightarrow>
   (u64 \<times> u64, execution_stop) result" where
  \<comment> \<open>the pointer offset and the byte offset it scales to\<close>
  "memory_pointer source sp s pointer_node width =
     (let at = MemoryBoundary source (Some (as_name sp)) in
      rbind (map_err (at None UnsupportedLayout) (read_varnode s pointer_node)) (\<lambda>known.
      rbind (ok_or (at None UnknownAlias ''pointer bytes are unknown, so the memory alias is unresolved'') known)
        (\<lambda>pointer_offset.
      rbind (ok_or (at (Some pointer_offset) AddressOverflow
               ''pointer scaling overflows the supported byte offset'')
             (checked_mul pointer_offset (ucast (as_addressable_unit_size sp)))) (\<lambda>byte_offset.
      rbind (map_err (at (Some pointer_offset) AddressOverflow) (checked_memory_range_wide byte_offset width)) (\<lambda>_.
      Ok (pointer_offset, byte_offset))))))"

definition load_value ::
  "pcode_operation \<Rightarrow> ghidra_address_space \<Rightarrow> concrete_state \<Rightarrow> initial_memory option \<Rightarrow> u64 \<Rightarrow> u64 \<Rightarrow> u32 \<Rightarrow>
   (u128, execution_stop) result" where
  "load_value source sp s img pointer_offset byte_offset width =
     (let at = MemoryBoundary source (Some (as_name sp)) (Some pointer_offset) in
      rbind (map_err (at AddressOverflow) (read_memory_with_image_wide s (as_name sp) byte_offset width img)) (\<lambda>known.
      ok_or (at UnknownBytes ''one or more loaded memory bytes are unknown'') known))"

definition range_any :: "(u64 \<Rightarrow> bool) \<Rightarrow> u64 \<Rightarrow> u32 \<Rightarrow> bool" where
  \<comment> \<open>\<^verbatim>\<open>(0..width).any(|index| p(byte_offset + index))\<close>\<close>
  "range_any p byte_offset width = list_ex (\<lambda>index. p (byte_at byte_offset index)) [0..<unat width]"

definition store_value ::
  "pcode_operation \<Rightarrow> ghidra_address_space \<Rightarrow> concrete_state \<Rightarrow> initial_memory option \<Rightarrow> u64 \<Rightarrow> u64 \<Rightarrow> u32 \<Rightarrow>
   (u128, execution_stop) result" where
  "store_value source sp s img pointer_offset byte_offset width =
     (let at = MemoryBoundary source (Some (as_name sp)) (Some pointer_offset) in
      if (case img of None \<Rightarrow> False | Some im \<Rightarrow>
            range_any (\<lambda>a. im_mapped im (as_name sp) a \<and> \<not> im_writable im (as_name sp) a) byte_offset width)
        then Err (at ReadOnlyImageWrite ''STORE targets a byte in a binary read-only mapping'')
      else if (case img of None \<Rightarrow> False | Some im \<Rightarrow>
            im_reject_unmapped_writes im \<and> range_any (\<lambda>a. \<not> im_mapped im (as_name sp) a) byte_offset width)
        then Err (at UnmappedWrite ''STORE crosses an unmapped ELF, stack, or heap address'')
      else
        rbind (index_rs (op_inputs source) 2) (\<lambda>data.
        rbind (map_err (at UnsupportedLayout) (read_varnode_wide s data)) (\<lambda>known.
        ok_or (MissingInput source 2 data) known)))"

record memory_plan =
  \<comment> \<open>the local variables of \<^verbatim>\<open>execute_memory_operation\<close> before its write\<close>
  mp_kind :: memory_access_kind
  mp_space :: ghidra_address_space
  mp_id :: u64
  mp_pointer_offset :: u64
  mp_byte_offset :: u64
  mp_width :: u32
  mp_value :: u128

definition plan_memory_operation ::
  "ghidra_address_space list \<Rightarrow> pcode_operation \<Rightarrow> concrete_state \<Rightarrow> initial_memory option \<Rightarrow>
   (memory_plan, execution_stop) result" where
  "plan_memory_operation spaces source s img =
     rbind (memory_kind source) (\<lambda>kind.
     rbind (index_rs (op_inputs source) 0) (\<lambda>id_node.
     rbind (memory_space_id source id_node) (\<lambda>i.
     rbind (index_rs (op_inputs source) 1) (\<lambda>pointer_node.
     rbind (memory_target spaces source pointer_node i) (\<lambda>sp.
     rbind (memory_width source kind sp) (\<lambda>width.
     rbind (memory_pointer source sp s pointer_node width) (\<lambda>(pointer_offset, byte_offset).
     rbind (case kind of
              Load \<Rightarrow> load_value source sp s img pointer_offset byte_offset width
            | Store \<Rightarrow> store_value source sp s img pointer_offset byte_offset width) (\<lambda>v.
     Ok \<lparr>mp_kind = kind, mp_space = sp, mp_id = i, mp_pointer_offset = pointer_offset,
         mp_byte_offset = byte_offset, mp_width = width, mp_value = v\<rparr>))))))))"

definition commit_memory_operation :: "pcode_operation \<Rightarrow> concrete_state \<Rightarrow> memory_plan \<Rightarrow>
  concrete_state \<times> (unit, execution_stop) result" where
  "commit_memory_operation source s m =
     (let limit = MemoryBoundary source (Some (as_name (mp_space m))) (Some (mp_pointer_offset m)) StateLimit in
      case mp_kind m of
        Load \<Rightarrow>
          (case op_output source of
             None \<Rightarrow> (s, Panic)
           | Some out \<Rightarrow>
               case write_varnode_wide s out (mp_value m) of
                 Ok s' \<Rightarrow> (s', Ok ())
               | Err e \<Rightarrow> (s, Err (limit e))
               | Panic \<Rightarrow> (s, Panic))
      | Store \<Rightarrow>
          let (s', r) = write_memory_wide s (as_name (mp_space m)) (mp_byte_offset m) (mp_width m) (mp_value m)
          in (s', map_err limit r))"

definition memory_record :: "pcode_operation \<Rightarrow> memory_plan \<Rightarrow> executed_operation" where
  "memory_record source m =
     \<lparr>ex_source = source,
      ex_input_values = [ucast (mp_id m), ucast (mp_pointer_offset m)] @
        (if mp_kind m = Store then [mp_value m] else []),
      ex_output_value = (if mp_kind m = Load then Some (mp_value m) else None),
      ex_memory_access = Some \<lparr>ma_kind = mp_kind m, ma_space = as_name (mp_space m), ma_space_id = as_id (mp_space m),
        ma_pointer_offset = mp_pointer_offset m, ma_byte_offset = mp_byte_offset m,
        ma_width_bytes = mp_width m, ma_value = ucast (mp_value m)\<rparr>\<rparr>"

definition execute_memory_operation ::
  "ghidra_address_space list \<Rightarrow> pcode_operation \<Rightarrow> concrete_state \<Rightarrow> initial_memory option \<Rightarrow> op_outcome" where
  "execute_memory_operation spaces source s img =
     (case plan_memory_operation spaces source s img of
        Err stop \<Rightarrow> (s, Err stop)
      | Panic \<Rightarrow> (s, Panic)
      | Ok m \<Rightarrow>
          let (s', r) = commit_memory_operation source s m
          in (s', map_ok (\<lambda>_. memory_record source m) r))"

section \<open>Any effect\<close>

definition read_inputs :: "pcode_operation \<Rightarrow> concrete_state \<Rightarrow> (u128 list, execution_stop) result" where
  "read_inputs source s =
     collect_res (\<lambda>(index, varnode).
       rbind (map_err (InvalidOperation source) (read_varnode_wide s varnode)) (\<lambda>known.
       ok_or (MissingInput source (word_of_nat index) varnode) known))
       (List.enumerate 0 (op_inputs source))"

definition execute_exact_operation ::
  "pcode_semantic_operation \<Rightarrow> concrete_state \<Rightarrow> (concrete_state \<times> executed_operation, execution_stop) result" where
  "execute_exact_operation opn s =
     (let source = so_source opn; invalid = InvalidOperation source in
      rbind (read_inputs source s) (\<lambda>input_values.
      rbind (map_err invalid (evaluate_exact_wide opn input_values)) (\<lambda>outcome.
      rbind (ok_or (invalid ''exact operation returned no concrete result'') outcome) (\<lambda>v.
      rbind (ok_or (invalid ''exact operation has no output varnode'') (op_output source)) (\<lambda>out.
      rbind (map_err invalid (write_varnode_wide s out v)) (\<lambda>s'.
      Ok (s', \<lparr>ex_source = source, ex_input_values = input_values, ex_output_value = Some v,
                ex_memory_access = None\<rparr>)))))))"

definition execute_effect_operation ::
  "ghidra_address_space list \<Rightarrow> pcode_semantic_operation \<Rightarrow> concrete_state \<Rightarrow> initial_memory option \<Rightarrow> op_outcome" where
  "execute_effect_operation spaces opn s img =
     (let source = so_source opn in
      if length (op_inputs source) > 256 \<or> lower_operation source \<noteq> so_effect opn
        then (s, Err (InvalidOperation source ''exact operation disagrees with bounded raw P-code semantics''))
      else
        case so_effect opn of
          Opaque class _ _ _ _ _ \<Rightarrow>
            if class = MemoryRead \<or> class = MemoryWrite
            then (if op_opcode source = 1 then execute_direct_ram_copy spaces source s img
                  else execute_memory_operation spaces source s img)
            else (s, Err (OpaqueBoundary source (so_effect opn)))
        | Assign _ _ \<Rightarrow>
            case execute_exact_operation opn s of
              Ok (s', executed) \<Rightarrow> (s', Ok executed)
            | Err stop \<Rightarrow> (s, Err stop)
            | Panic \<Rightarrow> (s, Panic))"

section \<open>Setup and prefix\<close>

definition SIMPLIFICATION_SOURCE :: string where
  "SIMPLIFICATION_SOURCE = ''hydir_checked_pcode_simplification''"

definition operation_count :: "pcode_semantic_instruction list \<Rightarrow> nat" where
  "operation_count is = sum_list (map (length \<circ> si_operations) is)"

definition validate_execution_setup ::
  "pcode_semantic_function_ir \<Rightarrow> concrete_state \<Rightarrow> usize \<Rightarrow> (unit, string) result" where
  "validate_execution_setup f initial_state max_operations =
     (if se_schema_version f \<noteq> PCODE_SEMANTIC_IR_VERSION \<or>
         \<not> (se_source f = ''ghidra_raw_pcode'' \<or> se_source f = SIMPLIFICATION_SOURCE) \<or>
         \<not> se_flow_overrides_applied f
        then Err ''unsupported P-code semantic artifact''
      else if \<not> starts_with ''x86:LE:64:'' (se_language_id f)
        then Err ''concrete P-code execution currently requires x86-64 little endian''
      else if max_operations > MAX_OPERATIONS
        then Err ''concrete P-code operation budget exceeds artifact limit''
      else if length (se_instructions f) > MAX_INSTRUCTIONS \<or>
          operation_count (se_instructions f) > MAX_OPERATIONS
        then Err ''P-code semantic artifact exceeds execution bounds''
      else if length (se_address_spaces f) > 256
        then Err ''P-code semantic artifact exceeds address-space limit''
      else
        rbind (fold_res (\<lambda>(ids, names) sp.
            if as_id sp \<in> ids \<or> as_name sp \<in> names
            then Err ''ambiguous P-code address-space IDs or names''
            else Ok (insert (as_id sp) ids, insert (as_name sp) names)) ({}, {}) (se_address_spaces f)) (\<lambda>_.
        if known_byte_count initial_state > MAX_KNOWN_STATE_BYTES
        then Err ''initial concrete P-code state exceeds byte limit'' else Ok ()))"

record prefix_run =
  pf_state :: concrete_state
  pf_executed :: "executed_operation list"

fun run_operations ::
  "ghidra_address_space list \<Rightarrow> usize \<Rightarrow> pcode_semantic_operation list \<Rightarrow> prefix_run \<Rightarrow>
   prefix_run \<times> (unit, execution_stop) result" where
  \<comment> \<open>the inner loop; a stop leaves both loops\<close>
  "run_operations spaces max_operations [] r = (r, Ok ())"
| "run_operations spaces max_operations (opn # rest) r =
     (if length (pf_executed r) \<ge> max_operations then (r, Err (OperationBudget (so_source opn)))
      else
        let (s', outcome) = execute_effect_operation spaces opn (pf_state r) None
        in case outcome of
             Ok step \<Rightarrow> run_operations spaces max_operations rest
               \<lparr>pf_state = s', pf_executed = pf_executed r @ [step]\<rparr>
           | Err boundary \<Rightarrow> (r\<lparr>pf_state := s'\<rparr>, Err boundary)
           | Panic \<Rightarrow> (r\<lparr>pf_state := s'\<rparr>, Panic))"

fun run_instructions ::
  "ghidra_address_space list \<Rightarrow> usize \<Rightarrow> pcode_semantic_instruction list \<Rightarrow> prefix_run \<Rightarrow>
   prefix_run \<times> (unit, execution_stop) result" where
  "run_instructions spaces max_operations [] r = (r, Ok ())"
| "run_instructions spaces max_operations (i # rest) r =
     (let (r', outcome) = run_operations spaces max_operations (si_operations i)
            (r\<lparr>pf_state := clear_unique (pf_state r)\<rparr>)
      in case outcome of
           Ok _ \<Rightarrow> run_instructions spaces max_operations rest r'
         | _ \<Rightarrow> (r', outcome))"

definition execute_exact_prefix ::
  "pcode_semantic_function_ir \<Rightarrow> concrete_state \<Rightarrow> usize \<Rightarrow> (execution_trace, string) result" where
  "execute_exact_prefix f initial_state max_operations =
     rbind (validate_execution_setup f initial_state max_operations) (\<lambda>_.
     let (r, outcome) = run_instructions (se_address_spaces f) max_operations (se_instructions f)
           \<lparr>pf_state = initial_state, pf_executed = []\<rparr>;
         trace = (\<lambda>stop. \<lparr>et_schema_version = PCODE_EXECUTION_TRACE_VERSION, et_binary_sha256 = se_binary_sha256 f,
           et_entry = se_entry f, et_executed = pf_executed r, et_final_state = pf_state r, et_stop = stop,
           et_semantic_fidelity = Unknown, et_verification = NotRun\<rparr>)
     in case outcome of
          Ok _ \<Rightarrow> Ok (trace EndOfListedInstructions)
        | Err stop \<Rightarrow> Ok (trace stop)
        | Panic \<Rightarrow> Panic)"

definition execute_exact_prefix_raw ::
  "pcode_function_ir \<Rightarrow> concrete_state \<Rightarrow> usize \<Rightarrow> (execution_trace, string) result" where
  "execute_exact_prefix_raw f = execute_exact_prefix (lower_semantics f)"

section \<open>No operation panics\<close>

lemma copy_layout_no_panic: "copy_layout source \<noteq> Panic"
  by (auto simp: copy_layout_def split: list.split option.split)

lemma copy_address_no_panic: "copy_address spaces source inp \<noteq> Panic"
  by (auto simp: copy_address_def rbind_Panic Let_def)

lemma read_memory_with_image_no_panic: "read_memory_with_image_wide s sp b w img \<noteq> Panic"
  by (simp add: read_memory_with_image_wide_def rbind_Panic)

lemma direct_copy_no_panic: "snd (execute_direct_ram_copy spaces source s img) \<noteq> Panic"
  by (auto simp: execute_direct_ram_copy_def rbind_Panic copy_layout_no_panic copy_address_no_panic
      read_memory_with_image_no_panic Let_def split: result.splits)

lemma memory_kind_cases:
  assumes "memory_kind source = Ok kind"
  shows "kind = Load \<and> length (op_inputs source) = 2 \<and> op_output source \<noteq> None \<and> op_opcode source = 2 \<or>
    kind = Store \<and> length (op_inputs source) = 3 \<and> op_output source = None \<and> op_opcode source = 3"
  using assms by (auto simp: memory_kind_def split: if_splits)

lemma plan_no_panic: "plan_memory_operation spaces source s img \<noteq> Panic"
proof (cases "memory_kind source")
  case (Ok kind)
  have stores: "store_value source sp s img p b w \<noteq> Panic" if "length (op_inputs source) = 3" for sp p b w
    using that by (auto simp: store_value_def rbind_Panic Let_def)
  have loads: "load_value source sp s img p b w \<noteq> Panic" for sp p b w
    by (auto simp: load_value_def rbind_Panic Let_def read_memory_with_image_no_panic)
  have parts: "memory_space_id source v \<noteq> Panic" "memory_target spaces source v i \<noteq> Panic"
    "memory_pointer source sp s v w \<noteq> Panic" for v i sp w
    by (auto simp: memory_space_id_def memory_target_def memory_pointer_def rbind_Panic Let_def)
  have width: "memory_width source kind sp \<noteq> Panic" for sp
    using memory_kind_cases [OF Ok] by (auto simp: memory_width_def rbind_Panic Let_def split: option.splits if_splits)
  from memory_kind_cases [OF Ok] Ok stores loads parts width show ?thesis
    by (auto simp: plan_memory_operation_def rbind_Panic)
qed (auto simp: plan_memory_operation_def memory_kind_def split: if_splits)

lemma plan_Ok:
  assumes "plan_memory_operation spaces source s img = Ok m"
  shows "memory_kind source = Ok (mp_kind m)" and "mp_space m \<in> set spaces"
    and "as_name (mp_space m) \<notin> {''const'', ''register'', ''unique''}"
    and "size_in 1 16 (mp_width m)" and "unat (mp_byte_offset m) + unat (mp_width m) \<le> 2 ^ 64"
    and "mp_kind m = Load \<Longrightarrow> load_value source (mp_space m) s img (mp_pointer_offset m) (mp_byte_offset m)
      (mp_width m) = Ok (mp_value m)"
    and "mp_kind m = Store \<Longrightarrow> store_value source (mp_space m) s img (mp_pointer_offset m) (mp_byte_offset m)
      (mp_width m) = Ok (mp_value m)"
proof -
  from assms obtain kind0 i sp0 w p b v0 where parts:
      "memory_kind source = Ok kind0" "memory_target spaces source (op_inputs source ! 1) i = Ok sp0"
      "memory_width source kind0 sp0 = Ok w" "memory_pointer source sp0 s (op_inputs source ! 1) w = Ok (p, b)"
      "(case kind0 of Load \<Rightarrow> load_value source sp0 s img p b w | Store \<Rightarrow> store_value source sp0 s img p b w) = Ok v0"
    and m: "m = \<lparr>mp_kind = kind0, mp_space = sp0, mp_id = i, mp_pointer_offset = p, mp_byte_offset = b,
        mp_width = w, mp_value = v0\<rparr>"
    unfolding plan_memory_operation_def rbind_Ok by (auto simp: One_nat_def)
  have kind: "memory_kind source = Ok (mp_kind m)" and
    target: "memory_target spaces source (op_inputs source ! 1) i = Ok (mp_space m)" and
    width: "memory_width source (mp_kind m) (mp_space m) = Ok (mp_width m)" and
    pointer: "memory_pointer source (mp_space m) s (op_inputs source ! 1) (mp_width m) =
      Ok (mp_pointer_offset m, mp_byte_offset m)" and
    v: "(case mp_kind m of
              Load \<Rightarrow> load_value source (mp_space m) s img (mp_pointer_offset m) (mp_byte_offset m) (mp_width m)
            | Store \<Rightarrow> store_value source (mp_space m) s img (mp_pointer_offset m) (mp_byte_offset m) (mp_width m)) =
      Ok (mp_value m)"
    using parts by (simp_all add: m) (cases kind0; simp add: m)
  show "memory_kind source = Ok (mp_kind m)" by (rule kind)
  from target show "mp_space m \<in> set spaces" "as_name (mp_space m) \<notin> {''const'', ''register'', ''unique''}"
    by (auto simp: memory_target_def memory_space_def find_Some_iff Let_def split: if_splits)
  from width show "size_in 1 16 (mp_width m)" by (auto simp: memory_width_def Let_def split: if_splits)
  from pointer show "unat (mp_byte_offset m) + unat (mp_width m) \<le> 2 ^ 64"
    by (auto simp: memory_pointer_def Let_def)
  from v show "mp_kind m = Load \<Longrightarrow> load_value source (mp_space m) s img (mp_pointer_offset m) (mp_byte_offset m)
      (mp_width m) = Ok (mp_value m)"
    "mp_kind m = Store \<Longrightarrow> store_value source (mp_space m) s img (mp_pointer_offset m) (mp_byte_offset m)
      (mp_width m) = Ok (mp_value m)"
    by simp_all
qed

lemma write_memory_wide_run:
  "size_in 1 16 w \<Longrightarrow> unat b + unat w \<le> 2 ^ 64 \<Longrightarrow> write_memory_wide s sp b w v = store_bytes s sp b w v"
  using checked_memory_range_wide_Ok [of b w "()", THEN iffD2]
  by (simp only: write_memory_wide_def result.case simp_thms)

section \<open>What an operation does to the state\<close>

definition same_view :: "concrete_state \<Rightarrow> concrete_state \<Rightarrow> bool" where
  \<comment> \<open>no read can tell the states apart\<close>
  "same_view s s' =
     (cs_register_bytes s' = cs_register_bytes s \<and> cs_unique_bytes s' = cs_unique_bytes s \<and>
      (\<forall>sp a. bm_get (space_bytes s' sp) a = bm_get (space_bytes s sp) a))"

lemma same_view_refl [simp]: "same_view s s"
  by (simp add: same_view_def)

lemma same_view_reads:
  assumes "same_view s s'"
  shows "read_varnode_wide s' node = read_varnode_wide s node"
    and "memory_byte s' img sp a = memory_byte s img sp a"
proof -
  have eqs: "cs_register_bytes s' = cs_register_bytes s" "cs_unique_bytes s' = cs_unique_bytes s"
    "bm_get (space_bytes s' sp) a = bm_get (space_bytes s sp) a"
    using assms unfolding same_view_def by blast+
  show "read_varnode_wide s' node = read_varnode_wide s node" unfolding read_varnode_wide_def eqs ..
  show "memory_byte s' img sp a = memory_byte s img sp a" unfolding memory_byte_eq eqs ..
qed

lemma commit_spec:
  assumes plan: "plan_memory_operation spaces source s img = Ok m" and wf: "state_wf s"
    and commit: "commit_memory_operation source s m = (s', r)"
  shows "state_wf s'" and "r \<noteq> Panic" and "r \<noteq> Ok () \<Longrightarrow> same_view s s'"
    and "r = Ok () \<Longrightarrow> mp_kind m = Load \<Longrightarrow> (\<exists>out. op_output source = Some out \<and> write_varnode_wide s out (mp_value m) = Ok s')"
    and "r = Ok () \<Longrightarrow> mp_kind m = Store \<Longrightarrow> store_bytes s (as_name (mp_space m)) (mp_byte_offset m) (mp_width m) (mp_value m) = (s', Ok ())"
proof -
  have kind: "mp_kind m = Load \<Longrightarrow> op_output source \<noteq> None" using memory_kind_cases [OF plan_Ok(1) [OF plan]] by auto
  have run: "write_memory_wide s (as_name (mp_space m)) (mp_byte_offset m) (mp_width m) (mp_value m) =
      store_bytes s (as_name (mp_space m)) (mp_byte_offset m) (mp_width m) (mp_value m)"
    by (rule write_memory_wide_run [OF plan_Ok(4,5) [OF plan]])
  obtain t q where tq: "store_bytes s (as_name (mp_space m)) (mp_byte_offset m) (mp_width m) (mp_value m) = (t, q)" by force
  note spec = store_bytes_spec [OF tq wf plan_Ok(5) [OF plan]]
  have q: "q \<noteq> Ok () \<Longrightarrow> same_view s t" using spec(3-5) by (simp add: same_view_def)
  have all: "state_wf s' \<and> r \<noteq> Panic \<and> (r \<noteq> Ok () \<longrightarrow> same_view s s') \<and>
    (r = Ok () \<longrightarrow> mp_kind m = Load \<longrightarrow> (\<exists>out. op_output source = Some out \<and> write_varnode_wide s out (mp_value m) = Ok s')) \<and>
    (r = Ok () \<longrightarrow> mp_kind m = Store \<longrightarrow>
      store_bytes s (as_name (mp_space m)) (mp_byte_offset m) (mp_width m) (mp_value m) = (s', Ok ()))"
  proof (cases "mp_kind m")
    case Load
    with kind obtain out where out: "op_output source = Some out" by auto
    show ?thesis
      using commit Load out wf write_varnode_wide_wf(1) [OF wf, of out "mp_value m"]
      by (cases "write_varnode_wide s out (mp_value m)") (auto simp: commit_memory_operation_def Let_def)
  next
    case Store
    with commit have "s' = t" "r = map_err (MemoryBoundary source (Some (as_name (mp_space m)))
        (Some (mp_pointer_offset m)) StateLimit) q"
      by (simp_all add: commit_memory_operation_def run tq)
    with Store spec(1,2) q tq show ?thesis by (cases q) auto
  qed
  then show "state_wf s'" "r \<noteq> Panic" "r \<noteq> Ok () \<Longrightarrow> same_view s s'"
    "r = Ok () \<Longrightarrow> mp_kind m = Load \<Longrightarrow> (\<exists>out. op_output source = Some out \<and> write_varnode_wide s out (mp_value m) = Ok s')"
    "r = Ok () \<Longrightarrow> mp_kind m = Store \<Longrightarrow> store_bytes s (as_name (mp_space m)) (mp_byte_offset m) (mp_width m) (mp_value m) = (s', Ok ())"
    by blast+
qed

lemma memory_operation_cases:
  assumes "execute_memory_operation spaces source s img = (s', r)" and "state_wf s"
  shows "state_wf s'" and "r \<noteq> Panic" and "(\<forall>x. r \<noteq> Ok x) \<Longrightarrow> same_view s s'"
    and "r = Ok x \<Longrightarrow> \<exists>m. plan_memory_operation spaces source s img = Ok m \<and> x = memory_record source m \<and>
      commit_memory_operation source s m = (s', Ok ())"
proof -
  have "state_wf s' \<and> r \<noteq> Panic \<and> ((\<forall>x. r \<noteq> Ok x) \<longrightarrow> same_view s s') \<and>
    (r = Ok x \<longrightarrow> (\<exists>m. plan_memory_operation spaces source s img = Ok m \<and> x = memory_record source m \<and>
      commit_memory_operation source s m = (s', Ok ())))"
  proof (cases "plan_memory_operation spaces source s img")
    case (Ok m)
    obtain t q where c: "commit_memory_operation source s m = (t, q)" by force
    from assms(1) Ok c have "s' = t" "r = map_ok (\<lambda>_. memory_record source m) q"
      by (simp_all add: execute_memory_operation_def)
    with commit_spec(1-3) [OF Ok assms(2) c] Ok c show ?thesis by (cases q) auto
  qed (use assms plan_no_panic in \<open>auto simp: execute_memory_operation_def\<close>)
  then show "state_wf s'" "r \<noteq> Panic" "(\<forall>x. r \<noteq> Ok x) \<Longrightarrow> same_view s s'"
    "r = Ok x \<Longrightarrow> \<exists>m. plan_memory_operation spaces source s img = Ok m \<and> x = memory_record source m \<and>
      commit_memory_operation source s m = (s', Ok ())" by blast+
qed

lemma direct_copy_cases:
  assumes "execute_direct_ram_copy spaces source s img = (s', r)"
  shows "r = Ok x \<Longrightarrow> \<exists>inp out sp p b v. copy_layout source = Ok (inp, out) \<and> copy_address spaces source inp = Ok (sp, p, b) \<and>
      read_memory_with_image_wide s (as_name sp) b (vn_size inp) img = Ok (Some v) \<and> write_varnode_wide s out v = Ok s' \<and>
      x = \<lparr>ex_source = source, ex_input_values = [v], ex_output_value = Some v, ex_memory_access = None\<rparr>"
    and "(\<forall>x. r \<noteq> Ok x) \<Longrightarrow> s' = s"
  using assms by (auto simp: execute_direct_ram_copy_def Let_def split: result.splits)

lemma exact_operation_no_panic: "execute_exact_operation opn s \<noteq> Panic"
proof -
  have "read_inputs source s \<noteq> Panic" for source
    unfolding read_inputs_def by (rule collect_res_no_panic) (auto simp: rbind_Panic)
  then show ?thesis
    by (auto simp: execute_exact_operation_def rbind_Panic Let_def evaluate_wide_no_panic)
qed

lemma exact_operation_Ok:
  "execute_exact_operation opn s = Ok (s', x) \<longleftrightarrow>
    (\<exists>vs v out. read_inputs (so_source opn) s = Ok vs \<and> evaluate_exact_wide opn vs = Ok (Some v) \<and>
      op_output (so_source opn) = Some out \<and> write_varnode_wide s out v = Ok s' \<and>
      x = \<lparr>ex_source = so_source opn, ex_input_values = vs, ex_output_value = Some v, ex_memory_access = None\<rparr>)"
  by (auto simp: execute_exact_operation_def Let_def)

lemma effect_operation_spec:
  assumes run: "execute_effect_operation spaces opn s img = (s', r)" and wf: "state_wf s"
  shows "state_wf s'" and "r \<noteq> Panic" and "(\<forall>x. r \<noteq> Ok x) \<Longrightarrow> same_view s s'"
proof -
  have copy: "state_wf s' \<and> r \<noteq> Panic \<and> ((\<forall>x. r \<noteq> Ok x) \<longrightarrow> same_view s s')"
    if "execute_direct_ram_copy spaces (so_source opn) s img = (s', r)"
  proof (cases "\<exists>x. r = Ok x")
    case True
    with direct_copy_cases(1) [OF that] obtain out v where "write_varnode_wide s out v = Ok s'" by blast
    with True write_varnode_wide_wf(1) [OF wf] show ?thesis by auto
  next
    case False
    with direct_copy_cases(2) [OF that] direct_copy_no_panic [of spaces "so_source opn" s img] that wf
    show ?thesis by simp
  qed
  have memory: "state_wf s' \<and> r \<noteq> Panic \<and> ((\<forall>x. r \<noteq> Ok x) \<longrightarrow> same_view s s')"
    if "execute_memory_operation spaces (so_source opn) s img = (s', r)"
    using memory_operation_cases(1-3) [OF that wf] by blast
  have exact: "state_wf s' \<and> r \<noteq> Panic \<and> ((\<forall>x. r \<noteq> Ok x) \<longrightarrow> same_view s s')"
    if "(case execute_exact_operation opn s of Ok (s', executed) \<Rightarrow> (s', Ok executed) | Err stop \<Rightarrow> (s, Err stop)
      | Panic \<Rightarrow> (s, Panic)) = (s', r)"
    using that exact_operation_no_panic [of opn s] wf
    by (cases "execute_exact_operation opn s") (auto simp: exact_operation_Ok dest: write_varnode_wide_wf(1) [OF wf])
  have "state_wf s' \<and> r \<noteq> Panic \<and> ((\<forall>x. r \<noteq> Ok x) \<longrightarrow> same_view s s')"
    using run wf copy memory exact
    by (auto simp only: execute_effect_operation_def Let_def split: if_splits pcode_effect.splits) auto
  then show "state_wf s'" "r \<noteq> Panic" "(\<forall>x. r \<noteq> Ok x) \<Longrightarrow> same_view s s'" by blast+
qed

lemma effect_operation_cases:
  assumes run: "execute_effect_operation spaces opn s img = (s', Ok x)" and wf: "state_wf s"
  obtains (Exact) operation b vs v out where "so_effect opn = Assign operation b"
      "lower_operation (so_source opn) = Assign operation b" "read_inputs (so_source opn) s = Ok vs"
      "evaluate_exact_wide opn vs = Ok (Some v)" "op_output (so_source opn) = Some out"
      "write_varnode_wide s out v = Ok s'"
      "x = \<lparr>ex_source = so_source opn, ex_input_values = vs, ex_output_value = Some v, ex_memory_access = None\<rparr>"
  | (Copy) inp out sp p b v where "copy_layout (so_source opn) = Ok (inp, out)"
      "copy_address spaces (so_source opn) inp = Ok (sp, p, b)"
      "read_memory_with_image_wide s (as_name sp) b (vn_size inp) img = Ok (Some v)"
      "write_varnode_wide s out v = Ok s'"
      "x = \<lparr>ex_source = so_source opn, ex_input_values = [v], ex_output_value = Some v, ex_memory_access = None\<rparr>"
  | (Memory) m where "plan_memory_operation spaces (so_source opn) s img = Ok m" "x = memory_record (so_source opn) m"
      "commit_memory_operation (so_source opn) s m = (s', Ok ())"
proof -
  from run have guard: "lower_operation (so_source opn) = so_effect opn"
    by (auto simp: execute_effect_operation_def Let_def split: if_splits)
  show thesis
  proof (cases "so_effect opn")
    case (Assign operation b)
    with run have "execute_exact_operation opn s = Ok (s', x)"
      by (auto simp: execute_effect_operation_def Let_def split: if_splits result.splits)
    with Assign guard show thesis unfolding exact_operation_Ok by (auto intro: Exact)
  next
    case (Opaque cls r0 mr mw mc mo)
    with run consider "execute_direct_ram_copy spaces (so_source opn) s img = (s', Ok x)"
      | "execute_memory_operation spaces (so_source opn) s img = (s', Ok x)"
      by (auto simp: execute_effect_operation_def Let_def split: if_splits)
    then show thesis
    proof cases
      case 1
      from direct_copy_cases(1) [OF 1 refl] show thesis by (auto intro: Copy)
    next
      case 2
      from memory_operation_cases(4) [OF 2 wf refl] show thesis by (auto intro: Memory)
    qed
  qed
qed

lemma effect_operation_source:
  assumes "execute_effect_operation spaces opn s img = (s', Ok x)" and "state_wf s"
  shows "ex_source x = so_source opn"
  using assms by (cases rule: effect_operation_cases) (simp_all add: memory_record_def)

section \<open>Prefix runs\<close>

lemma clear_unique_wf [simp]: "state_wf s \<Longrightarrow> state_wf (clear_unique s)"
  by (auto simp: state_wf_def clear_unique_def known_byte_count_def bm.wf_empty bm.len_empty)

lemma run_operations_spec:
  assumes "run_operations spaces n ops r = (r', q)" and "state_wf (pf_state r)" and "length (pf_executed r) \<le> n"
  shows "state_wf (pf_state r') \<and> q \<noteq> Panic \<and> length (pf_executed r') \<le> n \<and>
    (\<exists>k \<le> length ops. map ex_source (pf_executed r') = map ex_source (pf_executed r) @ map so_source (take k ops) \<and>
      (q = Ok () \<longrightarrow> k = length ops))"
  using assms
proof (induction ops arbitrary: r)
  case (Cons opn rest)
  show ?case
  proof (cases "n \<le> length (pf_executed r)")
    case True
    with Cons.prems show ?thesis by (auto intro: exI [of _ 0])
  next
    case False
    obtain s' outcome where step: "execute_effect_operation spaces opn (pf_state r) None = (s', outcome)" by force
    note spec = effect_operation_spec [OF step Cons.prems(2)]
    show ?thesis
    proof (cases outcome)
      case (Ok x)
      let ?r = "\<lparr>pf_state = s', pf_executed = pf_executed r @ [x]\<rparr>"
      from Cons.prems(1) False step Ok have "run_operations spaces n rest ?r = (r', q)" by simp
      from Cons.IH [OF this] spec(1) False obtain k where
        k: "state_wf (pf_state r')" "q \<noteq> Panic" "length (pf_executed r') \<le> n" "k \<le> length rest"
        "map ex_source (pf_executed r') = map ex_source (pf_executed r @ [x]) @ map so_source (take k rest)"
        "q = Ok () \<longrightarrow> k = length rest" by auto
      with effect_operation_source [OF step [unfolded Ok] Cons.prems(2)] show ?thesis
        by (auto intro!: exI [of _ "Suc k"])
    next
      case (Err e)
      with Cons.prems False step spec(1) show ?thesis by (auto intro: exI [of _ 0])
    next
      case Panic
      with spec(2) show ?thesis by simp
    qed
  qed
qed auto

lemma run_instructions_spec:
  assumes "run_instructions spaces n is r = (r', q)" and "state_wf (pf_state r)" and "length (pf_executed r) \<le> n"
  shows "state_wf (pf_state r') \<and> q \<noteq> Panic \<and> length (pf_executed r') \<le> n \<and>
    (\<exists>k \<le> operation_count is. map ex_source (pf_executed r') =
        map ex_source (pf_executed r) @ map so_source (take k (concat (map si_operations is))) \<and>
      (q = Ok () \<longrightarrow> k = operation_count is))"
  using assms
proof (induction "is" arbitrary: r)
  case (Cons i rest)
  let ?ops = "si_operations i"
  obtain r1 q1 where step: "run_operations spaces n ?ops (r\<lparr>pf_state := clear_unique (pf_state r)\<rparr>) = (r1, q1)" by force
  from run_operations_spec [OF step] Cons.prems obtain k where
    one: "state_wf (pf_state r1)" "q1 \<noteq> Panic" "length (pf_executed r1) \<le> n" "k \<le> length ?ops"
    "map ex_source (pf_executed r1) = map ex_source (pf_executed r) @ map so_source (take k ?ops)"
    "q1 = Ok () \<longrightarrow> k = length ?ops" by auto
  show ?case
  proof (cases q1)
    case (Ok u)
    with Cons.prems(1) step have "run_instructions spaces n rest r1 = (r', q)" by simp
    from Cons.IH [OF this one(1,3)] obtain j where
      rest: "state_wf (pf_state r')" "q \<noteq> Panic" "length (pf_executed r') \<le> n" "j \<le> operation_count rest"
      "map ex_source (pf_executed r') = map ex_source (pf_executed r1) @
        map so_source (take j (concat (map si_operations rest)))"
      "q = Ok () \<longrightarrow> j = operation_count rest" by auto
    with one Ok show ?thesis by (auto simp: operation_count_def intro!: exI [of _ "length ?ops + j"])
  next
    case (Err e)
    with Cons.prems(1) step have "r' = r1" "q = Err e" by simp_all
    with one show ?thesis by (auto simp: operation_count_def intro!: exI [of _ k])
  qed (use one in simp)
qed (auto simp: operation_count_def)

lemma memory_operation_stop:
  "plan_memory_operation spaces source s img = Err e \<Longrightarrow> e \<noteq> EndOfListedInstructions"
  by (auto simp: plan_memory_operation_def rbind_Err memory_kind_def memory_space_id_def memory_target_def
      memory_width_def memory_pointer_def load_value_def store_value_def Let_def split: if_splits option.splits
      memory_access_kind.splits)

lemma commit_stop: "commit_memory_operation source s m = (s', Err e) \<Longrightarrow> e \<noteq> EndOfListedInstructions"
  by (auto simp: commit_memory_operation_def Let_def split: memory_access_kind.splits option.splits result.splits prod.splits)

lemma read_inputs_stop: "read_inputs source s = Err e \<Longrightarrow> e \<noteq> EndOfListedInstructions"
  unfolding read_inputs_def by (drule collect_res_Err) (auto simp: rbind_Err)

lemma exact_operation_stop: "execute_exact_operation opn s = Err e \<Longrightarrow> e \<noteq> EndOfListedInstructions"
  by (auto simp: execute_exact_operation_def Let_def rbind_Err dest: read_inputs_stop)

lemma direct_copy_stop: "execute_direct_ram_copy spaces source s img = (s', Err e) \<Longrightarrow> e \<noteq> EndOfListedInstructions"
  by (auto simp: execute_direct_ram_copy_def Let_def rbind_Err copy_layout_def copy_address_def
      split: result.splits list.splits option.splits if_splits)

lemma effect_operation_stop:
  assumes "execute_effect_operation spaces opn s img = (s', Err e)"
  shows "e \<noteq> EndOfListedInstructions"
proof -
  have "e \<noteq> EndOfListedInstructions" if "execute_memory_operation spaces (so_source opn) s img = (s', Err e)"
    using that commit_stop memory_operation_stop
    by (auto simp: execute_memory_operation_def split: result.splits prod.splits)
  with assms direct_copy_stop exact_operation_stop show ?thesis
    by (auto simp: execute_effect_operation_def Let_def split: if_splits pcode_effect.splits result.splits)
qed

lemma run_operations_stop: "run_operations spaces n ops r = (r', Err e) \<Longrightarrow> e \<noteq> EndOfListedInstructions"
  by (induction ops arbitrary: r) (auto split: if_splits prod.splits result.splits dest: effect_operation_stop)

lemma run_instructions_stop: "run_instructions spaces n is r = (r', Err e) \<Longrightarrow> e \<noteq> EndOfListedInstructions"
  by (induction "is" arbitrary: r) (auto split: prod.splits result.splits dest: run_operations_stop)

lemma execute_exact_prefix_spec:
  assumes "execute_exact_prefix f s n = Ok t" and "state_wf s"
  shows "state_wf (et_final_state t)" and "length (et_executed t) \<le> n"
    and "map ex_source (et_executed t) =
      map so_source (take (length (et_executed t)) (concat (map si_operations (se_instructions f))))"
    and "et_stop t = EndOfListedInstructions \<Longrightarrow> length (et_executed t) = operation_count (se_instructions f)"
proof -
  obtain r q where run: "run_instructions (se_address_spaces f) n (se_instructions f)
      \<lparr>pf_state = s, pf_executed = []\<rparr> = (r, q)" by force
  from run_instructions_spec [OF run] assms(2) obtain k where
    r: "state_wf (pf_state r)" "length (pf_executed r) \<le> n" "k \<le> operation_count (se_instructions f)"
    "map ex_source (pf_executed r) = map so_source (take k (concat (map si_operations (se_instructions f))))"
    "q = Ok () \<longrightarrow> k = operation_count (se_instructions f)" "q \<noteq> Panic" by auto
  from assms(1) run have t: "et_final_state t = pf_state r" "et_executed t = pf_executed r"
    "et_stop t = (case q of Ok _ \<Rightarrow> EndOfListedInstructions | Err e \<Rightarrow> e | Panic \<Rightarrow> EndOfListedInstructions)"
    by (auto simp: execute_exact_prefix_def Let_def split: result.splits)
  have "length (concat (map si_operations (se_instructions f))) = operation_count (se_instructions f)"
    by (simp add: operation_count_def length_concat o_def)
  with r(3,4) have k: "length (pf_executed r) = k" by (metis length_map length_take min.absorb2)
  show "state_wf (et_final_state t)" "length (et_executed t) \<le> n" using t r by simp_all
  show "map ex_source (et_executed t) =
      map so_source (take (length (et_executed t)) (concat (map si_operations (se_instructions f))))"
    using t r k by simp
  show "et_stop t = EndOfListedInstructions \<Longrightarrow> length (et_executed t) = operation_count (se_instructions f)"
    using t r k run_instructions_stop [of "se_address_spaces f" n "se_instructions f" _ r] run
    by (cases q) auto
qed

lemma setup_state_wf:
  "validate_execution_setup f s n = Ok () \<Longrightarrow> state_sorted s \<Longrightarrow> state_wf s"
  by (auto simp: validate_execution_setup_def state_wf_sorted not_less split: if_splits)

lemma execute_exact_prefix_no_panic: "state_wf s \<Longrightarrow> execute_exact_prefix f s n \<noteq> Panic"
proof -
  assume wf: "state_wf s"
  have pre: "validate_execution_setup f s n \<noteq> Panic"
    unfolding validate_execution_setup_def
    by (auto simp: rbind_Panic dest!: fold_res_total [THEN notE, rotated] split: if_splits prod.splits)
  obtain r q where run: "run_instructions (se_address_spaces f) n (se_instructions f)
      \<lparr>pf_state = s, pf_executed = []\<rparr> = (r, q)" by force
  from run_instructions_spec [OF run] wf have "q \<noteq> Panic" by simp
  with pre run show ?thesis
    by (auto simp: execute_exact_prefix_def rbind_Panic split: result.splits)
qed

end
