(* ===== verification/Pcode_Path.thy ===== *)
theory Pcode_Path
  imports Pcode_Execute
begin

text \<open>
  \<^verbatim>\<open>GhidraSnapshot::execute_concrete_path_inner\<close>: one concrete path through the selected function.
  The code's \<^verbatim>\<open>loop\<close> is \<open>run_loop path_step\<close>, so a run that never ends would have no value; the
  theory shows that it always has one. A step either goes on with the loop's mutable variables or
  leaves the loop: with a stop (\<^const>\<open>Ok\<close>), with the error of a question mark (\<^const>\<open>Err\<close>) or
  with a panic.
\<close>

section \<open>Traces\<close>

definition PCODE_PATH_TRACE_VERSION :: u32 where "PCODE_PATH_TRACE_VERSION = 2"

datatype path_branch_kind = DirectBranch | ConditionalBranch | IndirectBranch

datatype path_destination =
    IntraInstruction pcode_address u32
  | InstructionEntry pcode_address
  | FallthroughPending

datatype path_event =
    EffectEvent executed_operation
  | BranchEvent pcode_operation path_branch_kind "bool option" path_destination
  | FallthroughEvent pcode_address pcode_address

datatype path_stop =
    CallStop pcode_operation
  | ReturnStop pcode_operation
  | UnknownCondition pcode_operation pcode_varnode
  | UnknownIndirectTarget pcode_operation pcode_varnode
  | MalformedTarget pcode_operation string
  | TargetNotSelected pcode_operation pcode_address
  | FallthroughTargetNotSelected pcode_address pcode_address
  | UnresolvedFallthrough pcode_address
  | AmbiguousFallthrough pcode_address
  | EffectBoundary execution_stop
  | PathOperationBudget pcode_operation
  | VisitBudget pcode_address

record path_trace =
  pp_schema_version :: u32
  pp_binary_sha256 :: string
  pp_start :: pcode_address
  pp_instruction_visits :: "pcode_address list"
  pp_events :: "path_event list"
  pp_final_state :: concrete_state
  pp_stop :: path_stop
  pp_semantic_fidelity :: semantic_fidelity
  pp_verification :: verification_status

section \<open>Before the loop\<close>

text \<open>An index into a list (\<^const>\<open>get_rs\<close>) that is out of range is the panic exit of the step.\<close>

type_synonym instruction_index = "(address_key, nat) btree_map"

definition build_index :: "pcode_semantic_instruction list \<Rightarrow> (instruction_index, string) result" where
  "build_index is =
     fold_res (\<lambda>m (index, i). map_ok (\<lambda>k. bm_insert k index m) (address_key (si_address i))) []
       (List.enumerate 0 is)"

definition add_fallthrough ::
  "instruction_index \<Rightarrow> pcode_address option list list \<Rightarrow> ghidra_flow_edge \<Rightarrow> (pcode_address option list list, string) result" where
  "add_fallthrough index tss e =
     (if fl_kind e = Fallthrough then
        rbind (address_key (fl_source e)) (\<lambda>k.
          case bm_get index k of
            None \<Rightarrow> Panic
          | Some i \<Rightarrow> if i < length tss then Ok (tss[i := tss ! i @ [fl_target e]]) else Panic)
      else Ok tss)"

definition build_fallthroughs ::
  "instruction_index \<Rightarrow> ghidra_flow_edge list \<Rightarrow> nat \<Rightarrow> (pcode_address option list list, string) result" where
  "build_fallthroughs index edges n = fold_res (add_fallthrough index) (replicate n []) edges"

record path_context =
  pc_semantic :: pcode_semantic_function_ir
  pc_index :: instruction_index
  pc_fallthroughs :: "pcode_address option list list"
  pc_image :: "initial_memory option"
  pc_max_operations :: usize
  pc_max_visits :: usize

record path_state =
  ph_state :: concrete_state
  ph_events :: "path_event list"
  ph_visits :: "pcode_address list"
  ph_operation_count :: nat
  ph_instruction :: nat
  ph_operation :: nat
  ph_entering :: bool

type_synonym path_exit = "path_state \<times> (path_stop, string) result"

section \<open>One iteration\<close>

definition leave :: "path_state \<Rightarrow> path_stop \<Rightarrow> path_state + path_exit" where
  \<comment> \<open>\<^verbatim>\<open>break stop\<close>\<close>
  "leave ps stop = Inr (ps, Ok stop)"

definition enter_instruction :: "path_context \<Rightarrow> pcode_semantic_instruction \<Rightarrow> path_state \<Rightarrow> path_state option" where
  \<comment> \<open>\<^const>\<open>None\<close> when the visit budget is used up\<close>
  "enter_instruction ctx i ps =
     (if \<not> ph_entering ps then Some ps
      else if length (ph_visits ps) \<ge> pc_max_visits ctx then None
      else Some (ps\<lparr>ph_visits := ph_visits ps @ [si_address i], ph_state := clear_unique (ph_state ps),
                    ph_entering := False\<rparr>))"

definition fallthrough_step ::
  "path_context \<Rightarrow> pcode_semantic_instruction \<Rightarrow> path_state \<Rightarrow> path_state + path_exit" where
  "fallthrough_step ctx i ps =
     (case get_rs (pc_fallthroughs ctx) (ph_instruction ps) of
        Some [] \<Rightarrow> leave ps (UnresolvedFallthrough (si_address i))
      | Some [None] \<Rightarrow> leave ps (UnresolvedFallthrough (si_address i))
      | Some [Some target] \<Rightarrow>
          (case address_key target of
             Err e \<Rightarrow> Inr (ps, Err e)
           | Panic \<Rightarrow> Inr (ps, Panic)
           | Ok key \<Rightarrow>
               case bm_get (pc_index ctx) key of
                 None \<Rightarrow> leave ps (FallthroughTargetNotSelected (si_address i) target)
               | Some next \<Rightarrow> Inl (ps\<lparr>ph_events := ph_events ps @ [FallthroughEvent (si_address i) target],
                   ph_instruction := next, ph_operation := 0, ph_entering := True\<rparr>))
      | Some (_ # _ # _) \<Rightarrow> leave ps (AmbiguousFallthrough (si_address i))
      | None \<Rightarrow> Inr (ps, Panic))"

definition branch_to ::
  "pcode_operation \<Rightarrow> path_branch_kind \<Rightarrow> bool option \<Rightarrow> path_destination \<Rightarrow> nat \<Rightarrow> nat \<Rightarrow> bool \<Rightarrow>
   path_state \<Rightarrow> path_state" where
  \<comment> \<open>record a branch and move\<close>
  "branch_to source kind taken destination instruction operation entry ps =
     ps\<lparr>ph_events := ph_events ps @ [BranchEvent source kind taken destination],
        ph_operation_count := ph_operation_count ps + 1, ph_instruction := instruction,
        ph_operation := operation, ph_entering := entry\<rparr>"

definition relative_target ::
  "pcode_operation \<Rightarrow> pcode_varnode \<Rightarrow> nat \<Rightarrow> nat \<Rightarrow> (nat, path_stop) result" where
  \<comment> \<open>the operation index a constant-space branch names, given the current one and the number of operations\<close>
  "relative_target source node current count =
     (case signed_relative_pcode_offset node of
        Err reason \<Rightarrow> Err (MalformedTarget source reason)
      | Panic \<Rightarrow> Panic
      | Ok delta \<Rightarrow>
          let target = sint (word_of_nat current :: u64) + sint delta in
          if target < - (2 ^ 63) \<or> 2 ^ 63 \<le> target
            then Err (MalformedTarget source ''relative P-code branch index overflows'')
          else if target < 0 \<or> count \<le> nat target
            then Err (MalformedTarget source ''relative P-code branch target is outside its instruction'')
          else Ok (nat target))"

definition branch_taken ::
  "pcode_operation \<Rightarrow> concrete_state \<Rightarrow> bool \<Rightarrow> (bool, path_stop) result" where
  "branch_taken source s conditional =
     (if \<not> conditional then Ok True
      else rbind (index_rs (op_inputs source) 1) (\<lambda>condition.
        if vn_size condition \<noteq> 1 then Err (MalformedTarget source ''CBRANCH condition must be one byte'')
        else
          rbind (map_err (MalformedTarget source) (read_varnode s condition)) (\<lambda>known.
          rbind (ok_or (UnknownCondition source condition) known) (\<lambda>v. Ok (v \<noteq> 0)))))"

definition direct_branch_step ::
  "path_context \<Rightarrow> pcode_semantic_instruction \<Rightarrow> pcode_operation \<Rightarrow> path_state \<Rightarrow> path_state + path_exit" where
  "direct_branch_step ctx i source ps =
     (let conditional = (op_opcode source = 5);
          kind = (if conditional then ConditionalBranch else DirectBranch);
          next_op = ph_operation ps + 1 in
      if op_mnemonic source \<noteq> (if conditional then ''CBRANCH'' else ''BRANCH'') \<or> op_output source \<noteq> None \<or>
         length (op_inputs source) \<noteq> (if conditional then 2 else 1)
        then leave ps (MalformedTarget source ''invalid direct branch opcode, mnemonic, output or arity'')
      else
        case branch_taken source (ph_state ps) conditional of
          Err stop \<Rightarrow> leave ps stop
        | Panic \<Rightarrow> Inr (ps, Panic)
        | Ok False \<Rightarrow>
            Inl (branch_to source ConditionalBranch (Some False)
              (if next_op < length (si_operations i) then IntraInstruction (si_address i) (word_of_nat next_op)
               else FallthroughPending) (ph_instruction ps) next_op (ph_entering ps) ps)
        | Ok True \<Rightarrow>
            case get_rs (op_inputs source) 0 of
              Some target_node \<Rightarrow>
                if vn_space target_node = ''const'' then
                  (case relative_target source target_node (ph_operation ps) (length (si_operations i)) of
                     Err stop \<Rightarrow> leave ps stop
                   | Panic \<Rightarrow> Inr (ps, Panic)
                   | Ok index \<Rightarrow> Inl (branch_to source kind (if conditional then Some True else None)
                       (IntraInstruction (si_address i) (word_of_nat index)) (ph_instruction ps) index False ps))
                else
                  (let target = \<lparr>pa_space = vn_space target_node, pa_offset = vn_offset target_node\<rparr> in
                   case address_key target of
                     Err e \<Rightarrow> Inr (ps, Err e)
                   | Panic \<Rightarrow> Inr (ps, Panic)
                   | Ok key \<Rightarrow>
                       case bm_get (pc_index ctx) key of
                         None \<Rightarrow> leave ps (TargetNotSelected source target)
                       | Some next \<Rightarrow> Inl (branch_to source kind (if conditional then Some True else None)
                           (InstructionEntry target) next 0 True ps))
            | None \<Rightarrow> Inr (ps, Panic))"

definition indirect_branch_step ::
  "path_context \<Rightarrow> pcode_semantic_instruction \<Rightarrow> pcode_operation \<Rightarrow> path_state \<Rightarrow> path_state + path_exit" where
  "indirect_branch_step ctx i source ps =
     (let malformed = (\<lambda>reason. leave ps (MalformedTarget source reason)) in
      if op_mnemonic source \<noteq> ''BRANCHIND'' \<or> op_output source \<noteq> None \<or> length (op_inputs source) \<noteq> 1
        then malformed ''invalid indirect branch opcode, mnemonic, output or arity''
      else
        case get_rs (op_inputs source) 0 of
          Some pointer \<Rightarrow>
            (case find_space_name (se_address_spaces (pc_semantic ctx)) (pa_space (si_address i)) of
               None \<Rightarrow> malformed ''branch instruction address space is unknown''
             | Some sp \<Rightarrow>
                 if as_pointer_size sp = 0 \<or> as_pointer_size sp > 8 \<or> vn_size pointer \<noteq> as_pointer_size sp
                   then malformed ''BRANCHIND input width differs from address-space pointer width''
                 else
                   case read_varnode (ph_state ps) pointer of
                     Err reason \<Rightarrow> malformed reason
                   | Panic \<Rightarrow> Inr (ps, Panic)
                   | Ok None \<Rightarrow> leave ps (UnknownIndirectTarget source pointer)
                   | Ok (Some v) \<Rightarrow>
                       let target = \<lparr>pa_space = pa_space (si_address i), pa_offset = fmt_hex v\<rparr> in
                       case bm_get (pc_index ctx) (pa_space target, v) of
                         None \<Rightarrow> leave ps (TargetNotSelected source target)
                       | Some next \<Rightarrow> Inl (branch_to source IndirectBranch None (InstructionEntry target) next 0 True ps))
        | None \<Rightarrow> Inr (ps, Panic))"

definition call_return_step :: "pcode_operation \<Rightarrow> path_state \<Rightarrow> path_state + path_exit" where
  "call_return_step source ps =
     (if op_mnemonic source \<noteq>
           (if op_opcode source = 7 then ''CALL'' else if op_opcode source = 8 then ''CALLIND'' else ''RETURN'') \<or>
         op_output source \<noteq> None \<or> length (op_inputs source) \<noteq> 1
      then leave ps (MalformedTarget source ''invalid call or return opcode, mnemonic, output or arity'')
      else leave ps (if op_opcode source = 10 then ReturnStop source else CallStop source))"

definition effect_step :: "path_context \<Rightarrow> pcode_semantic_operation \<Rightarrow> path_state \<Rightarrow> path_state + path_exit" where
  "effect_step ctx opn ps =
     (let (s', outcome) = execute_effect_operation (se_address_spaces (pc_semantic ctx)) opn (ph_state ps) (pc_image ctx);
          ps' = ps\<lparr>ph_state := s'\<rparr>
      in case outcome of
           Ok executed \<Rightarrow> Inl (ps'\<lparr>ph_events := ph_events ps @ [EffectEvent executed],
             ph_operation_count := ph_operation_count ps + 1, ph_operation := ph_operation ps + 1\<rparr>)
         | Err boundary \<Rightarrow> leave ps' (EffectBoundary boundary)
         | Panic \<Rightarrow> Inr (ps', Panic))"

definition operation_step ::
  "path_context \<Rightarrow> pcode_semantic_instruction \<Rightarrow> pcode_semantic_operation \<Rightarrow> path_state \<Rightarrow> path_state + path_exit" where
  "operation_step ctx i opn ps =
     (let source = so_source opn in
      if ph_operation_count ps \<ge> pc_max_operations ctx then leave ps (PathOperationBudget source)
      else if op_opcode source = 4 \<or> op_opcode source = 5 then direct_branch_step ctx i source ps
      else if op_opcode source = 6 then indirect_branch_step ctx i source ps
      else if op_opcode source = 7 \<or> op_opcode source = 8 \<or> op_opcode source = 10 then call_return_step source ps
      else effect_step ctx opn ps)"

definition path_step :: "path_context \<Rightarrow> path_state \<Rightarrow> path_state + path_exit" where
  "path_step ctx ps =
     (case get_rs (se_instructions (pc_semantic ctx)) (ph_instruction ps) of
        Some i \<Rightarrow>
          (case enter_instruction ctx i ps of
             None \<Rightarrow> leave ps (VisitBudget (si_address i))
           | Some ps' \<Rightarrow>
               if ph_operation ps' = length (si_operations i) then fallthrough_step ctx i ps'
               else
                 case get_rs (si_operations i) (ph_operation ps') of
                   Some opn \<Rightarrow> operation_step ctx i opn ps'
                 | None \<Rightarrow> Inr (ps', Panic))
      | None \<Rightarrow> Inr (ps, Panic))"

section \<open>The whole run\<close>

definition start_path :: "concrete_state \<Rightarrow> nat \<Rightarrow> path_state" where
  "start_path s current =
     \<lparr>ph_state = s, ph_events = [], ph_visits = [], ph_operation_count = 0, ph_instruction = current,
      ph_operation = 0, ph_entering = True\<rparr>"

definition path_setup ::
  "ghidra_snapshot \<Rightarrow> concrete_state \<Rightarrow> initial_memory option \<Rightarrow> pcode_address option \<Rightarrow> usize \<Rightarrow> usize \<Rightarrow>
   (path_context \<times> pcode_address \<times> nat, string) result" where
  "path_setup snap initial_state img start max_operations max_visits =
     rbind (validate_ghidra_snapshot snap (gs_binary_sha256 snap)) (\<lambda>_.
     rbind (case img of None \<Rightarrow> Ok () | Some im \<Rightarrow> im_validate_for im snap initial_state) (\<lambda>_.
     if max_visits > MAX_OPERATIONS then Err ''P-code path visit budget exceeds artifact limit'' else
     rbind (pcode_function_ir snap) (\<lambda>f.
     let semantic = lower_semantics f in
     rbind (validate_execution_setup semantic initial_state max_operations) (\<lambda>_.
     rbind (build_index (se_instructions semantic)) (\<lambda>index.
     let start_address = (case start of None \<Rightarrow> sf_entry (gs_selected_function snap) | Some a \<Rightarrow> a) in
     rbind (address_key start_address) (\<lambda>start_key.
     rbind (ok_or ''P-code path start is not a selected instruction'' (bm_get index start_key)) (\<lambda>current.
     rbind (build_fallthroughs index (sf_flow_edges (gs_selected_function snap)) (length (se_instructions semantic)))
       (\<lambda>fallthroughs.
     Ok (\<lparr>pc_semantic = semantic, pc_index = index, pc_fallthroughs = fallthroughs, pc_image = img,
          pc_max_operations = max_operations, pc_max_visits = max_visits\<rparr>, start_address, current)))))))))"

definition path_trace_of :: "ghidra_snapshot \<Rightarrow> pcode_address \<Rightarrow> path_state \<Rightarrow> path_stop \<Rightarrow> path_trace" where
  "path_trace_of snap start ps stop =
     \<lparr>pp_schema_version = PCODE_PATH_TRACE_VERSION, pp_binary_sha256 = gs_binary_sha256 snap, pp_start = start,
      pp_instruction_visits = ph_visits ps, pp_events = ph_events ps, pp_final_state = ph_state ps,
      pp_stop = stop, pp_semantic_fidelity = Unknown, pp_verification = NotRun\<rparr>"

definition execute_concrete_path_inner ::
  "ghidra_snapshot \<Rightarrow> concrete_state \<Rightarrow> initial_memory option \<Rightarrow> pcode_address option \<Rightarrow> usize \<Rightarrow> usize \<Rightarrow>
   (path_trace, string) result option" where
  "execute_concrete_path_inner snap initial_state img start max_operations max_visits =
     (case path_setup snap initial_state img start max_operations max_visits of
        Err e \<Rightarrow> Some (Err e)
      | Panic \<Rightarrow> Some Panic
      | Ok (ctx, start_address, current) \<Rightarrow>
          map_option (\<lambda>(ps, r). map_ok (path_trace_of snap start_address ps) r)
            (run_loop (path_step ctx) (start_path initial_state current)))"

definition execute_concrete_path ::
  "ghidra_snapshot \<Rightarrow> concrete_state \<Rightarrow> pcode_address option \<Rightarrow> usize \<Rightarrow> usize \<Rightarrow> (path_trace, string) result option" where
  "execute_concrete_path snap initial_state start max_operations max_visits =
     execute_concrete_path_inner snap initial_state None start max_operations max_visits"

section \<open>The loop's invariant and measure\<close>

definition context_ok :: "path_context \<Rightarrow> bool" where
  \<comment> \<open>what the setup of a validated snapshot establishes\<close>
  "context_ok ctx =
     ((\<forall>k n. bm_get (pc_index ctx) k = Some n \<longrightarrow> n < length (se_instructions (pc_semantic ctx))) \<and>
      length (pc_fallthroughs ctx) = length (se_instructions (pc_semantic ctx)) \<and>
      (\<forall>targets \<in> set (pc_fallthroughs ctx). \<forall>t. Some t \<in> set targets \<longrightarrow> is_ok (address_key t)) \<and>
      (\<forall>i \<in> set (se_instructions (pc_semantic ctx)). \<forall>opn \<in> set (si_operations i).
         \<forall>v \<in> set (op_inputs (so_source opn)). is_ok (hex_u64 (vn_offset v))))"

definition path_operations :: "path_context \<Rightarrow> nat \<Rightarrow> pcode_semantic_operation list" where
  "path_operations ctx n = si_operations (se_instructions (pc_semantic ctx) ! n)"

definition is_operation_event :: "path_event \<Rightarrow> bool" where
  "is_operation_event e = (case e of FallthroughEvent _ _ \<Rightarrow> False | _ \<Rightarrow> True)"

definition path_ok :: "path_context \<Rightarrow> path_state \<Rightarrow> bool" where
  "path_ok ctx ps =
     (context_ok ctx \<and> state_wf (ph_state ps) \<and>
      ph_instruction ps < length (se_instructions (pc_semantic ctx)) \<and>
      ph_operation ps \<le> length (path_operations ctx (ph_instruction ps)) \<and>
      ph_operation_count ps \<le> pc_max_operations ctx \<and> length (ph_visits ps) \<le> pc_max_visits ctx \<and>
      length (filter is_operation_event (ph_events ps)) = ph_operation_count ps)"

definition path_measure :: "path_context \<Rightarrow> path_state \<Rightarrow> nat" where
  "path_measure ctx ps =
     2 * (pc_max_operations ctx - ph_operation_count ps) + 2 * (pc_max_visits ctx - length (ph_visits ps)) +
     (if ph_entering ps then 0 else 1)"

definition step_ok :: "path_context \<Rightarrow> path_state \<Rightarrow> path_state + path_exit \<Rightarrow> bool" where
  \<comment> \<open>go on with less to do, or stop with a stop\<close>
  "step_ok ctx ps result =
     (case result of
        Inl ps' \<Rightarrow> path_ok ctx ps' \<and> path_measure ctx ps' < path_measure ctx ps
      | Inr (ps', r) \<Rightarrow> path_ok ctx ps' \<and> (\<exists>stop. r = Ok stop))"

lemma step_ok_simps [simp]:
  "step_ok ctx ps (Inl ps') \<longleftrightarrow> path_ok ctx ps' \<and> path_measure ctx ps' < path_measure ctx ps"
  "step_ok ctx ps (Inr (ps', r)) \<longleftrightarrow> path_ok ctx ps' \<and> (\<exists>stop. r = Ok stop)"
  "step_ok ctx ps (leave ps' stop) \<longleftrightarrow> path_ok ctx ps'"
  by (simp_all add: step_ok_def leave_def)

definition entered :: "path_context \<Rightarrow> pcode_semantic_instruction \<Rightarrow> path_state \<Rightarrow> bool" where
  "entered ctx i ps =
     (path_ok ctx ps \<and> \<not> ph_entering ps \<and> i = se_instructions (pc_semantic ctx) ! ph_instruction ps)"

lemma enter_instruction_ok:
  assumes "path_ok ctx ps" and "i = se_instructions (pc_semantic ctx) ! ph_instruction ps"
    and "enter_instruction ctx i ps = Some ps'"
  shows "entered ctx i ps'" and "path_measure ctx ps' \<le> path_measure ctx ps"
    and "ph_operation ps' = ph_operation ps" and "ph_instruction ps' = ph_instruction ps"
  using assms by (auto simp: enter_instruction_def entered_def path_ok_def path_measure_def split: if_splits)

lemma fallthrough_step_ok:
  assumes "entered ctx i ps"
  shows "step_ok ctx ps (fallthrough_step ctx i ps)"
proof -
  from assms have ok: "path_ok ctx ps" "\<not> ph_entering ps" and ctx: "context_ok ctx" by (auto simp: entered_def path_ok_def)
  then have len: "ph_instruction ps < length (pc_fallthroughs ctx)" by (simp add: path_ok_def context_ok_def)
  let ?targets = "pc_fallthroughs ctx ! ph_instruction ps"
  consider "?targets = [] \<or> ?targets = [None]" | t where "?targets = [Some t]" | x y z where "?targets = x # y # z"
    by (cases ?targets; cases "tl ?targets"; cases "hd ?targets") auto
  then show ?thesis
  proof cases
    case 1
    with len ok show ?thesis by (auto simp: fallthrough_step_def)
  next
    case (2 t)
    with len ctx have "is_ok (address_key t)" unfolding context_ok_def
      by (metis list.set_intros(1) nth_mem)
    then obtain k where k: "address_key t = Ok k" by (auto simp: is_ok_iff)
    show ?thesis
    proof (cases "bm_get (pc_index ctx) k")
      case None
      with 2 k len ok show ?thesis by (simp add: fallthrough_step_def)
    next
      case (Some n)
      with ctx have "n < length (se_instructions (pc_semantic ctx))" unfolding context_ok_def by blast
      with Some 2 k len ok show ?thesis
        by (simp add: fallthrough_step_def path_ok_def path_measure_def is_operation_event_def)
    qed
  next
    case 3
    with len ok show ?thesis by (cases x) (simp_all add: fallthrough_step_def)
  qed
qed

lemma branch_to_ok:
  assumes "path_ok ctx ps" and "\<not> ph_entering ps" and "ph_operation_count ps < pc_max_operations ctx"
    and "n < length (se_instructions (pc_semantic ctx))" and "m \<le> length (path_operations ctx n)"
  shows "step_ok ctx ps (Inl (branch_to source kind taken destination n m entry ps))"
  using assms by (auto simp: branch_to_def path_ok_def path_measure_def is_operation_event_def)

lemma relative_target_cases:
  "relative_target source node current n \<noteq> Panic"
  "relative_target source node current n = Ok m \<Longrightarrow> m < n"
proof -
  have "signed_relative_pcode_offset node \<noteq> Panic"
    by (auto simp: signed_relative_pcode_offset_def rbind_Panic Let_def)
  then show "relative_target source node current n \<noteq> Panic"
    "relative_target source node current n = Ok m \<Longrightarrow> m < n"
    by (auto simp: relative_target_def Let_def split: result.splits if_splits)
qed

lemma branch_taken_no_panic:
  "length (op_inputs source) = (if conditional then 2 else 1) \<Longrightarrow> branch_taken source s conditional \<noteq> Panic"
  by (auto simp: branch_taken_def rbind_Panic)

lemma target_key_ok:
  assumes "entered ctx i ps" and "opn \<in> set (si_operations i)" and "v \<in> set (op_inputs (so_source opn))"
  obtains k where "address_key \<lparr>pa_space = vn_space v, pa_offset = vn_offset v\<rparr> = Ok k"
proof -
  from assms(1) have "i \<in> set (se_instructions (pc_semantic ctx))" "context_ok ctx"
    by (auto simp: entered_def path_ok_def)
  with assms(2,3) have "is_ok (hex_u64 (vn_offset v))" unfolding context_ok_def by blast
  then obtain o' where "hex_u64 (vn_offset v) = Ok o'" by (auto simp: is_ok_iff)
  then have "address_key \<lparr>pa_space = vn_space v, pa_offset = vn_offset v\<rparr> = Ok (vn_space v, o')"
    by (simp add: address_key_def)
  with that show thesis .
qed

lemma index_in_range: "entered ctx i ps \<Longrightarrow> bm_get (pc_index ctx) k = Some n \<Longrightarrow> n < length (se_instructions (pc_semantic ctx))"
  unfolding entered_def path_ok_def context_ok_def by blast

lemma direct_branch_step_ok:
  assumes e: "entered ctx i ps" and opn: "opn \<in> set (si_operations i)" and "source = so_source opn"
    and lt: "ph_operation ps < length (si_operations i)" and count: "ph_operation_count ps < pc_max_operations ctx"
  shows "step_ok ctx ps (direct_branch_step ctx i source ps)"
proof -
  let ?conditional = "op_opcode source = 5"
  from e have ok: "path_ok ctx ps" "\<not> ph_entering ps" "ph_instruction ps < length (se_instructions (pc_semantic ctx))"
    and len: "length (path_operations ctx (ph_instruction ps)) = length (si_operations i)"
    by (auto simp: entered_def path_ok_def path_operations_def)
  show ?thesis
  proof (cases "op_mnemonic source \<noteq> (if ?conditional then ''CBRANCH'' else ''BRANCH'') \<or> op_output source \<noteq> None \<or>
         length (op_inputs source) \<noteq> (if ?conditional then 2 else 1)")
    case True
    with ok show ?thesis by (simp only: simp_thms direct_branch_step_def Let_def if_True step_ok_simps)
  next
    case False
    then have inputs: "length (op_inputs source) = (if ?conditional then 2 else 1)" by simp
    then have "0 < length (op_inputs source)" by (simp split: if_splits)
    then obtain node where node: "get_rs (op_inputs source) 0 = Some node" "node \<in> set (op_inputs source)"
      by (metis get_rs_in nth_mem)
    have stay: "step_ok ctx ps (Inl (branch_to source k t d (ph_instruction ps) m entry ps))"
      if "m \<le> length (si_operations i)" for k t d m entry
      using that by (intro branch_to_ok ok count) (simp add: len)
    show ?thesis
    proof (cases "branch_taken source (ph_state ps) ?conditional")
      case (Ok taken)
      show ?thesis
      proof (cases taken)
        case not_taken: False
        with False Ok stay [of "ph_operation ps + 1", OF Suc_leI [OF lt, unfolded Suc_eq_plus1]] show ?thesis
          by (simp only: simp_thms direct_branch_step_def Let_def if_False result.case bool.case)
      next
        case True
        show ?thesis
        proof (cases "vn_space node = ''const''")
          case const: True
          show ?thesis
          proof (cases "relative_target source node (ph_operation ps) (length (si_operations i))")
            case (Ok m)
            note m = relative_target_cases(2) [OF Ok]
            with Ok \<open>branch_taken _ _ _ = _\<close> True False const node stay [OF less_imp_le [OF m]] show ?thesis
              by (simp only: simp_thms direct_branch_step_def Let_def if_False if_True result.case bool.case option.case)
          next
            case (Err stop)
            with \<open>branch_taken _ _ _ = _\<close> True False const node ok show ?thesis
              by (simp only: simp_thms direct_branch_step_def Let_def if_False if_True result.case bool.case option.case step_ok_simps)
          qed (use relative_target_cases(1) in simp)
        next
          case ram: False
          from target_key_ok [OF e opn] node(2) assms(3) obtain k where
            k: "address_key \<lparr>pa_space = vn_space node, pa_offset = vn_offset node\<rparr> = Ok k" by blast
          show ?thesis
          proof (cases "bm_get (pc_index ctx) k")
            case None
            with k Ok True False ram node ok show ?thesis
              by (simp only: simp_thms direct_branch_step_def Let_def if_False result.case bool.case option.case step_ok_simps)
          next
            case (Some n)
            from index_in_range [OF e Some] have "step_ok ctx ps (Inl (branch_to source b t d n 0 True ps))" for b t d
              by (intro branch_to_ok ok count) auto
            with Some k Ok True False ram node show ?thesis
              by (simp only: simp_thms direct_branch_step_def Let_def if_False result.case bool.case option.case)
          qed
        qed
      qed
    next
      case (Err stop)
      with False ok show ?thesis
        by (simp only: simp_thms direct_branch_step_def Let_def if_False result.case step_ok_simps)
    qed (use branch_taken_no_panic [OF inputs] in simp)
  qed
qed

lemma indirect_branch_step_ok:
  assumes e: "entered ctx i ps" and count: "ph_operation_count ps < pc_max_operations ctx"
  shows "step_ok ctx ps (indirect_branch_step ctx i source ps)"
proof -
  from e have ok: "path_ok ctx ps" "\<not> ph_entering ps" by (auto simp: entered_def)
  have move: "step_ok ctx ps (Inl (branch_to source b t d n 0 True ps))" if "bm_get (pc_index ctx) k = Some n" for b t d n k
    using index_in_range [OF e that] by (intro branch_to_ok ok count) auto
  have "get_rs (op_inputs source) 0 \<noteq> None" if "length (op_inputs source) = 1" using that by simp
  then show ?thesis
    using ok move by (auto simp: indirect_branch_step_def Let_def split: option.splits result.splits if_splits)
qed

lemma call_return_step_ok: "path_ok ctx ps \<Longrightarrow> step_ok ctx ps (call_return_step source ps)"
  by (auto simp: call_return_step_def)

lemma effect_step_ok:
  assumes e: "entered ctx i ps" and lt: "ph_operation ps < length (si_operations i)"
    and count: "ph_operation_count ps < pc_max_operations ctx"
  shows "step_ok ctx ps (effect_step ctx opn ps)"
proof -
  obtain s' r where run: "execute_effect_operation (se_address_spaces (pc_semantic ctx)) opn (ph_state ps) (pc_image ctx) = (s', r)"
    by force
  from e have ok: "path_ok ctx ps" "\<not> ph_entering ps" and wf: "state_wf (ph_state ps)"
    and len: "length (path_operations ctx (ph_instruction ps)) = length (si_operations i)"
    by (auto simp: entered_def path_ok_def path_operations_def)
  note spec = effect_operation_spec [OF run wf]
  show ?thesis
    using ok lt len count spec(1,2) run
    by (cases r) (auto simp: effect_step_def path_ok_def path_measure_def is_operation_event_def)
qed

lemma path_step_ok:
  assumes "path_ok ctx ps"
  shows "step_ok ctx ps (path_step ctx ps)"
proof -
  let ?i = "se_instructions (pc_semantic ctx) ! ph_instruction ps"
  have i: "get_rs (se_instructions (pc_semantic ctx)) (ph_instruction ps) = Some ?i"
    using assms by (simp add: path_ok_def)
  show ?thesis
  proof (cases "enter_instruction ctx ?i ps")
    case None
    with i assms show ?thesis by (simp only: simp_thms path_step_def option.case step_ok_simps)
  next
    case (Some ps')
    note enter = enter_instruction_ok [OF assms refl Some]
    have weaken: "step_ok ctx ps' x \<Longrightarrow> step_ok ctx ps x" for x
      using enter(2) by (auto simp: step_ok_def split: sum.splits)
    have "step_ok ctx ps' (path_step ctx ps)"
    proof (cases "ph_operation ps' = length (si_operations ?i)")
      case True
      with i Some fallthrough_step_ok [OF enter(1)] show ?thesis by (simp only: simp_thms path_step_def option.case if_True)
    next
      case False
      with enter(1) have lt: "ph_operation ps' < length (si_operations ?i)"
        by (simp add: entered_def path_ok_def path_operations_def)
      let ?opn = "si_operations ?i ! ph_operation ps'"
      have opn: "?opn \<in> set (si_operations ?i)" "get_rs (si_operations ?i) (ph_operation ps') = Some ?opn" using lt by simp_all
      have "step_ok ctx ps' (operation_step ctx ?i ?opn ps')"
        using direct_branch_step_ok [OF enter(1) opn(1) refl lt] indirect_branch_step_ok [OF enter(1)]
          call_return_step_ok [of ctx ps'] effect_step_ok [OF enter(1) lt] enter(1)
        by (auto simp: operation_step_def Let_def entered_def)
      with i Some False opn(2) show ?thesis by (simp only: simp_thms path_step_def option.case if_False)
    qed
    then show ?thesis by (rule weaken)
  qed
qed

interpretation path: bounded_loop "path_step ctx" "path_ok ctx" "path_measure ctx" for ctx
proof
  fix s s'
  assume "path_ok ctx s" "path_step ctx s = Inl s'"
  with path_step_ok [of ctx s] show "path_ok ctx s'" "path_measure ctx s' < path_measure ctx s" by simp_all
qed

lemma path_returns:
  assumes "path_ok ctx ps"
  obtains ps' stop where "run_loop (path_step ctx) ps = Some (ps', Ok stop)" "path_ok ctx ps'"
proof -
  from path.returns [OF assms] obtain r where r: "run_loop (path_step ctx) ps = Some r" by blast
  from path.exit_state [OF assms this] obtain t where "path_ok ctx t" "path_step ctx t = Inr r" by blast
  with path_step_ok [of ctx t] that r show thesis by (cases r) auto
qed

end
