(* ===== verification/Pcode_PathRun.thy ===== *)
theory Pcode_PathRun
  imports Pcode_Path
begin

text \<open>
  The whole run of \<^verbatim>\<open>execute_concrete_path_inner\<close>: what validation of the snapshot gives the setup
  before the loop (every instruction is in the index, every fallthrough edge starts at one, every
  offset parses), so that the setup hands the loop a state that satisfies its invariant, and the
  theorems about the returned trace.
\<close>


section \<open>The instruction index\<close>

definition entry_key :: "nat \<times> pcode_semantic_instruction \<Rightarrow> address_key" where
  "entry_key p = key_of (si_address (snd p))"

lemma build_index_eq:
  assumes "\<forall>i \<in> set is. address_key (si_address i) = Ok (key_of (si_address i))"
  shows "build_index is = Ok (fold (\<lambda>p. bm_insert (entry_key p) (fst p)) (List.enumerate 0 is) [])"
proof -
  have "fold_res (\<lambda>m (index, i). map_ok (\<lambda>k. bm_insert k index m) (address_key (si_address i))) m ps =
      Ok (fold (\<lambda>p. bm_insert (entry_key p) (fst p)) ps m)"
    if "\<forall>p \<in> set ps. address_key (si_address (snd p)) = Ok (entry_key p)" for ps and m :: instruction_index
    using that by (induction ps arbitrary: m) auto
  moreover have "\<forall>p \<in> set (List.enumerate 0 is). address_key (si_address (snd p)) = Ok (entry_key p)"
    using assms by (auto simp: entry_key_def in_set_enumerate_eq)
  ultimately show ?thesis unfolding build_index_def by blast
qed

lemma build_index_Ok:
  assumes "\<forall>i \<in> set is. address_key (si_address i) = Ok (key_of (si_address i))" and "build_index is = Ok index"
  shows "bm_get index k = Some j \<Longrightarrow> j < length is \<and> key_of (si_address (is ! j)) = k"
    and "bm_get index k \<noteq> None \<longleftrightarrow> k \<in> key_of ` si_address ` set is"
proof -
  from assms have index: "index = fold (\<lambda>p. bm_insert (entry_key p) (fst p)) (List.enumerate 0 is) []"
    by (simp add: build_index_eq)
  show "j < length is \<and> key_of (si_address (is ! j)) = k" if "bm_get index k = Some j"
    using bm.get_fold_ins_cases [OF that [unfolded index]]
    by (auto simp: bm.get_empty in_set_enumerate_eq entry_key_def)
  have "entry_key ` set (List.enumerate 0 is) = key_of ` si_address ` snd ` set (List.enumerate 0 is)"
    by (simp add: entry_key_def image_image)
  also have "snd ` set (List.enumerate 0 is) = set is" by (metis map_snd_enumerate set_map)
  finally show "bm_get index k \<noteq> None \<longleftrightarrow> k \<in> key_of ` si_address ` set is"
    unfolding index bm.get_fold_ins_domain by (simp add: bm.get_empty)
qed

section \<open>The fallthrough table\<close>

definition targets_from :: "pcode_address option set \<Rightarrow> nat \<Rightarrow> pcode_address option list list \<Rightarrow> bool" where
  "targets_from T n tss = (length tss = n \<and> (\<forall>ts \<in> set tss. set ts \<subseteq> T))"

lemma add_fallthrough_ok:
  assumes "address_key (fl_source e) = Ok (key_of (fl_source e))"
    and "bm_get index (key_of (fl_source e)) = Some i" and "i < n"
    and "targets_from T n tss" and "fl_target e \<in> T"
  shows "\<exists>tss'. add_fallthrough index tss e = Ok tss' \<and> targets_from T n tss'"
proof -
  have "set ts \<subseteq> T" if "ts \<in> set (tss[i := tss ! i @ [fl_target e]])" for ts
  proof -
    from assms(3,4) have "i < length tss" by (simp add: targets_from_def)
    with assms(4) have "set (tss ! i) \<subseteq> T" by (simp add: targets_from_def)
    moreover from that set_update_subset_insert [of tss i "tss ! i @ [fl_target e]"]
    have "ts = tss ! i @ [fl_target e] \<or> ts \<in> set tss" by auto
    ultimately show ?thesis using assms(4,5) by (auto simp: targets_from_def)
  qed
  with assms show ?thesis by (auto simp: add_fallthrough_def targets_from_def)
qed

lemma fold_add_fallthrough:
  assumes "\<forall>e \<in> set edges. address_key (fl_source e) = Ok (key_of (fl_source e)) \<and>
      (\<exists>i < n. bm_get index (key_of (fl_source e)) = Some i) \<and> fl_target e \<in> T"
    and "targets_from T n tss"
  shows "\<exists>tss'. fold_res (add_fallthrough index) tss edges = Ok tss' \<and> targets_from T n tss'"
  using assms
proof (induction edges arbitrary: tss)
  case (Cons e edges)
  from Cons.prems add_fallthrough_ok [of e index _ n T tss] obtain l where
    "add_fallthrough index tss e = Ok l" "targets_from T n l" by auto
  with Cons.IH [of l] Cons.prems show ?case by auto
qed simp


lemma build_fallthroughs_total:
  assumes "\<forall>e \<in> set edges. address_key (fl_source e) = Ok (key_of (fl_source e)) \<and>
      (\<exists>i < n. bm_get index (key_of (fl_source e)) = Some i)"
  obtains tss where "fold_res (add_fallthrough index) (replicate n []) edges = Ok tss"
    and "targets_from (fl_target ` set edges) n tss"
  using fold_add_fallthrough [of edges n index "fl_target ` set edges" "replicate n []"] assms
  by (auto simp: targets_from_def)

section \<open>The setup\<close>

text \<open>Everything before the loop can only fail with an error, and what it hands over satisfies the invariant.\<close>

lemma semantic_addresses:
  assumes "pcode_function_ir snap = Ok f"
  shows "\<forall>i \<in> set (se_instructions (lower_semantics f)). address_key (si_address i) = Ok (key_of (si_address i))"
    and "key_of ` si_address ` set (se_instructions (lower_semantics f)) =
      (key_of \<circ> in_address) ` set (sf_instructions (gs_selected_function snap))"
proof -
  note f = pcode_function_ir_Ok [OF assms]
  show "\<forall>i \<in> set (se_instructions (lower_semantics f)). address_key (si_address i) = Ok (key_of (si_address i))"
    using f(1,8) by (auto simp: lower_semantics_instructions selection_wf_def Let_def instruction_accepted_def is_ok_iff key_of_Ok)
  show "key_of ` si_address ` set (se_instructions (lower_semantics f)) =
      (key_of \<circ> in_address) ` set (sf_instructions (gs_selected_function snap))"
    by (simp add: lower_semantics_instructions f(1) image_image)
qed

lemma semantic_offsets:
  assumes "pcode_function_ir snap = Ok f" and "i \<in> set (se_instructions (lower_semantics f))"
    and "opn \<in> set (si_operations i)" and "v \<in> set (op_inputs (so_source opn))"
  shows "is_ok (hex_u64 (vn_offset v))"
proof -
  note f = pcode_function_ir_Ok [OF assms(1)]
  from assms(2,3) f(1) obtain j where j: "j \<in> set (sf_instructions (gs_selected_function snap))"
    "so_source opn \<in> set (in_pcode j)"
    by (auto simp: lower_semantics_instructions semantic_of_operations)
  from f(8) j(1) have "instruction_accepted (as_name ` set (gs_address_spaces snap))
      (pa_space (sf_entry (gs_selected_function snap))) j"
    by (simp add: selection_wf_def Let_def)
  with j(2) obtain n where "validate_operation (as_name ` set (gs_address_spaces snap)) n (so_source opn) = Ok ()"
    by (auto simp: instruction_accepted_def in_set_conv_nth)
  from validate_operation_accepts(3) [OF this] assms(4) show ?thesis by (auto simp: varnode_ok_def)
qed

lemma flow_edges_anchored:
  assumes "pcode_function_ir snap = Ok f" and "e \<in> set (sf_flow_edges (gs_selected_function snap))"
  shows "edge_anchored (key_of ` si_address ` set (se_instructions (lower_semantics f))) (fl_source e) (fl_target e)"
  using pcode_function_ir_Ok(8) [OF assms(1)] assms(2) semantic_addresses(2) [OF assms(1)]
  by (simp add: selection_wf_def Let_def)

lemma path_graph_total:
  assumes ir: "pcode_function_ir snap = Ok f" and index: "build_index (se_instructions (lower_semantics f)) = Ok index"
  shows "\<exists>tss. build_fallthroughs index (sf_flow_edges (gs_selected_function snap)) (length (se_instructions (lower_semantics f))) = Ok tss \<and>
    targets_from (fl_target ` set (sf_flow_edges (gs_selected_function snap))) (length (se_instructions (lower_semantics f))) tss"
proof -
  note built = build_index_Ok [OF semantic_addresses(1) [OF ir] index]
  have "\<forall>e \<in> set (sf_flow_edges (gs_selected_function snap)). address_key (fl_source e) = Ok (key_of (fl_source e)) \<and>
      (\<exists>i < length (se_instructions (lower_semantics f)). bm_get index (key_of (fl_source e)) = Some i)"
  proof
    fix e assume "e \<in> set (sf_flow_edges (gs_selected_function snap))"
    from flow_edges_anchored [OF ir this] built
    show "address_key (fl_source e) = Ok (key_of (fl_source e)) \<and>
      (\<exists>i < length (se_instructions (lower_semantics f)). bm_get index (key_of (fl_source e)) = Some i)"
      unfolding edge_anchored_def by (metis not_None_eq)
  qed
  from build_fallthroughs_total [OF this] show ?thesis
    unfolding build_fallthroughs_def by blast
qed

lemma path_setup_no_panic:
  assumes "\<And>im. img = Some im \<Longrightarrow> im_validate_for im snap s \<noteq> Panic"
  shows "path_setup snap s img start max_operations max_visits \<noteq> Panic"
proof -
  have "pcode_function_ir snap \<noteq> Panic"
    by (auto simp: pcode_function_ir_def rbind_Panic Let_def validate_snapshot_not_Panic split: if_splits option.splits)
  moreover have "validate_execution_setup f s max_operations \<noteq> Panic" for f
    unfolding validate_execution_setup_def
    by (auto simp: rbind_Panic dest!: fold_res_total [THEN notE, rotated] split: if_splits prod.splits)
  moreover have "build_index (se_instructions (lower_semantics f)) \<noteq> Panic" if "pcode_function_ir snap = Ok f" for f
    using build_index_eq [OF semantic_addresses(1) [OF that]] by simp
  ultimately show ?thesis
    using assms path_graph_total
    by (auto simp: path_setup_def rbind_Panic Let_def validate_snapshot_not_Panic split: option.splits if_splits)
      (metis result.distinct(3))+
qed

lemma path_setup_ok:
  assumes "path_setup snap s img start max_operations max_visits = Ok (ctx, start_address, current)"
    and "state_sorted s"
  shows "path_ok ctx (start_path s current)" and "pc_max_operations ctx = max_operations"
    and "pc_max_visits ctx = max_visits" and "pc_image ctx = img" and "max_visits \<le> MAX_OPERATIONS"
    and "max_operations \<le> MAX_OPERATIONS"
proof -
  from assms(1) obtain f index start_key tss where
    ir: "pcode_function_ir snap = Ok f" and exec: "validate_execution_setup (lower_semantics f) s max_operations = Ok ()"
    and index: "build_index (se_instructions (lower_semantics f)) = Ok index"
    and current: "bm_get index start_key = Some current"
    and tss: "build_fallthroughs index (sf_flow_edges (gs_selected_function snap)) (length (se_instructions (lower_semantics f))) = Ok tss"
    and ctx: "ctx = \<lparr>pc_semantic = lower_semantics f, pc_index = index, pc_fallthroughs = tss, pc_image = img,
         pc_max_operations = max_operations, pc_max_visits = max_visits\<rparr>"
    and visits: "max_visits \<le> MAX_OPERATIONS"
    by (auto simp: path_setup_def Let_def not_less split: if_splits)
  note built = build_index_Ok [OF semantic_addresses(1) [OF ir] index]
  from path_graph_total [OF ir index] tss
  have from_edges: "targets_from (fl_target ` set (sf_flow_edges (gs_selected_function snap))) (length (se_instructions (lower_semantics f))) tss"
    by auto
  have "is_ok (address_key t)" if "ts \<in> set tss" "Some t \<in> set ts" for ts t
  proof -
    from from_edges that obtain e where "e \<in> set (sf_flow_edges (gs_selected_function snap))" "fl_target e = Some t"
      by (fastforce simp: targets_from_def)
    with flow_edges_anchored [OF ir this(1)] show ?thesis by (simp add: edge_anchored_def)
  qed
  then have "context_ok ctx"
    using built(1) from_edges semantic_offsets [OF ir] by (auto simp: context_ok_def ctx targets_from_def)
  with built(1) [OF current] setup_state_wf [OF exec assms(2)] show "path_ok ctx (start_path s current)"
    by (simp add: path_ok_def start_path_def ctx path_operations_def)
  from exec show "max_operations \<le> MAX_OPERATIONS" by (auto simp: validate_execution_setup_def not_less split: if_splits)
qed (use assms(1) in \<open>auto simp: path_setup_def Let_def not_less split: if_splits\<close>)

section \<open>The run\<close>

text \<open>The whole run: it returns, never panics, and a trace keeps both budgets and the state invariant.\<close>

lemma concrete_path_returns:
  assumes "state_sorted s" and "\<And>im. img = Some im \<Longrightarrow> im_validate_for im snap s \<noteq> Panic"
  shows "\<exists>r. execute_concrete_path_inner snap s img start max_operations max_visits = Some r \<and> r \<noteq> Panic \<and>
    (\<forall>ctx start_address current. path_setup snap s img start max_operations max_visits = Ok (ctx, start_address, current) \<longrightarrow> is_ok r)"
proof (cases "path_setup snap s img start max_operations max_visits")
  case (Ok c)
  obtain ctx start_address current where c: "c = (ctx, start_address, current)" by (cases c)
  from path_returns [OF path_setup_ok(1) [OF Ok [unfolded c] assms(1)]] obtain ps stop where
    "run_loop (path_step ctx) (start_path s current) = Some (ps, Ok stop)" by blast
  with Ok c show ?thesis by (simp add: execute_concrete_path_inner_def)
qed (use path_setup_no_panic [OF assms(2)] in \<open>auto simp: execute_concrete_path_inner_def\<close>)

lemma concrete_path_trace:
  assumes "execute_concrete_path_inner snap s img start max_operations max_visits = Some (Ok t)" and "state_sorted s"
  shows "length (pp_instruction_visits t) \<le> max_visits"
    and "length (filter is_operation_event (pp_events t)) \<le> max_operations"
    and "state_wf (pp_final_state t)" and "pp_semantic_fidelity t = Unknown" and "pp_verification t = NotRun"
    and "max_visits \<le> MAX_OPERATIONS" and "max_operations \<le> MAX_OPERATIONS"
proof -
  from assms(1) obtain ctx start_address current where
    exec: "path_setup snap s img start max_operations max_visits = Ok (ctx, start_address, current)"
    by (auto simp: execute_concrete_path_inner_def split: result.splits)
  note start = path_setup_ok [OF exec assms(2)]
  from path_returns [OF start(1)] obtain ps stop where
    run: "run_loop (path_step ctx) (start_path s current) = Some (ps, Ok stop)" and ok: "path_ok ctx ps" by blast
  from assms(1) exec run have t: "t = path_trace_of snap start_address ps stop"
    by (simp add: execute_concrete_path_inner_def)
  from ok start(2-6) show "length (pp_instruction_visits t) \<le> max_visits"
    "length (filter is_operation_event (pp_events t)) \<le> max_operations" "state_wf (pp_final_state t)"
    "pp_semantic_fidelity t = Unknown" "pp_verification t = NotRun"
    "max_visits \<le> MAX_OPERATIONS" "max_operations \<le> MAX_OPERATIONS"
    by (simp_all add: t path_trace_of_def path_ok_def)
qed

end
