(* ===== verification/Pcode_StepSpec.thy ===== *)
theory Pcode_StepSpec
  imports Pcode_PathRun Pcode_EvalSpec
begin

text \<open>
  What one executed operation does to the concrete state, in terms of the contract of the evaluator
  and of single bytes: an exact operation writes the contract's integer into its output and changes
  nothing disjoint from it; a LOAD or a direct copy reads known bytes and changes no memory; a STORE
  changes the bytes of its range only. And the invariant of an initial memory: the state never holds
  a byte that contradicts a read-only one.
\<close>

section \<open>Exact operations\<close>

lemma read_inputs_Ok:
  assumes "read_inputs source s = Ok vs"
  shows "list_all2 (\<lambda>node v. read_varnode_wide s node = Ok (Some v)) (op_inputs source) vs"
proof -
  from assms have "list_all2 (\<lambda>p v. read_varnode_wide s (snd p) = Ok (Some v)) (List.enumerate 0 (op_inputs source)) vs"
    unfolding read_inputs_def collect_res_Ok by (rule list_all2_mono) (auto split: prod.splits)
  then show ?thesis by (simp add: list_all2_conv_all_nth nth_enumerate_eq)
qed

lemma read_inputs_agree:
  assumes "list_all2 (\<lambda>node v. read_varnode_wide s node = Ok (Some v)) (op_inputs source) vs"
  shows "length vs = length (op_inputs source)" and "constants_agree source vs"
    and "spec_inputs vs (map bits_of (op_inputs source)) = map uint vs"
proof -
  show len: "length vs = length (op_inputs source)" using assms by (simp add: list_all2_lengthD)
  have each: "read_varnode_wide s node = Ok (Some v)" if "(node, v) \<in> set (zip (op_inputs source) vs)" for node v
    using assms that by (auto simp: list_all2_iff)
  have "check_constant p = Ok ()" if "p \<in> set (zip (op_inputs source) vs)" for p
  proof (cases p)
    case (Pair node v)
    show ?thesis
    proof (cases "vn_space node = ''const''")
      case True
      with that Pair read_const_value [OF each] show ?thesis by simp
    next
      case False
      with Pair show ?thesis by (simp add: check_constant_def)
    qed
  qed
  then show "constants_agree source vs" by (simp add: constants_agree_def)
  have "uint (vs ! i) mod 2 ^ bits_of (op_inputs source ! i) = uint (vs ! i)" if "i < length vs" for i
    using read_varnode_wide_bound(1) [of s "op_inputs source ! i" "vs ! i"] assms that
    by (auto simp: list_all2_conv_all_nth intro!: mod_pos_pos_trivial)
  then show "spec_inputs vs (map bits_of (op_inputs source)) = map uint vs"
    using len by (auto simp: spec_inputs_def intro!: nth_equalityI)
qed

definition assigned :: "pcode_exact_op \<Rightarrow> pcode_operation \<Rightarrow> concrete_state \<Rightarrow> concrete_state \<Rightarrow> bool" where
  \<comment> \<open>the output holds the contract's value of the inputs, and nothing disjoint from it has changed\<close>
  "assigned operation source s s' =
     (\<exists>vs i out. list_all2 (\<lambda>node v. read_varnode_wide s node = Ok (Some v)) (op_inputs source) vs \<and>
        spec_value operation (map uint vs) (map bits_of (op_inputs source)) = Some i \<and>
        op_output source = Some out \<and>
        read_varnode_wide s' out = Ok (Some (word_of_int (i mod 2 ^ bits_of out))) \<and>
        (\<forall>node. nodes_disjoint out node \<longrightarrow> read_varnode_wide s' node = read_varnode_wide s node) \<and>
        cs_memory_bytes s' = cs_memory_bytes s)"

lemma write_varnode_memory: "write_varnode_wide s node v = Ok s' \<Longrightarrow> cs_memory_bytes s' = cs_memory_bytes s"
  unfolding write_varnode_wide_Ok by auto

lemma evaluated_assigned:
  assumes "so_effect opn = Assign operation b" and "lower_operation (so_source opn) = Assign operation b"
    and "read_inputs (so_source opn) s = Ok vs" and eval: "evaluate_exact_wide opn vs = Ok (Some v)"
    and out: "op_output (so_source opn) = Some out" and w: "write_varnode_wide s out v = Ok s'"
  shows "assigned operation (so_source opn) s s'"
proof -
  note reads = read_inputs_Ok [OF assms(3)]
  note agree = read_inputs_agree [OF reads]
  have bits: "unat b = bits_of out" by (rule lower_Assign_bits(1) [OF assms(2) out])
  from evaluate_wide_computes [OF assms(1,2) agree(1,2)] eval obtain i where
    i: "spec_value operation (map uint vs) (map bits_of (op_inputs (so_source opn))) = Some i"
      "v = word_of_int (i mod 2 ^ bits_of out)"
    by (auto simp: agree(3) bits split: option.splits)
  from evaluate_wide_bounds [OF eval] out bits have "uint v < 2 ^ bits_of out" by auto
  then have "take_bit (bits_of out) v = v" by (simp add: word_uint_eq_iff uint_take_bit)
  with read_back [OF w] i(2) have "read_varnode_wide s' out = Ok (Some (word_of_int (i mod 2 ^ bits_of out)))" by simp
  with reads i(1) out read_frame [OF w] write_varnode_memory [OF w] show ?thesis unfolding assigned_def by blast
qed

lemma assign_step:
  assumes "execute_effect_operation spaces opn s img = (s', Ok x)" and "so_effect opn = Assign operation b"
  shows "assigned operation (so_source opn) s s'"
proof -
  from assms have "execute_exact_operation opn s = Ok (s', x)" and "lower_operation (so_source opn) = Assign operation b"
    by (auto simp: execute_effect_operation_def Let_def split: if_splits result.splits)
  with assms(2) show ?thesis unfolding exact_operation_Ok by (auto intro: evaluated_assigned)
qed

section \<open>Memory operations\<close>

definition bytes_value :: "(u64 \<Rightarrow> u8 option) \<Rightarrow> u64 \<Rightarrow> nat \<Rightarrow> u128 \<Rightarrow> bool" where
  \<comment> \<open>the \<open>n\<close> bytes from \<open>b\<close> are known and are \<open>v\<close> in little-endian order\<close>
  "bytes_value look b n v = (\<exists>f. (\<forall>i < n. look (byte_at b i) = Some (f i)) \<and> v = le_value n f)"

lemma read_memory_bytes:
  assumes "read_memory_with_image_wide s sp b w img = Ok (Some v)"
  shows "bytes_value (memory_byte s img sp) b (unat w) v"
proof -
  from assms have "read_loop (memory_byte s img sp) b [0..<unat w] 0 = Some v"
    by (auto simp: read_memory_with_image_wide_def)
  then show ?thesis unfolding read_loop_Some bytes_value_def
    by (intro exI [of _ "\<lambda>i. the (memory_byte s img sp (byte_at b i))"]) auto
qed

definition loaded :: "initial_memory option \<Rightarrow> string \<Rightarrow> u64 \<Rightarrow> nat \<Rightarrow> pcode_varnode \<Rightarrow> concrete_state \<Rightarrow> concrete_state \<Rightarrow> bool" where
  "loaded img sp b n out s s' =
     (\<exists>v. bytes_value (memory_byte s img sp) b n v \<and> read_varnode_wide s' out = Ok (Some (take_bit (bits_of out) v)) \<and>
        (\<forall>node. nodes_disjoint out node \<longrightarrow> read_varnode_wide s' node = read_varnode_wide s node) \<and>
        cs_memory_bytes s' = cs_memory_bytes s)"

lemma loadedI:
  assumes "read_memory_with_image_wide s sp b w img = Ok (Some v)" and "write_varnode_wide s out v = Ok s'"
  shows "loaded img sp b (unat w) out s s'"
  using read_memory_bytes [OF assms(1)] read_back [OF assms(2)] read_frame [OF assms(2)] write_varnode_memory [OF assms(2)]
  unfolding loaded_def by blast

definition stored :: "string \<Rightarrow> u64 \<Rightarrow> nat \<Rightarrow> u128 \<Rightarrow> concrete_state \<Rightarrow> concrete_state \<Rightarrow> bool" where
  "stored sp b n v s s' =
     (cs_register_bytes s' = cs_register_bytes s \<and> cs_unique_bytes s' = cs_unique_bytes s \<and>
      (\<forall>sp' a. bm_get (space_bytes s' sp') a =
         (if sp' = sp \<and> in_range a b n then Some (byte_of v (unat a - unat b)) else bm_get (space_bytes s sp') a)))"

definition store_allowed :: "initial_memory option \<Rightarrow> string \<Rightarrow> u64 \<Rightarrow> nat \<Rightarrow> bool" where
  \<comment> \<open>no byte of the range is read-only, nor unmapped where the memory rejects that\<close>
  "store_allowed img sp b n =
     (\<forall>im a. img = Some im \<longrightarrow> in_range a b n \<longrightarrow>
        (im_mapped im sp a \<longrightarrow> im_writable im sp a) \<and> (im_reject_unmapped_writes im \<longrightarrow> im_mapped im sp a))"

lemma range_any_iff:
  assumes "unat b + unat w \<le> 2 ^ 64"
  shows "range_any p b w \<longleftrightarrow> (\<exists>a. in_range a b (unat w) \<and> p a)"
proof
  assume "range_any p b w"
  then obtain i where "i < unat w" "p (byte_at b i)" by (auto simp: range_any_def list_ex_iff)
  with assms show "\<exists>a. in_range a b (unat w) \<and> p a" by (auto simp: in_range_byte_at)
next
  assume "\<exists>a. in_range a b (unat w) \<and> p a"
  then obtain i where "i < unat w" "p (byte_at b i)" using assms by (auto simp: in_range_byte_at)
  then show "range_any p b w" by (auto simp: range_any_def list_ex_iff)
qed

lemma store_value_allowed:
  assumes "store_value source sp s img p b w = Ok v" and "unat b + unat w \<le> 2 ^ 64"
  shows "store_allowed img (as_name sp) b (unat w)"
  using assms(1) unfolding store_value_def store_allowed_def
  by (auto simp: range_any_iff [OF assms(2)] Let_def split: if_splits option.splits)

datatype memory_effect =
    Loaded string u64 nat pcode_varnode
  | Stored string u64 nat u128

fun memory_effect_ok :: "initial_memory option \<Rightarrow> concrete_state \<Rightarrow> concrete_state \<Rightarrow> memory_effect \<Rightarrow> bool" where
  "memory_effect_ok img s s' (Loaded sp b n out) = loaded img sp b n out s s'"
| "memory_effect_ok img s s' (Stored sp b n v) = (stored sp b n v s s' \<and> store_allowed img sp b n)"

definition addressed ::
  "ghidra_address_space list \<Rightarrow> pcode_operation \<Rightarrow> concrete_state \<Rightarrow> ghidra_address_space \<Rightarrow> u64 \<Rightarrow> bool" where
  \<comment> \<open>the first input is the constant ID of the RAM space, the second holds the address, in its units\<close>
  "addressed spaces source s sp b \<longleftrightarrow> sp \<in> set spaces \<and> as_space_type sp = 1 \<and>
     (\<exists>i pointer. vn_space (op_inputs source ! 0) = ''const'' \<and> hex_u64 (vn_offset (op_inputs source ! 0)) = Ok i \<and>
        sint (as_id sp) = uint i \<and> read_varnode s (op_inputs source ! 1) = Ok (Some pointer) \<and>
        uint b = uint pointer * uint (as_addressable_unit_size sp))"

definition access_recorded ::
  "executed_operation \<Rightarrow> memory_access_kind \<Rightarrow> ghidra_address_space \<Rightarrow> u64 \<Rightarrow> u32 \<Rightarrow> bool" where
  "access_recorded x kind sp b width \<longleftrightarrow> (\<exists>a. ex_memory_access x = Some a \<and> ma_kind a = kind \<and> ma_space a = as_name sp \<and>
     ma_space_id a = as_id sp \<and> ma_byte_offset a = b \<and> ma_width_bytes a = width)"

definition memory_effect_of ::
  "ghidra_address_space list \<Rightarrow> initial_memory option \<Rightarrow> pcode_operation \<Rightarrow> executed_operation \<Rightarrow>
   concrete_state \<Rightarrow> concrete_state \<Rightarrow> bool" where
  \<comment> \<open>a LOAD fills its output from the address, a STORE writes its data there, a COPY reads the address of its input\<close>
  "memory_effect_of spaces img source x s s' \<longleftrightarrow>
     (if op_opcode source = 2 then
        \<exists>sp b out. length (op_inputs source) = 2 \<and> op_output source = Some out \<and> addressed spaces source s sp b \<and>
          unat b + node_len out \<le> 2 ^ 64 \<and> loaded img (as_name sp) b (node_len out) out s s' \<and>
          access_recorded x Load sp b (vn_size out)
      else if op_opcode source = 3 then
        \<exists>sp b data v. op_inputs source = [op_inputs source ! 0, op_inputs source ! 1, data] \<and> op_output source = None \<and>
          addressed spaces source s sp b \<and> unat b + node_len data \<le> 2 ^ 64 \<and> read_varnode_wide s data = Ok (Some v) \<and>
          stored (as_name sp) b (node_len data) v s s' \<and> store_allowed img (as_name sp) b (node_len data) \<and>
          access_recorded x Store sp b (vn_size data)
      else
        \<exists>sp p b inp out. op_opcode source = 1 \<and> op_inputs source = [inp] \<and> op_output source = Some out \<and>
          sp \<in> set spaces \<and> as_space_type sp = 1 \<and> as_name sp = vn_space inp \<and> hex_u64 (vn_offset inp) = Ok p \<and>
          uint b = uint p * uint (as_addressable_unit_size sp) \<and> vn_size inp = vn_size out \<and> unat b + node_len inp \<le> 2 ^ 64 \<and>
          loaded img (vn_space inp) b (node_len inp) out s s' \<and> ex_memory_access x = None)"

lemma checked_mul_unit:
  assumes "checked_mul p (ucast (u :: u32) :: u64) = Some b"
  shows "uint b = uint p * uint u"
proof -
  have "uint (ucast u :: u64) = uint u" by (simp add: unsigned_ucast_eq take_bit_int_eq_self order.strict_trans2 [OF uint_lt2p])
  moreover have product: "uint p * uint u = int (unat p * unat u)" by simp
  moreover from assms have "unat p * unat u < 2 ^ 64" "b = p * ucast u" by simp_all
  moreover from this(1) have "int (unat p * unat u) < int (2 ^ 64)" by (simp only: of_nat_less_iff)
  ultimately show ?thesis by (simp add: uint_word_ariths del: of_nat_mult)
qed

lemma plan_addressed:
  assumes "plan_memory_operation spaces source s img = Ok m"
  shows "addressed spaces source s (mp_space m) (mp_byte_offset m)"
    and "memory_width source (mp_kind m) (mp_space m) = Ok (mp_width m)"
proof -
  from assms obtain kind i sp w p b v where parts:
      "memory_space_id source (op_inputs source ! 0) = Ok i" "memory_target spaces source (op_inputs source ! 1) i = Ok sp"
      "memory_pointer source sp s (op_inputs source ! 1) w = Ok (p, b)" "memory_width source kind sp = Ok w"
    and m: "mp_space m = sp" "mp_byte_offset m = b" "mp_kind m = kind" "mp_width m = w"
    unfolding plan_memory_operation_def rbind_Ok by (auto simp: One_nat_def)
  from parts(1) have i: "vn_space (op_inputs source ! 0) = ''const''" "hex_u64 (vn_offset (op_inputs source ! 0)) = Ok i"
    by (auto simp: memory_space_id_def Let_def split: if_splits)
  from parts(2) have sp: "sp \<in> set spaces" "as_space_type sp = 1" "sint (as_id sp) = uint i"
    by (auto simp: memory_target_def memory_space_def find_Some_iff Let_def split: if_splits)
  from parts(3) have "read_varnode s (op_inputs source ! 1) = Ok (Some p)" "uint b = uint p * uint (as_addressable_unit_size sp)"
    using checked_mul_unit by (auto simp: memory_pointer_def Let_def)
  with i sp m show "addressed spaces source s (mp_space m) (mp_byte_offset m)" by (auto simp: addressed_def)
  show "memory_width source (mp_kind m) (mp_space m) = Ok (mp_width m)" using parts(4) m by simp
qed

lemma memory_effect_step:
  assumes "execute_effect_operation spaces opn s img = (s', Ok x)" and wf: "state_wf s"
    and "\<not> is_assign (so_effect opn)"
  shows "memory_effect_of spaces img (so_source opn) x s s'"
  using assms(1) wf
proof (cases rule: effect_operation_cases)
  case (Exact operation b vs v out)
  with assms(3) show ?thesis by (simp add: is_assign_def)
next
  case (Copy inp out sp p b v)
  from Copy(1) have l: "op_opcode (so_source opn) = 1" "op_inputs (so_source opn) = [inp]" "op_output (so_source opn) = Some out"
    "vn_size inp = vn_size out"
    by (auto simp: copy_layout_def split: list.splits option.splits if_splits)
  from Copy(2) have a: "sp \<in> set spaces" "as_name sp = vn_space inp" "as_space_type sp = 1" "hex_u64 (vn_offset inp) = Ok p"
    "uint b = uint p * uint (as_addressable_unit_size sp)" "unat b + unat (vn_size inp) \<le> 2 ^ 64"
    using checked_mul_unit by (auto simp: copy_address_def find_space_name_def find_Some_iff Let_def split: if_splits)
  from loadedI [OF Copy(3,4)] a l Copy(5) show ?thesis
    by (auto simp: memory_effect_of_def node_len_def intro!: exI [of _ sp])
next
  case (Memory m)
  note spec = commit_spec [OF Memory(1) wf Memory(3)] and plan = plan_Ok [OF Memory(1)] and at = plan_addressed [OF Memory(1)]
  show ?thesis
  proof (cases "mp_kind m")
    case Load
    with plan(1) obtain out where k: "op_opcode (so_source opn) = 2" "length (op_inputs (so_source opn)) = 2"
      "op_output (so_source opn) = Some out" by (auto simp: memory_kind_def split: if_splits)
    with at(2) Load have width: "mp_width m = vn_size out" by (auto simp: memory_width_def Let_def split: if_splits)
    from Load spec(4) k(3) have w: "write_varnode_wide s out (mp_value m) = Ok s'" by auto
    from plan(6) [OF Load] have "read_memory_with_image_wide s (as_name (mp_space m)) (mp_byte_offset m) (mp_width m) img =
        Ok (Some (mp_value m))"
      by (auto simp: load_value_def Let_def)
    from loadedI [OF this w] k at(1) plan(5) Memory(2) Load width show ?thesis
      by (auto simp: memory_effect_of_def node_len_def access_recorded_def memory_record_def
          intro!: exI [of _ "mp_space m"] exI [of _ "mp_byte_offset m"])
  next
    case Store
    with plan(1) have k: "op_opcode (so_source opn) = 3" "length (op_inputs (so_source opn)) = 3"
      "op_output (so_source opn) = None" by (auto simp: memory_kind_def split: if_splits)
    let ?data = "op_inputs (so_source opn) ! 2"
    from k(2) have three: "op_inputs (so_source opn) = [op_inputs (so_source opn) ! 0, op_inputs (so_source opn) ! 1, ?data]"
      by (auto simp: numeral_3_eq_3 numeral_2_eq_2 length_Suc_conv)
    from at(2) Store k(2) have width: "mp_width m = vn_size ?data" by (auto simp: memory_width_def Let_def split: if_splits)
    from plan(7) [OF Store] k(2) have v: "read_varnode_wide s ?data = Ok (Some (mp_value m))"
      by (auto simp: store_value_def Let_def split: if_splits)
    from Store spec(5) have st: "store_bytes s (as_name (mp_space m)) (mp_byte_offset m) (mp_width m) (mp_value m) = (s', Ok ())" by simp
    note bytes = store_bytes_spec [OF st wf plan(5)]
    from bytes(3-5) have "stored (as_name (mp_space m)) (mp_byte_offset m) (node_len ?data) (mp_value m) s s'"
      by (simp add: stored_def node_len_def width)
    moreover from store_value_allowed [OF plan(7) [OF Store] plan(5)]
    have "store_allowed img (as_name (mp_space m)) (mp_byte_offset m) (node_len ?data)" by (simp add: node_len_def width)
    moreover have "unat (mp_byte_offset m) + node_len ?data \<le> 2 ^ 64" using plan(5) by (simp add: node_len_def width)
    moreover have "access_recorded x Store (mp_space m) (mp_byte_offset m) (vn_size ?data)"
      using Memory(2) Store width by (simp add: access_recorded_def memory_record_def)
    ultimately have "\<exists>sp b data v. op_inputs (so_source opn) = [op_inputs (so_source opn) ! 0, op_inputs (so_source opn) ! 1, data] \<and>
          op_output (so_source opn) = None \<and>
          addressed spaces (so_source opn) s sp b \<and> unat b + node_len data \<le> 2 ^ 64 \<and> read_varnode_wide s data = Ok (Some v) \<and>
          stored (as_name sp) b (node_len data) v s s' \<and> store_allowed img (as_name sp) b (node_len data) \<and>
          access_recorded x Store sp b (vn_size data)"
      using three k(3) at(1) v by blast
    with k(1) show ?thesis by (simp add: memory_effect_of_def)
  qed
qed

lemma memory_step:
  assumes "execute_effect_operation spaces opn s img = (s', Ok x)" and "state_wf s" and "\<not> is_assign (so_effect opn)"
  shows "\<exists>e. memory_effect_ok img s s' e"
proof -
  from memory_effect_step [OF assms] consider (load) sp b n out where "loaded img sp b n out s s'"
    | (store) sp b n v where "stored sp b n v s s'" "store_allowed img sp b n"
    by (auto simp: memory_effect_of_def split: if_splits)
  then show ?thesis
  proof cases
    case (load sp b n out)
    then show ?thesis by (intro exI [of _ "Loaded sp b n out"]) simp
  next
    case (store sp b n v)
    then show ?thesis by (intro exI [of _ "Stored sp b n v"]) simp
  qed
qed

section \<open>Read-only bytes stay what they are\<close>

definition coherent :: "initial_memory \<Rightarrow> concrete_state \<Rightarrow> bool" where
  \<comment> \<open>a known byte at a read-only address is the byte of the initial memory\<close>
  "coherent im s =
     (\<forall>sp a v. bm_get (space_bytes s sp) a = Some v \<longrightarrow> im_mapped im sp a \<longrightarrow> \<not> im_writable im sp a \<longrightarrow>
        im_byte im sp a = Some v)"

lemma coherent_same_bytes:
  "coherent im s \<Longrightarrow> (\<And>sp a. bm_get (space_bytes s' sp) a = bm_get (space_bytes s sp) a) \<Longrightarrow> coherent im s'"
  by (simp add: coherent_def)

lemma coherent_same_memory: "cs_memory_bytes s' = cs_memory_bytes s \<Longrightarrow> coherent im s \<Longrightarrow> coherent im s'"
  by (simp add: coherent_def space_bytes_def)

lemma coherent_step:
  assumes "execute_effect_operation spaces opn s (Some im) = (s', r)" and "state_wf s" and "coherent im s"
  shows "coherent im s'"
proof (cases "\<exists>x. r = Ok x")
  case True
  then obtain x where run: "execute_effect_operation spaces opn s (Some im) = (s', Ok x)" using assms(1) by blast
  show ?thesis
  proof (cases "is_assign (so_effect opn)")
    case True
    then obtain operation b where "so_effect opn = Assign operation b" by (auto simp: is_assign_def split: pcode_effect.splits)
    from assign_step [OF run this] have "cs_memory_bytes s' = cs_memory_bytes s" unfolding assigned_def by blast
    then show ?thesis using assms(3) by (rule coherent_same_memory)
  next
    case False
    from memory_step [OF run assms(2) this] obtain e where e: "memory_effect_ok (Some im) s s' e" by blast
    show ?thesis
    proof (cases e)
      case (Loaded sp b n out)
      with e have "loaded (Some im) sp b n out s s'" by simp
      then have "cs_memory_bytes s' = cs_memory_bytes s" unfolding loaded_def by blast
      then show ?thesis using assms(3) by (rule coherent_same_memory)
    next
      case (Stored sp b n v)
      with e assms(3) show ?thesis by (auto simp: coherent_def stored_def store_allowed_def)
    qed
  qed
next
  case False
  from effect_operation_spec(3) [OF assms(1,2)] False have "same_view s s'" by blast
  then have "\<And>sp a. bm_get (space_bytes s' sp) a = bm_get (space_bytes s sp) a" unfolding same_view_def by blast
  with assms(3) show ?thesis by (rule coherent_same_bytes)
qed

lemma memory_byte_coherent:
  \<comment> \<open>so a read of a read-only address always gives the initial byte\<close>
  assumes "coherent im s" and "im_mapped im sp a" and "\<not> im_writable im sp a"
    and "memory_byte s (Some im) sp a = Some v"
  shows "im_byte im sp a = Some v"
  using assms unfolding memory_byte_eq coherent_def by (auto split: option.splits)

section \<open>Invariants of whole runs\<close>

text \<open>
  A predicate on concrete states that clearing the temporaries and executing one operation keep is
  kept by every concrete path. The contract of such a predicate is a locale; the well-formedness of
  the state and its coherence with an initial memory are its instances.
\<close>

locale execution_invariant =
  fixes img :: "initial_memory option" and keeps :: "concrete_state \<Rightarrow> bool"
  assumes keeps_clear: "keeps s \<Longrightarrow> keeps (clear_unique s)"
    and keeps_effect: "keeps s \<Longrightarrow> execute_effect_operation spaces opn s img = (s', r) \<Longrightarrow> keeps s'"
begin

definition keeps_result :: "path_state + path_exit \<Rightarrow> bool" where
  "keeps_result result = (case result of Inl ps \<Rightarrow> keeps (ph_state ps) | Inr (ps, r) \<Rightarrow> keeps (ph_state ps))"

lemma keeps_result_simps [simp]:
  "keeps_result (Inl ps) \<longleftrightarrow> keeps (ph_state ps)" "keeps_result (Inr (ps, r)) \<longleftrightarrow> keeps (ph_state ps)"
  "keeps_result (leave ps stop) \<longleftrightarrow> keeps (ph_state ps)"
  by (simp_all add: keeps_result_def leave_def)

lemma branch_to_state [simp]: "ph_state (branch_to source kind taken destination n m entry ps) = ph_state ps"
  by (simp add: branch_to_def)

lemma keeps_cases:
  "keeps_result a \<Longrightarrow> keeps_result b \<Longrightarrow> keeps_result (if c then a else b)"
  "keeps_result (n :: path_state + path_exit) \<Longrightarrow> (\<And>x. keeps_result (j x)) \<Longrightarrow> keeps_result (case y of None \<Rightarrow> n | Some x \<Rightarrow> j x)"
  "(\<And>x. keeps_result (f x)) \<Longrightarrow> (\<And>e. keeps_result (g e)) \<Longrightarrow> keeps_result h \<Longrightarrow>
    keeps_result (case m of Ok x \<Rightarrow> f x | Err e \<Rightarrow> g e | Panic \<Rightarrow> h)"
  "keeps_result a \<Longrightarrow> keeps_result b \<Longrightarrow> keeps_result (case t of True \<Rightarrow> a | False \<Rightarrow> b)"
  by (simp_all split: option.split result.split bool.split)

lemma fallthrough_keeps: "keeps (ph_state ps) \<Longrightarrow> keeps_result (fallthrough_step ctx i ps)"
  by (auto simp: fallthrough_step_def split: option.split list.split result.split)

lemma indirect_keeps: "keeps (ph_state ps) \<Longrightarrow> keeps_result (indirect_branch_step ctx i source ps)"
  by (auto simp: indirect_branch_step_def Let_def split: option.split result.split)

lemma direct_keeps: "keeps (ph_state ps) \<Longrightarrow> keeps_result (direct_branch_step ctx i source ps)"
  unfolding direct_branch_step_def Let_def
  by (intro keeps_cases) (simp_all only: keeps_result_simps branch_to_state)

lemma effect_keeps: "pc_image ctx = img \<Longrightarrow> keeps (ph_state ps) \<Longrightarrow> keeps_result (effect_step ctx opn ps)"
  using keeps_effect by (auto simp: effect_step_def Let_def split: prod.split result.split)

lemma path_step_keeps:
  assumes "pc_image ctx = img" and "keeps (ph_state ps)"
  shows "keeps_result (path_step ctx ps)"
proof (cases "get_rs (se_instructions (pc_semantic ctx)) (ph_instruction ps)")
  case None
  with assms show ?thesis by (simp add: path_step_def)
next
  case (Some i)
  show ?thesis
  proof (cases "enter_instruction ctx i ps")
    case None
    with Some assms show ?thesis by (simp only: simp_thms path_step_def option.case keeps_result_simps)
  next
    case ps': (Some ps')
    then have k: "keeps (ph_state ps')" using assms(2) keeps_clear by (auto simp: enter_instruction_def split: if_splits)
    have "keeps_result (operation_step ctx i opn ps')" for opn
      using k direct_keeps [OF k] indirect_keeps [OF k] effect_keeps [OF assms(1) k]
      by (simp add: operation_step_def Let_def call_return_step_def)
    with Some ps' k fallthrough_keeps [OF k] show ?thesis
      by (simp only: simp_thms path_step_def option.case) (simp split: option.split)
  qed
qed

lemma run_keeps:
  assumes "path_ok ctx ps" and "pc_image ctx = img" and "keeps (ph_state ps)"
    and "run_loop (path_step ctx) ps = Some (ps', r)"
  shows "keeps (ph_state ps')"
  using assms
proof (induction "path_measure ctx ps" arbitrary: ps rule: less_induct)
  case less
  note step = path_step_ok [OF less.prems(1)] path_step_keeps [OF less.prems(2,3)]
  show ?case
  proof (cases "path_step ctx ps")
    case (Inl q)
    with step less.hyps [of q] less.prems(2,4) show ?thesis by (simp add: run_loop_unfold)
  next
    case (Inr q)
    with step(2) less.prems(4) show ?thesis by (simp add: run_loop_unfold)
  qed
qed

lemma trace_keeps:
  assumes "execute_concrete_path_inner snap s img start max_operations max_visits = Some (Ok t)"
    and "state_sorted s" and "state_wf s \<Longrightarrow> keeps s"
  shows "keeps (pp_final_state t)"
proof -
  from assms(1) obtain ctx start_address current where
    exec: "path_setup snap s img start max_operations max_visits = Ok (ctx, start_address, current)"
    by (auto simp: execute_concrete_path_inner_def split: result.splits)
  note start = path_setup_ok [OF exec assms(2)]
  from path_returns [OF start(1)] obtain ps stop where
    run: "run_loop (path_step ctx) (start_path s current) = Some (ps, Ok stop)" by blast
  from start(1) have "state_wf s" by (simp add: path_ok_def start_path_def)
  with run_keeps [OF start(1,4) _ run] assms(3) have "keeps (ph_state ps)" by (simp add: start_path_def)
  moreover from assms(1) exec run have "t = path_trace_of snap start_address ps stop"
    by (simp add: execute_concrete_path_inner_def)
  ultimately show ?thesis by (simp add: path_trace_of_def)
qed

end

lemma clear_unique_memory [simp]: "cs_memory_bytes (clear_unique s) = cs_memory_bytes s"
  by (simp add: clear_unique_def)

interpretation wf_run: execution_invariant img state_wf for img
  by unfold_locales (auto dest: effect_operation_spec(1))

interpretation coherent_run: execution_invariant "Some im" "\<lambda>s. state_wf s \<and> coherent im s" for im
proof unfold_locales
  fix s assume "state_wf s \<and> coherent im s"
  then show "state_wf (clear_unique s) \<and> coherent im (clear_unique s)"
    using coherent_same_memory [of "clear_unique s" s im] by simp
next
  fix s spaces opn s' r
  assume "state_wf s \<and> coherent im s" and "execute_effect_operation spaces opn s (Some im) = (s', r)"
  then show "state_wf s' \<and> coherent im s'"
    using effect_operation_spec(1) coherent_step by blast
qed

end
