(* ===== verification/Pcode_Cfg.thy ===== *)
theory Pcode_Cfg
  imports Pcode_PathRun
begin

text \<open>
  \<^verbatim>\<open>hydir-ir/src/pcode/cfg.rs\<close>: the instruction control-flow graph of a validated snapshot. Each state
  instruction is a node; Ghidra's flow evidence gives the edges, its call evidence the calls, and a
  node without a known successor is marked unresolved. The loops over the evidence are folds that
  carry the vectors the code mutates; an index out of range is a \<^const>\<open>Panic\<close>.
\<close>

section \<open>Data\<close>

definition PCODE_CFG_IR_VERSION :: u32 where "PCODE_CFG_IR_VERSION = 1"

datatype pcode_cfg_completeness = Incomplete

record pcode_cfg_edge =
  ed_source_node :: u32
  ed_target_node :: "u32 option"
  ed_evidence :: ghidra_flow_edge

record pcode_cfg_call =
  ca_source_node :: u32
  ca_evidence :: ghidra_call_target

record pcode_cfg_node =
  cn_instruction_index :: u32
  cn_address :: pcode_address
  cn_outgoing_edges :: "u32 list"
  cn_outgoing_calls :: "u32 list"
  cn_has_unresolved_control :: bool
  cn_may_have_opaque_control_effect :: bool

record pcode_cfg_function_ir =
  cf_schema_version :: u32
  cf_binary_sha256 :: string
  cf_state :: pcode_state_function_ir
  cf_nodes :: "pcode_cfg_node list"
  cf_edges :: "pcode_cfg_edge list"
  cf_calls :: "pcode_cfg_call list"
  cf_flow_evidence_present :: bool
  cf_cfg_completeness :: pcode_cfg_completeness

section \<open>Construction\<close>

definition call_key :: "ghidra_call_target \<Rightarrow> (call_key, string) result" where
  "call_key c =
     rbind (address_key (ct_call_site c)) (\<lambda>site.
     rbind (case ct_target c of None \<Rightarrow> Ok None | Some t \<Rightarrow> map_ok Some (address_key t)) (\<lambda>target.
     Ok (site, target, ct_conditional c, ct_computed c)))"

type_synonym node_index = "(address_key, u32) btree_map"

definition changes_control :: "pcode_effect \<Rightarrow> bool" where
  "changes_control effect = (case effect of Assign _ _ \<Rightarrow> False | Opaque _ _ _ _ control _ \<Rightarrow> control)"

definition initial_node :: "nat \<Rightarrow> pcode_state_instruction \<Rightarrow> pcode_cfg_node" where
  "initial_node index i =
     \<lparr>cn_instruction_index = word_of_nat index, cn_address = ti_address i, cn_outgoing_edges = [],
      cn_outgoing_calls = [], cn_has_unresolved_control = False,
      cn_may_have_opaque_control_effect = list_ex (\<lambda>opn. changes_control (to_effect opn)) (ti_operations i)\<rparr>"

definition add_node ::
  "node_index \<times> pcode_cfg_node list \<Rightarrow> nat \<times> pcode_state_instruction \<Rightarrow>
   (node_index \<times> pcode_cfg_node list, string) result" where
  "add_node st p =
     (let (index, nodes) = st; (n, i) = p in
      rbind (address_key (ti_address i)) (\<lambda>k. Ok (bm_insert k (word_of_nat n) index, nodes @ [initial_node n i])))"

record flow_scan =
  \<comment> \<open>the vectors the loop over the flow edges mutates\<close>
  fs_nodes :: "pcode_cfg_node list"
  fs_edges :: "pcode_cfg_edge list"
  fs_call_evidence :: "ghidra_call_target list"
  fs_call_keys :: "call_key set"

definition call_of_flow :: "ghidra_flow_edge \<Rightarrow> ghidra_call_target" where
  "call_of_flow e =
     \<lparr>ct_call_site = fl_source e, ct_target = fl_target e, ct_conditional = fl_conditional e, ct_computed = fl_computed e\<rparr>"

definition push_edge :: "u32 \<Rightarrow> u32 \<Rightarrow> pcode_cfg_node list \<Rightarrow> (pcode_cfg_node list, string) result" where
  \<comment> \<open>\<^verbatim>\<open>nodes[source_node as usize].outgoing_edges.push(edge_index)\<close>\<close>
  "push_edge n j nodes =
     (if unat n < length nodes
      then Ok (nodes[unat n := (nodes ! unat n)\<lparr>cn_outgoing_edges := cn_outgoing_edges (nodes ! unat n) @ [j]\<rparr>])
      else Panic)"

definition push_call :: "u32 \<Rightarrow> u32 \<Rightarrow> pcode_cfg_node list \<Rightarrow> (pcode_cfg_node list, string) result" where
  "push_call n j nodes =
     (if unat n < length nodes
      then Ok (nodes[unat n := (nodes ! unat n)\<lparr>cn_outgoing_calls := cn_outgoing_calls (nodes ! unat n) @ [j]\<rparr>])
      else Panic)"

definition target_node_of :: "node_index \<Rightarrow> pcode_address option \<Rightarrow> (u32 option, string) result" where
  "target_node_of index target =
     (case target of None \<Rightarrow> Ok None | Some t \<Rightarrow> map_ok (bm_get index) (address_key t))"

definition add_flow :: "node_index \<Rightarrow> flow_scan \<Rightarrow> ghidra_flow_edge \<Rightarrow> (flow_scan, string) result" where
  "add_flow index st e =
     (if fl_kind e = Call then
        rbind (call_key (call_of_flow e)) (\<lambda>k.
          if k \<in> fs_call_keys st then Ok st
          else Ok (st\<lparr>fs_call_keys := insert k (fs_call_keys st),
                      fs_call_evidence := fs_call_evidence st @ [call_of_flow e]\<rparr>))
      else
        rbind (address_key (fl_source e)) (\<lambda>k.
        rbind (ok_or ''validated flow source is missing from CFG nodes'' (bm_get index k)) (\<lambda>source_node.
        rbind (target_node_of index (fl_target e)) (\<lambda>target_node.
        let edges = fs_edges st @
              [\<lparr>ed_source_node = source_node, ed_target_node = target_node, ed_evidence = e\<rparr>]
        in map_ok (\<lambda>nodes. st\<lparr>fs_edges := edges, fs_nodes := nodes\<rparr>)
             (push_edge source_node (word_of_nat (length (fs_edges st))) (fs_nodes st))))))"

definition add_call ::
  "node_index \<Rightarrow> pcode_cfg_node list \<times> pcode_cfg_call list \<Rightarrow> ghidra_call_target \<Rightarrow>
   (pcode_cfg_node list \<times> pcode_cfg_call list, string) result" where
  "add_call index st c =
     (let (nodes, calls) = st in
      rbind (address_key (ct_call_site c)) (\<lambda>k.
      rbind (ok_or ''validated call site is missing from CFG nodes'' (bm_get index k)) (\<lambda>source_node.
      map_ok (\<lambda>nodes'. (nodes', calls @ [\<lparr>ca_source_node = source_node, ca_evidence = c\<rparr>]))
        (push_call source_node (word_of_nat (length calls)) nodes))))"

fun any_index :: "('a \<Rightarrow> bool) \<Rightarrow> 'a list \<Rightarrow> u32 list \<Rightarrow> (bool, string) result" where
  \<comment> \<open>\<^verbatim>\<open>indices.iter().any(|&i| p(xs[i as usize]))\<close>\<close>
  "any_index p xs [] = Ok False"
| "any_index p xs (i # is) =
     rbind (index_rs xs (unat i)) (\<lambda>x. if p x then Ok True else any_index p xs is)"

definition has_opcode :: "(u32 \<Rightarrow> bool) \<Rightarrow> pcode_state_instruction \<Rightarrow> bool" where
  "has_opcode p i = list_ex (\<lambda>opn. p (op_opcode (to_source opn))) (ti_operations i)"

definition resolve_node ::
  "pcode_state_instruction list \<Rightarrow> pcode_cfg_edge list \<Rightarrow> pcode_cfg_call list \<Rightarrow> pcode_cfg_node \<Rightarrow>
   (pcode_cfg_node, string) result" where
  "resolve_node instructions edges calls node =
     rbind (index_rs instructions (unat (cn_instruction_index node))) (\<lambda>i.
     rbind (any_index (\<lambda>e. fl_target (ed_evidence e) = None) edges (cn_outgoing_edges node)) (\<lambda>unknown_edge.
     rbind (any_index (\<lambda>c. ct_target (ca_evidence c) = None) calls (cn_outgoing_calls node)) (\<lambda>unknown_call.
     Ok (node\<lparr>cn_has_unresolved_control :=
       unknown_edge \<or> unknown_call \<or>
       (has_opcode (\<lambda>opc. 4 \<le> opc \<and> opc \<le> 6) i \<and> cn_outgoing_edges node = []) \<or>
       (has_opcode (\<lambda>opc. opc = 7 \<or> opc = 8) i \<and> cn_outgoing_calls node = []) \<or>
       (cn_outgoing_edges node = [] \<and> cn_outgoing_calls node = [] \<and> \<not> has_opcode (\<lambda>opc. opc = 10) i)\<rparr>))))"

definition pcode_cfg_ir :: "ghidra_snapshot \<Rightarrow> (pcode_cfg_function_ir, string) result" where
  "pcode_cfg_ir snap =
     rbind (validate_ghidra_snapshot snap (gs_binary_sha256 snap)) (\<lambda>_.
     rbind (Pcode_Validate.pcode_function_ir snap) (\<lambda>f.
     let state = lower_state_raw f; sel = gs_selected_function snap in
     rbind (fold_res add_node ([], []) (List.enumerate 0 (st_instructions state))) (\<lambda>(index, nodes).
     rbind (collect_res call_key (sf_call_targets sel)) (\<lambda>keys.
     rbind (fold_res (add_flow index)
              \<lparr>fs_nodes = nodes, fs_edges = [], fs_call_evidence = sf_call_targets sel, fs_call_keys = set keys\<rparr>
              (sf_flow_edges sel)) (\<lambda>st.
     rbind (fold_res (add_call index) (fs_nodes st, []) (fs_call_evidence st)) (\<lambda>(nodes', calls).
     rbind (collect_res (resolve_node (st_instructions state) (fs_edges st) calls) nodes') (\<lambda>nodes''.
     Ok \<lparr>cf_schema_version = PCODE_CFG_IR_VERSION, cf_binary_sha256 = gs_binary_sha256 snap, cf_state = state,
         cf_nodes = nodes'', cf_edges = fs_edges st, cf_calls = calls,
         cf_flow_evidence_present = (sf_flow_edges sel \<noteq> [] \<or> sf_call_targets sel \<noteq> []),
         cf_cfg_completeness = Incomplete\<rparr>)))))))"

end
