(* ===== verification/Pcode_CfgSpec.thy ===== *)
theory Pcode_CfgSpec
  imports Pcode_Cfg "HOL-Library.Sublist"
begin

text \<open>
  What \<^verbatim>\<open>pcode_cfg_ir\<close> builds from a validated snapshot: it always succeeds, every node is the
  instruction at its index with exactly the edges and calls that leave it, every edge and call is the
  evidence it was made from, anchored at an instruction with that address, and a node is marked
  unresolved exactly when its successors are not all known.
\<close>

section \<open>The node index\<close>

definition index_ok :: "pcode_state_instruction list \<Rightarrow> node_index \<Rightarrow> bool" where
  \<comment> \<open>the index maps exactly the instructions' keys, each to the position of an instruction with that key\<close>
  "index_ok is index =
     ((\<forall>k j. bm_get index k = Some j \<longrightarrow> unat j < length is \<and> key_of (ti_address (is ! unat j)) = k) \<and>
      (\<forall>k. bm_get index k \<noteq> None \<longleftrightarrow> k \<in> key_of ` ti_address ` set is))"

definition node_key :: "nat \<times> pcode_state_instruction \<Rightarrow> address_key" where
  "node_key p = key_of (ti_address (snd p))"

lemma add_node_fold:
  assumes "\<forall>p \<in> set ps. address_key (ti_address (snd p)) = Ok (node_key p)"
  shows "fold_res add_node (m, ns) ps =
    Ok (fold (\<lambda>p. bm_insert (node_key p) (word_of_nat (fst p))) ps m, ns @ map (\<lambda>p. initial_node (fst p) (snd p)) ps)"
  using assms by (induction ps arbitrary: m ns) (auto simp: add_node_def)

lemma add_nodes_ok:
  assumes "\<forall>i \<in> set is. address_key (ti_address i) = Ok (key_of (ti_address i))" and "length is \<le> MAX_INSTRUCTIONS"
  shows "\<exists>index. fold_res add_node ([], []) (List.enumerate 0 is) =
      Ok (index, map (\<lambda>p. initial_node (fst p) (snd p)) (List.enumerate 0 is)) \<and> index_ok is index"
proof -
  let ?ps = "List.enumerate 0 is"
  let ?index = "fold (\<lambda>p. bm_insert (node_key p) (word_of_nat (fst p) :: u32)) ?ps []"
  have "\<forall>p \<in> set ?ps. address_key (ti_address (snd p)) = Ok (node_key p)"
    using assms(1) by (auto simp: node_key_def in_set_enumerate_eq)
  note run = add_node_fold [OF this, of "[]" "[]"]
  have small: "unat (word_of_nat j :: u32) = j" if "j < length is" for j
    using that assms(2) by (simp add: unsigned_of_nat take_bit_nat_eq_self MAX_INSTRUCTIONS_def)
  have "unat j < length is \<and> key_of (ti_address (is ! unat j)) = k" if "bm_get ?index k = Some j" for k j
    using bm.get_fold_ins_cases [OF that] small
    by (auto simp: bm.get_empty in_set_enumerate_eq node_key_def)
  moreover have "bm_get ?index k \<noteq> None \<longleftrightarrow> k \<in> key_of ` ti_address ` set is" for k
  proof -
    have "node_key ` set ?ps = key_of ` ti_address ` snd ` set ?ps" by (simp add: node_key_def image_image)
    also have "snd ` set ?ps = set is" by (metis map_snd_enumerate set_map)
    finally show ?thesis unfolding bm.get_fold_ins_domain by (simp add: bm.get_empty)
  qed
  ultimately show ?thesis using run by (simp add: index_ok_def)
qed

section \<open>Outgoing evidence\<close>

definition outgoing :: "('a \<Rightarrow> u32) \<Rightarrow> 'a list \<Rightarrow> nat \<Rightarrow> u32 list" where
  \<comment> \<open>the indices of the entries that leave node \<open>i\<close>, in order\<close>
  "outgoing src xs i = map word_of_nat (filter (\<lambda>j. unat (src (xs ! j)) = i) [0..<length xs])"

lemma outgoing_Nil [simp]: "outgoing src [] i = []"
  by (simp add: outgoing_def)

lemma outgoing_snoc:
  "outgoing src (xs @ [x]) i = outgoing src xs i @ (if unat (src x) = i then [word_of_nat (length xs)] else [])"
proof -
  have "filter (\<lambda>j. unat (src ((xs @ [x]) ! j)) = i) [0..<length xs] = filter (\<lambda>j. unat (src (xs ! j)) = i) [0..<length xs]"
    by (rule filter_cong) (simp_all add: nth_append)
  then show ?thesis by (simp add: outgoing_def)
qed

definition linked_node ::
  "pcode_state_instruction list \<Rightarrow> pcode_cfg_edge list \<Rightarrow> pcode_cfg_call list \<Rightarrow> nat \<Rightarrow> pcode_cfg_node" where
  "linked_node is edges calls i =
     (initial_node i (is ! i))\<lparr>cn_outgoing_edges := outgoing ed_source_node edges i,
        cn_outgoing_calls := outgoing ca_source_node calls i\<rparr>"

definition linked ::
  "pcode_state_instruction list \<Rightarrow> pcode_cfg_edge list \<Rightarrow> pcode_cfg_call list \<Rightarrow> pcode_cfg_node list \<Rightarrow> bool" where
  "linked is edges calls nodes = (nodes = map (linked_node is edges calls) [0..<length is])"

lemma linked_initial: "linked is [] [] (map (\<lambda>p. initial_node (fst p) (snd p)) (List.enumerate 0 is))"
  unfolding linked_def linked_node_def
  by (rule nth_equalityI) (simp_all add: nth_enumerate_eq initial_node_def)

lemma push_edge_linked:
  assumes "linked is es cs nodes" and "unat (ed_source_node e) < length is"
  obtains nodes' where "push_edge (ed_source_node e) (word_of_nat (length es)) nodes = Ok nodes'"
    and "linked is (es @ [e]) cs nodes'"
proof -
  let ?n = "unat (ed_source_node e)"
  let ?nodes = "nodes[?n := (nodes ! ?n)\<lparr>cn_outgoing_edges := cn_outgoing_edges (nodes ! ?n) @ [word_of_nat (length es)]\<rparr>]"
  have "linked is (es @ [e]) cs ?nodes"
    using assms unfolding linked_def
    by (intro nth_equalityI) (auto simp: nth_list_update linked_node_def outgoing_snoc)
  moreover have "push_edge (ed_source_node e) (word_of_nat (length es)) nodes = Ok ?nodes"
    using assms by (simp add: push_edge_def linked_def)
  ultimately show thesis using that by blast
qed

lemma push_call_linked:
  assumes "linked is es cs nodes" and "unat (ca_source_node c) < length is"
  obtains nodes' where "push_call (ca_source_node c) (word_of_nat (length cs)) nodes = Ok nodes'"
    and "linked is es (cs @ [c]) nodes'"
proof -
  let ?n = "unat (ca_source_node c)"
  let ?nodes = "nodes[?n := (nodes ! ?n)\<lparr>cn_outgoing_calls := cn_outgoing_calls (nodes ! ?n) @ [word_of_nat (length cs)]\<rparr>]"
  have "linked is es (cs @ [c]) ?nodes"
    using assms unfolding linked_def
    by (intro nth_equalityI) (auto simp: nth_list_update linked_node_def outgoing_snoc)
  moreover have "push_call (ca_source_node c) (word_of_nat (length cs)) nodes = Ok ?nodes"
    using assms by (simp add: push_call_def linked_def)
  ultimately show thesis using that by blast
qed

section \<open>The loops\<close>

definition call_key_of :: "ghidra_call_target \<Rightarrow> call_key" where
  "call_key_of c = (key_of (ct_call_site c), map_option key_of (ct_target c), ct_conditional c, ct_computed c)"

definition keyed :: "pcode_address \<Rightarrow> bool" where
  "keyed a \<longleftrightarrow> address_key a = Ok (key_of a)"

definition evidence_keyed :: "ghidra_call_target \<Rightarrow> bool" where
  "evidence_keyed c \<longleftrightarrow> keyed (ct_call_site c) \<and> (\<forall>t. ct_target c = Some t \<longrightarrow> keyed t)"

lemma call_key_Ok: "evidence_keyed c \<Longrightarrow> call_key c = Ok (call_key_of c)"
  by (auto simp: call_key_def evidence_keyed_def keyed_def call_key_of_def split: option.split)

definition edge_ok :: "pcode_state_instruction list \<Rightarrow> node_index \<Rightarrow> pcode_cfg_edge \<Rightarrow> bool" where
  "edge_ok is index e =
     (unat (ed_source_node e) < length is \<and>
      key_of (ti_address (is ! unat (ed_source_node e))) = key_of (fl_source (ed_evidence e)) \<and>
      ed_target_node e = Option.bind (fl_target (ed_evidence e)) (\<lambda>t. bm_get index (key_of t)))"

definition call_ok :: "pcode_state_instruction list \<Rightarrow> pcode_cfg_call \<Rightarrow> bool" where
  "call_ok is c =
     (unat (ca_source_node c) < length is \<and>
      key_of (ti_address (is ! unat (ca_source_node c))) = key_of (ct_call_site (ca_evidence c)))"

definition flow_only :: "ghidra_call_target list \<Rightarrow> ghidra_flow_edge list \<Rightarrow> ghidra_call_target list \<Rightarrow> bool" where
  \<comment> \<open>the calls only the flow shows: those of its call edges, in order, each key once and none that has evidence\<close>
  "flow_only targets edges new \<longleftrightarrow>
     subseq new (map call_of_flow (filter (\<lambda>e. fl_kind e = Call) edges)) \<and> distinct (map call_key_of new) \<and>
     (\<forall>c \<in> set new. call_key_of c \<notin> call_key_of ` set targets) \<and>
     (\<forall>e \<in> set edges. fl_kind e = Call \<longrightarrow> call_key_of (call_of_flow e) \<in> call_key_of ` set (targets @ new))"

lemma flow_only_bounds:
  assumes "flow_only targets edges new"
  shows "length new \<le> length edges" and "set new \<subseteq> call_of_flow ` {e \<in> set edges. fl_kind e = Call}"
proof -
  from assms have sub: "subseq new (map call_of_flow (filter (\<lambda>e. fl_kind e = Call) edges))" by (simp add: flow_only_def)
  from list_emb_length [OF sub] have "length new \<le> length (filter (\<lambda>e. fl_kind e = Call) edges)" by simp
  then show "length new \<le> length edges" by (rule order.trans) (rule length_filter_le)
  show "set new \<subseteq> call_of_flow ` {e \<in> set edges. fl_kind e = Call}"
  proof
    fix c assume "c \<in> set new"
    from list_emb_set [OF sub this] show "c \<in> call_of_flow ` {e \<in> set edges. fl_kind e = Call}" by auto
  qed
qed

lemma flow_only_keep:
  assumes "flow_only targets edges new"
    and "fl_kind e = Call \<Longrightarrow> call_key_of (call_of_flow e) \<in> call_key_of ` set (targets @ new)"
  shows "flow_only targets (edges @ [e]) new"
  using assms by (auto simp: flow_only_def intro: list_emb_prefix)

lemma flow_only_snoc:
  assumes "flow_only targets edges new" and "fl_kind e = Call"
    and "call_key_of (call_of_flow e) \<notin> call_key_of ` set (targets @ new)"
  shows "flow_only targets (edges @ [e]) (new @ [call_of_flow e])"
  using assms by (auto simp: flow_only_def intro: list_emb_append_mono)

definition flow_ok ::
  "pcode_state_instruction list \<Rightarrow> node_index \<Rightarrow> ghidra_call_target list \<Rightarrow> ghidra_flow_edge list \<Rightarrow> flow_scan \<Rightarrow> bool" where
  \<comment> \<open>the invariant of the loop over the flow edges, after the edges \<open>past\<close>\<close>
  "flow_ok is index targets past st =
     (linked is (fs_edges st) [] (fs_nodes st) \<and>
      map ed_evidence (fs_edges st) = filter (\<lambda>e. fl_kind e \<noteq> Call) past \<and>
      (\<forall>e \<in> set (fs_edges st). edge_ok is index e) \<and>
      fs_call_keys st = call_key_of ` set (fs_call_evidence st) \<and>
      (\<exists>new. fs_call_evidence st = targets @ new \<and> flow_only targets past new))"

lemma add_flow_ok:
  assumes index: "index_ok is index" and anchored: "edge_anchored (key_of ` ti_address ` set is) (fl_source e) (fl_target e)"
    and st: "flow_ok is index targets past st"
  shows "\<exists>st'. add_flow index st e = Ok st' \<and> flow_ok is index targets (past @ [e]) st'"
proof (cases "fl_kind e = Call")
  case True
  from anchored have "evidence_keyed (call_of_flow e)"
    by (auto simp: evidence_keyed_def keyed_def call_of_flow_def edge_anchored_def)
  note key = call_key_Ok [OF this]
  from st obtain new where new: "fs_call_evidence st = targets @ new" "flow_only targets past new"
      and keys: "fs_call_keys st = call_key_of ` set (targets @ new)"
    unfolding flow_ok_def by auto
  show ?thesis
  proof (cases "call_key_of (call_of_flow e) \<in> fs_call_keys st")
    case seen: True
    then have "flow_only targets (past @ [e]) new" using new(2) keys by (intro flow_only_keep) simp_all
    with True st new(1) have "flow_ok is index targets (past @ [e]) st" by (auto simp: flow_ok_def)
    moreover have "add_flow index st e = Ok st" using True key seen by (simp add: add_flow_def)
    ultimately show ?thesis by blast
  next
    case False
    let ?st = "st\<lparr>fs_call_keys := insert (call_key_of (call_of_flow e)) (fs_call_keys st),
      fs_call_evidence := fs_call_evidence st @ [call_of_flow e]\<rparr>"
    have "add_flow index st e = Ok ?st" using True False key by (simp add: add_flow_def)
    moreover have "flow_ok is index targets (past @ [e]) ?st"
      unfolding flow_ok_def
    proof (intro conjI)
      show "\<exists>n. fs_call_evidence ?st = targets @ n \<and> flow_only targets (past @ [e]) n"
        using new(1) flow_only_snoc [OF new(2) True] False keys by (intro exI [of _ "new @ [call_of_flow e]"]) simp
    qed (use st True in \<open>auto simp: flow_ok_def\<close>)
    ultimately show ?thesis by blast
  qed
next
  case False
  from anchored have src: "address_key (fl_source e) = Ok (key_of (fl_source e))" "key_of (fl_source e) \<in> key_of ` ti_address ` set is"
    and tgt: "\<forall>t. fl_target e = Some t \<longrightarrow> address_key t = Ok (key_of t)"
    by (auto simp: edge_anchored_def)
  with index obtain n where n: "bm_get index (key_of (fl_source e)) = Some n" "unat n < length is"
      "key_of (ti_address (is ! unat n)) = key_of (fl_source e)"
    unfolding index_ok_def by (metis not_None_eq)
  let ?t = "Option.bind (fl_target e) (\<lambda>t. bm_get index (key_of t))"
  have target: "target_node_of index (fl_target e) = Ok ?t" using tgt by (simp add: target_node_of_def split: option.split)
  let ?e = "\<lparr>ed_source_node = n, ed_target_node = ?t, ed_evidence = e\<rparr>"
  from st have "linked is (fs_edges st) [] (fs_nodes st)" by (simp add: flow_ok_def)
  from push_edge_linked [OF this, of ?e] n(2) obtain nodes' where
    push: "push_edge n (word_of_nat (length (fs_edges st))) (fs_nodes st) = Ok nodes'"
      "linked is (fs_edges st @ [?e]) [] nodes'" by auto
  have "add_flow index st e = Ok (st\<lparr>fs_edges := fs_edges st @ [?e], fs_nodes := nodes'\<rparr>)"
    using False src n target push by (simp add: add_flow_def Let_def)
  moreover have "flow_ok is index targets (past @ [e]) (st\<lparr>fs_edges := fs_edges st @ [?e], fs_nodes := nodes'\<rparr>)"
    using st False push(2) n flow_only_keep [of targets past _ e] by (fastforce simp: flow_ok_def edge_ok_def)
  ultimately show ?thesis by blast
qed

lemma fold_snoc_invariant:
  assumes "\<And>past s x. P past s \<Longrightarrow> x \<in> set xs \<Longrightarrow> \<exists>s'. f s x = Ok s' \<and> P (past @ [x]) s'" and "P past s"
  shows "\<exists>s'. fold_res f s xs = Ok s' \<and> P (past @ xs) s'"
  using assms
proof (induction xs arbitrary: past s)
  case (Cons x xs)
  from Cons.prems(1) [OF Cons.prems(2), of x] obtain t where t: "f s x = Ok t" "P (past @ [x]) t" by auto
  from Cons.IH [OF Cons.prems(1) t(2)] t(1) show ?case by auto
qed simp

lemma add_call_ok:
  assumes "index_ok is index" and "keyed (ct_call_site c)" and "key_of (ct_call_site c) \<in> key_of ` ti_address ` set is"
    and "linked is es (snd st) (fst st) \<and> map ca_evidence (snd st) = past \<and> (\<forall>c \<in> set (snd st). call_ok is c)"
  shows "\<exists>st'. add_call index st c = Ok st' \<and>
    (linked is es (snd st') (fst st') \<and> map ca_evidence (snd st') = past @ [c] \<and> (\<forall>c \<in> set (snd st'). call_ok is c))"
proof -
  obtain nodes calls where s: "st = (nodes, calls)" by force
  from assms(1,3) obtain n where n: "bm_get index (key_of (ct_call_site c)) = Some n" "unat n < length is"
      "key_of (ti_address (is ! unat n)) = key_of (ct_call_site c)"
    unfolding index_ok_def by (metis not_None_eq)
  let ?c = "\<lparr>ca_source_node = n, ca_evidence = c\<rparr>"
  from push_call_linked [of "is" es calls nodes ?c] assms(4) n(2) s obtain nodes' where
    "push_call n (word_of_nat (length calls)) nodes = Ok nodes'" "linked is es (calls @ [?c]) nodes'" by auto
  with assms(2,4) n s show ?thesis by (simp add: add_call_def keyed_def call_ok_def)
qed

lemma add_calls_ok:
  assumes index: "index_ok is index" and linked: "linked is es [] nodes"
    and ev: "\<And>c. c \<in> set ev \<Longrightarrow> keyed (ct_call_site c) \<and> key_of (ct_call_site c) \<in> key_of ` ti_address ` set is"
  shows "\<exists>nodes' calls. fold_res (add_call index) (nodes, []) ev = Ok (nodes', calls) \<and>
    linked is es calls nodes' \<and> map ca_evidence calls = ev \<and> (\<forall>c \<in> set calls. call_ok is c)"
proof -
  define good where "good past st \<longleftrightarrow> linked is es (snd st) (fst st) \<and> map ca_evidence (snd st) = past \<and>
      (\<forall>c \<in> set (snd st). call_ok is c)" for past st
  have "\<exists>st'. add_call index st c = Ok st' \<and> good (past @ [c]) st'" if "good past st" "c \<in> set ev" for past st c
    using add_call_ok [OF index, of c es st past] ev [OF that(2)] that(1) unfolding good_def by blast
  moreover have "good [] (nodes, [])" using linked by (simp add: good_def)
  ultimately have "\<exists>st'. fold_res (add_call index) (nodes, []) ev = Ok st' \<and> good ([] @ ev) st'"
    by (rule fold_snoc_invariant)
  then show ?thesis unfolding good_def by force
qed

section \<open>Unresolved control\<close>

lemma any_index_Ok:
  assumes "\<forall>i \<in> set is. unat i < length xs"
  shows "any_index p xs is = Ok (\<exists>i \<in> set is. p (xs ! unat i))"
  using assms by (induction "is") auto

lemma outgoing_set:
  assumes "length xs < 2 ^ 32"
  shows "j \<in> set (outgoing src xs i) \<longleftrightarrow> unat j < length xs \<and> unat (src (xs ! unat j)) = i"
proof -
  have "unat (word_of_nat k :: u32) = k" if "k < length xs" for k
    using that assms by (simp add: unsigned_of_nat take_bit_nat_eq_self)
  moreover have "word_of_nat (unat j) = j" by simp
  ultimately show ?thesis unfolding outgoing_def by (fastforce simp: image_iff)
qed

definition unresolved ::
  "pcode_state_instruction \<Rightarrow> pcode_cfg_edge list \<Rightarrow> pcode_cfg_call list \<Rightarrow> nat \<Rightarrow> bool" where
  \<comment> \<open>an unknown target leaves node \<open>n\<close>, or its own operations ask for evidence that is missing\<close>
  "unresolved i edges calls n =
     ((\<exists>e \<in> set edges. unat (ed_source_node e) = n \<and> fl_target (ed_evidence e) = None) \<or>
      (\<exists>c \<in> set calls. unat (ca_source_node c) = n \<and> ct_target (ca_evidence c) = None) \<or>
      (has_opcode (\<lambda>opc. 4 \<le> opc \<and> opc \<le> 6) i \<and> (\<forall>e \<in> set edges. unat (ed_source_node e) \<noteq> n)) \<or>
      (has_opcode (\<lambda>opc. opc = 7 \<or> opc = 8) i \<and> (\<forall>c \<in> set calls. unat (ca_source_node c) \<noteq> n)) \<or>
      ((\<forall>e \<in> set edges. unat (ed_source_node e) \<noteq> n) \<and> (\<forall>c \<in> set calls. unat (ca_source_node c) \<noteq> n) \<and>
       \<not> has_opcode (\<lambda>opc. opc = 10) i))"

lemma outgoing_any:
  assumes "length xs < 2 ^ 32"
  shows "any_index p xs (outgoing src xs i) = Ok (\<exists>x \<in> set xs. unat (src x) = i \<and> p x)"
    and "outgoing src xs i = [] \<longleftrightarrow> (\<forall>x \<in> set xs. unat (src x) \<noteq> i)"
proof -
  have "(\<exists>j \<in> set (outgoing src xs i). p (xs ! unat j)) \<longleftrightarrow> (\<exists>x \<in> set xs. unat (src x) = i \<and> p x)" for p
  proof
    assume "\<exists>j \<in> set (outgoing src xs i). p (xs ! unat j)"
    then show "\<exists>x \<in> set xs. unat (src x) = i \<and> p x" by (auto simp: outgoing_set [OF assms])
  next
    assume "\<exists>x \<in> set xs. unat (src x) = i \<and> p x"
    then obtain k where "k < length xs" "unat (src (xs ! k)) = i" "p (xs ! k)" by (auto simp: in_set_conv_nth)
    then show "\<exists>j \<in> set (outgoing src xs i). p (xs ! unat j)"
      using assms by (intro bexI [of _ "word_of_nat k"]) (auto simp: outgoing_set unsigned_of_nat take_bit_nat_eq_self)
  qed
  then show "any_index p xs (outgoing src xs i) = Ok (\<exists>x \<in> set xs. unat (src x) = i \<and> p x)"
    by (subst any_index_Ok) (auto simp: outgoing_set [OF assms])
  have "outgoing src xs i = [] \<longleftrightarrow> filter (\<lambda>j. unat (src (xs ! j)) = i) [0..<length xs] = []"
    by (simp add: outgoing_def)
  also have "\<dots> \<longleftrightarrow> (\<forall>x \<in> set xs. unat (src x) \<noteq> i)" by (auto simp: filter_empty_conv all_set_conv_all_nth)
  finally show "outgoing src xs i = [] \<longleftrightarrow> (\<forall>x \<in> set xs. unat (src x) \<noteq> i)" .
qed

definition final_node ::
  "pcode_state_instruction list \<Rightarrow> pcode_cfg_edge list \<Rightarrow> pcode_cfg_call list \<Rightarrow> nat \<Rightarrow> pcode_cfg_node" where
  "final_node is edges calls n =
     (linked_node is edges calls n)\<lparr>cn_has_unresolved_control := unresolved (is ! n) edges calls n\<rparr>"

lemma resolve_node_ok:
  assumes "n < length is" and "length is \<le> MAX_INSTRUCTIONS" and "length edges < 2 ^ 32" and "length calls < 2 ^ 32"
  shows "resolve_node is edges calls (linked_node is edges calls n) = Ok (final_node is edges calls n)"
proof -
  have "unat (word_of_nat n :: u32) = n"
    using assms(1,2) by (simp add: unsigned_of_nat take_bit_nat_eq_self MAX_INSTRUCTIONS_def)
  with assms(1) have i: "index_rs is (unat (cn_instruction_index (linked_node is edges calls n))) = Ok (is ! n)"
    by (simp add: linked_node_def initial_node_def)
  have out: "cn_outgoing_edges (linked_node is edges calls n) = outgoing ed_source_node edges n"
    "cn_outgoing_calls (linked_node is edges calls n) = outgoing ca_source_node calls n"
    by (simp_all add: linked_node_def)
  show ?thesis
    unfolding resolve_node_def i out outgoing_any(1) [OF assms(3)] outgoing_any(1) [OF assms(4)] rbind_simps
      outgoing_any(2) [OF assms(3)] outgoing_any(2) [OF assms(4)] final_node_def unresolved_def by simp
qed

section \<open>The graph of a validated snapshot\<close>

definition cfg_wf :: "ghidra_snapshot \<Rightarrow> pcode_cfg_function_ir \<Rightarrow> bool" where
  "cfg_wf snap cfg =
     (let is = st_instructions (cf_state cfg); f = gs_selected_function snap in
      map ti_address is = map in_address (sf_instructions f) \<and>
      cf_nodes cfg = map (final_node is (cf_edges cfg) (cf_calls cfg)) [0..<length is] \<and>
      map ed_evidence (cf_edges cfg) = filter (\<lambda>e. fl_kind e \<noteq> Call) (sf_flow_edges f) \<and>
      (\<exists>index. index_ok is index \<and> (\<forall>e \<in> set (cf_edges cfg). edge_ok is index e)) \<and>
      (\<exists>new. map ca_evidence (cf_calls cfg) = sf_call_targets f @ new \<and> flow_only (sf_call_targets f) (sf_flow_edges f) new) \<and>
      (\<forall>c \<in> set (cf_calls cfg). call_ok is c))"

lemma validated_evidence_bounds:
  assumes "validate_ghidra_snapshot s d = Ok ()"
  shows "length (sf_flow_edges (gs_selected_function s)) \<le> MAX_OPERATIONS"
    and "length (sf_call_targets (gs_selected_function s)) \<le> MAX_OPERATIONS"
  using assms by (auto simp: validate_ghidra_snapshot_def validate_evidence_def Let_def not_less split: if_splits)

lemma cfg_wf_bounds:
  assumes "validate_ghidra_snapshot snap (gs_binary_sha256 snap) = Ok ()" and "cfg_wf snap cfg"
  shows "length (cf_edges cfg) < 2 ^ 32" and "length (cf_calls cfg) < 2 ^ 32"
proof -
  note bounds = validated_evidence_bounds [OF assms(1)]
  from assms(2) have edges: "map ed_evidence (cf_edges cfg) =
      filter (\<lambda>e. fl_kind e \<noteq> Call) (sf_flow_edges (gs_selected_function snap))"
    and "\<exists>new. map ca_evidence (cf_calls cfg) = sf_call_targets (gs_selected_function snap) @ new \<and>
      flow_only (sf_call_targets (gs_selected_function snap)) (sf_flow_edges (gs_selected_function snap)) new"
    unfolding cfg_wf_def Let_def by blast+
  then obtain new where new: "map ca_evidence (cf_calls cfg) = sf_call_targets (gs_selected_function snap) @ new"
      "length new \<le> length (sf_flow_edges (gs_selected_function snap))" using flow_only_bounds(1) by blast
  have "length (cf_edges cfg) = length (filter (\<lambda>e. fl_kind e \<noteq> Call) (sf_flow_edges (gs_selected_function snap)))"
    unfolding edges [symmetric] by simp
  also have "\<dots> \<le> MAX_OPERATIONS" by (rule order.trans [OF length_filter_le bounds(1)])
  finally show "length (cf_edges cfg) < 2 ^ 32" by (simp add: MAX_OPERATIONS_def)
  have "length (cf_calls cfg) = length (sf_call_targets (gs_selected_function snap)) + length new"
    unfolding length_append [symmetric] new(1) [symmetric] by simp
  with new(2) bounds show "length (cf_calls cfg) < 2 ^ 32" by (simp add: MAX_OPERATIONS_def)
qed

lemma cfg_of_validated:
  assumes valid: "validate_ghidra_snapshot snap (gs_binary_sha256 snap) = Ok ()"
  shows "\<exists>cfg. pcode_cfg_ir snap = Ok cfg \<and> cfg_wf snap cfg"
proof -
  let ?sel = "gs_selected_function snap"
  from pcode_function_ir_total [OF valid] obtain f where f: "Pcode_Validate.pcode_function_ir snap = Ok f" by blast
  define instrs where "instrs = st_instructions (lower_state_raw f)"
  have is_def: "map ti_address instrs = map in_address (sf_instructions ?sel)"
    by (simp add: instrs_def lower_state_raw_def lower_state_instructions lower_semantics_instructions pcode_function_ir_Ok(1) [OF f])
  then have addresses: "ti_address ` set instrs = in_address ` set (sf_instructions ?sel)" by (metis set_map)
  note wf = validated_selection_wf [OF valid]
  have len: "length instrs \<le> MAX_INSTRUCTIONS"
    using wf is_def by (metis (no_types, lifting) length_map selection_wf_def)
  have "\<forall>i \<in> set instrs. address_key (ti_address i) = Ok (key_of (ti_address i))"
  proof
    fix i assume "i \<in> set instrs"
    with addresses obtain j where "j \<in> set (sf_instructions ?sel)" "ti_address i = in_address j" by blast
    with wf show "address_key (ti_address i) = Ok (key_of (ti_address i))"
      by (auto simp: selection_wf_def Let_def instruction_accepted_def is_ok_iff key_of_Ok)
  qed
  from add_nodes_ok [OF this len] obtain index where
    nodes: "fold_res add_node ([], []) (List.enumerate 0 instrs) =
      Ok (index, map (\<lambda>p. initial_node (fst p) (snd p)) (List.enumerate 0 instrs))" and index: "index_ok instrs index"
    by blast
  have keys: "(key_of \<circ> in_address) ` set (sf_instructions ?sel) = key_of ` ti_address ` set instrs"
    by (simp add: addresses image_comp)
  have flows: "edge_anchored (key_of ` ti_address ` set instrs) (fl_source e) (fl_target e)" if "e \<in> set (sf_flow_edges ?sel)" for e
    using wf that keys by (simp add: selection_wf_def Let_def)
  have calls: "edge_anchored (key_of ` ti_address ` set instrs) (ct_call_site c) (ct_target c)" if "c \<in> set (sf_call_targets ?sel)" for c
    using wf that keys by (simp add: selection_wf_def Let_def)
  have "list_all2 (\<lambda>c k. call_key c = Ok k) (sf_call_targets ?sel) (map call_key_of (sf_call_targets ?sel))"
    unfolding list.rel_map
  proof (rule list.rel_refl_strong)
    fix c assume "c \<in> set (sf_call_targets ?sel)"
    from calls [OF this] show "call_key c = Ok (call_key_of c)"
      by (intro call_key_Ok) (simp add: edge_anchored_def evidence_keyed_def keyed_def)
  qed
  then have keys_ok: "collect_res call_key (sf_call_targets ?sel) = Ok (map call_key_of (sf_call_targets ?sel))"
    by (simp add: collect_res_Ok)
  define st0 where "st0 = \<lparr>fs_nodes = map (\<lambda>p. initial_node (fst p) (snd p)) (List.enumerate 0 instrs), fs_edges = [],
      fs_call_evidence = sf_call_targets ?sel, fs_call_keys = set (map call_key_of (sf_call_targets ?sel))\<rparr>"
  have "flow_ok instrs index (sf_call_targets ?sel) [] st0"
    by (simp add: flow_ok_def flow_only_def st0_def linked_initial)
  from fold_snoc_invariant [of "flow_ok instrs index (sf_call_targets ?sel)" "sf_flow_edges ?sel" "add_flow index", OF _ this]
  obtain st where st: "fold_res (add_flow index) st0 (sf_flow_edges ?sel) = Ok st"
    "flow_ok instrs index (sf_call_targets ?sel) (sf_flow_edges ?sel) st"
    using add_flow_ok [OF index flows] by auto
  let ?ev = "fs_call_evidence st"
  from st(2) obtain new where evidence: "?ev = sf_call_targets ?sel @ new" "flow_only (sf_call_targets ?sel) (sf_flow_edges ?sel) new"
    unfolding flow_ok_def by blast
  note new = evidence(1) flow_only_bounds [OF evidence(2)]
  have ev: "keyed (ct_call_site c) \<and> key_of (ct_call_site c) \<in> key_of ` ti_address ` set instrs" if "c \<in> set ?ev" for c
    using that new flows calls by (fastforce simp: keyed_def edge_anchored_def call_of_flow_def)
  have "linked instrs (fs_edges st) [] (fs_nodes st)" using st(2) by (simp add: flow_ok_def)
  from add_calls_ok [OF index this ev] obtain nodes' cs where
    cs: "fold_res (add_call index) (fs_nodes st, []) ?ev = Ok (nodes', cs)" "linked instrs (fs_edges st) cs nodes'"
      "map ca_evidence cs = ?ev" "\<forall>c \<in> set cs. call_ok instrs c" by blast
  have bounds: "length (fs_edges st) < 2 ^ 32" "length cs < 2 ^ 32"
  proof -
    have edges: "map ed_evidence (fs_edges st) = filter (\<lambda>e. fl_kind e \<noteq> Call) (sf_flow_edges ?sel)"
      using st(2) unfolding flow_ok_def by blast
    have "length (fs_edges st) = length (filter (\<lambda>e. fl_kind e \<noteq> Call) (sf_flow_edges ?sel))"
      unfolding edges [symmetric] by (rule length_map [symmetric])
    also have "\<dots> \<le> MAX_OPERATIONS" by (rule order.trans [OF length_filter_le validated_evidence_bounds(1) [OF valid]])
    finally show "length (fs_edges st) < 2 ^ 32" by (simp add: MAX_OPERATIONS_def)
    have "length cs = length ?ev" unfolding cs(3) [symmetric] by (rule length_map [symmetric])
    with new(1,2) validated_evidence_bounds [OF valid] show "length cs < 2 ^ 32" by (simp add: MAX_OPERATIONS_def)
  qed
  from cs(2) have "nodes' = map (linked_node instrs (fs_edges st) cs) [0..<length instrs]" by (simp add: linked_def)
  then have resolved: "collect_res (resolve_node instrs (fs_edges st) cs) nodes' =
      Ok (map (final_node instrs (fs_edges st) cs) [0..<length instrs])"
    using resolve_node_ok [OF _ len bounds]
    by (auto simp: collect_res_Ok list.rel_map intro: list.rel_refl_strong)
  have "pcode_cfg_ir snap = Ok \<lparr>cf_schema_version = PCODE_CFG_IR_VERSION, cf_binary_sha256 = gs_binary_sha256 snap,
      cf_state = lower_state_raw f, cf_nodes = map (final_node instrs (fs_edges st) cs) [0..<length instrs],
      cf_edges = fs_edges st, cf_calls = cs,
      cf_flow_evidence_present = (sf_flow_edges ?sel \<noteq> [] \<or> sf_call_targets ?sel \<noteq> []), cf_cfg_completeness = Incomplete\<rparr>"
    using valid f nodes keys_ok st(1) cs(1) resolved
    by (simp add: pcode_cfg_ir_def Let_def instrs_def [symmetric] st0_def)
  moreover have "cfg_wf snap \<lparr>cf_schema_version = PCODE_CFG_IR_VERSION, cf_binary_sha256 = gs_binary_sha256 snap,
      cf_state = lower_state_raw f, cf_nodes = map (final_node instrs (fs_edges st) cs) [0..<length instrs],
      cf_edges = fs_edges st, cf_calls = cs,
      cf_flow_evidence_present = (sf_flow_edges ?sel \<noteq> [] \<or> sf_call_targets ?sel \<noteq> []), cf_cfg_completeness = Incomplete\<rparr>"
    using st(2) cs(3,4) is_def index by (auto simp: cfg_wf_def instrs_def [symmetric] flow_ok_def)
  ultimately show ?thesis by blast
qed

end
