(* ===== verification/Pcode_Slice.thy ===== *)
theory Pcode_Slice
  imports Pcode_CfgSpec
begin

text \<open>
  \<^verbatim>\<open>hydir-ir/src/pcode/slice.rs\<close>: the backward value slice from one operation along the unique
  analyzed fallthrough chain. The loops that leave early return \<open>Inr\<close> of the finished slice; the outer
  loop is \<^const>\<open>run_loop\<close>, so that its termination is a theorem. An operation after which the slice
  cannot go on leaves boundaries for the values still pending; every list has a fixed budget.
\<close>

section \<open>Data\<close>

definition PCODE_SLICE_VERSION :: u32 where "PCODE_SLICE_VERSION = 1"
definition MAX_PCODE_SLICE_OPERATIONS :: usize where "MAX_PCODE_SLICE_OPERATIONS = 512"
definition MAX_PCODE_SLICE_INSTRUCTIONS :: usize where "MAX_PCODE_SLICE_INSTRUCTIONS = 64"
definition MAX_PCODE_SLICE_PENDING_VALUES :: usize where "MAX_PCODE_SLICE_PENDING_VALUES = 64"
definition MAX_PCODE_SLICE_BOUNDARIES :: usize where "MAX_PCODE_SLICE_BOUNDARIES = 1024"

lemmas slice_limits =
  MAX_PCODE_SLICE_OPERATIONS_def MAX_PCODE_SLICE_INSTRUCTIONS_def MAX_PCODE_SLICE_PENDING_VALUES_def
  MAX_PCODE_SLICE_BOUNDARIES_def

record pcode_slice_target =
  tg_instruction_index :: u32
  tg_operation_index :: u32
  tg_input_index :: "u32 option"

record pcode_slice_site =
  si_instruction_index :: u32
  si_operation_index :: u32

datatype pcode_slice_boundary_kind =
  SbConstant | SbEntryValue | SbControlFlow | SbMemoryRead | SbOpaqueEffect | SbPartialOverlap | SbExternalSpace
  | SbTemporaryLifetime | SbBudget

record pcode_slice_boundary =
  bd_kind :: pcode_slice_boundary_kind
  bd_varnode :: "pcode_varnode option"
  bd_site :: "pcode_slice_site option"

record pcode_slice_step =
  sp_site :: pcode_slice_site
  sp_source :: pcode_operation
  sp_effect :: pcode_effect

record pcode_backward_slice =
  bs_schema_version :: u32
  bs_binary_sha256 :: string
  bs_function_entry :: pcode_address
  bs_function_name :: string
  bs_target :: pcode_slice_target
  bs_steps :: "pcode_slice_step list"
  bs_boundaries :: "pcode_slice_boundary list"
  bs_operations_examined :: u32
  bs_instructions_examined :: u32
  bs_truncated :: bool
  bs_path_proven :: bool

section \<open>Boundaries\<close>

definition push_boundary ::
  "pcode_slice_boundary_kind \<Rightarrow> pcode_varnode option \<Rightarrow> pcode_slice_site option \<Rightarrow> pcode_backward_slice \<Rightarrow>
   pcode_backward_slice" where
  "push_boundary kind node site r =
     r\<lparr>bs_boundaries := bs_boundaries r @ [\<lparr>bd_kind = kind, bd_varnode = node, bd_site = site\<rparr>]\<rparr>"

definition record_boundary ::
  "pcode_slice_boundary_kind \<Rightarrow> pcode_varnode option \<Rightarrow> pcode_slice_site option \<Rightarrow> pcode_backward_slice \<Rightarrow>
   pcode_backward_slice" where
  "record_boundary kind node site r =
     (if bs_truncated r then r
      else if length (bs_boundaries r) \<ge> MAX_PCODE_SLICE_BOUNDARIES - 1
        then push_boundary SbBudget node site (r\<lparr>bs_truncated := True\<rparr>)
      else push_boundary kind node site r)"

definition budget_boundary ::
  "pcode_varnode list \<Rightarrow> pcode_slice_site option \<Rightarrow> pcode_backward_slice \<Rightarrow> pcode_backward_slice" where
  "budget_boundary pending site r =
     (let r = r\<lparr>bs_truncated := True\<rparr> in
      if length (bs_boundaries r) < MAX_PCODE_SLICE_BOUNDARIES
      then push_boundary SbBudget (get_rs pending 0) site r else r)"

definition boundaries_for ::
  "pcode_slice_boundary_kind \<Rightarrow> pcode_varnode list \<Rightarrow> pcode_slice_site option \<Rightarrow> pcode_backward_slice \<Rightarrow>
   pcode_backward_slice" where
  \<comment> \<open>one boundary for each of the values, in order\<close>
  "boundaries_for kind nodes site = fold (\<lambda>v. record_boundary kind (Some v) site) nodes"

definition control_boundary ::
  "pcode_varnode list \<Rightarrow> pcode_slice_site option \<Rightarrow> pcode_backward_slice \<Rightarrow> pcode_backward_slice" where
  "control_boundary pending site = boundaries_for SbControlFlow pending site"

definition push_step :: "pcode_slice_site \<Rightarrow> pcode_operation \<Rightarrow> pcode_effect \<Rightarrow> pcode_backward_slice \<Rightarrow> pcode_backward_slice" where
  "push_step site source effect r = r\<lparr>bs_steps := bs_steps r @ [\<lparr>sp_site = site, sp_source = source, sp_effect = effect\<rparr>]\<rparr>"

definition opaque_boundary ::
  "pcode_varnode list \<Rightarrow> pcode_slice_site \<Rightarrow> pcode_state_operation \<Rightarrow> pcode_effect \<Rightarrow> pcode_backward_slice \<Rightarrow>
   pcode_backward_slice" where
  "opaque_boundary pending site operation effect r =
     boundaries_for SbOpaqueEffect pending (Some site) (push_step site (to_source operation) effect r)"

section \<open>Values\<close>

definition overlaps :: "pcode_varnode \<Rightarrow> pcode_varnode \<Rightarrow> (bool, string) result" where
  "overlaps a b =
     (if vn_space a \<noteq> vn_space b then Ok False
      else
        rbind (hex_u64 (vn_offset a)) (\<lambda>a_start.
        rbind (hex_u64 (vn_offset b)) (\<lambda>b_start.
        rbind (ok_or ''P-code varnode range overflows'' (checked_add a_start (ucast (vn_size a)))) (\<lambda>a_end.
        rbind (ok_or ''P-code varnode range overflows'' (checked_add b_start (ucast (vn_size b)))) (\<lambda>b_end.
        Ok (a_start < b_end \<and> b_start < a_end))))))"

type_synonym slice_state = "pcode_backward_slice \<times> pcode_varnode list"

definition add_input :: "pcode_slice_site \<Rightarrow> pcode_varnode \<Rightarrow> slice_state \<Rightarrow> slice_state" where
  "add_input site input st =
     (let (r, pending) = st in
      if vn_space input = ''const'' then (record_boundary SbConstant (Some input) (Some site) r, pending)
      else if \<not> scalar_space (vn_space input) then (record_boundary SbExternalSpace (Some input) (Some site) r, pending)
      else if List.member pending input then st
      else if length pending \<ge> MAX_PCODE_SLICE_PENDING_VALUES then (budget_boundary pending (Some site) r, pending)
      else (r, pending @ [input]))"

fun add_inputs :: "pcode_slice_site \<Rightarrow> pcode_varnode list \<Rightarrow> slice_state \<Rightarrow> slice_state" where
  "add_inputs site [] st = st"
| "add_inputs site (input # rest) st =
     (let st' = add_input site input st in if bs_truncated (fst st') then st' else add_inputs site rest st')"

definition matched_values :: "pcode_varnode \<Rightarrow> pcode_varnode list \<Rightarrow> ((nat \<times> bool) list, string) result" where
  \<comment> \<open>the positions of the pending values the output overlaps, each with whether it is the same varnode\<close>
  "matched_values output pending =
     fold_res (\<lambda>found (index, v). map_ok (\<lambda>hit. if hit then found @ [(index, output = v)] else found) (overlaps output v))
       [] (List.enumerate 0 pending)"

definition remove_at :: "nat \<Rightarrow> 'a list \<Rightarrow> ('a \<times> 'a list, 'e) result" where
  \<comment> \<open>\<^verbatim>\<open>Vec::remove\<close>\<close>
  "remove_at index xs = map_ok (\<lambda>x. (x, take index xs @ drop (Suc index) xs)) (index_rs xs index)"

definition settle ::
  "pcode_slice_site \<Rightarrow> pcode_operation \<Rightarrow> pcode_effect \<Rightarrow> slice_state \<times> pcode_varnode list \<Rightarrow> nat \<times> bool \<Rightarrow>
   (slice_state \<times> pcode_varnode list, string) result" where
  \<comment> \<open>one matched value leaves the pending list: as a boundary, or for the inputs of the operation\<close>
  "settle site source effect st m =
     (let ((r, pending), new_inputs) = st; (pending_index, exact) = m in
      rbind (remove_at pending_index pending) (\<lambda>(v, pending').
      if \<not> exact then Ok ((record_boundary SbPartialOverlap (Some v) (Some site) r, pending'), new_inputs)
      else case effect of
        Opaque _ _ may_read_memory _ _ _ \<Rightarrow>
          Ok ((record_boundary (if may_read_memory then SbMemoryRead else SbOpaqueEffect) (Some v) (Some site) r, pending'),
            new_inputs)
      | Assign _ _ \<Rightarrow> Ok ((r, pending'), new_inputs @ op_inputs source)))"

section \<open>One instruction, backwards\<close>

definition defines_value ::
  "pcode_slice_site \<Rightarrow> pcode_operation \<Rightarrow> pcode_effect \<Rightarrow> (nat \<times> bool) list \<Rightarrow> slice_state \<Rightarrow>
   (slice_state + pcode_backward_slice, string) result" where
  "defines_value site source effect matched st =
     (let (r, pending) = st in
      rbind (fold_res (settle site source effect) ((push_step site source effect r, pending), []) (rev matched))
        (\<lambda>(st', new_inputs).
      let (r', pending') = add_inputs site new_inputs st' in
      if pending' = [] \<or> bs_truncated r' then Ok (Inr r') else Ok (Inl (r', pending'))))"

definition stale_effect :: "pcode_operation \<Rightarrow> pcode_effect" where
  "stale_effect source =
     Opaque UnknownEffect ''state effect disagrees with raw P-code'' True True True (op_output source \<noteq> None)"

definition unsliceable :: "pcode_effect \<Rightarrow> bool" where
  "unsliceable effect =
     (case effect of
        Opaque class _ _ _ _ _ \<Rightarrow> class = ControlTransfer \<or> class = UserOperation \<or> class = UnknownEffect
      | Assign _ _ \<Rightarrow> False)"

definition slice_operation ::
  "pcode_state_instruction \<Rightarrow> u32 \<Rightarrow> nat \<Rightarrow> slice_state \<Rightarrow> (slice_state + pcode_backward_slice, string) result" where
  "slice_operation instruction current index st =
     (let (r, pending) = st; site = \<lparr>si_instruction_index = current, si_operation_index = word_of_nat index\<rparr> in
      if unat (bs_operations_examined r) \<ge> MAX_PCODE_SLICE_OPERATIONS then Ok (Inr (budget_boundary pending (Some site) r))
      else
        let r = r\<lparr>bs_operations_examined := bs_operations_examined r + 1\<rparr> in
        rbind (index_rs (ti_operations instruction) index) (\<lambda>operation.
        let source = to_source operation; effect = lower_operation source in
        if to_effect operation \<noteq> effect
          then Ok (Inr (opaque_boundary pending site operation (stale_effect source) r))
        else if to_may_clobber_unlisted_state operation \<or> unsliceable effect
          then Ok (Inr (opaque_boundary pending site operation effect r))
        else
          case op_output source of
            None \<Rightarrow> Ok (Inl (r, pending))
          | Some output \<Rightarrow>
              rbind (matched_values output pending) (\<lambda>matched.
              if matched = [] then Ok (Inl (r, pending)) else defines_value site source effect matched (r, pending))))"

fun slice_instruction ::
  "pcode_state_instruction \<Rightarrow> u32 \<Rightarrow> nat \<Rightarrow> slice_state \<Rightarrow> (slice_state + pcode_backward_slice, string) result" where
  \<comment> \<open>\<^verbatim>\<open>for index in (0..operation_end).rev()\<close>\<close>
  "slice_instruction instruction current 0 st = Ok (Inl st)"
| "slice_instruction instruction current (Suc index) st =
     rbind (slice_operation instruction current index st) (\<lambda>r.
       case r of
         Inl st' \<Rightarrow> slice_instruction instruction current index st'
       | Inr finished \<Rightarrow> Ok (Inr finished))"

fun drop_temporaries :: "nat \<Rightarrow> slice_state \<Rightarrow> (slice_state, string) result" where
  \<comment> \<open>\<^verbatim>\<open>for index in (0..pending.len()).rev()\<close>: unique-space values do not outlive the instruction\<close>
  "drop_temporaries 0 st = Ok st"
| "drop_temporaries (Suc index) st =
     (let (r, pending) = st in
      rbind (index_rs pending index) (\<lambda>v.
      if vn_space v = ''unique'' then
        rbind (remove_at index pending) (\<lambda>(v, pending').
        drop_temporaries index (record_boundary SbTemporaryLifetime (Some v) None r, pending'))
      else drop_temporaries index st))"

section \<open>Along the fallthrough chain\<close>

definition unique_fallthrough_predecessor :: "pcode_cfg_function_ir \<Rightarrow> u32 \<Rightarrow> u32 option" where
  "unique_fallthrough_predecessor cfg current =
     (if \<not> cf_flow_evidence_present cfg \<or> current = 0 then None
      else case filter (\<lambda>(_, e). ed_target_node e = Some current) (List.enumerate 0 (cf_edges cfg)) of
        [(edge_index, e)] \<Rightarrow>
          if fl_kind (ed_evidence e) \<noteq> Fallthrough \<or> fl_conditional (ed_evidence e) \<or> fl_computed (ed_evidence e) then None
          else (case get_rs (cf_nodes cfg) (unat (ed_source_node e)) of
              None \<Rightarrow> None
            | Some p \<Rightarrow>
                if cn_instruction_index p \<noteq> ed_source_node e \<or> cn_has_unresolved_control p \<or>
                   cn_may_have_opaque_control_effect p \<or> cn_outgoing_calls p \<noteq> [] \<or>
                   length (cn_outgoing_edges p) \<noteq> 1 \<or> unat (cn_outgoing_edges p ! 0) \<noteq> edge_index
                then None else Some (ed_source_node e))
      | _ \<Rightarrow> None)"

record slice_run =
  \<comment> \<open>the local variables of \<^verbatim>\<open>slice_cfg\<close>'s loop\<close>
  sr_result :: pcode_backward_slice
  sr_pending :: "pcode_varnode list"
  sr_current :: u32
  sr_operation_end :: usize
  sr_visited :: "u32 set"

definition at_entry :: "pcode_cfg_function_ir \<Rightarrow> u32 \<Rightarrow> (bool, string) result" where
  "at_entry cfg current =
     (if current = 0 \<and> cf_flow_evidence_present cfg
      then map_ok (\<lambda>first. ti_address first = st_entry (cf_state cfg) \<and>
                \<not> list_ex (\<lambda>e. ed_target_node e = Some current) (cf_edges cfg))
             (index_rs (st_instructions (cf_state cfg)) 0)
      else Ok False)"

definition chain_step ::
  "pcode_cfg_function_ir \<Rightarrow> slice_run \<Rightarrow> (slice_run + pcode_backward_slice, string) result" where
  \<comment> \<open>after the last operation of an instruction, with values still pending\<close>
  "chain_step cfg sr =
     (case unique_fallthrough_predecessor cfg (sr_current sr) of
        Some p \<Rightarrow>
          if p \<notin> sr_visited sr then
            map_ok (\<lambda>i. Inl (sr\<lparr>sr_current := p, sr_operation_end := length (ti_operations i)\<rparr>))
              (index_rs (st_instructions (cf_state cfg)) (unat p))
          else map_ok (\<lambda>entry. Inr ((if entry then boundaries_for SbEntryValue (sr_pending sr) None
                  else control_boundary (sr_pending sr) None) (sr_result sr))) (at_entry cfg (sr_current sr))
      | None \<Rightarrow> map_ok (\<lambda>entry. Inr ((if entry then boundaries_for SbEntryValue (sr_pending sr) None
                  else control_boundary (sr_pending sr) None) (sr_result sr))) (at_entry cfg (sr_current sr)))"

definition slice_step ::
  "pcode_cfg_function_ir \<Rightarrow> slice_run \<Rightarrow> (slice_run + pcode_backward_slice, string) result" where
  "slice_step cfg sr =
     (if unat (bs_instructions_examined (sr_result sr)) \<ge> MAX_PCODE_SLICE_INSTRUCTIONS
        then Ok (Inr (budget_boundary (sr_pending sr) None (sr_result sr)))
      else if sr_current sr \<in> sr_visited sr then Ok (Inr (control_boundary (sr_pending sr) None (sr_result sr)))
      else
        rbind (index_rs (st_instructions (cf_state cfg)) (unat (sr_current sr))) (\<lambda>instruction.
        let r = (sr_result sr)\<lparr>bs_instructions_examined := bs_instructions_examined (sr_result sr) + 1\<rparr> in
        rbind (slice_instruction instruction (sr_current sr) (sr_operation_end sr) (r, sr_pending sr)) (\<lambda>scanned.
        case scanned of
          Inr finished \<Rightarrow> Ok (Inr finished)
        | Inl (r, pending) \<Rightarrow>
            if pending = [] then Ok (Inr r)
            else
              rbind (drop_temporaries (length pending) (r, pending)) (\<lambda>(r, pending).
              if bs_truncated r \<or> pending = [] then Ok (Inr r)
              else chain_step cfg (sr\<lparr>sr_result := r, sr_pending := pending,
                     sr_visited := insert (sr_current sr) (sr_visited sr)\<rparr>)))))"

definition slice_start ::
  "pcode_cfg_function_ir \<Rightarrow> pcode_slice_target \<Rightarrow> (pcode_state_operation, string) result" where
  \<comment> \<open>the selected operation, with the checks before the slice begins\<close>
  "slice_start cfg target =
     rbind (ok_or ''P-code slice instruction index is out of range''
              (get_rs (st_instructions (cf_state cfg)) (unat (tg_instruction_index target)))) (\<lambda>instruction.
     rbind (ok_or ''P-code slice operation index is out of range''
              (get_rs (ti_operations instruction) (unat (tg_operation_index target)))) (\<lambda>operation.
     if (case tg_input_index target of None \<Rightarrow> False | Some k \<Rightarrow> unat k \<ge> length (op_inputs (to_source operation)))
       then Err ''P-code slice input index is out of range''
     else if length (cf_nodes cfg) \<noteq> length (st_instructions (cf_state cfg)) \<or>
         (case get_rs (cf_nodes cfg) (unat (tg_instruction_index target)) of
            None \<Rightarrow> True
          | Some n \<Rightarrow> cn_instruction_index n \<noteq> tg_instruction_index target \<or> cn_address n \<noteq> ti_address instruction)
       then Err ''P-code CFG nodes do not match state instructions''
     else Ok operation))"

definition empty_slice :: "pcode_cfg_function_ir \<Rightarrow> pcode_slice_target \<Rightarrow> pcode_state_operation \<Rightarrow> pcode_backward_slice" where
  "empty_slice cfg target operation =
     \<lparr>bs_schema_version = PCODE_SLICE_VERSION, bs_binary_sha256 = cf_binary_sha256 cfg,
      bs_function_entry = st_entry (cf_state cfg), bs_function_name = st_name (cf_state cfg), bs_target = target,
      bs_steps = [\<lparr>sp_site = \<lparr>si_instruction_index = tg_instruction_index target, si_operation_index = tg_operation_index target\<rparr>,
        sp_source = to_source operation, sp_effect = lower_operation (to_source operation)\<rparr>],
      bs_boundaries = [], bs_operations_examined = 0, bs_instructions_examined = 0, bs_truncated = False,
      bs_path_proven = False\<rparr>"

definition selected_inputs :: "pcode_slice_target \<Rightarrow> pcode_operation \<Rightarrow> pcode_varnode list" where
  "selected_inputs target source =
     (case tg_input_index target of Some k \<Rightarrow> [op_inputs source ! unat k] | None \<Rightarrow> op_inputs source)"

definition slice_cfg ::
  "pcode_cfg_function_ir \<Rightarrow> pcode_slice_target \<Rightarrow> (pcode_backward_slice, string) result option" where
  \<comment> \<open>\<^const>\<open>None\<close> would be a loop that never ends\<close>
  "slice_cfg cfg target =
     (case slice_start cfg target of
        Err e \<Rightarrow> Some (Err e)
      | Panic \<Rightarrow> Some Panic
      | Ok operation \<Rightarrow>
          let site = \<lparr>si_instruction_index = tg_instruction_index target, si_operation_index = tg_operation_index target\<rparr>;
              (r, pending) = add_inputs site (selected_inputs target (to_source operation))
                (empty_slice cfg target operation, [])
          in if pending = [] \<or> bs_truncated r then Some (Ok r)
             else run_loop (try_step (slice_step cfg))
               \<lparr>sr_result = r, sr_pending = pending, sr_current = tg_instruction_index target,
                sr_operation_end = unat (tg_operation_index target), sr_visited = {}\<rparr>)"

definition backward_pcode_slice ::
  "ghidra_snapshot \<Rightarrow> pcode_slice_target \<Rightarrow> (pcode_backward_slice, string) result option" where
  "backward_pcode_slice snap target =
     (case pcode_cfg_ir snap of
        Ok cfg \<Rightarrow> slice_cfg cfg target
      | Err e \<Rightarrow> Some (Err e)
      | Panic \<Rightarrow> Some Panic)"

end
