(* ===== verification/Pcode_SliceSpec.thy ===== *)
theory Pcode_SliceSpec
  imports Pcode_Slice
begin

text \<open>
  What a backward slice promises: it always returns without a panic, within its budgets; its steps
  are operations of the function, the selected one first; it is marked truncated exactly when a budget
  boundary is among its boundaries.
\<close>

section \<open>Boundaries\<close>

definition bounds_ok :: "pcode_backward_slice \<Rightarrow> bool" where
  "bounds_ok r =
     (length (bs_boundaries r) \<le> MAX_PCODE_SLICE_BOUNDARIES \<and>
      (\<not> bs_truncated r \<longrightarrow> length (bs_boundaries r) < MAX_PCODE_SLICE_BOUNDARIES) \<and>
      (bs_truncated r \<longleftrightarrow> (\<exists>b \<in> set (bs_boundaries r). bd_kind b = SbBudget)))"

definition extends :: "pcode_backward_slice \<Rightarrow> pcode_backward_slice \<Rightarrow> bool" where
  \<comment> \<open>only boundaries were added\<close>
  "extends r r' =
     (\<exists>new t. r' = r\<lparr>bs_boundaries := bs_boundaries r @ new, bs_truncated := t\<rparr> \<and> (bs_truncated r \<longrightarrow> t))"

lemma extends_refl [simp, intro]: "extends r r"
  by (auto simp: extends_def intro!: exI [of _ "[]"] exI [of _ "bs_truncated r"])

lemma extends_trans [trans]: "extends r r' \<Longrightarrow> extends r' r'' \<Longrightarrow> extends r r''"
  by (fastforce simp: extends_def)

lemma extends_fields:
  assumes "extends r r'"
  shows "bs_steps r' = bs_steps r" "bs_operations_examined r' = bs_operations_examined r"
    "bs_instructions_examined r' = bs_instructions_examined r" "bs_path_proven r' = bs_path_proven r"
    "bs_target r' = bs_target r"
  using assms by (auto simp: extends_def)

lemma extends_push:
  "extends r (push_boundary kind node site r)" "extends r (push_boundary kind node site (r\<lparr>bs_truncated := True\<rparr>))"
  "extends r (r\<lparr>bs_truncated := True\<rparr>)"
  by (cases r; auto simp: extends_def push_boundary_def)+

lemma record_boundary_ok:
  assumes "bounds_ok r" and "kind \<noteq> SbBudget"
  shows "bounds_ok (record_boundary kind node site r)" and "extends r (record_boundary kind node site r)"
proof -
  show "bounds_ok (record_boundary kind node site r)"
    using assms by (auto simp: bounds_ok_def record_boundary_def push_boundary_def slice_limits)
  show "extends r (record_boundary kind node site r)" by (simp add: record_boundary_def extends_push)
qed

lemma budget_boundary_ok:
  assumes "bounds_ok r"
  shows "bounds_ok (budget_boundary pending site r)" and "extends r (budget_boundary pending site r)"
    and "bs_truncated (budget_boundary pending site r)"
proof -
  show "bounds_ok (budget_boundary pending site r)" and "bs_truncated (budget_boundary pending site r)"
    using assms by (auto simp: bounds_ok_def budget_boundary_def push_boundary_def slice_limits Let_def)
  show "extends r (budget_boundary pending site r)" by (simp add: budget_boundary_def Let_def extends_push)
qed

lemma boundaries_for_ok:
  assumes "bounds_ok r" and "kind \<noteq> SbBudget"
  shows "bounds_ok (boundaries_for kind nodes site r) \<and> extends r (boundaries_for kind nodes site r)"
  using assms(1)
proof (induction nodes arbitrary: r)
  case (Cons v nodes)
  note one = record_boundary_ok [OF Cons.prems assms(2), of "Some v" site]
  from Cons.IH [OF one(1)] one(2) show ?case by (auto simp: boundaries_for_def intro: extends_trans)
qed (simp add: boundaries_for_def)

section \<open>Pending values\<close>

definition pending_ok :: "pcode_varnode list \<Rightarrow> bool" where
  "pending_ok pending =
     (length pending \<le> MAX_PCODE_SLICE_PENDING_VALUES \<and> distinct pending \<and> (\<forall>v \<in> set pending. scalar_space (vn_space v)))"

definition state_ok :: "slice_state \<Rightarrow> bool" where
  "state_ok st = (bounds_ok (fst st) \<and> pending_ok (snd st))"

lemma add_input_ok:
  assumes "state_ok st"
  shows "state_ok (add_input site input st)" and "extends (fst st) (fst (add_input site input st))"
  using assms record_boundary_ok [of "fst st" SbConstant "Some input" "Some site"]
    record_boundary_ok [of "fst st" SbExternalSpace "Some input" "Some site"] budget_boundary_ok [of "fst st" "snd st" "Some site"]
  by (auto simp: add_input_def state_ok_def pending_ok_def split: prod.split)

lemma add_inputs_ok:
  "state_ok st \<Longrightarrow> state_ok (add_inputs site inputs st) \<and> extends (fst st) (fst (add_inputs site inputs st))"
proof (induction inputs arbitrary: st)
  case (Cons input rest)
  note one = add_input_ok [OF Cons.prems, of site input]
  from Cons.IH [OF one(1)] one show ?case by (auto simp: Let_def intro: extends_trans)
qed simp

lemma overlaps_no_panic: "overlaps a b \<noteq> Panic"
  by (auto simp: overlaps_def rbind_Panic)

definition hits :: "pcode_varnode \<Rightarrow> pcode_varnode \<Rightarrow> bool" where
  "hits dst v = (overlaps dst v = Ok True)"

definition matches_of :: "pcode_varnode \<Rightarrow> (nat \<times> pcode_varnode) list \<Rightarrow> (nat \<times> bool) list" where
  "matches_of dst ps = map (\<lambda>(k, v). (k, dst = v)) (filter (\<lambda>(k, v). hits dst v) ps)"

lemma matched_fold:
  "fold_res (\<lambda>found (index, v). map_ok (\<lambda>hit. if hit then found @ [(index, dst = v)] else found) (overlaps dst v))
     found ps = Ok found' \<Longrightarrow>
   found' = found @ matches_of dst ps \<and> (\<forall>p \<in> set ps. overlaps dst (snd p) = Ok (hits dst (snd p)))"
proof (induction ps arbitrary: found)
  case (Cons p ps)
  obtain k v where p: "p = (k, v)" by force
  from Cons.prems obtain hit where hit: "overlaps dst v = Ok hit" by (auto simp: p)
  with Cons.prems have "fold_res (\<lambda>found (index, v). map_ok (\<lambda>hit. if hit then found @ [(index, dst = v)] else found)
      (overlaps dst v)) (if hit then found @ [(k, dst = v)] else found) ps = Ok found'" by (simp add: p)
  from Cons.IH [OF this] hit show ?case by (cases hit) (auto simp: p matches_of_def hits_def)
qed (simp add: matches_of_def)

lemma matched_values_Ok:
  assumes "matched_values dst pending = Ok matched"
  shows "matched = matches_of dst (List.enumerate 0 pending)"
    and "\<forall>v \<in> set pending. overlaps dst v = Ok (hits dst v)"
proof -
  from matched_fold [OF assms [unfolded matched_values_def]]
  have "matched = matches_of dst (List.enumerate 0 pending)"
    and all: "\<forall>p \<in> set (List.enumerate 0 pending). overlaps dst (snd p) = Ok (hits dst (snd p))" by simp_all
  then show "matched = matches_of dst (List.enumerate 0 pending)" by simp
  show "\<forall>v \<in> set pending. overlaps dst v = Ok (hits dst v)"
    using all by (metis in_set_conv_nth in_set_enumerate_eq le0 length_enumerate minus_nat.diff_0 nth_enumerate_eq add_0 nth_mem snd_conv)
qed

lemma matched_values_no_panic: "matched_values dst pending \<noteq> Panic"
  unfolding matched_values_def
  by (rule fold_res_no_panic [where P = "\<lambda>_. True"]) (auto simp: overlaps_no_panic split: prod.splits)

section \<open>Slices that lose nothing\<close>

definition clean :: "pcode_backward_slice \<Rightarrow> pcode_backward_slice \<Rightarrow> bool" where
  \<comment> \<open>every boundary that was added stands for a literal constant or a value at function entry\<close>
  "clean r r' = (\<exists>new. bs_boundaries r' = bs_boundaries r @ new \<and> (\<forall>b \<in> set new. bd_kind b \<in> {SbConstant, SbEntryValue}))"

lemma clean_refl [simp]: "clean r r"
  by (simp add: clean_def)

lemma clean_trans: "clean r r' \<Longrightarrow> clean r' r'' \<Longrightarrow> clean r r''"
  unfolding clean_def by (elim exE conjE) auto

lemma clean_split:
  assumes "extends r r'" and "extends r' r''" and "clean r r''"
  shows "clean r r'" and "clean r' r''"
proof -
  from assms(1,2) obtain m n where "bs_boundaries r' = bs_boundaries r @ m" "bs_boundaries r'' = bs_boundaries r' @ n"
    by (auto simp: extends_def)
  with assms(3) show "clean r r'" "clean r' r''" by (auto simp: clean_def)
qed

lemma clean_not_truncated:
  assumes "bounds_ok r" and "bounds_ok r'" and "\<not> bs_truncated r" and "clean r r'"
  shows "\<not> bs_truncated r'"
proof
  assume "bs_truncated r'"
  with assms(2) obtain b where b: "b \<in> set (bs_boundaries r')" "bd_kind b = SbBudget" by (auto simp: bounds_ok_def)
  from assms(4) obtain new where "bs_boundaries r' = bs_boundaries r @ new"
    "\<forall>b \<in> set new. bd_kind b \<in> {SbConstant, SbEntryValue}" by (auto simp: clean_def)
  with b have "b \<in> set (bs_boundaries r)" by auto
  with assms(1,3) b(2) show False by (auto simp: bounds_ok_def)
qed

lemma record_clean: "\<not> bs_truncated r \<Longrightarrow> clean r (record_boundary kind node site r) \<Longrightarrow> kind \<in> {SbConstant, SbEntryValue}"
  by (auto simp: clean_def record_boundary_def push_boundary_def split: if_splits)

lemma boundaries_for_clean:
  assumes "bounds_ok r" and "\<not> bs_truncated r" and "nodes \<noteq> []" and "kind \<noteq> SbBudget"
    and "clean r (boundaries_for kind nodes site r)"
  shows "kind \<in> {SbConstant, SbEntryValue}"
proof -
  from assms(3) obtain v vs where nodes: "nodes = v # vs" by (cases nodes) auto
  note one = record_boundary_ok [OF assms(1,4), of "Some v" site]
  have "clean r (record_boundary kind (Some v) site r)"
    using clean_split(1) [OF one(2) conjunct2 [OF boundaries_for_ok [OF one(1) assms(4), of vs site]]] assms(5)
    by (simp add: nodes boundaries_for_def)
  with record_clean [OF assms(2)] show ?thesis by blast
qed

section \<open>One operation\<close>

lemma matches_of_snoc:
  "matches_of dst (List.enumerate 0 (ps @ [v])) =
    matches_of dst (List.enumerate 0 ps) @ (if hits dst v then [(length ps, dst = v)] else [])"
  by (simp add: matches_of_def enumerate_append_eq)

lemma matches_of_empty: "matches_of dst (List.enumerate 0 ps) = [] \<longleftrightarrow> (\<forall>v \<in> set ps. \<not> hits dst v)"
proof (induction ps rule: rev_induct)
  case (snoc v ps)
  then show ?case by (auto simp: matches_of_snoc)
qed (simp add: matches_of_def)

lemma remove_middle: "remove_at (length ps) (ps @ v # qs) = Ok (v, ps @ qs)"
  by (simp add: remove_at_def map_ok_def)

lemma settle_all:
  assumes "bounds_ok r"
  shows "\<exists>r' new'. fold_res (settle site source effect) ((r, ps @ qs), new) (rev (matches_of dst (List.enumerate 0 ps))) =
      Ok ((r', filter (\<lambda>v. \<not> hits dst v) ps @ qs), new') \<and> bounds_ok r' \<and> extends r r' \<and>
    set new \<subseteq> set new' \<and> set new' \<subseteq> set new \<union> set (op_inputs source) \<and>
    (\<not> bs_truncated r \<longrightarrow> clean r r' \<longrightarrow> (\<forall>v \<in> set ps. hits dst v \<longrightarrow> dst = v \<and> is_assign effect) \<and>
       ((\<exists>v \<in> set ps. hits dst v) \<longrightarrow> set (op_inputs source) \<subseteq> set new'))"
  using assms
proof (induction ps arbitrary: r qs new rule: rev_induct)
  case (snoc v ps)
  show ?case
  proof (cases "hits dst v")
    case False
    with snoc.IH [OF snoc.prems, of "v # qs" new] show ?thesis by (auto simp: matches_of_snoc)
  next
    case hit: True
    show ?thesis
    proof (cases "dst = v \<and> is_assign effect")
      case True
      then have one: "settle site source effect ((r, ps @ v # qs), new) (length ps, dst = v) =
          Ok ((r, ps @ qs), new @ op_inputs source)"
        by (auto simp: settle_def remove_middle is_assign_def split: pcode_effect.splits)
      from snoc.IH [OF snoc.prems, of qs "new @ op_inputs source"] obtain r' new' where
        rest: "fold_res (settle site source effect) ((r, ps @ qs), new @ op_inputs source)
            (rev (matches_of dst (List.enumerate 0 ps))) = Ok ((r', filter (\<lambda>v. \<not> hits dst v) ps @ qs), new')"
          "bounds_ok r'" "extends r r'" "set (new @ op_inputs source) \<subseteq> set new'"
          "set new' \<subseteq> set (new @ op_inputs source) \<union> set (op_inputs source)"
          "\<not> bs_truncated r \<longrightarrow> clean r r' \<longrightarrow> (\<forall>v \<in> set ps. hits dst v \<longrightarrow> dst = v \<and> is_assign effect)"
        by blast
      with hit one True show ?thesis by (intro exI [of _ r'] exI [of _ new']) (auto simp: matches_of_snoc)
    next
      case False
      define kind where "kind = (if dst \<noteq> v then SbPartialOverlap
        else case effect of Opaque _ _ mr _ _ _ \<Rightarrow> if mr then SbMemoryRead else SbOpaqueEffect | _ \<Rightarrow> SbPartialOverlap)"
      let ?r = "record_boundary kind (Some v) (Some site) r"
      have kind: "kind \<noteq> SbBudget" "kind \<notin> {SbConstant, SbEntryValue}" by (auto simp: kind_def split: pcode_effect.splits)
      have one: "settle site source effect ((r, ps @ v # qs), new) (length ps, dst = v) = Ok ((?r, ps @ qs), new)"
        using False by (auto simp: settle_def remove_middle is_assign_def kind_def split: pcode_effect.splits)
      note r = record_boundary_ok [OF snoc.prems kind(1), of "Some v" "Some site"]
      from snoc.IH [OF r(1), of qs new] obtain r' new' where
        rest: "fold_res (settle site source effect) ((?r, ps @ qs), new)
            (rev (matches_of dst (List.enumerate 0 ps))) = Ok ((r', filter (\<lambda>v. \<not> hits dst v) ps @ qs), new')"
          "bounds_ok r'" "extends ?r r'" "set new \<subseteq> set new'" "set new' \<subseteq> set new \<union> set (op_inputs source)"
        by blast
      have "\<not> clean r r'" if "\<not> bs_truncated r"
        using clean_split(1) [OF r(2) rest(3)] record_clean [OF that] kind(2) by blast
      with rest hit one extends_trans [OF r(2) rest(3)] show ?thesis
        by (intro exI [of _ r'] exI [of _ new']) (auto simp: matches_of_snoc)
    qed
  qed
qed (auto simp: matches_of_def)

definition within :: "slice_state \<Rightarrow> bool" where
  \<comment> \<open>the state between two iterations\<close>
  "within st = (state_ok st \<and> \<not> bs_truncated (fst st) \<and> snd st \<noteq> [])"

lemma add_input_values:
  assumes "state_ok st" and "\<not> bs_truncated (fst (add_input site input st))"
  shows "set (snd st) \<subseteq> set (snd (add_input site input st))"
    and "clean (fst st) (fst (add_input site input st)) \<Longrightarrow>
      vn_space input = ''const'' \<or> input \<in> set (snd (add_input site input st))"
proof -
  obtain r pending where st: "st = (r, pending)" by force
  have budget: "bs_truncated (budget_boundary pending (Some site) r)"
    using assms(1) by (intro budget_boundary_ok(3)) (simp add: st state_ok_def)
  show "set (snd st) \<subseteq> set (snd (add_input site input st))"
    by (auto simp: st add_input_def)
  assume c: "clean (fst st) (fst (add_input site input st))"
  have "\<not> bs_truncated r"
    using assms add_input_ok(2) [OF assms(1), of site input] by (auto simp: st extends_def)
  from c record_clean [OF this, of SbExternalSpace "Some input" "Some site"] assms(2) budget
  show "vn_space input = ''const'' \<or> input \<in> set (snd (add_input site input st))"
    by (auto simp: st add_input_def split: if_splits)
qed

lemma add_inputs_values:
  assumes "state_ok st" and "\<not> bs_truncated (fst (add_inputs site inputs st))"
  shows "set (snd st) \<subseteq> set (snd (add_inputs site inputs st)) \<and>
    (clean (fst st) (fst (add_inputs site inputs st)) \<longrightarrow>
      (\<forall>input \<in> set inputs. vn_space input = ''const'' \<or> input \<in> set (snd (add_inputs site inputs st))))"
  using assms
proof (induction inputs arbitrary: st)
  case (Cons input rest)
  let ?st = "add_input site input st"
  note one = add_input_ok [OF Cons.prems(1), of site input]
  have nt: "\<not> bs_truncated (fst ?st)" using Cons.prems(2) by (auto simp: Let_def split: if_splits)
  with Cons.prems(2) have nt': "\<not> bs_truncated (fst (add_inputs site rest ?st))" by (simp add: Let_def)
  note vals = add_input_values [OF Cons.prems(1) nt]
  note rest = Cons.IH [OF one(1) nt']
  have step: "add_inputs site (input # rest) st = add_inputs site rest ?st" using nt by (simp add: Let_def)
  have "clean (fst st) (fst ?st) \<and> clean (fst ?st) (fst (add_inputs site rest ?st))"
    if "clean (fst st) (fst (add_inputs site rest ?st))"
    using clean_split [OF one(2) conjunct2 [OF add_inputs_ok [OF one(1), of site rest]] that] by simp
  with vals rest show ?case unfolding step by auto
qed simp

section \<open>The invariant of the result\<close>

definition step_anchored :: "pcode_state_instruction list \<Rightarrow> pcode_slice_step \<Rightarrow> bool" where
  \<comment> \<open>the step is the operation of the function at its site, with its lowering or the opaque effect of a stale one\<close>
  "step_anchored is p =
     (let n = unat (si_instruction_index (sp_site p)); k = unat (si_operation_index (sp_site p)) in
      n < length is \<and> k < length (ti_operations (is ! n)) \<and> sp_source p = to_source (ti_operations (is ! n) ! k) \<and>
      sp_effect p \<in> {lower_operation (sp_source p), stale_effect (sp_source p)})"

definition result_ok :: "pcode_state_instruction list \<Rightarrow> pcode_slice_step \<Rightarrow> pcode_backward_slice \<Rightarrow> bool" where
  "result_ok is first r =
     (bounds_ok r \<and> unat (bs_operations_examined r) \<le> MAX_PCODE_SLICE_OPERATIONS \<and>
      unat (bs_instructions_examined r) \<le> MAX_PCODE_SLICE_INSTRUCTIONS \<and> \<not> bs_path_proven r \<and>
      (\<exists>more. bs_steps r = first # more \<and> length more \<le> unat (bs_operations_examined r)) \<and>
      (\<forall>p \<in> set (bs_steps r). step_anchored is p))"

lemma extends_result: "result_ok is first r \<Longrightarrow> extends r r' \<Longrightarrow> bounds_ok r' \<Longrightarrow> result_ok is first r'"
  using extends_fields [of r r'] by (simp add: result_ok_def)

definition examine :: "pcode_backward_slice \<Rightarrow> pcode_backward_slice" where
  "examine r = r\<lparr>bs_operations_examined := bs_operations_examined r + 1\<rparr>"

lemma bounds_ok_fields [simp]:
  "bounds_ok (examine r) = bounds_ok r" "bounds_ok (push_step site source effect r) = bounds_ok r"
  "bs_truncated (examine r) = bs_truncated r" "bs_truncated (push_step site source effect r) = bs_truncated r"
  "bs_boundaries (examine r) = bs_boundaries r" "bs_boundaries (push_step site source effect r) = bs_boundaries r"
  "bs_instructions_examined (examine r) = bs_instructions_examined r"
  "bs_instructions_examined (push_step site source effect r) = bs_instructions_examined r"
  "clean (examine r) r' = clean r r'" "clean (push_step site source effect r) r' = clean r r'"
  by (simp_all add: bounds_ok_def examine_def push_step_def clean_def)

lemma examine_result:
  assumes "result_ok is first r" and "unat (bs_operations_examined r) < MAX_PCODE_SLICE_OPERATIONS"
  shows "result_ok is first (examine r)"
    and "step_anchored is \<lparr>sp_site = site, sp_source = source, sp_effect = effect\<rparr> \<Longrightarrow>
      result_ok is first (push_step site source effect (examine r))"
proof -
  have "unat (bs_operations_examined r + 1) = Suc (unat (bs_operations_examined r))"
    using assms(2) by (simp add: unat_word_ariths slice_limits)
  with assms show "result_ok is first (examine r)" "step_anchored is \<lparr>sp_site = site, sp_source = source, sp_effect = effect\<rparr> \<Longrightarrow>
      result_ok is first (push_step site source effect (examine r))"
    by (auto simp: result_ok_def examine_def push_step_def bounds_ok_def)
qed

definition value_flow :: "pcode_operation \<Rightarrow> slice_state \<Rightarrow> slice_state \<Rightarrow> bool" where
  \<comment> \<open>what becomes of the pending values at an operation the slice passes\<close>
  "value_flow source st st' =
     (\<not> unsliceable (lower_operation source) \<and>
      (\<forall>out. op_output source = Some out \<longrightarrow> (\<forall>v \<in> set (snd st). overlaps out v = Ok (hits out v))) \<and>
      ((\<forall>out. op_output source = Some out \<longrightarrow> (\<forall>v \<in> set (snd st). \<not> hits out v)) \<and> set (snd st) \<subseteq> set (snd st') \<or>
       (\<exists>out. op_output source = Some out \<and> set (filter (\<lambda>v. \<not> hits out v) (snd st)) \<subseteq> set (snd st') \<and>
          (clean (fst st) (fst st') \<longrightarrow> is_assign (lower_operation source) \<and> (\<forall>v \<in> set (snd st). hits out v \<longrightarrow> v = out) \<and>
             (\<forall>input \<in> set (op_inputs source). vn_space input = ''const'' \<or> input \<in> set (snd st'))))))"

definition slice_post ::
  "pcode_state_instruction list \<Rightarrow> pcode_slice_step \<Rightarrow> pcode_operation \<Rightarrow> slice_state \<Rightarrow>
   (slice_state + pcode_backward_slice, string) result \<Rightarrow> bool" where
  "slice_post is first source st r =
     (case r of
        Ok (Inl st') \<Rightarrow> within st' \<and> result_ok is first (fst st') \<and>
          bs_instructions_examined (fst st') = bs_instructions_examined (fst st) \<and>
          (\<exists>new. bs_boundaries (fst st') = bs_boundaries (fst st) @ new) \<and> value_flow source st st'
      | Ok (Inr finished) \<Rightarrow> result_ok is first finished \<and>
          (\<exists>new. bs_boundaries finished = bs_boundaries (fst st) @ new) \<and>
          (clean (fst st) finished \<longrightarrow> value_flow source st (finished, []))
      | Err e \<Rightarrow> True
      | Panic \<Rightarrow> False)"

lemma pending_filter: "pending_ok pending \<Longrightarrow> pending_ok (filter p pending)"
  using le_trans [OF length_filter_le [of p pending]] by (auto simp: pending_ok_def)

lemma defines_value_post:
  assumes st: "within (r, pending)" and res: "result_ok is first r" and ops: "unat (bs_operations_examined r) < MAX_PCODE_SLICE_OPERATIONS"
    and anchored: "step_anchored is \<lparr>sp_site = site, sp_source = source, sp_effect = lower_operation source\<rparr>"
    and out: "op_output source = Some out" and m: "matched_values out pending = Ok matched" and ne: "matched \<noteq> []"
    and sl: "\<not> unsliceable (lower_operation source)"
  shows "slice_post is first source (r, pending) (defines_value site source (lower_operation source) matched (examine r, pending))"
proof -
  let ?r = "push_step site source (lower_operation source) (examine r)"
  note mv = matched_values_Ok [OF m]
  from st have ok: "bounds_ok r" "pending_ok pending" "\<not> bs_truncated r" "pending \<noteq> []"
    by (simp_all add: within_def state_ok_def)
  have hit: "\<exists>v \<in> set pending. hits out v"
    using ne unfolding mv(1) matches_of_empty by blast
  have "bounds_ok ?r" using ok(1) by simp
  from settle_all [OF this, where site = site and source = source and effect = "lower_operation source" and ps = pending
      and qs = "[]" and new = "[]" and dst = out] obtain r1 new where
    settled: "fold_res (settle site source (lower_operation source)) ((?r, pending), []) (rev matched) =
        Ok ((r1, filter (\<lambda>v. \<not> hits out v) pending), new)"
      "bounds_ok r1" "extends ?r r1" "set new \<subseteq> set (op_inputs source)"
      "clean r r1 \<longrightarrow> (\<forall>v \<in> set pending. hits out v \<longrightarrow> out = v \<and> is_assign (lower_operation source)) \<and>
        set (op_inputs source) \<subseteq> set new"
    unfolding mv(1) using ok(3) hit by auto
  let ?st = "(r1, filter (\<lambda>v. \<not> hits out v) pending)"
  obtain r2 pending2 where added: "add_inputs site new ?st = (r2, pending2)" by force
  have sok: "state_ok ?st" using settled(2) pending_filter [OF ok(2)] by (simp add: state_ok_def)
  from add_inputs_ok [OF this, of site new] added have two: "state_ok (r2, pending2)" "extends r1 r2" by auto
  have ext: "extends ?r r2" by (rule extends_trans [OF settled(3) two(2)])
  have res2: "result_ok is first r2"
    using extends_result [OF examine_result(2) [OF res ops anchored] ext] two(1) by (simp add: state_ok_def)
  have run: "defines_value site source (lower_operation source) matched (examine r, pending) =
      (if pending2 = [] \<or> bs_truncated r2 then Ok (Inr r2) else Ok (Inl (r2, pending2)))"
    by (simp add: defines_value_def settled(1) added)
  have flow: "value_flow source (r, pending) (r2, pending2)" if nt: "\<not> bs_truncated r2"
  proof -
    have "\<not> bs_truncated (fst (add_inputs site new ?st))" using nt by (simp add: added)
    note vals = add_inputs_values [OF sok this, unfolded added fst_conv snd_conv]
    have "clean r r1 \<and> clean r1 r2" if "clean r r2"
      using clean_split [OF settled(3) two(2)] that by simp
    with settled(5) vals hit out sl mv(2) show ?thesis
      unfolding value_flow_def by (intro conjI disjI2 exI [of _ out]) auto
  qed
  have grown: "\<exists>new. bs_boundaries r2 = bs_boundaries r @ new" "bs_instructions_examined r2 = bs_instructions_examined r"
    using extends_fields(3) [OF ext] ext by (auto simp: extends_def)
  show ?thesis
  proof (cases "pending2 = [] \<or> bs_truncated r2")
    case True
    have "\<not> bs_truncated r2" if "clean r r2"
      using clean_not_truncated [OF ok(1) _ ok(3) that] two(1) by (simp add: state_ok_def)
    with True flow grown(1) run res2 show ?thesis by (auto simp: slice_post_def)
  next
    case False
    with run two(1) res2 flow grown show ?thesis by (simp add: slice_post_def within_def)
  qed
qed

lemma slice_operation_post:
  assumes st: "within (r, pending)" and res: "result_ok is first r" and cur: "unat current < length is" "instruction = is ! unat current"
    and index: "index < length (ti_operations instruction)" "length (ti_operations instruction) < 2 ^ 32"
  shows "slice_post is first (to_source (ti_operations instruction ! index)) (r, pending)
    (slice_operation instruction current index (r, pending))"
proof -
  let ?op = "ti_operations instruction ! index" and ?site = "\<lparr>si_instruction_index = current, si_operation_index = word_of_nat index\<rparr>"
  let ?source = "to_source ?op"
  from st have ok: "bounds_ok r" "pending_ok pending" "\<not> bs_truncated r" "pending \<noteq> []"
    by (simp_all add: within_def state_ok_def)
  have "unat (word_of_nat index :: u32) = index" using index by (simp add: unsigned_of_nat take_bit_nat_eq_self)
  then have anchored: "step_anchored is \<lparr>sp_site = ?site, sp_source = ?source, sp_effect = e\<rparr>"
    if "e \<in> {lower_operation ?source, stale_effect ?source}" for e
    using that cur index by (simp add: step_anchored_def)
  show ?thesis
  proof (cases "unat (bs_operations_examined r) \<ge> MAX_PCODE_SLICE_OPERATIONS")
    case True
    note b = budget_boundary_ok [OF ok(1), of pending "Some ?site"]
    have "\<not> clean r (budget_boundary pending (Some ?site) r)"
      using clean_not_truncated [OF ok(1) b(1) ok(3)] b(3) by blast
    moreover have "\<exists>new. bs_boundaries (budget_boundary pending (Some ?site) r) = bs_boundaries r @ new"
      using b(2) by (auto simp: extends_def)
    ultimately show ?thesis
      using True extends_result [OF res b(2) b(1)] by (simp add: slice_operation_def slice_post_def Let_def)
  next
    case False
    then have ops: "unat (bs_operations_examined r) < MAX_PCODE_SLICE_OPERATIONS" by simp
    have stop: "slice_post is first ?source (r, pending) (Ok (Inr (opaque_boundary pending ?site ?op e (examine r))))"
      if "e \<in> {lower_operation ?source, stale_effect ?source}" for e
    proof -
      have p: "result_ok is first (push_step ?site ?source e (examine r))"
        by (rule examine_result(2) [OF res ops anchored [OF that]])
      let ?p = "push_step ?site ?source e (examine r)"
      have b: "bounds_ok ?p" using ok(1) by simp
      note after = boundaries_for_ok [OF b, of SbOpaqueEffect pending "Some ?site"]
      have "\<not> clean r (boundaries_for SbOpaqueEffect pending (Some ?site) ?p)"
        using boundaries_for_clean [OF b, of pending SbOpaqueEffect "Some ?site"] ok(3,4) by auto
      moreover have "\<exists>new. bs_boundaries (boundaries_for SbOpaqueEffect pending (Some ?site) ?p) = bs_boundaries r @ new"
        using after by (auto simp: extends_def)
      ultimately show ?thesis
        using after extends_result [OF p] by (simp add: opaque_boundary_def slice_post_def)
    qed
    have run: "slice_operation instruction current index (r, pending) =
        (if to_effect ?op \<noteq> lower_operation ?source
          then Ok (Inr (opaque_boundary pending ?site ?op (stale_effect ?source) (examine r)))
         else if to_may_clobber_unlisted_state ?op \<or> unsliceable (lower_operation ?source)
          then Ok (Inr (opaque_boundary pending ?site ?op (lower_operation ?source) (examine r)))
         else case op_output ?source of
            None \<Rightarrow> Ok (Inl (examine r, pending))
          | Some out \<Rightarrow> rbind (matched_values out pending) (\<lambda>matched.
              if matched = [] then Ok (Inl (examine r, pending))
              else defines_value ?site ?source (lower_operation ?source) matched (examine r, pending)))"
      unfolding examine_def using False index by (simp add: slice_operation_def Let_def)
    show ?thesis
    proof (cases "to_effect ?op = lower_operation ?source \<and> \<not> to_may_clobber_unlisted_state ?op \<and> \<not> unsliceable (lower_operation ?source)")
      case sliceable: True
      have pass: "slice_post is first ?source (r, pending) (Ok (Inl (examine r, pending)))"
        if "\<And>out. op_output ?source = Some out \<Longrightarrow> \<forall>v \<in> set pending. overlaps out v = Ok False"
      proof -
        have "value_flow ?source (r, pending) (examine r, pending)"
          using sliceable that by (auto simp: value_flow_def hits_def)
        with st examine_result(1) [OF res ops] show ?thesis by (simp add: slice_post_def within_def state_ok_def)
      qed
      show ?thesis
      proof (cases "op_output ?source")
        case None
        with run sliceable pass show ?thesis by simp
      next
        case (Some out)
        show ?thesis
        proof (cases "matched_values out pending")
          case (Ok matched)
          note mv = matched_values_Ok [OF Ok]
          show ?thesis
          proof (cases "matched = []")
            case True
            have "\<not> hits out v" if "v \<in> set pending" for v
              using True that unfolding mv(1) matches_of_empty by blast
            with mv(2) have "\<forall>v \<in> set pending. overlaps out v = Ok False" by auto
            with run sliceable pass Some Ok True show ?thesis by simp
          next
            case False
            from defines_value_post [OF st res ops anchored Some Ok False] sliceable run Some Ok False show ?thesis by simp
          qed
        next
          case Panic
          with matched_values_no_panic show ?thesis by blast
        qed (use run sliceable Some in \<open>simp add: slice_post_def\<close>)
      qed
    next
      case False
      with run stop show ?thesis by auto
    qed
  qed
qed

section \<open>One instruction\<close>

definition scan_post ::
  "pcode_state_instruction list \<Rightarrow> pcode_slice_step \<Rightarrow> slice_state \<Rightarrow> (slice_state + pcode_backward_slice, string) result \<Rightarrow> bool" where
  "scan_post is first st r =
     (case r of
        Ok (Inl st') \<Rightarrow> within st' \<and> result_ok is first (fst st') \<and>
          bs_instructions_examined (fst st') = bs_instructions_examined (fst st) \<and>
          (\<exists>new. bs_boundaries (fst st') = bs_boundaries (fst st) @ new)
      | Ok (Inr finished) \<Rightarrow> result_ok is first finished \<and> (\<exists>new. bs_boundaries finished = bs_boundaries (fst st) @ new)
      | Err e \<Rightarrow> True
      | Panic \<Rightarrow> False)"

lemma slice_instruction_post:
  assumes "within st" and "result_ok is first (fst st)" and "unat current < length is" "instruction = is ! unat current"
    and "n \<le> length (ti_operations instruction)" "length (ti_operations instruction) < 2 ^ 32"
  shows "scan_post is first st (slice_instruction instruction current n st)"
  using assms
proof (induction n arbitrary: st)
  case (Suc n)
  obtain r pending where st: "st = (r, pending)" by force
  have post: "slice_post is first (to_source (ti_operations instruction ! n)) st (slice_operation instruction current n st)"
    unfolding st using Suc.prems by (intro slice_operation_post) (simp_all add: st)
  show ?case
  proof (cases "slice_operation instruction current n st")
    case (Ok q)
    show ?thesis
    proof (cases q)
      case (Inl st')
      with post Ok have st': "within st'" "result_ok is first (fst st')"
        "bs_instructions_examined (fst st') = bs_instructions_examined (fst st)"
        "\<exists>new. bs_boundaries (fst st') = bs_boundaries (fst st) @ new" by (simp_all add: slice_post_def)
      have "scan_post is first st' (slice_instruction instruction current n st')"
        using Suc.prems by (intro Suc.IH [OF st'(1,2)]) simp_all
      with st' have "scan_post is first st (slice_instruction instruction current n st')"
        by (auto simp: scan_post_def split: result.splits sum.splits)
      with Ok Inl show ?thesis by simp
    qed (use post Ok in \<open>auto simp: slice_post_def scan_post_def\<close>)
  qed (use post in \<open>simp_all add: slice_post_def scan_post_def\<close>)
qed (simp add: scan_post_def)

lemma drop_temporaries_ok:
  assumes "bounds_ok r" and "n \<le> length pending"
  shows "\<exists>r'. drop_temporaries n (r, pending) = Ok (r', filter (\<lambda>v. vn_space v \<noteq> ''unique'') (take n pending) @ drop n pending) \<and>
    bounds_ok r' \<and> extends r r' \<and>
    (\<not> bs_truncated r \<longrightarrow> clean r r' \<longrightarrow> (\<forall>v \<in> set (take n pending). vn_space v \<noteq> ''unique''))"
  using assms
proof (induction n arbitrary: r pending)
  case (Suc n)
  let ?v = "pending ! n"
  have split: "take (Suc n) pending = take n pending @ [?v]" "drop n pending = ?v # drop (Suc n) pending"
    using Suc.prems(2) by (simp_all add: take_Suc_conv_app_nth Cons_nth_drop_Suc)
  show ?case
  proof (cases "vn_space ?v = ''unique''")
    case False
    have "n \<le> length pending" using Suc.prems(2) by simp
    from Suc.IH [OF Suc.prems(1) this] False Suc.prems(2) show ?thesis by (auto simp: split)
  next
    case True
    let ?r = "record_boundary SbTemporaryLifetime (Some ?v) None r" and ?rest = "take n pending @ drop (Suc n) pending"
    have r: "bounds_ok ?r" "extends r ?r" using record_boundary_ok [OF Suc.prems(1), of SbTemporaryLifetime] by simp_all
    have step: "drop_temporaries (Suc n) (r, pending) = drop_temporaries n (?r, ?rest)"
      using True Suc.prems(2) by (simp add: remove_at_def map_ok_def)
    have "n \<le> length ?rest" using Suc.prems(2) by simp
    from Suc.IH [OF r(1) this] obtain r' where
      r': "drop_temporaries n (?r, ?rest) = Ok (r', filter (\<lambda>v. vn_space v \<noteq> ''unique'') (take n ?rest) @ drop n ?rest)"
        "bounds_ok r'" "extends ?r r'" by blast
    have "\<not> clean r r'" if "\<not> bs_truncated r"
      using clean_split(1) [OF r(2) r'(3)] record_clean [OF that] by blast
    with r' step extends_trans [OF r(2) r'(3)] True Suc.prems(2) show ?thesis
      by (auto simp: split min_def)
  qed
qed auto

section \<open>The loop along the chain\<close>

definition cfg_sane :: "pcode_cfg_function_ir \<Rightarrow> bool" where
  "cfg_sane cfg =
     (length (cf_nodes cfg) = length (st_instructions (cf_state cfg)) \<and>
      (\<forall>i \<in> set (st_instructions (cf_state cfg)). length (ti_operations i) < 2 ^ 32))"

definition run_ok :: "pcode_cfg_function_ir \<Rightarrow> pcode_slice_step \<Rightarrow> slice_run \<Rightarrow> bool" where
  "run_ok cfg first sr =
     (let is = st_instructions (cf_state cfg) in
      cfg_sane cfg \<and> within (sr_result sr, sr_pending sr) \<and> result_ok is first (sr_result sr) \<and>
      unat (sr_current sr) < length is \<and> sr_operation_end sr \<le> length (ti_operations (is ! unat (sr_current sr))))"

definition visits_left :: "slice_run \<Rightarrow> nat" where
  "visits_left sr = MAX_PCODE_SLICE_INSTRUCTIONS - unat (bs_instructions_examined (sr_result sr))"

lemma predecessor_in_range:
  assumes "unique_fallthrough_predecessor cfg current = Some p" and "cfg_sane cfg"
  shows "unat p < length (st_instructions (cf_state cfg))"
  using assms by (auto simp: unique_fallthrough_predecessor_def cfg_sane_def split: if_splits list.splits option.splits)

lemma boundaries_result:
  assumes "result_ok is first r" and "kind \<noteq> SbBudget"
  shows "result_ok is first (boundaries_for kind nodes site r)"
proof -
  have "bounds_ok r" using assms(1) by (simp add: result_ok_def)
  from boundaries_for_ok [OF this assms(2)] show ?thesis by (blast intro: extends_result [OF assms(1)])
qed

lemma chain_step_post:
  assumes "run_ok cfg first sr"
  shows "case chain_step cfg sr of
      Ok (Inl sr') \<Rightarrow> run_ok cfg first sr' \<and> sr_result sr' = sr_result sr
    | Ok (Inr r) \<Rightarrow> result_ok (st_instructions (cf_state cfg)) first r | Err e \<Rightarrow> False | Panic \<Rightarrow> False"
proof -
  let ?is = "st_instructions (cf_state cfg)"
  from assms have ok: "cfg_sane cfg" "result_ok ?is first (sr_result sr)" "?is \<noteq> []" by (auto simp: run_ok_def Let_def)
  then have "index_rs ?is 0 = Ok (?is ! 0)" by simp
  then obtain entry where entry: "at_entry cfg (sr_current sr) = Ok entry"
    by (cases "sr_current sr = 0 \<and> cf_flow_evidence_present cfg") (auto simp: at_entry_def)
  have finish: "result_ok ?is first ((if entry then boundaries_for SbEntryValue (sr_pending sr) None
      else control_boundary (sr_pending sr) None) (sr_result sr))"
    using boundaries_result [OF ok(2)] by (simp add: control_boundary_def)
  show ?thesis
  proof (cases "unique_fallthrough_predecessor cfg (sr_current sr)")
    case None
    with entry finish show ?thesis by (simp add: chain_step_def)
  next
    case (Some p)
    with predecessor_in_range [OF Some ok(1)] assms entry finish show ?thesis
      by (auto simp: chain_step_def run_ok_def Let_def)
  qed
qed

lemma slice_step_post:
  assumes inv: "run_ok cfg first sr"
  shows "case slice_step cfg sr of
      Ok (Inl sr') \<Rightarrow> run_ok cfg first sr' \<and> visits_left sr' < visits_left sr
    | Ok (Inr r) \<Rightarrow> result_ok (st_instructions (cf_state cfg)) first r | Err e \<Rightarrow> True | Panic \<Rightarrow> False"
proof -
  let ?is = "st_instructions (cf_state cfg)" and ?r = "sr_result sr" and ?n = "unat (sr_current sr)"
  let ?i = "?is ! ?n"
  from inv have ok: "cfg_sane cfg" "within (?r, sr_pending sr)" "result_ok ?is first ?r" "?n < length ?is"
      "sr_operation_end sr \<le> length (ti_operations ?i)" by (auto simp: run_ok_def Let_def)
  have bounds: "bounds_ok ?r" using ok(3) by (simp add: result_ok_def)
  show ?thesis
  proof (cases "unat (bs_instructions_examined ?r) \<ge> MAX_PCODE_SLICE_INSTRUCTIONS")
    case True
    with extends_result [OF ok(3)] budget_boundary_ok [OF bounds] show ?thesis by (simp add: slice_step_def)
  next
    case False
    show ?thesis
    proof (cases "sr_current sr \<in> sr_visited sr")
      case True
      with False boundaries_result [OF ok(3)] show ?thesis by (simp add: slice_step_def control_boundary_def)
    next
      case new: False
      let ?r1 = "?r\<lparr>bs_instructions_examined := bs_instructions_examined ?r + 1\<rparr>"
      have inc: "unat (bs_instructions_examined ?r + 1) = Suc (unat (bs_instructions_examined ?r))"
        using False by (simp add: unat_word_ariths slice_limits)
      have r1: "within (?r1, sr_pending sr)" "result_ok ?is first ?r1"
        using ok(2,3) inc False by (auto simp: within_def state_ok_def bounds_ok_def result_ok_def)
      have len: "length (ti_operations ?i) < 2 ^ 32" using ok(1,4) by (auto simp: cfg_sane_def)
      let ?scan = "slice_instruction ?i (sr_current sr) (sr_operation_end sr) (?r1, sr_pending sr)"
      have post: "scan_post ?is first (?r1, sr_pending sr) ?scan"
        using r1 ok(4,5) len by (intro slice_instruction_post) simp_all
      have run: "slice_step cfg sr = rbind ?scan (\<lambda>scanned. case scanned of
          Inr finished \<Rightarrow> Ok (Inr finished)
        | Inl (r, pending) \<Rightarrow>
            if pending = [] then Ok (Inr r)
            else
              rbind (drop_temporaries (length pending) (r, pending)) (\<lambda>(r, pending).
              if bs_truncated r \<or> pending = [] then Ok (Inr r)
              else chain_step cfg (sr\<lparr>sr_result := r, sr_pending := pending,
                     sr_visited := insert (sr_current sr) (sr_visited sr)\<rparr>)))"
        using False new ok(4) by (simp add: slice_step_def Let_def)
      show ?thesis
      proof (cases ?scan)
        case (Ok q)
        show ?thesis
        proof (cases q)
          case (Inr finished)
          with run Ok post show ?thesis by (simp add: scan_post_def)
        next
          case (Inl st)
          obtain r pending where st: "st = (r, pending)" by force
          from post Ok Inl st have w: "within (r, pending)" "result_ok ?is first r"
            "bs_instructions_examined r = bs_instructions_examined ?r + 1" by (simp_all add: scan_post_def)
          from w(1) have b: "bounds_ok r" by (simp add: within_def state_ok_def)
          from drop_temporaries_ok [OF b order.refl, of pending] obtain r2 where
            r2: "drop_temporaries (length pending) (r, pending) = Ok (r2, filter (\<lambda>v. vn_space v \<noteq> ''unique'') pending)"
              "bounds_ok r2" "extends r r2" by auto
          let ?pending = "filter (\<lambda>v. vn_space v \<noteq> ''unique'') pending"
          have res2: "result_ok ?is first r2" by (rule extends_result [OF w(2) r2(3,2)])
          show ?thesis
          proof (cases "pending = [] \<or> bs_truncated r2 \<or> ?pending = []")
            case True
            with run Ok Inl st w(2) res2 r2(1) show ?thesis by auto
          next
            case False
            let ?sr = "sr\<lparr>sr_result := r2, sr_pending := ?pending, sr_visited := insert (sr_current sr) (sr_visited sr)\<rparr>"
            have "pending_ok pending" using w(1) by (simp add: within_def state_ok_def)
            then have "within (r2, ?pending)"
              using False r2(2) pending_filter [of pending] by (simp add: within_def state_ok_def)
            with ok res2 have "run_ok cfg first ?sr" by (simp add: run_ok_def Let_def)
            note chain = chain_step_post [OF this]
            have "visits_left ?sr < visits_left sr"
              using extends_fields(3) [OF r2(3)] w(3) inc \<open>\<not> unat (bs_instructions_examined ?r) \<ge> MAX_PCODE_SLICE_INSTRUCTIONS\<close>
              by (simp add: visits_left_def)
            moreover have "slice_step cfg sr = chain_step cfg ?sr" using run Ok Inl st r2(1) False by simp
            ultimately show ?thesis using chain
              by (auto simp: visits_left_def split: result.splits sum.splits)
          qed
        qed
      qed (use run post in \<open>simp_all add: scan_post_def\<close>)
    qed
  qed
qed

interpretation slice: bounded_loop "try_step (slice_step cfg)" "run_ok cfg first" visits_left for cfg first
proof
  fix sr sr' assume "run_ok cfg first sr" "try_step (slice_step cfg) sr = Inl sr'"
  with slice_step_post [of cfg first sr] show "run_ok cfg first sr'" "visits_left sr' < visits_left sr" by simp_all
qed

section \<open>The slice of a function\<close>

definition slice_wf :: "pcode_cfg_function_ir \<Rightarrow> pcode_slice_target \<Rightarrow> pcode_backward_slice \<Rightarrow> bool" where
  "slice_wf cfg target r =
     (\<exists>first. result_ok (st_instructions (cf_state cfg)) first r \<and>
        sp_site first = \<lparr>si_instruction_index = tg_instruction_index target, si_operation_index = tg_operation_index target\<rparr>)"

definition first_step :: "pcode_cfg_function_ir \<Rightarrow> pcode_slice_target \<Rightarrow> pcode_state_operation \<Rightarrow> pcode_slice_step" where
  "first_step cfg target operation = hd (bs_steps (empty_slice cfg target operation))"

lemma slice_start_Ok:
  assumes "slice_start cfg target = Ok operation"
  shows "unat (tg_instruction_index target) < length (st_instructions (cf_state cfg))"
    and "unat (tg_operation_index target) <
      length (ti_operations (st_instructions (cf_state cfg) ! unat (tg_instruction_index target)))"
    and "operation = ti_operations (st_instructions (cf_state cfg) ! unat (tg_instruction_index target)) !
      unat (tg_operation_index target)"
    and "length (cf_nodes cfg) = length (st_instructions (cf_state cfg))"
    and "\<And>k. tg_input_index target = Some k \<Longrightarrow> unat k < length (op_inputs (to_source operation))"
  using assms by (auto simp: slice_start_def split: if_splits option.splits)

lemma empty_slice_ok:
  assumes "slice_start cfg target = Ok operation"
  shows "result_ok (st_instructions (cf_state cfg)) (first_step cfg target operation) (empty_slice cfg target operation)"
    and "state_ok (empty_slice cfg target operation, [])"
  using slice_start_Ok(1-3) [OF assms]
  by (auto simp: result_ok_def empty_slice_def bounds_ok_def slice_limits first_step_def step_anchored_def state_ok_def
      pending_ok_def)

definition initial_run :: "pcode_cfg_function_ir \<Rightarrow> pcode_slice_target \<Rightarrow> pcode_state_operation \<Rightarrow> slice_run" where
  \<comment> \<open>the loop state after the selected inputs have been added\<close>
  "initial_run cfg target operation =
     (let (r, pending) = add_inputs
           \<lparr>si_instruction_index = tg_instruction_index target, si_operation_index = tg_operation_index target\<rparr>
           (selected_inputs target (to_source operation)) (empty_slice cfg target operation, [])
      in \<lparr>sr_result = r, sr_pending = pending, sr_current = tg_instruction_index target,
          sr_operation_end = unat (tg_operation_index target), sr_visited = {}\<rparr>)"

lemma slice_cfg_run:
  assumes "slice_start cfg target = Ok operation"
  shows "slice_cfg cfg target =
    (let sr = initial_run cfg target operation in
     if sr_pending sr = [] \<or> bs_truncated (sr_result sr) then Some (Ok (sr_result sr))
     else run_loop (try_step (slice_step cfg)) sr)"
  using assms by (simp add: slice_cfg_def initial_run_def Let_def split: prod.split)

lemma initial_run_ok:
  assumes "slice_start cfg target = Ok operation" and "cfg_sane cfg"
  shows "state_ok (sr_result (initial_run cfg target operation), sr_pending (initial_run cfg target operation))"
    and "result_ok (st_instructions (cf_state cfg)) (first_step cfg target operation) (sr_result (initial_run cfg target operation))"
    and "\<not> bs_truncated (sr_result (initial_run cfg target operation)) \<Longrightarrow> sr_pending (initial_run cfg target operation) \<noteq> [] \<Longrightarrow>
      run_ok cfg (first_step cfg target operation) (initial_run cfg target operation)"
proof -
  let ?site = "\<lparr>si_instruction_index = tg_instruction_index target, si_operation_index = tg_operation_index target\<rparr>"
  obtain r pending where add: "add_inputs ?site (selected_inputs target (to_source operation))
      (empty_slice cfg target operation, []) = (r, pending)" by force
  from add_inputs_ok [OF empty_slice_ok(2) [OF assms(1)], of ?site "selected_inputs target (to_source operation)"] add
  have ok: "state_ok (r, pending)" "extends (empty_slice cfg target operation) r" by auto
  then show "state_ok (sr_result (initial_run cfg target operation), sr_pending (initial_run cfg target operation))"
    by (simp add: initial_run_def add)
  have "bounds_ok r" using ok(1) by (simp add: state_ok_def)
  from extends_result [OF empty_slice_ok(1) [OF assms(1)] ok(2) this]
  show res: "result_ok (st_instructions (cf_state cfg)) (first_step cfg target operation) (sr_result (initial_run cfg target operation))"
    by (simp add: initial_run_def add)
  assume "\<not> bs_truncated (sr_result (initial_run cfg target operation))" "sr_pending (initial_run cfg target operation) \<noteq> []"
  with ok(1) res assms(2) slice_start_Ok(1,2) [OF assms(1)]
  show "run_ok cfg (first_step cfg target operation) (initial_run cfg target operation)"
    by (simp add: run_ok_def initial_run_def add within_def Let_def)
qed

lemma slice_cfg_total:
  assumes "cfg_sane cfg"
  shows "\<exists>q. slice_cfg cfg target = Some q \<and> q \<noteq> Panic \<and> (\<forall>r. q = Ok r \<longrightarrow> slice_wf cfg target r)"
proof (cases "slice_start cfg target")
  case (Ok operation)
  let ?sr = "initial_run cfg target operation" and ?first = "first_step cfg target operation"
  have site: "sp_site ?first = \<lparr>si_instruction_index = tg_instruction_index target, si_operation_index = tg_operation_index target\<rparr>"
    by (simp add: first_step_def empty_slice_def)
  show ?thesis
  proof (cases "sr_pending ?sr = [] \<or> bs_truncated (sr_result ?sr)")
    case True
    with initial_run_ok(2) [OF Ok assms] site show ?thesis by (auto simp: slice_cfg_run [OF Ok] Let_def slice_wf_def)
  next
    case False
    then have inv: "run_ok cfg ?first ?sr" using initial_run_ok(3) [OF Ok assms] by simp
    from slice.returns [OF inv] obtain q where q: "run_loop (try_step (slice_step cfg)) ?sr = Some q" by blast
    from slice.exit_state [OF inv q] obtain t where t: "run_ok cfg ?first t" "try_step (slice_step cfg) t = Inr q" by blast
    from slice_step_post [OF t(1)] t(2) have "q \<noteq> Panic \<and> (\<forall>r. q = Ok r \<longrightarrow> slice_wf cfg target r)"
      using site by (cases q) (auto simp: slice_wf_def)
    with q False show ?thesis by (simp add: slice_cfg_run [OF Ok] Let_def)
  qed
next
  case Panic
  then show ?thesis by (auto simp: slice_start_def rbind_Panic split: if_splits)
qed (simp add: slice_cfg_def)

end
