(* ===== verification/Pcode_Simplify.thy ===== *)
theory Pcode_Simplify
  imports Pcode_StepSpec
begin

text \<open>
  \<^verbatim>\<open>hydir-ir/src/pcode/simplify.rs\<close>: the checked rewrite of \<^verbatim>\<open>INT_ADD x, 0\<close> into \<^verbatim>\<open>COPY x\<close>. The
  theory models the pass with its admission checks and its record of every rewrite, and proves what
  the module only claims locally: a function and its simplified form, run from any concrete state
  under any operation budget, end in the same state after the same operations.
\<close>

section \<open>Data\<close>

definition PCODE_SIMPLIFICATION_VERSION :: u32 where "PCODE_SIMPLIFICATION_VERSION = 1"

datatype pcode_simplification_rule = AddZeroToCopy

record pcode_simplification_rewrite =
  rw_instruction_index :: usize
  rw_operation_index :: usize
  rw_source_address :: pcode_address
  rw_sequence_index :: u32
  rw_rule :: pcode_simplification_rule
  rw_reason :: string
  rw_preconditions :: "string list"
  rw_before :: pcode_operation
  rw_after :: pcode_operation

record pcode_simplification_artifact =
  sm_schema_version :: u32
  sm_binary_sha256 :: string
  sm_source :: string
  sm_before :: pcode_function_ir
  sm_after :: pcode_function_ir
  sm_rewrites :: "pcode_simplification_rewrite list"
  sm_semantic_fidelity :: semantic_fidelity
  sm_verification :: verification_status

section \<open>The rewrite of one operation\<close>

definition valid_value_varnode :: "pcode_varnode \<Rightarrow> bool" where
  "valid_value_varnode node =
     (is_ok (validate_varnode node) \<and> size_in 1 8 (vn_size node) \<and>
      (case to_option (hex_u64 (vn_offset node)) of
         None \<Rightarrow> False
       | Some start \<Rightarrow> checked_add start (ucast (vn_size node - 1)) \<noteq> None))"

definition is_operation :: "pcode_exact_op \<Rightarrow> pcode_effect \<Rightarrow> bool" where
  \<comment> \<open>\<^verbatim>\<open>matches!(effect, PcodeEffect::Assign { operation, .. })\<close>\<close>
  "is_operation operation effect =
     (case effect of Assign operation' _ \<Rightarrow> operation' = operation | Opaque _ _ _ _ _ _ \<Rightarrow> False)"

fun position :: "('a \<Rightarrow> bool) \<Rightarrow> 'a list \<Rightarrow> nat option" where
  "position p [] = None"
| "position p (x # xs) = (if p x then Some 0 else map_option Suc (position p xs))"

definition literal_zero :: "pcode_varnode \<Rightarrow> bool" where
  "literal_zero node = (vn_space node = ''const'' \<and> to_option (hex_u64 (vn_offset node)) = Some 0)"

definition rewrite_preconditions :: "string list" where
  "rewrite_preconditions =
     [''instruction and operation source addresses and operation sequence metadata are valid'',
      ''opcode 19 has mnemonic INT_ADD, exactly two inputs, one output, and no user operation'',
      ''output and inputs are validated 1..=8 byte varnodes of equal width with bounded offsets'',
      ''output and retained input use register or unique storage; the removed input is literal const 0'',
      ''both source INT_ADD and replacement COPY have exact local P-code value semantics'']"

definition add_zero_replacement :: "pcode_operation \<Rightarrow> (pcode_operation \<times> string list) option" where
  "add_zero_replacement source =
     (if op_opcode source \<noteq> 19 \<or> op_mnemonic source \<noteq> ''INT_ADD'' \<or> op_userop_name source \<noteq> None \<or>
         length (op_inputs source) \<noteq> 2 \<or> \<not> is_operation Add (lower_operation source)
      then None
      else case op_output source of
        None \<Rightarrow> None
      | Some output \<Rightarrow>
          if \<not> valid_value_varnode output \<or> list_ex (\<lambda>node. \<not> valid_value_varnode node) (op_inputs source)
          then None
          else case position literal_zero (op_inputs source) of
            None \<Rightarrow> None
          | Some zero_index \<Rightarrow>
              let value = op_inputs source ! (1 - zero_index) in
              if \<not> scalar_space (vn_space value) then None
              else
                let replacement = source\<lparr>op_mnemonic := ''COPY'', op_opcode := 1, op_inputs := [value]\<rparr>
                in if \<not> is_operation Copy (lower_operation replacement) then None
                   else Some (replacement, rewrite_preconditions))"

section \<open>The pass\<close>

definition simplify_operation ::
  "usize \<Rightarrow> pcode_simplification_rewrite list \<Rightarrow> nat \<times> pcode_operation \<Rightarrow>
   pcode_simplification_rewrite list \<times> pcode_operation" where
  "simplify_operation instruction_index rewrites p =
     (let (operation_index, operation) = p in
      if unat (op_sequence_index operation) \<noteq> operation_index \<or> sint (op_sequence_time operation) < 0 \<or>
         \<not> is_ok (hex_u64 (pa_offset (op_source_address operation)))
      then (rewrites, operation)
      else case add_zero_replacement operation of
        None \<Rightarrow> (rewrites, operation)
      | Some (replacement, preconditions) \<Rightarrow>
          (rewrites @ [\<lparr>rw_instruction_index = instruction_index, rw_operation_index = operation_index,
             rw_source_address = op_source_address operation, rw_sequence_index = op_sequence_index operation,
             rw_rule = AddZeroToCopy,
             rw_reason = ''addition of the zero bitvector yields the other input at the same width'',
             rw_preconditions = preconditions, rw_before = operation, rw_after = replacement\<rparr>],
           replacement))"

definition simplify_instruction ::
  "pcode_simplification_rewrite list \<Rightarrow> nat \<times> pcode_instruction \<Rightarrow>
   pcode_simplification_rewrite list \<times> pcode_instruction" where
  "simplify_instruction rewrites p =
     (let (instruction_index, i) = p in
      if \<not> is_ok (hex_u64 (pa_offset (in_address i))) then (rewrites, i)
      else
        let (rewrites', operations) =
              map_accum (simplify_operation instruction_index) rewrites (List.enumerate 0 (in_pcode i))
        in (rewrites', i\<lparr>in_pcode := operations\<rparr>))"

definition simplify_checked :: "pcode_function_ir \<Rightarrow> (pcode_simplification_artifact, string) result" where
  "simplify_checked f =
     (if fi_schema_version f \<noteq> PCODE_IR_VERSION then Err ''unsupported raw P-code IR version''
      else if fi_source f \<noteq> ''ghidra_raw_pcode''
        then Err ''checked simplification requires Ghidra raw P-code''
      else if length (fi_binary_sha256 f) \<noteq> 64 \<or> \<not> list_all lower_hex (fi_binary_sha256 f)
        then Err ''raw P-code binary SHA-256 must be 64 lowercase hex digits''
      else if length (fi_instructions f) > MAX_INSTRUCTIONS \<or>
          list_ex (\<lambda>i. length (in_pcode i) > 256) (fi_instructions f) \<or>
          sum_list (map (length \<circ> in_pcode) (fi_instructions f)) > MAX_OPERATIONS
        then Err ''raw P-code exceeds checked simplification limits''
      else
        let (rewrites, instructions) =
              map_accum simplify_instruction [] (List.enumerate 0 (fi_instructions f));
            after = f\<lparr>fi_source := SIMPLIFICATION_SOURCE, fi_semantic_fidelity := Unknown,
                      fi_verification := NotRun, fi_instructions := instructions\<rparr>
        in Ok \<lparr>sm_schema_version = PCODE_SIMPLIFICATION_VERSION, sm_binary_sha256 = fi_binary_sha256 f,
               sm_source = SIMPLIFICATION_SOURCE, sm_before = f, sm_after = after, sm_rewrites = rewrites,
               sm_semantic_fidelity = Unknown, sm_verification = NotRun\<rparr>)"

section \<open>One rewritten operation\<close>

definition canonical :: "pcode_operation \<Rightarrow> pcode_semantic_operation" where
  "canonical source = \<lparr>so_source = source, so_effect = lower_operation source\<rparr>"

definition rewritten :: "pcode_operation \<Rightarrow> pcode_operation \<Rightarrow> bool" where
  "rewritten a b \<longleftrightarrow> b = a \<or> (\<exists>reasons. add_zero_replacement a = Some (b, reasons))"

lemma position_Some: "position p xs = Some i \<Longrightarrow> i < length xs \<and> p (xs ! i)"
  by (induction xs arbitrary: i) (auto split: if_splits)

lemma is_operation_iff: "is_operation operation effect \<longleftrightarrow> (\<exists>b. effect = Assign operation b)"
  by (cases effect) (auto simp: is_operation_def)

lemma add_zero_shape:
  assumes "add_zero_replacement a = Some (b, reasons)"
  shows "\<exists>z v out k. k \<le> 1 \<and> op_inputs a ! (1 - k) = z \<and> op_inputs a ! k = v \<and>
    length (op_inputs a) = 2 \<and> literal_zero z \<and> scalar_space (vn_space v) \<and> valid_value_varnode z \<and> valid_value_varnode v \<and>
    op_output a = Some out \<and> lower_operation a = Assign Add (vn_size out * 8) \<and>
    lower_operation b = Assign Copy (vn_size out * 8) \<and> vn_size v = vn_size out \<and> vn_size z = vn_size out \<and>
    b = a\<lparr>op_mnemonic := ''COPY'', op_opcode := 1, op_inputs := [v]\<rparr>"
proof -
  from assms obtain out zi where
    len: "length (op_inputs a) = 2" and add: "is_operation Add (lower_operation a)" and out: "op_output a = Some out"
    and valid: "list_all valid_value_varnode (op_inputs a)" and zi: "position literal_zero (op_inputs a) = Some zi"
    and b: "b = a\<lparr>op_mnemonic := ''COPY'', op_opcode := 1, op_inputs := [op_inputs a ! (1 - zi)]\<rparr>"
    and copy: "is_operation Copy (lower_operation b)" and scalar: "scalar_space (vn_space (op_inputs a ! (1 - zi)))"
    by (auto simp: add_zero_replacement_def Let_def list_ex_iff list_all_iff split: if_splits option.splits)
  from position_Some [OF zi] len have z: "zi \<le> 1" "literal_zero (op_inputs a ! zi)" by auto
  from add obtain w where w: "lower_operation a = Assign Add w" by (auto simp: is_operation_iff)
  from copy obtain w' where w': "lower_operation b = Assign Copy w'" by (auto simp: is_operation_iff)
  have wa: "w = vn_size out * 8" "map vn_size (op_inputs a) = [vn_size out, vn_size out]"
    using w out by (auto elim!: lower_Assign)
  have wb: "w' = vn_size out * 8" using w' out b by (auto elim!: lower_Assign)
  from len obtain x y where xy: "op_inputs a = [x, y]" by (auto simp: length_Suc_conv numeral_2_eq_2)
  from z(1) have "zi = 0 \<or> zi = 1" by auto
  then show ?thesis
    using z(2) xy valid wa wb w w' out b len scalar by (intro exI [of _ "op_inputs a ! zi"] exI [of _ "op_inputs a ! (1 - zi)"]
        exI [of _ out] exI [of _ "1 - zi"]) auto
qed

lemma read_literal_zero:
  assumes "literal_zero z" and "valid_value_varnode z"
  shows "read_varnode_wide s z = Ok (Some 0)" and "check_constant (z, 0) = Ok ()"
proof -
  from assms have z: "vn_space z = ''const''" "hex_u64 (vn_offset z) = Ok 0" "size_in 1 16 (vn_size z)"
    by (auto simp: literal_zero_def valid_value_varnode_def intro: size_in_8_16)
  with bits_of_bounds [OF z(3)] show "read_varnode_wide s z = Ok (Some 0)" "check_constant (z, 0) = Ok ()"
    by (simp_all add: read_varnode_wide_def check_constant_def mask_wide_eq)
qed

lemma evaluate_canonical:
  assumes "lower_operation x = Assign operation b" and "length inputs = length (op_inputs x)" and "constants_agree x inputs"
  shows "evaluate_exact_wide (canonical x) inputs =
    (let ws = map bits_of (op_inputs x)
     in map_ok (\<lambda>v. Some (take_bit (unat b) v)) (evaluate_value operation (masked inputs ws) ws (unat b)))"
  using evaluate_wide_run [of "canonical x" operation b inputs] assms by (simp add: canonical_def)

inductive stop_matches :: "execution_stop \<Rightarrow> execution_stop \<Rightarrow> bool" where
  \<comment> \<open>two runs stop for the same reason at the same operation, up to its rewrite\<close>
  same: "stop_matches e e"
| missing: "rewritten a b \<Longrightarrow> stop_matches (MissingInput a i v) (MissingInput b 0 v)"
| invalid: "rewritten a b \<Longrightarrow> stop_matches (InvalidOperation a m) (InvalidOperation b m)"
| budget: "rewritten a b \<Longrightarrow> stop_matches (OperationBudget a) (OperationBudget b)"

definition step_matches :: "executed_operation \<Rightarrow> executed_operation \<Rightarrow> bool" where
  "step_matches x y \<longleftrightarrow> rewritten (ex_source x) (ex_source y) \<and> ex_output_value y = ex_output_value x \<and>
     ex_memory_access y = ex_memory_access x"

definition outcome_matches :: "(executed_operation, execution_stop) result \<Rightarrow> (executed_operation, execution_stop) result \<Rightarrow> bool" where
  "outcome_matches r q =
     (case (r, q) of (Ok x, Ok y) \<Rightarrow> step_matches x y | (Err e, Err e') \<Rightarrow> stop_matches e e' | (Panic, Panic) \<Rightarrow> True | _ \<Rightarrow> False)"

lemma rewritten_refl [simp]: "rewritten a a"
  by (simp add: rewritten_def)

lemma outcome_matches_refl [simp]: "outcome_matches r r"
  by (cases r) (auto simp: outcome_matches_def step_matches_def intro: stop_matches.same)

lemma read_two:
  assumes "op_inputs a = [x, y]"
  shows "read_inputs a s =
    rbind (rbind (map_err (InvalidOperation a) (read_varnode_wide s x)) (\<lambda>k. ok_or (MissingInput a 0 x) k)) (\<lambda>p.
    rbind (rbind (map_err (InvalidOperation a) (read_varnode_wide s y)) (\<lambda>k. ok_or (MissingInput a 1 y) k)) (\<lambda>q. Ok [p, q]))"
  by (simp add: read_inputs_def assms map_ok_def rbind_assoc)

lemma read_one:
  assumes "op_inputs b = [x]"
  shows "read_inputs b s =
    rbind (rbind (map_err (InvalidOperation b) (read_varnode_wide s x)) (\<lambda>k. ok_or (MissingInput b 0 x) k)) (\<lambda>p. Ok [p])"
  by (simp add: read_inputs_def assms map_ok_def rbind_assoc)

lemma add_zero_evaluates:
  assumes "add_zero_replacement a = Some (b, reasons)"
  obtains z v out k w where "op_inputs b = [v]" "op_output a = Some out" "op_output b = Some out"
    "lower_operation a = Assign Add w" "lower_operation b = Assign Copy w" "op_inputs a = (if k = (0 :: nat) then [v, z] else [z, v])" "literal_zero z" "valid_value_varnode z"
    "\<And>x. evaluate_exact_wide (canonical a) (if k = 0 then [x, 0] else [0, x]) = Ok (Some (take_bit (bits_of out) x))"
    "\<And>x. evaluate_exact_wide (canonical b) [x] = Ok (Some (take_bit (bits_of out) x))"
proof -
  from add_zero_shape [OF assms] obtain z v out k where
    k: "k \<le> 1" and z: "op_inputs a ! (1 - k) = z" and v: "op_inputs a ! k = v" and len: "length (op_inputs a) = 2"
    and zero: "literal_zero z" "valid_value_varnode z" and scalar: "scalar_space (vn_space v)"
    and out: "op_output a = Some out" and low: "lower_operation a = Assign Add (vn_size out * 8)"
      "lower_operation b = Assign Copy (vn_size out * 8)" and sizes: "vn_size v = vn_size out" "vn_size z = vn_size out"
    and b: "b = a\<lparr>op_mnemonic := ''COPY'', op_opcode := 1, op_inputs := [v]\<rparr>"
    by blast
  have inputs: "op_inputs a = (if k = 0 then [v, z] else [z, v])"
  proof -
    from len obtain x y where "op_inputs a = [x, y]" by (auto simp: length_Suc_conv numeral_2_eq_2)
    moreover from k have "k = 0 \<or> k = 1" by auto
    ultimately show ?thesis using z v by auto
  qed
  have outb: "op_output b = Some out" "op_inputs b = [v]" using out b by simp_all
  have width: "unat (vn_size out * 8) = bits_of out" using lower_Assign_bits(1) [OF low(1) out] .
  have bits: "bits_of v = bits_of out" "bits_of z = bits_of out" using sizes by (simp_all add: bits_of_def)
  have free: "check_constant (v, x) = Ok ()" for x
    using scalar by (auto simp: check_constant_def scalar_space_def)
  have "evaluate_exact_wide (canonical a) (if k = 0 then [x, 0] else [0, x]) = Ok (Some (take_bit (bits_of out) x))" for x
    using k by (subst evaluate_canonical [OF low(1)])
      (simp_all add: inputs constants_agree_def free read_literal_zero(2) [OF zero] masked_def bits at2_def width Let_def)
  moreover have "evaluate_exact_wide (canonical b) [x] = Ok (Some (take_bit (bits_of out) x))" for x
    by (subst evaluate_canonical [OF low(2)])
      (simp_all add: outb constants_agree_def free masked_def bits at1_def width Let_def)
  ultimately show thesis using that [OF outb(2) out outb(1) low inputs zero] by blast
qed

lemma rewritten_executes:
  assumes "rewritten a b" and "execute_effect_operation spaces (canonical a) s img = (s', r)"
  shows "\<exists>q. execute_effect_operation spaces (canonical b) s img = (s', q) \<and> outcome_matches r q"
proof (cases "b = a")
  case True
  with assms(2) show ?thesis by auto
next
  case False
  with assms(1) obtain reasons where rep: "add_zero_replacement a = Some (b, reasons)" by (auto simp: rewritten_def)
  from rep obtain z v out k w where
    inb: "op_inputs b = [v]" and out: "op_output a = Some out" "op_output b = Some out"
    and low: "lower_operation a = Assign Add w" "lower_operation b = Assign Copy w"
    and ina: "op_inputs a = (if k = (0 :: nat) then [v, z] else [z, v])" and z: "literal_zero z" "valid_value_varnode z"
    and ev: "\<And>x. evaluate_exact_wide (canonical a) (if k = 0 then [x, 0] else [0, x]) = Ok (Some (take_bit (bits_of out) x))"
      "\<And>x. evaluate_exact_wide (canonical b) [x] = Ok (Some (take_bit (bits_of out) x))"
    by (rule add_zero_evaluates) blast
  have size: "length (op_inputs a) \<le> 256" "length (op_inputs b) \<le> 256" using ina inb by simp_all
  have run: "execute_effect_operation spaces (canonical x) s img =
      (case execute_exact_operation (canonical x) s of Ok (t, e) \<Rightarrow> (t, Ok e) | Err e \<Rightarrow> (s, Err e) | Panic \<Rightarrow> (s, Panic))"
    if "x \<in> {a, b}" for x
    using that low size by (auto simp: execute_effect_operation_def canonical_def)
  show ?thesis
  proof (cases "read_varnode_wide s v")
    case (Ok known)
    show ?thesis
    proof (cases known)
      case None
      have "execute_exact_operation (canonical a) s = Err (MissingInput a (if k = 0 then 0 else 1) v)"
        "execute_exact_operation (canonical b) s = Err (MissingInput b 0 v)"
        using Ok None ina inb
        by (cases "k = 0"; auto simp: execute_exact_operation_def canonical_def Let_def read_one read_two read_literal_zero(1) [OF z])+
      with run assms show ?thesis by (auto simp: outcome_matches_def intro: stop_matches.missing)
    next
      case (Some x)
      have "read_inputs a s = Ok (if k = 0 then [x, 0] else [0, x])" "read_inputs b s = Ok [x]"
        using Ok Some ina inb by (cases "k = 0"; auto simp: read_one read_two read_literal_zero(1) [OF z])+
      then have "execute_exact_operation (canonical a) s =
          rbind (map_err (InvalidOperation a) (write_varnode_wide s out (take_bit (bits_of out) x))) (\<lambda>t.
            Ok (t, \<lparr>ex_source = a, ex_input_values = (if k = 0 then [x, 0] else [0, x]),
              ex_output_value = Some (take_bit (bits_of out) x), ex_memory_access = None\<rparr>))"
        "execute_exact_operation (canonical b) s =
          rbind (map_err (InvalidOperation b) (write_varnode_wide s out (take_bit (bits_of out) x))) (\<lambda>t.
            Ok (t, \<lparr>ex_source = b, ex_input_values = [x],
              ex_output_value = Some (take_bit (bits_of out) x), ex_memory_access = None\<rparr>))"
        using ev [of x] out by (simp_all add: execute_exact_operation_def canonical_def Let_def)
      with run assms show ?thesis
        by (cases "write_varnode_wide s out (take_bit (bits_of out) x)")
          (auto simp: outcome_matches_def step_matches_def intro: stop_matches.invalid)
    qed
  next
    case (Err m)
    have "execute_exact_operation (canonical a) s = Err (InvalidOperation a m)"
      "execute_exact_operation (canonical b) s = Err (InvalidOperation b m)"
      using Err ina inb
      by (cases "k = 0"; auto simp: execute_exact_operation_def canonical_def Let_def read_one read_two read_literal_zero(1) [OF z])+
    with run assms show ?thesis by (auto simp: outcome_matches_def intro: stop_matches.invalid)
  next
    case Panic
    have "execute_exact_operation (canonical a) s = Panic" "execute_exact_operation (canonical b) s = Panic"
      using Panic ina inb
      by (cases "k = 0"; auto simp: execute_exact_operation_def canonical_def Let_def read_one read_two read_literal_zero(1) [OF z])+
    with run assms show ?thesis by (auto simp: outcome_matches_def)
  qed
qed

section \<open>The simplified function\<close>

definition instruction_rewritten :: "pcode_instruction \<Rightarrow> pcode_instruction \<Rightarrow> bool" where
  "instruction_rewritten i j \<longleftrightarrow> j\<lparr>in_pcode := in_pcode i\<rparr> = i \<and> list_all2 rewritten (in_pcode i) (in_pcode j)"

lemma map_accum_rel:
  assumes "\<And>s x t y. x \<in> set xs \<Longrightarrow> f s x = (t, y) \<Longrightarrow> R x y" and "map_accum f s xs = (t, ys)"
  shows "list_all2 R xs ys"
  using assms
proof (induction xs arbitrary: s ys)
  case (Cons x xs)
  then show ?case by (auto split: prod.splits)
qed auto

lemma enumerate_rel: "list_all2 (\<lambda>p y. R (snd p) y) (List.enumerate n xs) ys \<longleftrightarrow> list_all2 R xs ys"
  by (simp add: list_all2_conv_all_nth nth_enumerate_eq)

lemma simplify_operation_rewritten: "simplify_operation n rewrites p = (rewrites', b) \<Longrightarrow> rewritten (snd p) b"
  by (cases p) (auto simp: simplify_operation_def rewritten_def split: if_splits option.splits)

lemma simplify_instruction_rewritten:
  assumes "simplify_instruction rewrites p = (rewrites', j)"
  shows "instruction_rewritten (snd p) j"
proof (cases p)
  case (Pair n i)
  show ?thesis
  proof (cases "is_ok (hex_u64 (pa_offset (in_address i)))")
    case True
    obtain rs ops where run: "map_accum (simplify_operation n) rewrites (List.enumerate 0 (in_pcode i)) = (rs, ops)" by force
    have "list_all2 rewritten (in_pcode i) ops"
      using map_accum_rel [of _ "simplify_operation n" "\<lambda>p. rewritten (snd p)", OF simplify_operation_rewritten run]
      by (simp add: enumerate_rel)
    with assms Pair True run show ?thesis by (auto simp: simplify_instruction_def instruction_rewritten_def)
  next
    case False
    with assms Pair show ?thesis by (simp add: simplify_instruction_def instruction_rewritten_def list_all2_refl)
  qed
qed

lemma simplify_checked_Ok:
  assumes "simplify_checked f = Ok art"
  shows "sm_before art = f" "fi_source f = ''ghidra_raw_pcode''"
    "\<exists>is. sm_after art = f\<lparr>fi_source := SIMPLIFICATION_SOURCE, fi_semantic_fidelity := Unknown, fi_verification := NotRun,
        fi_instructions := is\<rparr> \<and> list_all2 instruction_rewritten (fi_instructions f) is"
proof -
  obtain rs "is" where run: "map_accum simplify_instruction [] (List.enumerate 0 (fi_instructions f)) = (rs, is)" by force
  have "list_all2 instruction_rewritten (fi_instructions f) is"
    using map_accum_rel [of _ simplify_instruction "\<lambda>p. instruction_rewritten (snd p)", OF simplify_instruction_rewritten run]
    by (simp add: enumerate_rel)
  with assms run show "sm_before art = f" "fi_source f = ''ghidra_raw_pcode''"
    "\<exists>is. sm_after art = f\<lparr>fi_source := SIMPLIFICATION_SOURCE, fi_semantic_fidelity := Unknown, fi_verification := NotRun,
        fi_instructions := is\<rparr> \<and> list_all2 instruction_rewritten (fi_instructions f) is"
    by (auto simp: simplify_checked_def split: if_splits)
qed

section \<open>Running it\<close>

definition same_run :: "prefix_run \<Rightarrow> prefix_run \<Rightarrow> bool" where
  "same_run r q \<longleftrightarrow> pf_state q = pf_state r \<and> list_all2 step_matches (pf_executed r) (pf_executed q)"

fun same_outcome :: "(unit, execution_stop) result \<Rightarrow> (unit, execution_stop) result \<Rightarrow> bool" where
  "same_outcome (Ok _) (Ok _) = True"
| "same_outcome (Err e) (Err e') = stop_matches e e'"
| "same_outcome Panic Panic = True"
| "same_outcome _ _ = False"

lemma run_operations_rewritten:
  assumes "list_all2 rewritten as bs" and "same_run r q"
    and "run_operations spaces n (map canonical as) r = (r', o1)" and "run_operations spaces n (map canonical bs) q = (q', o2)"
  shows "same_run r' q' \<and> same_outcome o1 o2"
  using assms
proof (induction arbitrary: r q rule: list_all2_induct)
  case (Cons a as b bs)
  from Cons.prems(1) have len: "length (pf_executed q) = length (pf_executed r)" and st: "pf_state q = pf_state r"
    by (auto simp: same_run_def dest: list_all2_lengthD)
  show ?case
  proof (cases "n \<le> length (pf_executed r)")
    case True
    with Cons.prems len Cons.hyps(1) show ?thesis by (auto simp: canonical_def intro: stop_matches.budget)
  next
    case False
    obtain s' p where step: "execute_effect_operation spaces (canonical a) (pf_state r) None = (s', p)" by force
    from rewritten_executes [OF Cons.hyps(1) this] obtain p' where
      step': "execute_effect_operation spaces (canonical b) (pf_state r) None = (s', p')" "outcome_matches p p'" by blast
    show ?thesis
    proof (cases p)
      case (Ok x)
      with step'(2) obtain y where y: "p' = Ok y" "step_matches x y" by (cases p') (auto simp: outcome_matches_def)
      have "same_run \<lparr>pf_state = s', pf_executed = pf_executed r @ [x]\<rparr> \<lparr>pf_state = s', pf_executed = pf_executed q @ [y]\<rparr>"
        using Cons.prems(1) y(2) by (simp add: same_run_def list_all2_appendI)
      from Cons.IH [OF this] Cons.prems(2,3) False len st step step'(1) Ok y(1) show ?thesis by simp
    next
      case (Err e)
      with step'(2) obtain e' where "p' = Err e'" "stop_matches e e'" by (cases p') (auto simp: outcome_matches_def)
      with Cons.prems False len st step step'(1) Err show ?thesis by (auto simp: same_run_def)
    next
      case Panic
      with step'(2) have "p' = Panic" by (cases p') (auto simp: outcome_matches_def)
      with Cons.prems False len st step step'(1) Panic show ?thesis by (auto simp: same_run_def)
    qed
  qed
qed auto

definition operations_rewritten :: "pcode_semantic_instruction \<Rightarrow> pcode_semantic_instruction \<Rightarrow> bool" where
  "operations_rewritten i j \<longleftrightarrow>
     (\<exists>as bs. si_operations i = map canonical as \<and> si_operations j = map canonical bs \<and> list_all2 rewritten as bs)"

lemma rewritten_count: "list_all2 operations_rewritten is js \<Longrightarrow> operation_count js = operation_count is"
proof (induction rule: list_all2_induct)
  case (Cons i "is" j js)
  then have "length (si_operations j) = length (si_operations i)"
    by (auto simp: operations_rewritten_def dest: list_all2_lengthD)
  with Cons.IH show ?case by (simp add: operation_count_def)
qed simp

lemma run_instructions_rewritten:
  assumes "list_all2 operations_rewritten is js"
    and "same_run r q"
    and "run_instructions spaces n is r = (r', o1)" and "run_instructions spaces n js q = (q', o2)"
  shows "same_run r' q' \<and> same_outcome o1 o2"
  using assms
proof (induction arbitrary: r q rule: list_all2_induct)
  case (Cons i "is" j js)
  from Cons.hyps(1) obtain as bs where ops: "si_operations i = map canonical as" "si_operations j = map canonical bs"
    "list_all2 rewritten as bs" unfolding operations_rewritten_def by blast
  let ?r = "r\<lparr>pf_state := clear_unique (pf_state r)\<rparr>" and ?q = "q\<lparr>pf_state := clear_unique (pf_state q)\<rparr>"
  obtain r1 p1 where one: "run_operations spaces n (si_operations i) ?r = (r1, p1)" by force
  obtain q1 p2 where two: "run_operations spaces n (si_operations j) ?q = (q1, p2)" by force
  have "same_run ?r ?q" using Cons.prems(1) by (simp add: same_run_def)
  from run_operations_rewritten [OF ops(3) this one [unfolded ops] two [unfolded ops]]
  have same: "same_run r1 q1" "same_outcome p1 p2" by auto
  show ?case
  proof (cases p1)
    case (Ok u)
    with same(2) have "p2 = Ok ()" by (cases p2) auto
    with Cons.IH [OF same(1)] Cons.prems(2,3) one two Ok show ?thesis by simp
  next
    case (Err e)
    with same(2) obtain e' where "p2 = Err e'" by (cases p2) auto
    with Cons.prems(2,3) one two Err same show ?thesis by auto
  next
    case Panic
    with same(2) have "p2 = Panic" by (cases p2) auto
    with Cons.prems(2,3) one two Panic same show ?thesis by auto
  qed
qed auto

definition trace_matches :: "execution_trace \<Rightarrow> execution_trace \<Rightarrow> bool" where
  "trace_matches t u \<longleftrightarrow> et_final_state u = et_final_state t \<and> list_all2 step_matches (et_executed t) (et_executed u) \<and>
     stop_matches (et_stop t) (et_stop u) \<and> et_entry u = et_entry t \<and> et_binary_sha256 u = et_binary_sha256 t"

fun result_matches :: "(execution_trace, string) result \<Rightarrow> (execution_trace, string) result \<Rightarrow> bool" where
  "result_matches (Ok t) (Ok u) = trace_matches t u"
| "result_matches (Err e) (Err e') = (e = e')"
| "result_matches Panic Panic = True"
| "result_matches _ _ = False"

lemma semantic_of_canonical: "si_operations (semantic_of i) = map canonical (in_pcode i)"
  by (simp add: semantic_of_operations canonical_def)

lemma simplified_runs_alike:
  assumes "simplify_checked f = Ok art"
  shows "result_matches (execute_exact_prefix_raw f s n) (execute_exact_prefix_raw (sm_after art) s n)"
proof -
  from simplify_checked_Ok [OF assms] obtain "is" where
    src: "fi_source f = ''ghidra_raw_pcode''" and
    after: "sm_after art = f\<lparr>fi_source := SIMPLIFICATION_SOURCE, fi_semantic_fidelity := Unknown, fi_verification := NotRun,
        fi_instructions := is\<rparr>" and rel: "list_all2 instruction_rewritten (fi_instructions f) is" by blast
  let ?f = "lower_semantics f" and ?g = "lower_semantics (sm_after art)"
  have each: "operations_rewritten (semantic_of i) (semantic_of j)" if "instruction_rewritten i j" for i j
    using that unfolding instruction_rewritten_def operations_rewritten_def semantic_of_canonical by blast
  have rel': "list_all2 operations_rewritten (se_instructions ?f) (se_instructions ?g)"
    using list_all2_mono [OF rel each] by (simp add: lower_semantics_instructions after list.rel_map)
  have fields: "se_schema_version ?g = se_schema_version ?f" "se_flow_overrides_applied ?g = se_flow_overrides_applied ?f"
    "se_language_id ?g = se_language_id ?f" "se_address_spaces ?g = se_address_spaces ?f" "se_entry ?g = se_entry ?f"
    "se_binary_sha256 ?g = se_binary_sha256 ?f" "se_source ?f = ''ghidra_raw_pcode''" "se_source ?g = SIMPLIFICATION_SOURCE"
    using src by (simp_all add: lower_semantics_def after split: prod.split)
  have "operation_count (se_instructions ?g) = operation_count (se_instructions ?f)"
    by (rule rewritten_count [OF rel'])
  then have checks: "validate_execution_setup ?g s n = validate_execution_setup ?f s n"
    using list_all2_lengthD [OF rel'] by (simp add: validate_execution_setup_def fields)
  obtain r o1 where one: "run_instructions (se_address_spaces ?f) n (se_instructions ?f) \<lparr>pf_state = s, pf_executed = []\<rparr> = (r, o1)"
    by force
  obtain q o2 where two: "run_instructions (se_address_spaces ?f) n (se_instructions ?g) \<lparr>pf_state = s, pf_executed = []\<rparr> = (q, o2)"
    by force
  have "same_run \<lparr>pf_state = s, pf_executed = []\<rparr> \<lparr>pf_state = s, pf_executed = []\<rparr>" by (simp add: same_run_def)
  from run_instructions_rewritten [OF rel' this one two]
  have same: "same_run r q" "same_outcome o1 o2" by auto
  show ?thesis
    unfolding execute_exact_prefix_raw_def execute_exact_prefix_def checks
    using same one two by (cases "validate_execution_setup ?f s n"; cases o1; cases o2)
      (auto simp: fields same_run_def trace_matches_def intro: stop_matches.same)
qed

section \<open>The record of the rewrites\<close>

definition new_operation :: "nat \<times> pcode_operation \<Rightarrow> pcode_operation" where
  "new_operation p = snd (simplify_operation 0 [] p)"

definition new_instruction :: "pcode_instruction \<Rightarrow> pcode_instruction" where
  "new_instruction i = snd (simplify_instruction [] (0, i))"

definition operation_log :: "nat \<Rightarrow> nat \<times> pcode_operation \<Rightarrow> pcode_simplification_rewrite list" where
  "operation_log n p = fst (simplify_operation n [] p)"

definition instruction_log :: "nat \<times> pcode_instruction \<Rightarrow> pcode_simplification_rewrite list" where
  "instruction_log p = fst (simplify_instruction [] p)"

lemma simplify_operation_log: "simplify_operation n rs p = (rs @ operation_log n p, new_operation p)"
  by (auto simp: simplify_operation_def operation_log_def new_operation_def split: prod.split option.split)

lemma simplify_instruction_log: "simplify_instruction rs p = (rs @ instruction_log p, new_instruction (snd p))"
  by (auto simp: simplify_instruction_def instruction_log_def new_instruction_def
      map_accum_log [of _ "simplify_operation _", OF simplify_operation_log] split: prod.split)

definition site_of :: "pcode_simplification_rewrite \<Rightarrow> nat \<times> nat" where
  "site_of rw = (rw_instruction_index rw, rw_operation_index rw)"

definition changed_sites :: "pcode_instruction list \<Rightarrow> pcode_instruction list \<Rightarrow> (nat \<times> nat) list" where
  \<comment> \<open>the positions where two functions differ, in order\<close>
  "changed_sites is js =
     concat (map (\<lambda>n. map (Pair n) (filter (\<lambda>k. in_pcode (is ! n) ! k \<noteq> in_pcode (js ! n) ! k) [0..<length (in_pcode (is ! n))]))
       [0..<length is])"

definition describes :: "pcode_instruction list \<Rightarrow> pcode_instruction list \<Rightarrow> pcode_simplification_rewrite \<Rightarrow> bool" where
  "describes is js rw =
     (let (n, k) = site_of rw; a = in_pcode (is ! n) ! k in
      rw_before rw = a \<and> rw_after rw = in_pcode (js ! n) ! k \<and> rw_source_address rw = op_source_address a \<and>
      rw_sequence_index rw = op_sequence_index a \<and> rw_preconditions rw = rewrite_preconditions)"

lemma replacement_differs: "add_zero_replacement a = Some (b, reasons) \<Longrightarrow> b \<noteq> a \<and> reasons = rewrite_preconditions"
  by (auto simp: add_zero_replacement_def Let_def split: if_splits option.splits dest: arg_cong [of _ _ op_opcode])

lemma operation_log_site:
  "map site_of (operation_log n (k, a)) = (if new_operation (k, a) = a then [] else [(n, k)])"
  "\<forall>rw \<in> set (operation_log n (k, a)). rw_before rw = a \<and> rw_after rw = new_operation (k, a) \<and>
     rw_source_address rw = op_source_address a \<and> rw_sequence_index rw = op_sequence_index a \<and>
     rw_preconditions rw = rewrite_preconditions"
  by (auto simp: operation_log_def new_operation_def simplify_operation_def site_of_def
      dest: replacement_differs split: option.split)

lemma new_instruction_pcode:
  "in_pcode (new_instruction i) =
    (if is_ok (hex_u64 (pa_offset (in_address i))) then map new_operation (List.enumerate 0 (in_pcode i)) else in_pcode i)"
  "instruction_log (n, i) =
    (if is_ok (hex_u64 (pa_offset (in_address i))) then concat (map (operation_log n) (List.enumerate 0 (in_pcode i))) else [])"
  by (simp_all add: new_instruction_def instruction_log_def simplify_instruction_def
      map_accum_log [of _ "simplify_operation _", OF simplify_operation_log])

lemma concat_enumerate: "concat (map f (List.enumerate 0 xs)) = concat (map (\<lambda>k. f (k, xs ! k)) [0..<length xs])"
  by (rule arg_cong [of _ _ concat], rule nth_equalityI) (simp_all add: nth_enumerate_eq)

lemma concat_filter: "concat (map (\<lambda>k. if P k then [] else [f k]) xs) = map f (filter (\<lambda>k. \<not> P k) xs)"
  by (induction xs) auto

lemma instruction_log_sites:
  "map site_of (instruction_log (n, i)) =
    map (Pair n) (filter (\<lambda>k. in_pcode i ! k \<noteq> in_pcode (new_instruction i) ! k) [0..<length (in_pcode i)])"
proof (cases "is_ok (hex_u64 (pa_offset (in_address i)))")
  case True
  have "map site_of (concat (map (operation_log n) (List.enumerate 0 (in_pcode i)))) =
      concat (map (\<lambda>k. map site_of (operation_log n (k, in_pcode i ! k))) [0..<length (in_pcode i)])"
    by (simp add: concat_enumerate map_concat o_def)
  also have "\<dots> = map (Pair n) (filter (\<lambda>k. new_operation (k, in_pcode i ! k) \<noteq> in_pcode i ! k) [0..<length (in_pcode i)])"
    by (simp add: operation_log_site(1) concat_filter)
  also have "filter (\<lambda>k. new_operation (k, in_pcode i ! k) \<noteq> in_pcode i ! k) [0..<length (in_pcode i)] =
      filter (\<lambda>k. in_pcode i ! k \<noteq> in_pcode (new_instruction i) ! k) [0..<length (in_pcode i)]"
    using True by (intro filter_cong) (auto simp: new_instruction_pcode nth_enumerate_eq)
  finally show ?thesis using True by (simp add: new_instruction_pcode)
qed (simp add: new_instruction_pcode)

lemma map_enumerate_snd: "map (\<lambda>x. f (snd x)) (List.enumerate n xs) = map f xs"
  by (rule nth_equalityI) (simp_all add: nth_enumerate_eq)

lemma simplify_checked_run:
  assumes "simplify_checked f = Ok art"
  shows "fi_instructions (sm_after art) = map new_instruction (fi_instructions f)"
    "sm_rewrites art = concat (map instruction_log (List.enumerate 0 (fi_instructions f)))"
  using assms
  by (auto simp: simplify_checked_def map_accum_log [of _ simplify_instruction, OF simplify_instruction_log]
      map_enumerate_snd split: if_splits)

lemma rewrites_exact:
  assumes "simplify_checked f = Ok art"
  shows "map site_of (sm_rewrites art) = changed_sites (fi_instructions f) (fi_instructions (sm_after art))"
    and "\<forall>rw \<in> set (sm_rewrites art). describes (fi_instructions f) (fi_instructions (sm_after art)) rw"
proof -
  note run = simplify_checked_run [OF assms]
  show "map site_of (sm_rewrites art) = changed_sites (fi_instructions f) (fi_instructions (sm_after art))"
    unfolding run changed_sites_def concat_enumerate map_concat
    by (rule arg_cong [of _ _ concat], rule nth_equalityI) (simp_all add: instruction_log_sites)
  show "\<forall>rw \<in> set (sm_rewrites art). describes (fi_instructions f) (fi_instructions (sm_after art)) rw"
  proof
    fix rw assume "rw \<in> set (sm_rewrites art)"
    then obtain n where n: "n < length (fi_instructions f)" "rw \<in> set (instruction_log (n, fi_instructions f ! n))"
      unfolding run concat_enumerate by auto
    let ?i = "fi_instructions f ! n"
    from n(2) have ok: "is_ok (hex_u64 (pa_offset (in_address ?i)))" by (auto simp: new_instruction_pcode split: if_splits)
    with n(2) obtain k where k: "k < length (in_pcode ?i)" "rw \<in> set (operation_log n (k, in_pcode ?i ! k))"
      unfolding new_instruction_pcode concat_enumerate by auto
    from k(2) have "site_of rw \<in> set (map site_of (operation_log n (k, in_pcode ?i ! k)))" by simp
    then have "site_of rw = (n, k)" by (auto simp: operation_log_site(1) split: if_splits)
    with k operation_log_site(2) [of n k "in_pcode ?i ! k"] n(1) ok
    show "describes (fi_instructions f) (fi_instructions (sm_after art)) rw"
      by (auto simp: describes_def run new_instruction_pcode nth_enumerate_eq)
  qed
qed

end
