(* ===== verification/Pcode_SliceSound.thy ===== *)
theory Pcode_SliceSound
  imports Pcode_SliceSpec Pcode_StepSpec Pcode_Simplify
begin

text \<open>
  What a backward slice is evidence of. A slice that leaves only literal constants and values at function
  entry behind explains its operands: two executions along the fallthrough chain that start from states
  agreeing on those entry values reach the selected operation with equal operands, whatever else their
  states and initial memories hold. The slice of a validated snapshot always exists.
\<close>

section \<open>Executions along the chain\<close>

inductive ops_run ::
  "ghidra_address_space list \<Rightarrow> initial_memory option \<Rightarrow> pcode_state_operation list \<Rightarrow> concrete_state \<Rightarrow> concrete_state \<Rightarrow> bool"
  for spaces img where
  \<comment> \<open>the operations execute one after the other\<close>
  ops_nil: "ops_run spaces img [] s s"
| ops_snoc: "ops_run spaces img ops s s' \<Longrightarrow> execute_effect_operation spaces (canonical (to_source opn)) s' img = (s'', Ok x) \<Longrightarrow>
    ops_run spaces img (ops @ [opn]) s s''"

inductive_cases ops_nilE [elim!]: "ops_run spaces img [] s s'"

lemma ops_snocE:
  assumes "ops_run spaces img (ops @ [opn]) s s''"
  obtains s' x where "ops_run spaces img ops s s'" "execute_effect_operation spaces (canonical (to_source opn)) s' img = (s'', Ok x)"
  using assms by (cases rule: ops_run.cases) auto

inductive chain_run ::
  "pcode_cfg_function_ir \<Rightarrow> ghidra_address_space list \<Rightarrow> initial_memory option \<Rightarrow> concrete_state \<Rightarrow> u32 \<Rightarrow> concrete_state \<Rightarrow> bool"
  for cfg spaces img start where
  \<comment> \<open>from the function entry to the start of an instruction, every instruction on the way executed in full\<close>
  chain_entry: "chain_run cfg spaces img start 0 (clear_unique start)"
| chain_follow: "chain_run cfg spaces img start p s \<Longrightarrow> unique_fallthrough_predecessor cfg n = Some p \<Longrightarrow>
    ops_run spaces img (ti_operations (st_instructions (cf_state cfg) ! unat p)) s s' \<Longrightarrow>
    chain_run cfg spaces img start n (clear_unique s')"

inductive_cases chain_runE: "chain_run cfg spaces img start n s"

lemma ops_run_wf: "ops_run spaces img ops s s' \<Longrightarrow> state_wf s \<Longrightarrow> state_wf s'"
  by (induction rule: ops_run.induct) (auto dest: effect_operation_spec(1))

lemma chain_run_wf: "chain_run cfg spaces img start n s \<Longrightarrow> state_wf start \<Longrightarrow> state_wf s"
  by (induction rule: chain_run.induct) (auto dest: ops_run_wf wf_run.keeps_clear)

definition agree :: "pcode_varnode set \<Rightarrow> concrete_state \<Rightarrow> concrete_state \<Rightarrow> bool" where
  "agree vs s t = (\<forall>v \<in> vs. read_varnode_wide s v = read_varnode_wide t v)"

lemma agreeD: "agree vs s t \<Longrightarrow> v \<in> vs \<Longrightarrow> read_varnode_wide s v = read_varnode_wide t v"
  by (simp add: agree_def)

section \<open>One operation in two runs\<close>

lemma overlaps_disjoint: "overlaps a b = Ok False \<Longrightarrow> nodes_disjoint a b"
  by (auto simp: overlaps_def nodes_disjoint_def node_start_def node_len_def word_less_nat_alt not_less unat_add_no_overflow unsigned_ucast_eq
      split: if_splits)

lemma read_scalar_cong:
  assumes "scalar_space (vn_space v)" and "cs_register_bytes s' = cs_register_bytes s" and "cs_unique_bytes s' = cs_unique_bytes s"
  shows "read_varnode_wide s' v = read_varnode_wide s v"
  unfolding read_varnode_wide_def assms(2,3) ..

lemma read_const_same: "vn_space v = ''const'' \<Longrightarrow> read_varnode_wide s v = read_varnode_wide t v"
  by (simp add: read_varnode_wide_def)

lemma copy_layout_output: "copy_layout source = Ok (inp, out) \<Longrightarrow> op_output source = Some out"
  by (auto simp: copy_layout_def split: if_splits option.splits list.splits)

lemma effect_frame:
  \<comment> \<open>an operation changes no scalar varnode that is disjoint from its output\<close>
  assumes "execute_effect_operation spaces opn s img = (s', Ok x)" and wf: "state_wf s" and v: "scalar_space (vn_space v)"
    and out: "\<And>out. op_output (so_source opn) = Some out \<Longrightarrow> nodes_disjoint out v"
  shows "read_varnode_wide s' v = read_varnode_wide s v"
  using assms(1) wf
proof (cases rule: effect_operation_cases)
  case (Exact operation b vs w dst)
  from read_frame [OF Exact(6) out [OF Exact(5)]] show ?thesis .
next
  case (Copy inp dst sp p b w)
  from read_frame [OF Copy(4) out [OF copy_layout_output [OF Copy(1)]]] show ?thesis .
next
  case (Memory m)
  note spec = commit_spec [OF Memory(1) wf Memory(3)] and plan = plan_Ok [OF Memory(1)]
  show ?thesis
  proof (cases "mp_kind m")
    case Load
    with spec(4) obtain dst where "op_output (so_source opn) = Some dst" "write_varnode_wide s dst (mp_value m) = Ok s'" by auto
    with read_frame out show ?thesis by blast
  next
    case Store
    with spec(5) have "store_bytes s (as_name (mp_space m)) (mp_byte_offset m) (mp_width m) (mp_value m) = (s', Ok ())" by simp
    note bytes = store_bytes_spec(3,4) [OF this wf plan(5)]
    show ?thesis by (rule read_scalar_cong [OF v bytes])
  qed
qed

lemma assigned_agree:
  \<comment> \<open>equal inputs give equal outputs\<close>
  assumes "assigned operation source s s'" and "assigned operation source t t'" and "op_output source = Some out"
    and inputs: "\<And>v. v \<in> set (op_inputs source) \<Longrightarrow> read_varnode_wide s v = read_varnode_wide t v"
  shows "read_varnode_wide s' out = read_varnode_wide t' out"
proof -
  from assms(1,3) obtain vs i where s: "list_all2 (\<lambda>node v. read_varnode_wide s node = Ok (Some v)) (op_inputs source) vs"
      "spec_value operation (map uint vs) (map bits_of (op_inputs source)) = Some i"
      "read_varnode_wide s' out = Ok (Some (word_of_int (i mod 2 ^ bits_of out)))" unfolding assigned_def by auto
  from assms(2,3) obtain us j where t: "list_all2 (\<lambda>node v. read_varnode_wide t node = Ok (Some v)) (op_inputs source) us"
      "spec_value operation (map uint us) (map bits_of (op_inputs source)) = Some j"
      "read_varnode_wide t' out = Ok (Some (word_of_int (j mod 2 ^ bits_of out)))" unfolding assigned_def by auto
  have "us = vs"
  proof (rule nth_equalityI)
    show "length us = length vs" using s(1) t(1) by (auto dest!: list_all2_lengthD)
    fix k assume "k < length us"
    with s(1) t(1) inputs [of "op_inputs source ! k"] show "us ! k = vs ! k" by (auto simp: list_all2_conv_all_nth)
  qed
  with s(2,3) t(2,3) show ?thesis by simp
qed

lemma flow_agree:
  assumes flow: "value_flow source (r, pending) (r', pending')" and clean: "clean r r'"
    and s: "execute_effect_operation spaces (canonical source) s img = (s', Ok x)" "state_wf s"
    and t: "execute_effect_operation spaces (canonical source) t img' = (t', Ok y)" "state_wf t"
    and scalar: "\<forall>v \<in> set pending. scalar_space (vn_space v)" and before: "agree (set pending') s t"
  shows "agree (set pending) s' t'"
  unfolding agree_def
proof
  fix v assume v: "v \<in> set pending"
  with scalar have sv: "scalar_space (vn_space v)" by blast
  have frame: "read_varnode_wide s' v = read_varnode_wide t' v"
    if "v \<in> set pending'" and "\<And>out. op_output source = Some out \<Longrightarrow> overlaps out v = Ok False"
  proof -
    have "nodes_disjoint out v" if "op_output (so_source (canonical source)) = Some out" for out
      using that \<open>\<And>out. op_output source = Some out \<Longrightarrow> overlaps out v = Ok False\<close> by (auto simp: canonical_def overlaps_disjoint)
    from effect_frame [OF s sv this] effect_frame [OF t sv this] agreeD [OF before that(1)] show ?thesis by simp
  qed
  from flow have known: "\<And>out. op_output source = Some out \<Longrightarrow> overlaps out v = Ok (hits out v)"
    using v by (simp add: value_flow_def)
  from flow consider
      (pass) "\<And>out. op_output source = Some out \<Longrightarrow> \<not> hits out v" "v \<in> set pending'"
    | (cut) out where "op_output source = Some out" "\<not> hits out v \<longrightarrow> v \<in> set pending'"
        "is_assign (lower_operation source)" "hits out v \<longrightarrow> v = out"
        "\<forall>input \<in> set (op_inputs source). vn_space input = ''const'' \<or> input \<in> set pending'"
    using v clean by (auto simp: value_flow_def)
  then show "read_varnode_wide s' v = read_varnode_wide t' v"
  proof cases
    case pass
    with known show ?thesis by (intro frame) auto
  next
    case (cut out)
    show ?thesis
    proof (cases "hits out v")
      case False
      with cut known show ?thesis by (intro frame) auto
    next
      case True
      from cut(3) obtain operation b where op: "so_effect (canonical source) = Assign operation b"
        by (auto simp: canonical_def is_assign_def split: pcode_effect.splits)
      have "read_varnode_wide s input = read_varnode_wide t input" if "input \<in> set (op_inputs source)" for input
        using cut(5) that agreeD [OF before] read_const_same by blast
      with assigned_agree [of operation source s s' t t' out] assign_step [OF s(1) op] assign_step [OF t(1) op] cut True
      show ?thesis by (simp add: canonical_def)
    qed
  qed
qed

section \<open>One instruction in two runs\<close>

definition grows :: "pcode_backward_slice \<Rightarrow> pcode_backward_slice \<Rightarrow> bool" where
  "grows r r' = (\<exists>new. bs_boundaries r' = bs_boundaries r @ new)"

lemma grows_refl [simp]: "grows r r"
  by (simp add: grows_def)

lemma grows_trans [trans]: "grows r r' \<Longrightarrow> grows r' r'' \<Longrightarrow> grows r r''"
  by (auto simp: grows_def)

lemma extends_grows: "extends r r' \<Longrightarrow> grows r r'"
  by (auto simp: extends_def grows_def)

lemma grows_clean:
  assumes "grows r r'" and "grows r' r''" and "clean r r''"
  shows "clean r r'" and "clean r' r''"
  using assms by (auto simp: grows_def clean_def)

lemma scan_grows:
  assumes "scan_post is first st r"
  shows "r = Ok (Inl st') \<Longrightarrow> grows (fst st) (fst st')" and "r = Ok (Inr finished) \<Longrightarrow> grows (fst st) finished"
  using assms by (simp_all add: scan_post_def grows_def)

fun scanned :: "slice_state + pcode_backward_slice \<Rightarrow> slice_state" where
  \<comment> \<open>the state after a scan: nothing is pending in a finished slice\<close>
  "scanned (Inl st) = st"
| "scanned (Inr r) = (r, [])"

lemma instruction_agree:
  assumes "slice_instruction instruction current n st = Ok q" and "clean (fst st) (fst (scanned q))"
    and "within st" and "result_ok is first (fst st)" and "unat current < length is" "instruction = is ! unat current"
    and "n \<le> length (ti_operations instruction)" "length (ti_operations instruction) < 2 ^ 32"
    and "ops_run spaces img (take n (ti_operations instruction)) s s'" "state_wf s"
    and "ops_run spaces img' (take n (ti_operations instruction)) t t'" "state_wf t"
    and "agree (set (snd (scanned q))) s t"
  shows "agree (set (snd st)) s' t'"
  using assms
proof (induction n arbitrary: st s' t')
  case 0
  then show ?case by auto
next
  case (Suc n)
  let ?op = "ti_operations instruction ! n"
  obtain r pending where st: "st = (r, pending)" by force
  have post: "slice_post is first (to_source ?op) st (slice_operation instruction current n st)"
    unfolding st using Suc.prems by (intro slice_operation_post) (simp_all add: st)
  have take: "take (Suc n) (ti_operations instruction) = take n (ti_operations instruction) @ [?op]"
    using Suc.prems(7) by (simp add: take_Suc_conv_app_nth)
  from Suc.prems(9) take obtain s1 x where s: "ops_run spaces img (take n (ti_operations instruction)) s s1"
      "execute_effect_operation spaces (canonical (to_source ?op)) s1 img = (s', Ok x)" by (auto elim: ops_snocE)
  from Suc.prems(11) take obtain t1 y where t: "ops_run spaces img' (take n (ti_operations instruction)) t t1"
      "execute_effect_operation spaces (canonical (to_source ?op)) t1 img' = (t', Ok y)" by (auto elim: ops_snocE)
  note wf = ops_run_wf [OF s(1) Suc.prems(10)] ops_run_wf [OF t(1) Suc.prems(12)]
  have scalar: "\<forall>v \<in> set pending. scalar_space (vn_space v)"
    using Suc.prems(3) by (simp add: st within_def state_ok_def pending_ok_def)
  from Suc.prems(1) obtain p where p: "slice_operation instruction current n st = Ok p"
    and rest: "(case p of Inl st' \<Rightarrow> slice_instruction instruction current n st' | Inr finished \<Rightarrow> Ok (Inr finished)) = Ok q"
    by auto
  show ?case
  proof (cases p)
    case (Inr finished)
    with rest post p Suc.prems(2) have "value_flow (to_source ?op) (r, pending) (finished, [])" "clean r finished"
      by (auto simp: slice_post_def st)
    from flow_agree [OF this s(2) wf(1) t(2) wf(2) scalar] show ?thesis by (simp add: st agree_def)
  next
    case (Inl st')
    with post p have st': "within st'" "result_ok is first (fst st')" "grows r (fst st')" "value_flow (to_source ?op) st st'"
      by (simp_all add: slice_post_def st grows_def)
    from Inl rest have q: "slice_instruction instruction current n st' = Ok q" by simp
    have "scan_post is first st' (slice_instruction instruction current n st')"
      using Suc.prems by (intro slice_instruction_post [OF st'(1,2)]) simp_all
    from scan_grows [OF this [unfolded q]] have "grows (fst st') (fst (scanned q))" by (cases q) auto
    note clean = grows_clean [OF st'(3) this Suc.prems(2) [unfolded st fst_conv]]
    have "agree (set (snd st')) s1 t1"
      using Suc.prems by (intro Suc.IH [OF q clean(2) st'(1,2) _ _ _ _ s(1) _ t(1)]) simp_all
    moreover have "value_flow (to_source ?op) (r, pending) (fst st', snd st')" using st'(4) by (simp add: st)
    ultimately show ?thesis
      unfolding st snd_conv by (intro flow_agree [OF _ clean(1) s(2) wf(1) t(2) wf(2) scalar])
  qed
qed

section \<open>The chain in two runs\<close>

definition reaches ::
  "pcode_cfg_function_ir \<Rightarrow> ghidra_address_space list \<Rightarrow> initial_memory option \<Rightarrow> concrete_state \<Rightarrow> u32 \<Rightarrow> nat \<Rightarrow> concrete_state \<Rightarrow> bool" where
  \<comment> \<open>the run that enters the function in \<open>start\<close> has come to an operation of an instruction of the chain\<close>
  "reaches cfg spaces img start n k s =
     (state_wf start \<and> (\<exists>s0. chain_run cfg spaces img start n s0 \<and>
        ops_run spaces img (take k (ti_operations (st_instructions (cf_state cfg) ! unat n))) s0 s))"

definition entry_values :: "pcode_backward_slice \<Rightarrow> pcode_varnode set" where
  "entry_values r = {v. \<exists>b \<in> set (bs_boundaries r). bd_kind b = SbEntryValue \<and> bd_varnode b = Some v}"

definition explained :: "pcode_cfg_function_ir \<Rightarrow> pcode_backward_slice \<Rightarrow> u32 \<Rightarrow> nat \<Rightarrow> pcode_varnode set \<Rightarrow> bool" where
  \<comment> \<open>at this operation the values depend on the entry values of the slice only\<close>
  "explained cfg r n k vs =
     (\<forall>spaces img img' start start' s t.
        reaches cfg spaces img start n k s \<longrightarrow> reaches cfg spaces img' start' n k t \<longrightarrow>
        agree (entry_values r) start start' \<longrightarrow> agree vs s t)"

lemma boundaries_recorded:
  assumes "bounds_ok r" and "kind \<noteq> SbBudget" and "\<not> bs_truncated (boundaries_for kind nodes site r)" and "v \<in> set nodes"
  shows "\<exists>b \<in> set (bs_boundaries (boundaries_for kind nodes site r)). bd_kind b = kind \<and> bd_varnode b = Some v"
  using assms
proof (induction nodes arbitrary: r)
  case (Cons w nodes)
  let ?r = "record_boundary kind (Some w) site r"
  note one = record_boundary_ok [OF Cons.prems(1,2), of "Some w" site]
  have step: "boundaries_for kind (w # nodes) site r = boundaries_for kind nodes site ?r" by (simp add: boundaries_for_def)
  from boundaries_for_ok [OF one(1) Cons.prems(2), of nodes site]
  have ext: "extends ?r (boundaries_for kind nodes site ?r)" by blast
  show ?case
  proof (cases "v = w")
    case False
    with Cons.IH [OF one(1) Cons.prems(2)] Cons.prems(3,4) step show ?thesis by auto
  next
    case True
    have "\<not> bs_truncated ?r" using ext Cons.prems(3) by (auto simp: step extends_def)
    then have "\<lparr>bd_kind = kind, bd_varnode = Some w, bd_site = site\<rparr> \<in> set (bs_boundaries ?r)"
      by (auto simp: record_boundary_def push_boundary_def split: if_splits)
    moreover from ext have "set (bs_boundaries ?r) \<subseteq> set (bs_boundaries (boundaries_for kind nodes site ?r))"
      by (auto simp: extends_def)
    ultimately show ?thesis unfolding step True by force
  qed
qed simp

lemma clear_unique_registers: "cs_register_bytes (clear_unique s) = cs_register_bytes s"
  by (simp add: clear_unique_def)

lemma clear_unique_read: "vn_space v \<noteq> ''unique'' \<Longrightarrow> read_varnode_wide (clear_unique s) v = read_varnode_wide s v"
  unfolding read_varnode_wide_def clear_unique_registers by (cases "vn_space v = ''register''") simp_all

lemma agree_clear: "agree vs s t \<Longrightarrow> (\<And>v. v \<in> vs \<Longrightarrow> vn_space v \<noteq> ''unique'') \<Longrightarrow> agree vs (clear_unique s) (clear_unique t)"
  by (simp add: agree_def clear_unique_read)

lemma reachesE:
  assumes "reaches cfg spaces img start n k s"
  obtains s0 where "reaches cfg spaces img start n 0 s0" "state_wf start" "state_wf s0"
    "ops_run spaces img (take k (ti_operations (st_instructions (cf_state cfg) ! unat n))) s0 s"
proof -
  from assms obtain s0 where s0: "state_wf start" "chain_run cfg spaces img start n s0"
      "ops_run spaces img (take k (ti_operations (st_instructions (cf_state cfg) ! unat n))) s0 s"
    by (auto simp: reaches_def)
  moreover from s0(1,2) have "reaches cfg spaces img start n 0 s0" by (auto simp: reaches_def intro: ops_nil)
  moreover from s0(1,2) have "state_wf s0" by (blast intro: chain_run_wf)
  ultimately show thesis using that by blast
qed

lemma reaches_start: "reaches cfg spaces img start n 0 s \<Longrightarrow> chain_run cfg spaces img start n s"
  by (auto simp: reaches_def)

lemma explained_empty: "explained cfg r n k {}"
  by (simp add: explained_def agree_def)

lemma scan_explained:
  assumes q: "slice_instruction instruction current k st = Ok q" "clean (fst st) (fst (scanned q))"
    and st: "within st" "result_ok is first (fst st)" and i: "is = st_instructions (cf_state cfg)" "unat current < length is"
      "instruction = is ! unat current" "k \<le> length (ti_operations instruction)" "length (ti_operations instruction) < 2 ^ 32"
    and start: "explained cfg r current 0 (set (snd (scanned q)))"
  shows "explained cfg r current k (set (snd st))"
  unfolding explained_def
proof (intro allI impI)
  fix spaces img img' start start' s t
  assume s: "reaches cfg spaces img start current k s" and t: "reaches cfg spaces img' start' current k t"
    and entry: "agree (entry_values r) start start'"
  obtain s0 where s0: "reaches cfg spaces img start current 0 s0" "state_wf s0"
      "ops_run spaces img (take k (ti_operations instruction)) s0 s"
    unfolding i(1,3) by (rule reachesE [OF s])
  obtain t0 where t0: "reaches cfg spaces img' start' current 0 t0" "state_wf t0"
      "ops_run spaces img' (take k (ti_operations instruction)) t0 t"
    unfolding i(1,3) by (rule reachesE [OF t])
  from start s0(1) t0(1) entry have "agree (set (snd (scanned q))) s0 t0" by (simp add: explained_def)
  with instruction_agree [OF q st i(2-5) s0(3,2) t0(3,2)] show "agree (set (snd st)) s t" by simp
qed

lemma follow_explained:
  assumes "unique_fallthrough_predecessor cfg n = Some p" and "\<And>v. v \<in> vs \<Longrightarrow> vn_space v \<noteq> ''unique''"
    and "explained cfg r p (length (ti_operations (st_instructions (cf_state cfg) ! unat p))) vs"
  shows "explained cfg r n 0 vs"
  unfolding explained_def
proof (intro allI impI)
  let ?ops = "ti_operations (st_instructions (cf_state cfg) ! unat p)"
  have last: "\<exists>s'. s = clear_unique s' \<and> reaches cfg spaces img start p (length ?ops) s'"
    if "reaches cfg spaces img start n 0 s" for spaces img start s
  proof -
    have wf: "state_wf start" using that by (simp add: reaches_def)
    from reaches_start [OF that] show ?thesis
      by (rule chain_runE) (use wf assms(1) in \<open>auto simp: reaches_def unique_fallthrough_predecessor_def\<close>)
  qed
  fix spaces img img' start start' s t
  assume "reaches cfg spaces img start n 0 s" and "reaches cfg spaces img' start' n 0 t"
    and entry: "agree (entry_values r) start start'"
  with last obtain s' t' where "s = clear_unique s'" "reaches cfg spaces img start p (length ?ops) s'"
    "t = clear_unique t'" "reaches cfg spaces img' start' p (length ?ops) t'" by metis
  with assms(3) entry agree_clear [OF _ assms(2)] show "agree vs s t" by (auto simp: explained_def)
qed

lemma entry_explained:
  assumes "vs \<subseteq> entry_values r" and "\<And>v. v \<in> vs \<Longrightarrow> vn_space v \<noteq> ''unique''"
  shows "explained cfg r 0 0 vs"
  unfolding explained_def
proof (intro allI impI)
  have start: "s = clear_unique start" if "reaches cfg spaces img start 0 0 s" for spaces img start s
    using reaches_start [OF that] by (rule chain_runE) (auto simp: unique_fallthrough_predecessor_def)
  fix spaces img img' start start' s t
  assume "reaches cfg spaces img start 0 0 s" "reaches cfg spaces img' start' 0 0 t" "agree (entry_values r) start start'"
  then have "s = clear_unique start" "t = clear_unique start'" "agree vs start start'"
    using start assms(1) by (auto simp: agree_def)
  with agree_clear [OF _ assms(2)] show "agree vs s t" by simp
qed

lemma chain_explained:
  assumes inv: "run_ok cfg first sr" and q: "chain_step cfg sr = Ok q" and temps: "\<forall>v \<in> set (sr_pending sr). vn_space v \<noteq> ''unique''"
  shows "\<And>sr'. q = Inl sr' \<Longrightarrow> sr_pending sr' = sr_pending sr \<and>
      (\<forall>r. explained cfg r (sr_current sr') (sr_operation_end sr') (set (sr_pending sr')) \<longrightarrow>
        explained cfg r (sr_current sr) 0 (set (sr_pending sr)))"
    and "\<And>r. q = Inr r \<Longrightarrow> grows (sr_result sr) r \<and> (clean (sr_result sr) r \<longrightarrow> explained cfg r (sr_current sr) 0 (set (sr_pending sr)))"
proof -
  let ?P = "sr_pending sr" and ?r = "sr_result sr"
  from inv have ok: "bounds_ok ?r" "\<not> bs_truncated ?r" "?P \<noteq> []" "cfg_sane cfg"
    by (simp_all add: run_ok_def Let_def within_def state_ok_def)
  { fix sr' assume "q = Inl sr'"
    with q obtain p where p: "unique_fallthrough_predecessor cfg (sr_current sr) = Some p"
      and sr': "sr' = sr\<lparr>sr_current := p, sr_operation_end := length (ti_operations (st_instructions (cf_state cfg) ! unat p))\<rparr>"
      by (auto simp: chain_step_def split: option.splits if_splits)
    with follow_explained [OF p, of "set ?P"] temps
    show "sr_pending sr' = sr_pending sr \<and>
      (\<forall>r. explained cfg r (sr_current sr') (sr_operation_end sr') (set (sr_pending sr')) \<longrightarrow>
        explained cfg r (sr_current sr) 0 (set (sr_pending sr)))" by simp }
  { fix r assume "q = Inr r"
    with q obtain entry where entry: "at_entry cfg (sr_current sr) = Ok entry"
      and r: "r = (if entry then boundaries_for SbEntryValue ?P None else control_boundary ?P None) ?r"
      by (auto simp: chain_step_def split: option.splits if_splits)
    note both = boundaries_for_ok [OF ok(1), of SbEntryValue ?P None] boundaries_for_ok [OF ok(1), of SbControlFlow ?P None]
    have "grows ?r r" using both by (auto simp: r control_boundary_def intro: extends_grows)
    moreover have "explained cfg r (sr_current sr) 0 (set ?P)" if c: "clean ?r r"
    proof -
      have entry': "entry"
        using boundaries_for_clean [OF ok(1-3), of SbControlFlow None] c by (auto simp: r control_boundary_def split: if_splits)
      have "\<not> bs_truncated r" using clean_not_truncated [OF ok(1) _ ok(2) c] both(1) entry' by (simp add: r)
      with boundaries_recorded [OF ok(1), of SbEntryValue ?P None] entry' have "set ?P \<subseteq> entry_values r"
        by (auto simp: r entry_values_def)
      moreover have "sr_current sr = 0" using entry entry' by (auto simp: at_entry_def split: if_splits)
      ultimately show ?thesis using entry_explained [of "set ?P" r cfg] temps by simp
    qed
    ultimately show "grows ?r r \<and> (clean ?r r \<longrightarrow> explained cfg r (sr_current sr) 0 (set ?P))" by blast }
qed

section \<open>The loop in two runs\<close>

definition step_explains :: "pcode_cfg_function_ir \<Rightarrow> slice_run \<Rightarrow> slice_run + pcode_backward_slice \<Rightarrow> bool" where
  "step_explains cfg sr q =
     (case q of
        Inl sr' \<Rightarrow> grows (sr_result sr) (sr_result sr') \<and>
          (clean (sr_result sr) (sr_result sr') \<longrightarrow>
            (\<forall>r. explained cfg r (sr_current sr') (sr_operation_end sr') (set (sr_pending sr')) \<longrightarrow>
              explained cfg r (sr_current sr) (sr_operation_end sr) (set (sr_pending sr))))
      | Inr r \<Rightarrow> grows (sr_result sr) r \<and>
          (clean (sr_result sr) r \<longrightarrow> explained cfg r (sr_current sr) (sr_operation_end sr) (set (sr_pending sr))))"

lemma stop_explains: "extends (sr_result sr) r \<Longrightarrow> \<not> clean (sr_result sr) r \<Longrightarrow> step_explains cfg sr (Inr r)"
  by (simp add: step_explains_def extends_grows)

lemma slice_step_explains:
  assumes inv: "run_ok cfg first sr" and q: "slice_step cfg sr = Ok q"
  shows "step_explains cfg sr q"
proof -
  let ?is = "st_instructions (cf_state cfg)" and ?r = "sr_result sr" and ?n = "unat (sr_current sr)" and ?P = "sr_pending sr"
  let ?i = "?is ! ?n"
  from inv have ok: "cfg_sane cfg" "within (?r, ?P)" "result_ok ?is first ?r" "?n < length ?is"
      "sr_operation_end sr \<le> length (ti_operations ?i)" by (auto simp: run_ok_def Let_def)
  then have r: "bounds_ok ?r" "\<not> bs_truncated ?r" "?P \<noteq> []" by (simp_all add: within_def state_ok_def)
  show ?thesis
  proof (cases "unat (bs_instructions_examined ?r) \<ge> MAX_PCODE_SLICE_INSTRUCTIONS")
    case True
    note b = budget_boundary_ok [OF r(1), of ?P None]
    have "\<not> clean ?r (budget_boundary ?P None ?r)" using clean_not_truncated [OF r(1) b(1) r(2)] b(3) by blast
    with b(2) q True show ?thesis by (auto simp: slice_step_def intro: stop_explains)
  next
    case budget: False
    show ?thesis
    proof (cases "sr_current sr \<in> sr_visited sr")
      case True
      have "\<not> clean ?r (control_boundary ?P None ?r)"
        using boundaries_for_clean [OF r(1-3), of SbControlFlow None] by (auto simp: control_boundary_def)
      with boundaries_for_ok [OF r(1), of SbControlFlow ?P None] q True budget show ?thesis
        by (auto simp: slice_step_def control_boundary_def intro: stop_explains)
    next
      case False
      let ?r1 = "?r\<lparr>bs_instructions_examined := bs_instructions_examined ?r + 1\<rparr>"
      let ?scan = "slice_instruction ?i (sr_current sr) (sr_operation_end sr) (?r1, ?P)"
      have inc: "unat (bs_instructions_examined ?r + 1) = Suc (unat (bs_instructions_examined ?r))"
        using budget by (simp add: unat_word_ariths slice_limits)
      have r1: "within (?r1, ?P)" "result_ok ?is first ?r1"
        using ok(2,3) inc budget by (auto simp: within_def state_ok_def bounds_ok_def result_ok_def)
      have same: "clean ?r1 = clean ?r" "grows ?r1 = grows ?r" by (simp_all add: clean_def grows_def fun_eq_iff)
      have len: "length (ti_operations ?i) < 2 ^ 32" using ok(1,4) by (auto simp: cfg_sane_def)
      have post: "scan_post ?is first (?r1, ?P) ?scan" using r1 ok(4,5) len by (intro slice_instruction_post) simp_all
      from q budget False ok(4) obtain q1 where q1: "?scan = Ok q1" and rest: "(case q1 of
          Inr finished \<Rightarrow> Ok (Inr finished)
        | Inl (r, pending) \<Rightarrow>
            if pending = [] then Ok (Inr r)
            else
              rbind (drop_temporaries (length pending) (r, pending)) (\<lambda>(r, pending).
              if bs_truncated r \<or> pending = [] then Ok (Inr r)
              else chain_step cfg (sr\<lparr>sr_result := r, sr_pending := pending,
                     sr_visited := insert (sr_current sr) (sr_visited sr)\<rparr>))) = Ok q"
        by (auto simp: slice_step_def Let_def)
      have scan: "explained cfg r (sr_current sr) (sr_operation_end sr) (set ?P)"
        if "clean ?r (fst (scanned q1))" "explained cfg r (sr_current sr) 0 (set (snd (scanned q1)))" for r
      proof -
        have "explained cfg r (sr_current sr) (sr_operation_end sr) (set (snd (?r1, ?P)))"
          by (rule scan_explained [OF q1 _ r1(1) _ refl ok(4) refl ok(5) len that(2)])
            (use that(1) r1(2) in \<open>simp_all add: same\<close>)
        then show ?thesis by simp
      qed
      show ?thesis
      proof (cases q1)
        case (Inr finished)
        with rest have "q = Inr finished" by simp
        with scan [of finished] scan_grows(2) [OF post] Inr q1 show ?thesis
          by (simp add: step_explains_def explained_empty same)
      next
        case (Inl st)
        obtain r pending where st: "st = (r, pending)" by force
        from post q1 Inl st have w: "within (r, pending)" "result_ok ?is first r" and g1: "grows ?r r"
          using scan_grows(1) [OF post] by (simp_all add: scan_post_def same)
        from w(1) have b: "bounds_ok r" "\<not> bs_truncated r" "pending \<noteq> []" by (simp_all add: within_def state_ok_def)
        from drop_temporaries_ok [OF b(1) order.refl, of pending] b(2) obtain r2 where
          r2: "drop_temporaries (length pending) (r, pending) = Ok (r2, filter (\<lambda>v. vn_space v \<noteq> ''unique'') pending)"
            "bounds_ok r2" "extends r r2" "clean r r2 \<Longrightarrow> \<forall>v \<in> set pending. vn_space v \<noteq> ''unique''" by auto
        let ?pending = "filter (\<lambda>v. vn_space v \<noteq> ''unique'') pending"
        let ?sr = "sr\<lparr>sr_result := r2, sr_pending := ?pending, sr_visited := insert (sr_current sr) (sr_visited sr)\<rparr>"
        have g2: "grows r r2" by (rule extends_grows [OF r2(3)])
        have all: "?pending = pending" if "clean r r2" using r2(4) [OF that] by (simp add: filter_id_conv)
        show ?thesis
        proof (cases "bs_truncated r2 \<or> ?pending = []")
          case True
          with rest Inl st r2(1) b(3) have q: "q = Inr r2" by simp
          have "\<not> clean ?r r2"
          proof
            assume "clean ?r r2"
            from grows_clean [OF g1 g2 this] have "clean r r2" by blast
            with clean_not_truncated [OF b(1) r2(2) b(2)] all True b(3) show False by simp
          qed
          with grows_trans [OF g1 g2] q show ?thesis by (simp add: step_explains_def)
        next
          case False
          with rest Inl st r2(1) b(3) have chain: "chain_step cfg ?sr = Ok q" by simp
          have "pending_ok pending" using w(1) by (simp add: within_def state_ok_def)
          then have "within (r2, ?pending)" using False r2(2) pending_filter [of pending] by (simp add: within_def state_ok_def)
          with ok extends_result [OF w(2) r2(3,2)] have inv2: "run_ok cfg first ?sr" by (simp add: run_ok_def Let_def)
          have temps: "\<forall>v \<in> set (sr_pending ?sr). vn_space v \<noteq> ''unique''" by simp
          have backwards: "explained cfg r' (sr_current sr) (sr_operation_end sr) (set ?P)"
            if "clean ?r r2" "explained cfg r' (sr_current sr) 0 (set ?pending)" for r'
          proof -
            from grows_clean [OF g1 g2 that(1)] have "clean ?r r" "clean r r2" by blast+
            with all that(2) scan [of r'] show ?thesis by (simp add: Inl st)
          qed
          have res: "sr_result sr' = r2" if "chain_step cfg ?sr = Ok (Inl sr')" for sr'
            using chain_step_post [OF inv2] that by simp
          show ?thesis
          proof (cases q)
            case (Inl sr')
            with chain_explained(1) [OF inv2 chain temps Inl] res chain backwards grows_trans [OF g1 g2] show ?thesis
              by (simp add: step_explains_def)
          next
            case (Inr r3)
            note fin = chain_explained(2) [OF inv2 chain temps Inr]
            have g3: "grows ?r r2" "grows r2 r3" using grows_trans [OF g1 g2] fin by simp_all
            have "explained cfg r3 (sr_current sr) (sr_operation_end sr) (set ?P)" if "clean ?r r3"
              using backwards fin grows_clean [OF g3 that] by simp
            with grows_trans [OF g3] Inr show ?thesis by (simp add: step_explains_def)
          qed
        qed
      qed
    qed
  qed
qed

lemma loop_explains:
  assumes "run_ok cfg first sr" and "run_loop (try_step (slice_step cfg)) sr = Some (Ok r)"
  shows "grows (sr_result sr) r \<and> (clean (sr_result sr) r \<longrightarrow> explained cfg r (sr_current sr) (sr_operation_end sr) (set (sr_pending sr)))"
  using assms
proof (induction rule: slice.run_induct)
  case (leave sr)
  with slice_step_explains [of cfg first sr "Inr r"] show ?case by (simp add: step_explains_def)
next
  case (again sr sr')
  with slice_step_explains [of cfg first sr "Inl sr'"]
  have "grows (sr_result sr) (sr_result sr')" "grows (sr_result sr') r" by (simp_all add: step_explains_def)
  note g = grows_trans [OF this] grows_clean [OF this]
  from again slice_step_explains [of cfg first sr "Inl sr'"] g show ?case by (auto simp: step_explains_def)
qed

section \<open>The slice of a validated snapshot\<close>

lemma cfg_ir_state:
  assumes "pcode_cfg_ir snap = Ok cfg"
  shows "validate_ghidra_snapshot snap (gs_binary_sha256 snap) = Ok ()"
    and "\<exists>f. Pcode_Validate.pcode_function_ir snap = Ok f \<and> cf_state cfg = lower_state_raw f"
    and "cfg_wf snap cfg"
proof -
  from assms show valid: "validate_ghidra_snapshot snap (gs_binary_sha256 snap) = Ok ()"
    and "\<exists>f. Pcode_Validate.pcode_function_ir snap = Ok f \<and> cf_state cfg = lower_state_raw f"
    by (auto simp: pcode_cfg_ir_def Let_def)
  from cfg_of_validated [OF valid] assms show "cfg_wf snap cfg" by auto
qed

lemma cfg_ir_sane:
  assumes "pcode_cfg_ir snap = Ok cfg"
  shows "cfg_sane cfg"
proof -
  from cfg_ir_state [OF assms] obtain f where valid: "validate_ghidra_snapshot snap (gs_binary_sha256 snap) = Ok ()"
    and f: "Pcode_Validate.pcode_function_ir snap = Ok f" "cf_state cfg = lower_state_raw f" and wf: "cfg_wf snap cfg" by blast
  let ?is = "sf_instructions (gs_selected_function snap)"
  have lens: "map (length \<circ> ti_operations) (st_instructions (cf_state cfg)) = map (length \<circ> in_pcode) ?is"
    by (simp add: f(2) lower_state_raw_def lower_state_instructions lower_semantics_instructions pcode_function_ir_Ok(1) [OF f(1)]
        state_instruction_operations semantic_of_operations o_def)
  have "length (ti_operations i) < 2 ^ 32" if "i \<in> set (st_instructions (cf_state cfg))" for i
  proof -
    from that have "length (ti_operations i) \<in> set (map (length \<circ> in_pcode) ?is)" unfolding lens [symmetric] by auto
    then have "length (ti_operations i) \<le> sum_list (map (length \<circ> in_pcode) ?is)" by (rule member_le_sum_list) simp_all
    also have "\<dots> \<le> MAX_OPERATIONS" using validated_selection_wf [OF valid] by (simp add: selection_wf_def Let_def)
    finally show ?thesis by (simp add: MAX_OPERATIONS_def)
  qed
  with wf show ?thesis unfolding cfg_sane_def cfg_wf_def Let_def by simp
qed

lemma backward_slice_total:
  "\<exists>q. backward_pcode_slice snap target = Some q \<and> q \<noteq> Panic \<and>
     (\<forall>r. q = Ok r \<longrightarrow> (\<exists>cfg. pcode_cfg_ir snap = Ok cfg \<and> slice_wf cfg target r))"
proof (cases "pcode_cfg_ir snap")
  case (Ok cfg)
  from slice_cfg_total [OF cfg_ir_sane [OF Ok]] Ok show ?thesis by (simp add: backward_pcode_slice_def)
next
  case Panic
  have "validate_ghidra_snapshot snap (gs_binary_sha256 snap) = Ok ()"
    using Panic validate_snapshot_not_Panic pcode_function_ir_total by (auto simp: pcode_cfg_ir_def rbind_Panic)
  from cfg_of_validated [OF this] Panic show ?thesis by simp
qed (simp add: backward_pcode_slice_def)

lemma inputs_explained:
  assumes "state_ok (empty_slice cfg target operation, [])"
    and init: "initial_run cfg target operation = sr" "\<not> bs_truncated (sr_result sr)"
      "clean (empty_slice cfg target operation) (sr_result sr)"
    and pending: "explained cfg r n k (set (sr_pending sr))"
  shows "explained cfg r n k (set (selected_inputs target (to_source operation)))"
proof -
  let ?site = "\<lparr>si_instruction_index = tg_instruction_index target, si_operation_index = tg_operation_index target\<rparr>"
  let ?added = "add_inputs ?site (selected_inputs target (to_source operation)) (empty_slice cfg target operation, [])"
  have added: "fst ?added = sr_result sr" "snd ?added = sr_pending sr"
    using init(1) by (auto simp: initial_run_def split: prod.splits)
  from add_inputs_values [OF assms(1), of ?site "selected_inputs target (to_source operation)"] init(2,3) added
  have "vn_space v = ''const'' \<or> v \<in> set (sr_pending sr)" if "v \<in> set (selected_inputs target (to_source operation))" for v
    using that by simp
  with pending show ?thesis unfolding explained_def agree_def by (blast intro: read_const_same)
qed

lemma slice_cfg_explains:
  assumes sane: "cfg_sane cfg" and r: "slice_cfg cfg target = Some (Ok r)"
    and kinds: "\<forall>b \<in> set (bs_boundaries r). bd_kind b \<in> {SbConstant, SbEntryValue}"
  shows "explained cfg r (tg_instruction_index target) (unat (tg_operation_index target))
    (set (selected_inputs target (sp_source (hd (bs_steps r)))))"
proof -
  let ?is = "st_instructions (cf_state cfg)"
  from r obtain operation where start: "slice_start cfg target = Ok operation"
    by (auto simp: slice_cfg_def split: result.splits)
  define sr where sr: "sr = initial_run cfg target operation"
  let ?first = "first_step cfg target operation"
  note init = initial_run_ok [OF start sane, folded sr]
  note empty = empty_slice_ok [OF start]
  have at: "sr_current sr = tg_instruction_index target" "sr_operation_end sr = unat (tg_operation_index target)"
    by (auto simp: sr initial_run_def split: prod.split)
  have cl: "clean (empty_slice cfg target operation) r" using kinds by (simp add: clean_def empty_slice_def)
  have res: "result_ok ?is ?first r" and g: "grows (sr_result sr) r"
    and ex: "clean (sr_result sr) r \<Longrightarrow> \<not> bs_truncated (sr_result sr) \<Longrightarrow>
      explained cfg r (sr_current sr) (sr_operation_end sr) (set (sr_pending sr))"
  proof -
    consider (stop) "r = sr_result sr" "sr_pending sr = [] \<or> bs_truncated (sr_result sr)"
      | (run) "\<not> bs_truncated (sr_result sr)" "sr_pending sr \<noteq> []" "run_loop (try_step (slice_step cfg)) sr = Some (Ok r)"
      using r by (auto simp: slice_cfg_run [OF start, folded sr] Let_def split: if_splits)
    then have "result_ok ?is ?first r \<and> grows (sr_result sr) r \<and> (clean (sr_result sr) r \<longrightarrow> \<not> bs_truncated (sr_result sr) \<longrightarrow>
      explained cfg r (sr_current sr) (sr_operation_end sr) (set (sr_pending sr)))"
    proof cases
      case stop
      with init(2) show ?thesis by (auto simp: explained_empty)
    next
      case run
      note inv = init(3) [OF run(1,2)]
      from slice.exit_state [OF inv run(3)] obtain t where t: "run_ok cfg ?first t" "slice_step cfg t = Ok (Inr r)" by auto
      from slice_step_post [OF t(1)] t(2) loop_explains [OF inv run(3)] show ?thesis by simp
    qed
    then show "result_ok ?is ?first r" "grows (sr_result sr) r" "clean (sr_result sr) r \<Longrightarrow> \<not> bs_truncated (sr_result sr) \<Longrightarrow>
      explained cfg r (sr_current sr) (sr_operation_end sr) (set (sr_pending sr))" by blast+
  qed
  have g0: "grows (empty_slice cfg target operation) (sr_result sr)" by (simp add: grows_def empty_slice_def)
  note c = grows_clean [OF g0 g cl]
  have "bounds_ok (empty_slice cfg target operation)" "bounds_ok (sr_result sr)" "\<not> bs_truncated (empty_slice cfg target operation)"
    using empty(2) init(1) by (simp_all add: state_ok_def empty_slice_def)
  then have nt: "\<not> bs_truncated (sr_result sr)" using clean_not_truncated c(1) by blast
  have "explained cfg r (sr_current sr) (sr_operation_end sr) (set (selected_inputs target (to_source operation)))"
    using inputs_explained [OF empty(2) sr [symmetric] nt c(1) ex [OF c(2) nt]] .
  moreover have "sp_source (hd (bs_steps r)) = to_source operation"
    using res by (auto simp: result_ok_def first_step_def empty_slice_def)
  ultimately show ?thesis by (simp add: at)
qed

lemma backward_slice_explains:
  assumes "backward_pcode_slice snap target = Some (Ok r)" and "pcode_cfg_ir snap = Ok cfg"
    and "\<forall>b \<in> set (bs_boundaries r). bd_kind b \<in> {SbConstant, SbEntryValue}"
  shows "explained cfg r (tg_instruction_index target) (unat (tg_operation_index target))
    (set (selected_inputs target (sp_source (hd (bs_steps r)))))"
  using slice_cfg_explains [OF cfg_ir_sane [OF assms(2)] _ assms(3)] assms(1,2) by (simp add: backward_pcode_slice_def)

end
