(* ===== verification/Pcode_Coverage.thy ===== *)
theory Pcode_Coverage
  imports Pcode_CfgSpec Pcode_Simplify
begin

text \<open>
  \<^verbatim>\<open>hydir-ir/src/pcode/coverage.rs\<close>: the static inventory of a selected function. The coverage
  report counts exact and opaque operations per opcode; the capability report classifies every opaque
  operation by what the concrete executor can attempt. The digest of the serialized snapshot is a
  parameter. The lemmas relate both reports to what they count, and the classification to the executor.
\<close>

section \<open>Data\<close>

definition PCODE_COVERAGE_VERSION :: u32 where "PCODE_COVERAGE_VERSION = 1"
definition PCODE_CAPABILITY_VERSION :: u32 where "PCODE_CAPABILITY_VERSION = 1"
definition MAX_OPAQUE_SITES :: usize where "MAX_OPAQUE_SITES = 256"
definition MAX_CAPABILITY_SITES :: usize where "MAX_CAPABILITY_SITES = 256"

record pcode_discovery_capability =
  di_instruction_nodes :: usize
  di_known_edges :: usize
  di_unresolved_nodes :: usize
  di_known_calls :: usize
  di_unresolved_calls :: usize
  di_complete :: bool

record pcode_execution_capability =
  xc_exact_value_operations :: usize
  xc_conditional_memory_operations :: usize
  xc_conditional_control_operations :: usize
  xc_stopping_operations :: usize
  xc_llvm_candidate_values :: usize

record pcode_memory_capability =
  mc_reads :: usize
  mc_writes :: usize
  mc_conditional_reads :: usize
  mc_conditional_writes :: usize

record pcode_call_capability =
  cc_call_operations :: usize
  cc_direct_targets :: usize
  cc_unresolved_targets :: usize

datatype pcode_capability_kind =
  CapDiscovery | CapValue | CapMemoryRead | CapMemoryWrite | CapControl | CapCall | CapUserOperation | CapUnknown

datatype pcode_capability_status = RequiresConcreteState | Stops | Unresolved

record pcode_capability_site =
  cs_address :: pcode_address
  cs_sequence_index :: "u32 option"
  cs_opcode :: "u32 option"
  cs_mnemonic :: string
  cs_kind :: pcode_capability_kind
  cs_status :: pcode_capability_status
  cs_reason :: string

record pcode_capabilities =
  cr_schema_version :: u32
  cr_binary_sha256 :: string
  cr_snapshot_sha256 :: string
  cr_snapshot_source :: string
  cr_ghidra_version :: string
  cr_language_id :: string
  cr_entry :: pcode_address
  cr_instructions :: usize
  cr_operations :: usize
  cr_discovery :: pcode_discovery_capability
  cr_execution :: pcode_execution_capability
  cr_memory :: pcode_memory_capability
  cr_calls :: pcode_call_capability
  cr_stop_sites :: "pcode_capability_site list"
  cr_omitted_stop_sites :: usize
  cr_semantic_fidelity :: semantic_fidelity
  cr_verification :: verification_status

record pcode_opcode_coverage =
  oc_opcode :: u32
  oc_mnemonic :: string
  oc_operations :: usize
  oc_exact_assignments :: usize
  oc_opaque_effects :: usize

record pcode_opaque_site =
  os_address :: pcode_address
  os_sequence_index :: u32
  os_opcode :: u32
  os_mnemonic :: string
  os_class :: pcode_opaque_class
  os_reason :: string

record pcode_coverage =
  cv_schema_version :: u32
  cv_binary_sha256 :: string
  cv_entry :: pcode_address
  cv_instructions :: usize
  cv_operations :: usize
  cv_exact_assignments :: usize
  cv_opaque_effects :: usize
  cv_by_opcode :: "pcode_opcode_coverage list"
  cv_opaque_sites :: "pcode_opaque_site list"
  cv_omitted_opaque_sites :: usize
  cv_semantic_fidelity :: semantic_fidelity
  cv_verification :: verification_status

section \<open>The coverage report\<close>

record coverage_scan =
  \<comment> \<open>the local variables of the loop\<close>
  sc_by_opcode :: "(u32 \<times> string, pcode_opcode_coverage) btree_map"
  sc_opaque_sites :: "pcode_opaque_site list"
  sc_operations :: usize
  sc_exact_assignments :: usize
  sc_opaque_effects :: usize

definition empty_row :: "u32 \<times> string \<Rightarrow> pcode_opcode_coverage" where
  "empty_row k = \<lparr>oc_opcode = fst k, oc_mnemonic = snd k, oc_operations = 0, oc_exact_assignments = 0, oc_opaque_effects = 0\<rparr>"

definition count_row :: "pcode_effect \<Rightarrow> pcode_opcode_coverage \<Rightarrow> pcode_opcode_coverage" where
  "count_row effect row =
     (let row = row\<lparr>oc_operations := oc_operations row + 1\<rparr> in
      case effect of
        Assign _ _ \<Rightarrow> row\<lparr>oc_exact_assignments := oc_exact_assignments row + 1\<rparr>
      | Opaque _ _ _ _ _ _ \<Rightarrow> row\<lparr>oc_opaque_effects := oc_opaque_effects row + 1\<rparr>)"

definition opaque_site :: "pcode_operation \<Rightarrow> pcode_opaque_class \<Rightarrow> string \<Rightarrow> pcode_opaque_site" where
  "opaque_site source class reason =
     \<lparr>os_address = op_source_address source, os_sequence_index = op_sequence_index source, os_opcode = op_opcode source,
      os_mnemonic = op_mnemonic source, os_class = class, os_reason = reason\<rparr>"

definition count_operation :: "pcode_semantic_operation \<Rightarrow> coverage_scan \<Rightarrow> coverage_scan" where
  "count_operation operation st =
     (let source = so_source operation;
          k = (op_opcode source, op_mnemonic source);
          row = (case bm_get (sc_by_opcode st) k of None \<Rightarrow> empty_row k | Some row \<Rightarrow> row);
          st = st\<lparr>sc_operations := sc_operations st + 1,
                  sc_by_opcode := bm_insert k (count_row (so_effect operation) row) (sc_by_opcode st)\<rparr>
      in case so_effect operation of
           Assign _ _ \<Rightarrow> st\<lparr>sc_exact_assignments := sc_exact_assignments st + 1\<rparr>
         | Opaque class reason _ _ _ _ \<Rightarrow>
             st\<lparr>sc_opaque_effects := sc_opaque_effects st + 1,
                sc_opaque_sites :=
                  (if length (sc_opaque_sites st) < MAX_OPAQUE_SITES
                   then sc_opaque_sites st @ [opaque_site source class reason] else sc_opaque_sites st)\<rparr>)"

definition pcode_coverage_report :: "ghidra_snapshot \<Rightarrow> (pcode_coverage, string) result" where
  "pcode_coverage_report snap =
     rbind (Pcode_Validate.pcode_function_ir snap) (\<lambda>f.
     let semantics = lower_semantics f;
         st = fold (\<lambda>i. fold count_operation (si_operations i)) (se_instructions semantics)
           \<lparr>sc_by_opcode = [], sc_opaque_sites = [], sc_operations = 0, sc_exact_assignments = 0, sc_opaque_effects = 0\<rparr>
     in Ok \<lparr>cv_schema_version = PCODE_COVERAGE_VERSION, cv_binary_sha256 = gs_binary_sha256 snap,
            cv_entry = se_entry semantics, cv_instructions = length (se_instructions semantics),
            cv_operations = sc_operations st, cv_exact_assignments = sc_exact_assignments st,
            cv_opaque_effects = sc_opaque_effects st, cv_by_opcode = map snd (sc_by_opcode st),
            cv_opaque_sites = sc_opaque_sites st,
            cv_omitted_opaque_sites = sc_opaque_effects st - length (sc_opaque_sites st),
            cv_semantic_fidelity = Unknown, cv_verification = NotRun\<rparr>)"

section \<open>Classification\<close>

definition llvm_value_candidate :: "pcode_exact_op \<Rightarrow> u32 \<Rightarrow> pcode_operation \<Rightarrow> bool" where
  "llvm_value_candidate kind result_bits source =
     (let wide = result_bits > 64 \<or> list_ex (\<lambda>input. vn_size input > 8) (op_inputs source) in
      \<not> wide \<or>
      kind \<in> {Copy, ZeroExtend, SignExtend, TwosComplement, BitwiseNegate, Piece, Multiply, Subpiece, Add, Sub, Xor, And,
        Or, Equal, NotEqual, UnsignedLess, UnsignedLessEqual, SignedLess, SignedLessEqual, ShiftLeft, LogicalShiftRight,
        ArithmeticShiftRight, PackSignedWordsToBytes})"

definition call_shape_supported :: "pcode_operation \<Rightarrow> bool" where
  "call_shape_supported source = (op_output source = None \<and> length (op_inputs source) = 1)"

definition branch_shape_supported :: "pcode_operation \<Rightarrow> ghidra_address_space list \<Rightarrow> bool" where
  "branch_shape_supported source spaces =
     (if op_output source \<noteq> None then False
      else if op_opcode source = 4 then length (op_inputs source) = 1
      else if op_opcode source = 5 then length (op_inputs source) = 2 \<and> vn_size (op_inputs source ! 1) = 1
      else if op_opcode source = 6 then
        length (op_inputs source) = 1 \<and>
        list_ex (\<lambda>sp. as_name sp = pa_space (op_source_address source) \<and> size_in 1 8 (as_pointer_size sp) \<and>
          vn_size (op_inputs source ! 0) = as_pointer_size sp \<and> operand_space (vn_space (op_inputs source ! 0))) spaces
      else False)"

definition copy_shape :: "pcode_operation \<Rightarrow> ghidra_address_space list \<Rightarrow> (unit, string) result" where
  "copy_shape source spaces =
     (case op_inputs source of
        [] \<Rightarrow> Err ''direct RAM COPY requires an input and output''
      | input # rest \<Rightarrow>
          case op_output source of
            None \<Rightarrow> Err ''direct RAM COPY requires an input and output''
          | Some output \<Rightarrow>
              if rest = [] \<and> vn_size input = vn_size output \<and> size_in 1 16 (vn_size input) \<and>
                 scalar_space (vn_space output) \<and>
                 list_ex (\<lambda>sp. as_name sp = vn_space input \<and> as_space_type sp = 1 \<and> as_pointer_size sp = 8 \<and>
                   as_addressable_unit_size sp \<noteq> 0) spaces \<and>
                 is_ok (hex_u64 (vn_offset input))
              then Ok () else Err ''direct RAM COPY layout is unsupported'')"

definition concrete_memory_shape :: "pcode_operation \<Rightarrow> ghidra_address_space list \<Rightarrow> (unit, string) result" where
  "concrete_memory_shape source spaces =
     (if op_opcode source = 1 \<and> op_mnemonic source = ''COPY'' then copy_shape source spaces
      else
        rbind (if op_opcode source = 2 \<and> op_mnemonic source = ''LOAD'' \<and> length (op_inputs source) = 2
                 then Ok (True, op_output source)
               else if op_opcode source = 3 \<and> op_mnemonic source = ''STORE'' \<and> length (op_inputs source) = 3 \<and>
                   op_output source = None
                 then Ok (False, get_rs (op_inputs source) 2)
               else Err ''memory opcode, mnemonic, arity or output is unsupported'') (\<lambda>(is_load, known).
        rbind (ok_or ''memory value varnode is absent'' known) (\<lambda>v.
        rbind (index_rs (op_inputs source) 0) (\<lambda>id_node.
        if vn_space id_node \<noteq> ''const'' \<or> \<not> size_in 1 8 (vn_size id_node)
          then Err ''memory space ID must be a bounded constant''
        else
          rbind (hex_u64 (vn_offset id_node)) (\<lambda>i.
          let id_mask = (if vn_size id_node = 8 then - 1 else push_bit (unat (vn_size id_node) * 8) 1 - 1) in
          if i > id_mask then Err ''memory space ID exceeds its varnode width''
          else
            rbind (ok_or ''memory space ID has no Ghidra address space'' (memory_space spaces i)) (\<lambda>sp.
            rbind (index_rs (op_inputs source) 1) (\<lambda>pointer.
            if as_space_type sp \<noteq> 1 \<or> as_name sp = ''const'' \<or> as_name sp = ''register'' \<or> as_name sp = ''unique'' \<or>
               \<not> size_in 1 8 (as_pointer_size sp) \<or> vn_size pointer \<noteq> as_pointer_size sp \<or>
               \<not> operand_space (vn_space pointer) \<or> as_addressable_unit_size sp = 0 \<or>
               \<not> size_in 1 8 (vn_size v) \<or> \<not> operand_space (vn_space v) \<or> (is_load \<and> vn_space v = ''const'')
            then Err ''memory operation requires a supported RAM layout and value width''
            else Ok ())))))))"

definition classify_opaque ::
  "pcode_operation \<Rightarrow> pcode_opaque_class \<Rightarrow> string \<Rightarrow> ghidra_address_space list \<Rightarrow>
   (pcode_capability_kind \<times> pcode_capability_status \<times> string, string) result" where
  \<comment> \<open>the shape check indexes the inputs, so the result carries a possible panic\<close>
  "classify_opaque source class lowered_reason spaces =
     (case class of
        UserOperation \<Rightarrow> Ok (CapUserOperation, Stops, lowered_reason)
      | UnmodelledValue \<Rightarrow> Ok (CapValue, Stops, lowered_reason)
      | UnknownEffect \<Rightarrow> Ok (CapUnknown, Stops, lowered_reason)
      | ControlTransfer \<Rightarrow>
          Ok (let opc = op_opcode source; m = op_mnemonic source in
              if ((opc = 4 \<and> m = ''BRANCH'') \<or> (opc = 5 \<and> m = ''CBRANCH'') \<or> (opc = 6 \<and> m = ''BRANCHIND'')) \<and>
                 branch_shape_supported source spaces
                then (CapControl, RequiresConcreteState,
                  ''requires a selected target and, for conditional or indirect branches, known input bytes; may stop on unresolved flow'')
              else if ((opc = 7 \<and> m = ''CALL'') \<or> (opc = 8 \<and> m = ''CALLIND'')) \<and> call_shape_supported source
                then (CapCall, Stops,
                  ''ends a single-function path; an interprocedural run requires a loaded callee snapshot and bounded call depth'')
              else if opc = 10 \<and> m = ''RETURN'' \<and> call_shape_supported source
                then (CapControl, Stops, ''terminates the selected function path'')
              else (CapControl, Stops, ''control-transfer shape has no checked path semantics''))
      | _ \<Rightarrow>
          let kind = (if class = MemoryRead then CapMemoryRead else CapMemoryWrite) in
          case concrete_memory_shape source spaces of
            Ok _ \<Rightarrow> Ok (kind, RequiresConcreteState,
              ''requires a bound RAM window or validated image, a known address, and known input bytes; access can stop at runtime'')
          | Err reason \<Rightarrow> Ok (kind, Stops, reason)
          | Panic \<Rightarrow> Panic)"

section \<open>The capability report\<close>

record capability_scan =
  \<comment> \<open>the local variables of the loops\<close>
  ks_execution :: pcode_execution_capability
  ks_memory :: pcode_memory_capability
  ks_call_operations :: usize
  ks_sites :: "pcode_capability_site list"
  ks_site_count :: usize

definition push_capability_site :: "pcode_capability_site \<Rightarrow> pcode_capability_site list \<Rightarrow> pcode_capability_site list" where
  "push_capability_site site sites = (if length sites < MAX_CAPABILITY_SITES then sites @ [site] else sites)"

definition add_site :: "pcode_capability_site \<Rightarrow> capability_scan \<Rightarrow> capability_scan" where
  "add_site site st = st\<lparr>ks_site_count := ks_site_count st + 1, ks_sites := push_capability_site site (ks_sites st)\<rparr>"

definition open_flow :: "pcode_cfg_call list \<Rightarrow> pcode_cfg_node \<Rightarrow> (bool, string) result" where
  "open_flow calls node =
     (if cn_has_unresolved_control node then Ok True
      else any_index (\<lambda>c. ct_computed (ca_evidence c)) calls (cn_outgoing_calls node))"

definition unresolved_call :: "pcode_cfg_call \<Rightarrow> bool" where
  "unresolved_call c = (ct_target (ca_evidence c) = None \<or> ct_computed (ca_evidence c))"

definition discovery_of :: "pcode_cfg_function_ir \<Rightarrow> (pcode_discovery_capability, string) result" where
  "discovery_of cfg =
     rbind (collect_res (open_flow (cf_calls cfg)) (cf_nodes cfg)) (\<lambda>opens.
     Ok \<lparr>di_instruction_nodes = length (cf_nodes cfg),
         di_known_edges = length (filter (\<lambda>e. ed_target_node e \<noteq> None) (cf_edges cfg)),
         di_unresolved_nodes = length (filter (\<lambda>b. b) opens),
         di_known_calls = length (filter (\<lambda>c. ct_target (ca_evidence c) \<noteq> None) (cf_calls cfg)),
         di_unresolved_calls = length (filter unresolved_call (cf_calls cfg)), di_complete = False\<rparr>)"

definition node_site :: "pcode_cfg_node \<Rightarrow> pcode_capability_site" where
  "node_site node =
     \<lparr>cs_address = cn_address node, cs_sequence_index = None, cs_opcode = None, cs_mnemonic = ''FLOW'',
      cs_kind = CapDiscovery, cs_status = Unresolved,
      cs_reason = ''analyzed control flow has a missing or unselected successor''\<rparr>"

definition scan_node :: "pcode_cfg_call list \<Rightarrow> capability_scan \<Rightarrow> pcode_cfg_node \<Rightarrow> (capability_scan, string) result" where
  "scan_node calls st node =
     rbind (open_flow calls node) (\<lambda>unknown. Ok (if unknown then add_site (node_site node) st else st))"

definition operation_site ::
  "pcode_operation \<Rightarrow> pcode_capability_kind \<times> pcode_capability_status \<times> string \<Rightarrow> pcode_capability_site" where
  "operation_site source c =
     (let (kind, status, reason) = c in
      \<lparr>cs_address = op_source_address source, cs_sequence_index = Some (op_sequence_index source),
       cs_opcode = Some (op_opcode source), cs_mnemonic = op_mnemonic source,
       cs_kind = kind, cs_status = status, cs_reason = reason\<rparr>)"

definition count_capability ::
  "pcode_capability_kind \<times> pcode_capability_status \<times> string \<Rightarrow> capability_scan \<Rightarrow> capability_scan" where
  "count_capability c st =
     (let (kind, status, reason) = c; conditional = (status = RequiresConcreteState);
          st = (case kind of
              CapMemoryRead \<Rightarrow>
                (let st = st\<lparr>ks_memory := (ks_memory st)\<lparr>mc_reads := mc_reads (ks_memory st) + 1\<rparr>\<rparr> in
                 if conditional then
                   st\<lparr>ks_memory := (ks_memory st)\<lparr>mc_conditional_reads := mc_conditional_reads (ks_memory st) + 1\<rparr>,
                      ks_execution := (ks_execution st)\<lparr>xc_conditional_memory_operations :=
                        xc_conditional_memory_operations (ks_execution st) + 1\<rparr>\<rparr>
                 else st)
            | CapMemoryWrite \<Rightarrow>
                (let st = st\<lparr>ks_memory := (ks_memory st)\<lparr>mc_writes := mc_writes (ks_memory st) + 1\<rparr>\<rparr> in
                 if conditional then
                   st\<lparr>ks_memory := (ks_memory st)\<lparr>mc_conditional_writes := mc_conditional_writes (ks_memory st) + 1\<rparr>,
                      ks_execution := (ks_execution st)\<lparr>xc_conditional_memory_operations :=
                        xc_conditional_memory_operations (ks_execution st) + 1\<rparr>\<rparr>
                 else st)
            | CapControl \<Rightarrow>
                (if conditional then
                   st\<lparr>ks_execution := (ks_execution st)\<lparr>xc_conditional_control_operations :=
                     xc_conditional_control_operations (ks_execution st) + 1\<rparr>\<rparr>
                 else st)
            | CapCall \<Rightarrow> st\<lparr>ks_call_operations := ks_call_operations st + 1\<rparr>
            | _ \<Rightarrow> st)
      in if status = Stops then
           st\<lparr>ks_execution := (ks_execution st)\<lparr>xc_stopping_operations := xc_stopping_operations (ks_execution st) + 1\<rparr>\<rparr>
         else st)"

definition scan_operation ::
  "ghidra_address_space list \<Rightarrow> capability_scan \<Rightarrow> pcode_semantic_operation \<Rightarrow> (capability_scan, string) result" where
  "scan_operation spaces st operation =
     (let source = so_source operation in
      case so_effect operation of
        Assign exact result_width_bits \<Rightarrow>
          Ok (let st = st\<lparr>ks_execution := (ks_execution st)\<lparr>xc_exact_value_operations :=
                    xc_exact_value_operations (ks_execution st) + 1\<rparr>\<rparr>
              in if llvm_value_candidate exact result_width_bits source
                 then st\<lparr>ks_execution := (ks_execution st)\<lparr>xc_llvm_candidate_values :=
                   xc_llvm_candidate_values (ks_execution st) + 1\<rparr>\<rparr>
                 else st)
      | Opaque class reason _ _ _ _ \<Rightarrow>
          rbind (classify_opaque source class reason spaces) (\<lambda>c.
          Ok (add_site (operation_site source c) (count_capability c st))))"

definition empty_scan :: capability_scan where
  "empty_scan =
     \<lparr>ks_execution = \<lparr>xc_exact_value_operations = 0, xc_conditional_memory_operations = 0,
        xc_conditional_control_operations = 0, xc_stopping_operations = 0, xc_llvm_candidate_values = 0\<rparr>,
      ks_memory = \<lparr>mc_reads = 0, mc_writes = 0, mc_conditional_reads = 0, mc_conditional_writes = 0\<rparr>,
      ks_call_operations = 0, ks_sites = [], ks_site_count = 0\<rparr>"

definition pcode_capability_report ::
  "(ghidra_snapshot \<Rightarrow> (string, string) result) \<Rightarrow> ghidra_snapshot \<Rightarrow> (pcode_capabilities, string) result" where
  \<comment> \<open>the parameter is the SHA-256 digest of the serialized snapshot\<close>
  "pcode_capability_report digest_of snap =
     rbind (pcode_cfg_ir snap) (\<lambda>cfg.
     rbind (Pcode_Validate.pcode_function_ir snap) (\<lambda>f.
     let semantics = lower_semantics f in
     rbind (digest_of snap) (\<lambda>snapshot_sha256.
     rbind (discovery_of cfg) (\<lambda>discovery.
     rbind (fold_res (scan_node (cf_calls cfg)) empty_scan (cf_nodes cfg)) (\<lambda>st.
     rbind (fold_res (\<lambda>st i. fold_res (scan_operation (gs_address_spaces snap)) st (si_operations i)) st
              (se_instructions semantics)) (\<lambda>st.
     Ok \<lparr>cr_schema_version = PCODE_CAPABILITY_VERSION, cr_binary_sha256 = gs_binary_sha256 snap,
         cr_snapshot_sha256 = snapshot_sha256, cr_snapshot_source = gs_source snap,
         cr_ghidra_version = pr_ghidra_version (gs_program snap), cr_language_id = pr_language_id (gs_program snap),
         cr_entry = se_entry semantics, cr_instructions = length (se_instructions semantics),
         cr_operations = operation_count (se_instructions semantics), cr_discovery = discovery,
         cr_execution = ks_execution st, cr_memory = ks_memory st,
         cr_calls = \<lparr>cc_call_operations = ks_call_operations st,
           cc_direct_targets = length (filter (\<lambda>c. \<not> unresolved_call c) (cf_calls cfg)),
           cc_unresolved_targets = di_unresolved_calls discovery\<rparr>,
         cr_stop_sites = ks_sites st, cr_omitted_stop_sites = ks_site_count st - MAX_CAPABILITY_SITES,
         cr_semantic_fidelity = Unknown, cr_verification = NotRun\<rparr>))))))"

section \<open>What the coverage report counts\<close>

definition opcode_key :: "pcode_semantic_operation \<Rightarrow> u32 \<times> string" where
  "opcode_key opn = (op_opcode (so_source opn), op_mnemonic (so_source opn))"

definition exact_count :: "pcode_semantic_operation list \<Rightarrow> nat" where
  "exact_count ops = length (filter (\<lambda>opn. is_assign (so_effect opn)) ops)"

definition row_of :: "pcode_semantic_operation list \<Rightarrow> u32 \<times> string \<Rightarrow> pcode_opcode_coverage" where
  "row_of ops k =
     (let mine = filter (\<lambda>opn. opcode_key opn = k) ops in
      \<lparr>oc_opcode = fst k, oc_mnemonic = snd k, oc_operations = length mine, oc_exact_assignments = exact_count mine,
       oc_opaque_effects = length mine - exact_count mine\<rparr>)"

definition site_list :: "pcode_semantic_operation list \<Rightarrow> pcode_opaque_site list" where
  "site_list ops =
     concat (map (\<lambda>opn. case so_effect opn of
         Assign _ _ \<Rightarrow> [] | Opaque class reason _ _ _ _ \<Rightarrow> [opaque_site (so_source opn) class reason]) ops)"

definition counts :: "pcode_semantic_operation list \<Rightarrow> coverage_scan \<Rightarrow> bool" where
  "counts ops st =
     (bm_wf (sc_by_opcode st) \<and>
      bm_get (sc_by_opcode st) = (\<lambda>k. if k \<in> opcode_key ` set ops then Some (row_of ops k) else None) \<and>
      sc_operations st = length ops \<and> sc_exact_assignments st = exact_count ops \<and>
      sc_opaque_effects st = length (site_list ops) \<and> sc_opaque_sites st = take MAX_OPAQUE_SITES (site_list ops))"

lemma exact_count_le: "exact_count ops \<le> length ops"
  by (simp add: exact_count_def)

lemma exact_and_opaque: "exact_count ops + length (site_list ops) = length ops"
  by (induction ops) (auto simp: exact_count_def site_list_def is_assign_def split: pcode_effect.split)

lemma count_operation_counts:
  assumes "counts ops st"
  shows "counts (ops @ [opn]) (count_operation opn st)"
proof -
  have row: "count_row (so_effect opn) (case bm_get (sc_by_opcode st) (opcode_key opn) of
      None \<Rightarrow> empty_row (opcode_key opn) | Some r \<Rightarrow> r) = row_of (ops @ [opn]) (opcode_key opn)"
  proof -
    have get: "bm_get (sc_by_opcode st) (opcode_key opn) =
        (if opcode_key opn \<in> opcode_key ` set ops then Some (row_of ops (opcode_key opn)) else None)"
      using assms by (simp add: counts_def)
    have "row_of ops k = empty_row k" if "k \<notin> opcode_key ` set ops" for k
    proof -
      have "filter (\<lambda>opn. opcode_key opn = k) ops = []" using that by (auto simp: filter_empty_conv)
      then show ?thesis by (simp add: row_of_def empty_row_def exact_count_def)
    qed
    then have "(case bm_get (sc_by_opcode st) (opcode_key opn) of None \<Rightarrow> empty_row (opcode_key opn) | Some r \<Rightarrow> r) =
        row_of ops (opcode_key opn)" unfolding get by simp
    with exact_count_le [of "filter (\<lambda>x. opcode_key x = opcode_key opn) ops"] show ?thesis
      by (auto simp: count_row_def row_of_def exact_count_def is_assign_def Let_def Suc_diff_le split: pcode_effect.split)
  qed
  have other: "row_of (ops @ [opn]) k = row_of ops k" if "k \<noteq> opcode_key opn" for k
    using that by (auto simp: row_of_def)
  have fields: "sc_by_opcode (count_operation opn st) =
      bm_insert (opcode_key opn) (row_of (ops @ [opn]) (opcode_key opn)) (sc_by_opcode st)"
    unfolding row [symmetric] unfolding opcode_key_def by (cases "so_effect opn") (simp_all add: count_operation_def Let_def)
  have rest: "sc_operations (count_operation opn st) = Suc (length ops)"
    "sc_exact_assignments (count_operation opn st) = exact_count (ops @ [opn])"
    "sc_opaque_effects (count_operation opn st) = length (site_list (ops @ [opn]))"
    "sc_opaque_sites (count_operation opn st) = take MAX_OPAQUE_SITES (site_list (ops @ [opn]))"
    using assms
    by (auto simp: counts_def count_operation_def exact_count_def site_list_def is_assign_def Let_def MAX_OPAQUE_SITES_def
        split: pcode_effect.split)
  show ?thesis
    using assms unfolding counts_def fields rest bm.get_ins
    by (auto simp: bm_wf_insert other fun_eq_iff simp del: split_paired_All)
qed

lemma counts_fold: "counts past st \<Longrightarrow> counts (past @ ops) (fold count_operation ops st)"
proof (induction ops arbitrary: past st)
  case (Cons opn ops)
  from Cons.IH [OF count_operation_counts [OF Cons.prems]] show ?case by simp
qed simp

lemma counts_instructions:
  "counts past st \<Longrightarrow> counts (past @ concat (map si_operations is)) (fold (\<lambda>i. fold count_operation (si_operations i)) is st)"
proof (induction "is" arbitrary: past st)
  case (Cons i "is")
  from Cons.IH [OF counts_fold [OF Cons.prems]] show ?case by simp
qed simp

lemma counts_rows:
  assumes "counts ops st"
  shows "map snd (sc_by_opcode st) = map (row_of ops) (sorted_list_of_set (opcode_key ` set ops))"
proof -
  let ?m = "sc_by_opcode st"
  have wf: "bm_wf ?m" and get: "\<And>k. bm_get ?m k = (if k \<in> opcode_key ` set ops then Some (row_of ops k) else None)"
    using assms by (simp_all add: counts_def)
  have keys: "set (map fst ?m) = opcode_key ` set ops"
  proof (rule set_eqI)
    fix k
    have "k \<in> set (map fst ?m) \<longleftrightarrow> bm_get ?m k \<noteq> None" by (simp add: bm_get_def map_of_eq_None_iff)
    then show "k \<in> set (map fst ?m) \<longleftrightarrow> k \<in> opcode_key ` set ops" by (simp add: get)
  qed
  have "sorted_list_of_set (set (map fst ?m)) = map fst ?m"
    using wf by (simp add: bm_wf_def strict_sorted_iff sorted_list_of_set.idem_if_sorted_distinct del: set_map)
  moreover have "map snd ?m = map (row_of ops) (map fst ?m)"
  proof (rule nth_equalityI)
    fix i assume i: "i < length (map snd ?m)"
    obtain k r where p: "?m ! i = (k, r)" by (metis surj_pair)
    with i have "(k, r) \<in> set ?m" by (metis length_map nth_mem)
    with bm_get_in_set [OF wf] get have "r = row_of ops k" by (auto split: if_splits)
    with p i show "map snd ?m ! i = map (row_of ops) (map fst ?m) ! i" by simp
  qed simp
  ultimately show ?thesis unfolding keys by simp
qed

lemma coverage_report_counts:
  assumes "pcode_coverage_report snap = Ok report" and "Pcode_Validate.pcode_function_ir snap = Ok f"
  defines "ops \<equiv> concat (map si_operations (se_instructions (lower_semantics f)))"
  shows "cv_operations report = length ops" and "cv_exact_assignments report = exact_count ops"
    and "cv_exact_assignments report + cv_opaque_effects report = cv_operations report"
    and "cv_by_opcode report = map (row_of ops) (sorted_list_of_set (opcode_key ` set ops))"
    and "cv_opaque_sites report = take MAX_OPAQUE_SITES (site_list ops)"
    and "cv_omitted_opaque_sites report + length (cv_opaque_sites report) = cv_opaque_effects report"
proof -
  let ?init = "\<lparr>sc_by_opcode = [], sc_opaque_sites = [], sc_operations = 0, sc_exact_assignments = 0, sc_opaque_effects = 0\<rparr>"
  let ?st = "fold (\<lambda>i. fold count_operation (si_operations i)) (se_instructions (lower_semantics f)) ?init"
  have "counts [] ?init" by (simp add: counts_def exact_count_def site_list_def bm.wf_empty bm.get_empty fun_eq_iff)
  from counts_instructions [OF this] have c: "counts ops ?st" by (simp add: ops_def)
  from assms have r: "cv_operations report = sc_operations ?st" "cv_exact_assignments report = sc_exact_assignments ?st"
    "cv_opaque_effects report = sc_opaque_effects ?st" "cv_by_opcode report = map snd (sc_by_opcode ?st)"
    "cv_opaque_sites report = sc_opaque_sites ?st"
    "cv_omitted_opaque_sites report = sc_opaque_effects ?st - length (sc_opaque_sites ?st)"
    by (auto simp: pcode_coverage_report_def Let_def)
  with c exact_and_opaque [of ops] counts_rows [OF c]
  show "cv_operations report = length ops" "cv_exact_assignments report = exact_count ops"
    "cv_exact_assignments report + cv_opaque_effects report = cv_operations report"
    "cv_by_opcode report = map (row_of ops) (sorted_list_of_set (opcode_key ` set ops))"
    "cv_opaque_sites report = take MAX_OPAQUE_SITES (site_list ops)"
    "cv_omitted_opaque_sites report + length (cv_opaque_sites report) = cv_opaque_effects report"
    by (simp_all add: counts_def)
qed

section \<open>The classification and the executor\<close>

lemma copy_runs_shape:
  assumes "copy_layout source = Ok (inp, out)" and "copy_address spaces source inp = Ok r"
  shows "copy_shape source spaces = Ok ()"
proof -
  from assms(1) have l: "op_inputs source = [inp]" "op_output source = Some out" "vn_size inp = vn_size out"
    "size_in 1 16 (vn_size inp)" "scalar_space (vn_space out)"
    by (auto simp: copy_layout_def split: list.splits option.splits if_splits)
  from assms(2) obtain sp where sp: "find_space_name spaces (vn_space inp) = Some sp" "as_space_type sp = 1"
    "as_pointer_size sp = 8" "as_addressable_unit_size sp \<noteq> 0" and hex: "is_ok (hex_u64 (vn_offset inp))"
    by (auto simp: copy_address_def Let_def is_ok_iff split: if_splits)
  from sp(1) have "sp \<in> set spaces" "as_name sp = vn_space inp"
    by (auto simp: find_space_name_def find_Some_iff)
  with sp hex l show ?thesis by (auto simp: copy_shape_def list_ex_iff)
qed

lemma plan_shape:
  assumes "plan_memory_operation spaces source s img = Ok m" and "mp_width m \<le> 8"
  shows "concrete_memory_shape source spaces = Ok ()"
proof -
  from assms(1) obtain kind i sp w r v where
      kind: "memory_kind source = Ok kind" and i: "memory_space_id source (op_inputs source ! 0) = Ok i"
      and sp: "memory_target spaces source (op_inputs source ! 1) i = Ok sp"
      and w: "memory_width source kind sp = Ok w" and m: "mp_width m = w"
      and len: "0 < length (op_inputs source)" "1 < length (op_inputs source)"
    unfolding plan_memory_operation_def rbind_Ok by auto
  from i have id_ok: "vn_space (op_inputs source ! 0) = ''const''" "size_in 1 8 (vn_size (op_inputs source ! 0))"
      "hex_u64 (vn_offset (op_inputs source ! 0)) = Ok i"
      "\<not> i > (if vn_size (op_inputs source ! 0) = 8 then - 1 else push_bit (unat (vn_size (op_inputs source ! 0)) * 8) 1 - 1)"
    by (auto simp: memory_space_id_def Let_def split: if_splits)
  from sp have target: "memory_space spaces i = Some sp" "as_space_type sp = 1"
      "\<not> (as_name sp = ''const'' \<or> as_name sp = ''register'' \<or> as_name sp = ''unique'')"
      "size_in 1 8 (as_pointer_size sp)" "vn_size (op_inputs source ! 1) = as_pointer_size sp"
      "operand_space (vn_space (op_inputs source ! 1))"
    by (auto simp: memory_target_def Let_def split: if_splits)
  show ?thesis
  proof (cases kind)
    case Load
    with kind have k: "op_opcode source = 2" "op_mnemonic source = ''LOAD''" "length (op_inputs source) = 2"
      by (auto simp: memory_kind_def split: if_splits)
    from w Load obtain out where out: "op_output source = Some out" "scalar_space (vn_space out)" "vn_size out = w"
        "size_in 1 16 w" "as_addressable_unit_size sp \<noteq> 0"
      by (auto simp: memory_width_def Let_def split: option.splits if_splits)
    then have "operand_space (vn_space out)" "vn_space out \<noteq> ''const''" "size_in 1 8 w"
      using assms(2) m by (auto simp: operand_space_def scalar_space_def size_in_def)
    with out k id_ok target show ?thesis by (simp add: concrete_memory_shape_def Let_def)
  next
    case Store
    with kind have k: "op_opcode source = 3" "op_mnemonic source = ''STORE''" "length (op_inputs source) = 3"
        "op_output source = None"
      by (auto simp: memory_kind_def split: if_splits)
    from w Store k(3) have out: "operand_space (vn_space (op_inputs source ! 2))" "vn_size (op_inputs source ! 2) = w"
        "size_in 1 16 w" "as_addressable_unit_size sp \<noteq> 0"
      by (auto simp: memory_width_def Let_def split: if_splits)
    then have "size_in 1 8 w" using assms(2) m by (auto simp: size_in_def)
    with out k id_ok target show ?thesis by (simp add: concrete_memory_shape_def Let_def)
  qed
qed

lemma concrete_memory_shape_no_panic: "concrete_memory_shape source spaces \<noteq> Panic"
  by (auto simp: concrete_memory_shape_def copy_shape_def rbind_Panic Let_def index_rs_def split: list.splits option.splits if_splits)

lemma classify_no_panic: "classify_opaque source class reason spaces \<noteq> Panic"
  using concrete_memory_shape_no_panic [of source spaces]
  by (cases "class") (auto simp: classify_opaque_def Let_def split: result.splits)

lemma plan_wide_shape:
  assumes "plan_memory_operation spaces source s img = Ok m" and "8 < mp_width m"
  shows "concrete_memory_shape source spaces \<noteq> Ok ()"
proof -
  from assms(1) obtain kind sp w where
      kind: "memory_kind source = Ok kind" and w: "memory_width source kind sp = Ok w" and m: "mp_width m = w"
    unfolding plan_memory_operation_def rbind_Ok by auto
  have wide: "\<not> size_in 1 8 w" using assms(2) m by (simp add: size_in_def not_le)
  show ?thesis
  proof (cases kind)
    case Load
    with kind w obtain out where "op_opcode source = 2" "op_mnemonic source = ''LOAD''" "length (op_inputs source) = 2"
      "op_output source = Some out" "vn_size out = w"
      by (auto simp: memory_kind_def memory_width_def Let_def split: if_splits option.splits)
    with wide show ?thesis by (simp add: concrete_memory_shape_def Let_def)
  next
    case Store
    with kind have k: "op_opcode source = 3" "op_mnemonic source = ''STORE''" "length (op_inputs source) = 3" "op_output source = None"
      by (auto simp: memory_kind_def split: if_splits)
    with w Store have "vn_size (op_inputs source ! 2) = w" by (auto simp: memory_width_def Let_def split: if_splits)
    with wide k show ?thesis by (simp add: concrete_memory_shape_def Let_def)
  qed
qed

lemma executed_classification:
  assumes "lower_operation source = Opaque cl reason mr mw mc mo"
    and "classify_opaque source cl reason spaces = Ok (kind, status, why)"
    and "execute_effect_operation spaces (canonical source) s img = (s', Ok x)"
  shows "status = (case ex_memory_access x of Some a \<Rightarrow> if 8 < ma_width_bytes a then Stops else RequiresConcreteState
    | None \<Rightarrow> RequiresConcreteState)"
proof -
  from assms(1,3) have cls: "cl = MemoryRead \<or> cl = MemoryWrite"
    and run: "(if op_opcode source = 1 then execute_direct_ram_copy spaces source s img
      else execute_memory_operation spaces source s img) = (s', Ok x)"
    by (auto simp: execute_effect_operation_def canonical_def Let_def split: if_splits)
  from cls assms(2) have status: "status = (if concrete_memory_shape source spaces = Ok () then RequiresConcreteState else Stops)"
    by (auto simp: classify_opaque_def Let_def split: result.splits)
  show ?thesis
  proof (cases "op_opcode source = 1")
    case True
    with run obtain inp out r where "copy_layout source = Ok (inp, out)" "copy_address spaces source inp = Ok r"
      and x: "ex_memory_access x = None"
      by (auto simp: execute_direct_ram_copy_def Let_def split: result.splits)
    moreover from this(1) have "op_mnemonic source = ''COPY''"
      by (auto simp: copy_layout_def split: list.splits option.splits if_splits)
    ultimately show ?thesis using status True copy_runs_shape by (simp add: concrete_memory_shape_def)
  next
    case False
    with run obtain m where plan: "plan_memory_operation spaces source s img = Ok m" and x: "x = memory_record source m"
      by (auto simp: execute_memory_operation_def split: result.splits prod.splits)
    show ?thesis
    proof (cases "8 < mp_width m")
      case True
      have "concrete_memory_shape source spaces \<noteq> Ok ()"
        using plan_wide_shape [OF plan True] .
      with True status x show ?thesis by (simp add: memory_record_def)
    next
      case narrow: False
      with plan_shape [OF plan] status x show ?thesis by (simp add: memory_record_def not_less)
    qed
  qed
qed


lemma branch_class:
  assumes "lower_operation source = Opaque cl reason mr mw mc mo" and "op_opcode source \<in> {4, 5, 6}"
  shows "cl = ControlTransfer"
  using assms by (auto simp: lower_operation_def exact_opcode_def opaque_def)

lemma read_operand_space: "read_varnode s node = Ok (Some v) \<Longrightarrow> operand_space (vn_space node)"
  by (auto simp: read_varnode_def read_varnode_wide_def operand_space_def scalar_space_def split: if_splits)

lemma taken_size: "branch_taken source s True = Ok b \<Longrightarrow> 1 < length (op_inputs source) \<and> vn_size (op_inputs source ! 1) = 1"
  by (auto simp: branch_taken_def split: if_splits)

lemma direct_branch_shape:
  assumes "direct_branch_step ctx i source ps = Inl ps'" and "op_opcode source = 4 \<or> op_opcode source = 5"
  shows "op_mnemonic source = (if op_opcode source = 5 then ''CBRANCH'' else ''BRANCH'') \<and> branch_shape_supported source spaces"
proof -
  from assms(1) have shape: "op_mnemonic source = (if op_opcode source = 5 then ''CBRANCH'' else ''BRANCH'')" "op_output source = None"
    "length (op_inputs source) = (if op_opcode source = 5 then 2 else 1)"
    by (simp_all add: direct_branch_step_def leave_def Let_def del: One_nat_def split: if_split_asm)
  from assms(1) shape obtain b where "branch_taken source (ph_state ps) (op_opcode source = 5) = Ok b"
    by (cases "branch_taken source (ph_state ps) (op_opcode source = 5)") (simp_all add: direct_branch_step_def leave_def Let_def)
  with taken_size [of source "ph_state ps" b] shape assms(2) show ?thesis by (auto simp: branch_shape_supported_def)
qed

lemma indirect_branch_shape:
  assumes "indirect_branch_step ctx i source ps = Inl ps'" and "op_opcode source = 6"
    and "pa_space (op_source_address source) = pa_space (si_address i)"
  shows "op_mnemonic source = ''BRANCHIND'' \<and> branch_shape_supported source (se_address_spaces (pc_semantic ctx))"
proof -
  from assms(1) have shape: "op_mnemonic source = ''BRANCHIND''" "op_output source = None" "length (op_inputs source) = 1"
    by (simp_all add: indirect_branch_step_def leave_def Let_def del: One_nat_def split: if_split_asm)
  with assms(1) obtain sp v where sp: "find_space_name (se_address_spaces (pc_semantic ctx)) (pa_space (si_address i)) = Some sp"
    "as_pointer_size sp \<noteq> 0" "\<not> as_pointer_size sp > 8" "vn_size (op_inputs source ! 0) = as_pointer_size sp"
    "read_varnode (ph_state ps) (op_inputs source ! 0) = Ok (Some v)"
    by (auto simp: indirect_branch_step_def leave_def Let_def split: option.splits if_splits result.splits)
  from sp(1) have "sp \<in> set (se_address_spaces (pc_semantic ctx))" "as_name sp = pa_space (si_address i)"
    by (auto simp: find_space_name_def find_Some_iff)
  moreover have "size_in 1 8 (as_pointer_size sp)" using sp(2,3) by (simp add: size_in_def word_gt_0 flip: word_less_1 not_less)
  ultimately show ?thesis using shape sp(4) read_operand_space [OF sp(5)] assms(2,3)
    by (auto simp: branch_shape_supported_def list_ex_iff)
qed

lemma stopping_operation_leaves:
  assumes lowered: "lower_operation source = Opaque cl reason mr mw mc mo"
    and stops: "classify_opaque source cl reason (se_address_spaces (pc_semantic ctx)) = Ok (kind, Stops, why)"
    and step: "operation_step ctx i (canonical source) ps = Inl ps'"
  shows "(\<exists>x a. ph_events ps' = ph_events ps @ [EffectEvent x] \<and> ex_memory_access x = Some a \<and> 8 < ma_width_bytes a) \<or>
    op_opcode source = 6 \<and> pa_space (op_source_address source) \<noteq> pa_space (si_address i)"
proof -
  have source: "so_source (canonical source) = source" by (simp add: canonical_def)
  have control: "\<not> (op_mnemonic source = (if op_opcode source = 4 then ''BRANCH'' else if op_opcode source = 5 then ''CBRANCH'' else ''BRANCHIND'') \<and>
      branch_shape_supported source (se_address_spaces (pc_semantic ctx)))" if "op_opcode source \<in> {4, 5, 6}"
    using stops branch_class [OF lowered that] that by (auto simp: classify_opaque_def Let_def split: if_splits)
  consider "op_opcode source = 4 \<or> op_opcode source = 5" | "op_opcode source = 6" | "op_opcode source \<in> {7, 8, 10}"
    | "op_opcode source \<notin> {4, 5, 6, 7, 8, 10}" by blast
  then show ?thesis
  proof cases
    case 1
    with step have "direct_branch_step ctx i source ps = Inl ps'"
      by (auto simp: operation_step_def source leave_def Let_def split: if_split_asm)
    from direct_branch_shape [OF this 1, of "se_address_spaces (pc_semantic ctx)"] control 1 show ?thesis by auto
  next
    case 2
    with step have "indirect_branch_step ctx i source ps = Inl ps'"
      by (auto simp: operation_step_def source leave_def Let_def split: if_split_asm)
    from indirect_branch_shape [OF this 2] control 2 show ?thesis by auto
  next
    case 3
    with step show ?thesis by (auto simp: operation_step_def source leave_def Let_def call_return_step_def split: if_split_asm)
  next
    case 4
    with step have "effect_step ctx (canonical source) ps = Inl ps'"
      by (auto simp: operation_step_def source leave_def Let_def split: if_split_asm)
    then obtain s' x where run: "execute_effect_operation (se_address_spaces (pc_semantic ctx)) (canonical source) (ph_state ps) (pc_image ctx) = (s', Ok x)"
      and events: "ph_events ps' = ph_events ps @ [EffectEvent x]"
      by (auto simp: effect_step_def leave_def Let_def split: prod.splits result.splits)
    from executed_classification [OF lowered stops run] events show ?thesis by (auto split: option.splits if_splits)
  qed
qed

section \<open>What the capability report counts\<close>

type_synonym capability = "pcode_capability_kind \<times> pcode_capability_status \<times> string"

definition capability_of :: "ghidra_address_space list \<Rightarrow> pcode_semantic_operation \<Rightarrow> (pcode_operation \<times> capability) list" where
  "capability_of spaces opn =
     (case so_effect opn of
        Assign _ _ \<Rightarrow> []
      | Opaque class reason _ _ _ _ \<Rightarrow>
          (case classify_opaque (so_source opn) class reason spaces of Ok c \<Rightarrow> [(so_source opn, c)] | _ \<Rightarrow> []))"

definition capabilities :: "ghidra_address_space list \<Rightarrow> pcode_semantic_operation list \<Rightarrow> (pcode_operation \<times> capability) list" where
  "capabilities spaces ops = concat (map (capability_of spaces) ops)"

definition having :: "pcode_capability_kind set \<Rightarrow> pcode_capability_status set \<Rightarrow> (pcode_operation \<times> capability) list \<Rightarrow> nat" where
  \<comment> \<open>how many operations have one of these kinds and one of these statuses\<close>
  "having kinds states caps = length (filter (\<lambda>(_, kind, status, _). kind \<in> kinds \<and> status \<in> states) caps)"

definition tally ::
  "pcode_capability_site list \<Rightarrow> ghidra_address_space list \<Rightarrow> pcode_semantic_operation list \<Rightarrow> capability_scan \<Rightarrow> bool" where
  "tally nodes spaces ops st =
     (let caps = capabilities spaces ops; sites = nodes @ map (\<lambda>(source, c). operation_site source c) caps; x = ks_execution st;
          m = ks_memory st in
      ks_sites st = take MAX_CAPABILITY_SITES sites \<and> ks_site_count st = length sites \<and>
      xc_exact_value_operations x = exact_count ops \<and> xc_llvm_candidate_values x \<le> exact_count ops \<and>
      xc_conditional_memory_operations x = having {CapMemoryRead, CapMemoryWrite} {RequiresConcreteState} caps \<and>
      xc_conditional_control_operations x = having {CapControl} {RequiresConcreteState} caps \<and>
      xc_stopping_operations x = having UNIV {Stops} caps \<and>
      mc_reads m = having {CapMemoryRead} UNIV caps \<and> mc_writes m = having {CapMemoryWrite} UNIV caps \<and>
      mc_conditional_reads m = having {CapMemoryRead} {RequiresConcreteState} caps \<and>
      mc_conditional_writes m = having {CapMemoryWrite} {RequiresConcreteState} caps \<and>
      ks_call_operations st = having {CapCall} UNIV caps)"

lemma classify_total: "\<exists>c. classify_opaque source class reason spaces = Ok c"
  using concrete_memory_shape_no_panic [of source spaces]
  by (cases "class") (auto simp: classify_opaque_def Let_def split: result.splits)

lemma push_take: "push_capability_site s (take MAX_CAPABILITY_SITES xs) = take MAX_CAPABILITY_SITES (xs @ [s])"
  by (auto simp: push_capability_site_def MAX_CAPABILITY_SITES_def)

lemma having_append: "having k s (xs @ ys) = having k s xs + having k s ys"
  by (simp add: having_def)

lemma tally_exact:
  assumes "tally nodes spaces ops st" and "so_effect opn = Assign e b" and "scan_operation spaces st opn = Ok st'"
  shows "tally nodes spaces (ops @ [opn]) st'"
proof -
  have "capabilities spaces (ops @ [opn]) = capabilities spaces ops" "exact_count (ops @ [opn]) = Suc (exact_count ops)"
    using assms(2) by (simp_all add: capabilities_def capability_of_def exact_count_def is_assign_def)
  with assms show ?thesis by (auto simp: tally_def scan_operation_def Let_def split: if_splits)
qed

lemma count_capability_fields:
  "ks_sites (count_capability c st) = ks_sites st" "ks_site_count (count_capability c st) = ks_site_count st"
  "xc_exact_value_operations (ks_execution (count_capability c st)) = xc_exact_value_operations (ks_execution st)"
  "xc_llvm_candidate_values (ks_execution (count_capability c st)) = xc_llvm_candidate_values (ks_execution st)"
  "xc_conditional_memory_operations (ks_execution (count_capability c st)) =
     xc_conditional_memory_operations (ks_execution st) + having {CapMemoryRead, CapMemoryWrite} {RequiresConcreteState} [(source, c)]"
  "xc_conditional_control_operations (ks_execution (count_capability c st)) =
     xc_conditional_control_operations (ks_execution st) + having {CapControl} {RequiresConcreteState} [(source, c)]"
  "xc_stopping_operations (ks_execution (count_capability c st)) =
     xc_stopping_operations (ks_execution st) + having UNIV {Stops} [(source, c)]"
  "mc_reads (ks_memory (count_capability c st)) = mc_reads (ks_memory st) + having {CapMemoryRead} UNIV [(source, c)]"
  "mc_writes (ks_memory (count_capability c st)) = mc_writes (ks_memory st) + having {CapMemoryWrite} UNIV [(source, c)]"
  "mc_conditional_reads (ks_memory (count_capability c st)) =
     mc_conditional_reads (ks_memory st) + having {CapMemoryRead} {RequiresConcreteState} [(source, c)]"
  "mc_conditional_writes (ks_memory (count_capability c st)) =
     mc_conditional_writes (ks_memory st) + having {CapMemoryWrite} {RequiresConcreteState} [(source, c)]"
  "ks_call_operations (count_capability c st) = ks_call_operations st + having {CapCall} UNIV [(source, c)]"
  by (cases c; cases "fst c"; simp add: count_capability_def having_def Let_def)+

lemma tally_opaque:
  assumes "tally nodes spaces ops st" and "so_effect opn = Opaque cl r mr mw mc mo" and "scan_operation spaces st opn = Ok st'"
  shows "tally nodes spaces (ops @ [opn]) st'"
proof -
  from assms(3) obtain c where c: "classify_opaque (so_source opn) cl r spaces = Ok c"
    "st' = add_site (operation_site (so_source opn) c) (count_capability c st)"
    by (auto simp: scan_operation_def assms(2) Let_def simp del: split_paired_Ex)
  have "capabilities spaces (ops @ [opn]) = capabilities spaces ops @ [(so_source opn, c)]"
    "exact_count (ops @ [opn]) = exact_count ops"
    using assms(2) c(1) by (simp_all add: capabilities_def capability_of_def exact_count_def is_assign_def)
  with assms(1) show ?thesis
    unfolding tally_def Let_def c(2)
    by (simp add: add_site_def count_capability_fields(1-4) count_capability_fields(5-) [where source = "so_source opn"]
        having_append push_take del: take_append)
qed

lemma scan_operation_Ok: "\<exists>st'. scan_operation spaces st opn = Ok st'"
proof (cases "so_effect opn")
  case (Opaque cl r mr mw mc mo)
  obtain c where "classify_opaque (so_source opn) cl r spaces = Ok c" using classify_total by blast
  then show ?thesis by (simp add: scan_operation_def Opaque)
qed (simp add: scan_operation_def)

lemma scan_operations_tally:
  "tally nodes spaces past st \<Longrightarrow> \<exists>st'. fold_res (scan_operation spaces) st ops = Ok st' \<and> tally nodes spaces (past @ ops) st'"
proof (rule fold_snoc_invariant)
  fix past st opn assume t: "tally nodes spaces past st"
  obtain st' where st': "scan_operation spaces st opn = Ok st'" using scan_operation_Ok by blast
  with tally_exact [OF t _ st'] tally_opaque [OF t _ st']
  have "tally nodes spaces (past @ [opn]) st'" by (cases "so_effect opn") auto
  with st' show "\<exists>st'. scan_operation spaces st opn = Ok st' \<and> tally nodes spaces (past @ [opn]) st'" by blast
qed

lemma scan_instructions_tally:
  "tally nodes spaces past st \<Longrightarrow>
    \<exists>st'. fold_res (\<lambda>st i. fold_res (scan_operation spaces) st (si_operations i)) st is = Ok st' \<and>
      tally nodes spaces (past @ concat (map si_operations is)) st'"
proof (induction "is" arbitrary: past st)
  case (Cons i "is")
  from scan_operations_tally [OF Cons.prems] obtain st1 where
    st1: "fold_res (scan_operation spaces) st (si_operations i) = Ok st1" "tally nodes spaces (past @ si_operations i) st1" by blast
  from Cons.IH [OF st1(2)] st1(1) show ?case by simp
qed simp

section \<open>The report of a validated snapshot\<close>

definition is_open :: "pcode_cfg_call list \<Rightarrow> pcode_cfg_node \<Rightarrow> bool" where
  "is_open calls node = (open_flow calls node = Ok True)"

lemma open_flow_total:
  assumes "validate_ghidra_snapshot snap (gs_binary_sha256 snap) = Ok ()" and "cfg_wf snap cfg" and "node \<in> set (cf_nodes cfg)"
  shows "open_flow (cf_calls cfg) node = Ok (is_open (cf_calls cfg) node)"
proof -
  from assms(2,3) obtain n where node: "node = final_node (st_instructions (cf_state cfg)) (cf_edges cfg) (cf_calls cfg) n"
    by (auto simp: cfg_wf_def Let_def)
  then have "cn_outgoing_calls node = outgoing ca_source_node (cf_calls cfg) n" by (simp add: final_node_def linked_node_def)
  then show ?thesis
    by (simp add: is_open_def open_flow_def outgoing_any(1) [OF cfg_wf_bounds(2) [OF assms(1,2)]])
qed

lemma scan_nodes:
  assumes "\<And>node. node \<in> set nodes \<Longrightarrow> open_flow calls node = Ok (is_open calls node)"
    and "tally pre spaces [] st"
  shows "\<exists>st'. fold_res (scan_node calls) st nodes = Ok st' \<and> tally (pre @ map node_site (filter (is_open calls) nodes)) spaces [] st'"
  using assms
proof (induction nodes arbitrary: pre st)
  case (Cons node nodes)
  let ?st = "if is_open calls node then add_site (node_site node) st else st"
  have "scan_node calls st node = Ok ?st" using Cons.prems(1) [of node] by (simp add: scan_node_def)
  moreover have "tally (pre @ (if is_open calls node then [node_site node] else [])) spaces [] ?st"
    using Cons.prems(2) by (simp add: tally_def capabilities_def add_site_def Let_def push_take)
  ultimately show ?case using Cons.IH [of "pre @ (if is_open calls node then [node_site node] else [])" ?st] Cons.prems(1) by auto
qed simp

lemma empty_scan_tally: "tally [] spaces [] empty_scan"
  by (simp add: tally_def empty_scan_def capabilities_def having_def exact_count_def)

definition capability_wf :: "ghidra_snapshot \<Rightarrow> pcode_capabilities \<Rightarrow> bool" where
  \<comment> \<open>the report of the operations \<open>ops\<close> of the function and the nodes of its control-flow graph\<close>
  "capability_wf snap r =
     (\<exists>f cfg st. Pcode_Validate.pcode_function_ir snap = Ok f \<and> pcode_cfg_ir snap = Ok cfg \<and>
        (let ops = concat (map si_operations (se_instructions (lower_semantics f)));
             nodes = filter (is_open (cf_calls cfg)) (cf_nodes cfg) in
         tally (map node_site nodes) (gs_address_spaces snap) ops st \<and>
         cr_operations r = length ops \<and> cr_execution r = ks_execution st \<and> cr_memory r = ks_memory st \<and>
         cc_call_operations (cr_calls r) = ks_call_operations st \<and> cr_stop_sites r = ks_sites st \<and>
         cr_omitted_stop_sites r + length (cr_stop_sites r) = ks_site_count st \<and>
         di_unresolved_nodes (cr_discovery r) = length nodes \<and>
         cc_direct_targets (cr_calls r) + cc_unresolved_targets (cr_calls r) = length (cf_calls cfg)))"

lemma capability_report_total:
  assumes valid: "validate_ghidra_snapshot snap (gs_binary_sha256 snap) = Ok ()" and digest: "digest_of snap = Ok d"
  shows "\<exists>r. pcode_capability_report digest_of snap = Ok r \<and> capability_wf snap r"
proof -
  from cfg_of_validated [OF valid] obtain cfg where cfg: "pcode_cfg_ir snap = Ok cfg" "cfg_wf snap cfg" by blast
  from pcode_function_ir_total [OF valid] obtain f where f: "Pcode_Validate.pcode_function_ir snap = Ok f" by blast
  note opens = open_flow_total [OF valid cfg(2)]
  let ?nodes = "filter (is_open (cf_calls cfg)) (cf_nodes cfg)"
  from scan_nodes [OF opens empty_scan_tally, of "cf_nodes cfg"] obtain st where
    st: "fold_res (scan_node (cf_calls cfg)) empty_scan (cf_nodes cfg) = Ok st"
      "tally (map node_site ?nodes) (gs_address_spaces snap) [] st" by auto
  from scan_instructions_tally [OF st(2)] obtain st' where
    st': "fold_res (\<lambda>st i. fold_res (scan_operation (gs_address_spaces snap)) st (si_operations i)) st
        (se_instructions (lower_semantics f)) = Ok st'"
      "tally (map node_site ?nodes) (gs_address_spaces snap)
        (concat (map si_operations (se_instructions (lower_semantics f)))) st'" by auto
  have "list_all2 (\<lambda>node b. open_flow (cf_calls cfg) node = Ok b) (cf_nodes cfg) (map (is_open (cf_calls cfg)) (cf_nodes cfg))"
    unfolding list.rel_map by (rule list.rel_refl_strong) (rule opens)
  then have "collect_res (open_flow (cf_calls cfg)) (cf_nodes cfg) = Ok (map (is_open (cf_calls cfg)) (cf_nodes cfg))"
    by (simp add: collect_res_Ok)
  then obtain d' where d': "discovery_of cfg = Ok d'" "di_unresolved_nodes d' = length ?nodes"
    "di_unresolved_calls d' = length (filter unresolved_call (cf_calls cfg))"
    by (simp add: discovery_of_def filter_map o_def)
  have calls: "length (filter (\<lambda>c. \<not> unresolved_call c) (cf_calls cfg)) + length (filter unresolved_call (cf_calls cfg)) =
      length (cf_calls cfg)" using sum_length_filter_compl [of unresolved_call "cf_calls cfg"] by simp
  have count: "operation_count (se_instructions (lower_semantics f)) =
      length (concat (map si_operations (se_instructions (lower_semantics f))))"
    by (simp add: operation_count_def length_concat o_def)
  have "ks_sites st' = take MAX_CAPABILITY_SITES (map node_site ?nodes @ map (\<lambda>(source, c). operation_site source c)
      (capabilities (gs_address_spaces snap) (concat (map si_operations (se_instructions (lower_semantics f))))))"
    "ks_site_count st' = length (map node_site ?nodes @ map (\<lambda>(source, c). operation_site source c)
      (capabilities (gs_address_spaces snap) (concat (map si_operations (se_instructions (lower_semantics f))))))"
    using st'(2) unfolding tally_def Let_def by blast+
  then have omitted: "ks_site_count st' - MAX_CAPABILITY_SITES + length (ks_sites st') = ks_site_count st'" by simp
  from cfg(1) f digest d' st(1) st'(1) obtain r where r: "pcode_capability_report digest_of snap = Ok r"
    "cr_operations r = operation_count (se_instructions (lower_semantics f))" "cr_execution r = ks_execution st'"
    "cr_memory r = ks_memory st'" "cr_calls r = \<lparr>cc_call_operations = ks_call_operations st',
       cc_direct_targets = length (filter (\<lambda>c. \<not> unresolved_call c) (cf_calls cfg)),
       cc_unresolved_targets = di_unresolved_calls d'\<rparr>" "cr_stop_sites r = ks_sites st'"
    "cr_omitted_stop_sites r = ks_site_count st' - MAX_CAPABILITY_SITES" "cr_discovery r = d'"
    by (simp add: pcode_capability_report_def Let_def)
  have "capability_wf snap r"
    unfolding capability_wf_def Let_def using f cfg(1) st'(2) r(2-) count omitted d'(2,3) calls
    by (intro exI [of _ f] exI [of _ cfg] exI [of _ st']) simp
  with r(1) show ?thesis by blast
qed

end
