(* ===== verification/Pcode_Example.thy ===== *)
theory Pcode_Example
  imports Pcode_PathRun Pcode_Simplify Pcode_Coverage "HOL-Library.Code_Target_Nat"
begin

text \<open>
  A small snapshot the witnesses of the properties are evaluated on: two instructions of a function
  at \<^verbatim>\<open>ram:0x1000\<close>. The first adds zero and then five to a register, the second returns; an
  analyzed fallthrough edge joins them.
\<close>

section \<open>The snapshot\<close>

definition example_digest :: string where
  "example_digest = concat (replicate 8 ''0123abcd'')"

definition ram_at :: "string \<Rightarrow> pcode_address" where
  "ram_at a = \<lparr>pa_space = ''ram'', pa_offset = a\<rparr>"

definition vnode :: "string \<Rightarrow> string \<Rightarrow> u32 \<Rightarrow> pcode_varnode" where
  "vnode sp a n = \<lparr>vn_space = sp, vn_offset = a, vn_size = n\<rparr>"

definition aspace :: "string \<Rightarrow> i32 \<Rightarrow> i32 \<Rightarrow> ghidra_address_space" where
  "aspace n i t =
     \<lparr>as_name = n, as_id = i, as_space_type = t, as_addressable_unit_size = 1, as_pointer_size = 8\<rparr>"

definition operation_at ::
  "string \<Rightarrow> u32 \<Rightarrow> u32 \<Rightarrow> string \<Rightarrow> pcode_varnode option \<Rightarrow> pcode_varnode list \<Rightarrow> pcode_operation" where
  "operation_at a index opcode mnemonic out ins =
     \<lparr>op_mnemonic = mnemonic, op_opcode = opcode, op_sequence_index = index, op_sequence_time = index,
      op_source_address = ram_at a, op_userop_name = None, op_output = out, op_inputs = ins\<rparr>"

definition add_zero :: pcode_operation where
  "add_zero = operation_at ''0x1000'' 0 19 ''INT_ADD'' (Some (vnode ''unique'' ''0x100'' 8))
     [vnode ''register'' ''0x0'' 8, vnode ''const'' ''0x0'' 8]"

definition add_five :: pcode_operation where
  "add_five = operation_at ''0x1000'' 1 19 ''INT_ADD'' (Some (vnode ''register'' ''0x8'' 8))
     [vnode ''unique'' ''0x100'' 8, vnode ''const'' ''0x5'' 8]"

definition return_op :: pcode_operation where
  "return_op = operation_at ''0x1004'' 0 10 ''RETURN'' None [vnode ''register'' ''0x288'' 8]"

definition example_instructions :: "pcode_instruction list" where
  "example_instructions =
     [\<lparr>in_address = ram_at ''0x1000'', in_bytes = ''4883c005'', in_parsed_bytes = ''4883c005'',
       in_mnemonic = ''ADD'', in_pcode = [add_zero, add_five]\<rparr>,
      \<lparr>in_address = ram_at ''0x1004'', in_bytes = ''c3'', in_parsed_bytes = ''c3'',
       in_mnemonic = ''RET'', in_pcode = [return_op]\<rparr>]"

definition example_snapshot :: ghidra_snapshot where
  "example_snapshot =
     \<lparr>gs_schema_version = 2, gs_source = ''ghidra'', gs_flow_overrides_applied = True,
      gs_binary_sha256 = example_digest,
      gs_program = \<lparr>pr_name = ''prism'', pr_ghidra_version = ''11.3'', pr_language_id = ''x86:LE:64:default'',
        pr_compiler_spec_id = ''gcc'', pr_image_base = ram_at ''0x0''\<rparr>,
      gs_address_spaces = [aspace ''const'' 0 0, aspace ''ram'' 1 1, aspace ''unique'' 2 3, aspace ''register'' 4 4],
      gs_register_layout = [], gs_memory_blocks = [], gs_symbols = [],
      gs_functions = [\<lparr>fe_entry = ram_at ''0x1000'', fe_name = ''f'', fe_size = 5, fe_prototype = None\<rparr>],
      gs_selected_function = \<lparr>sf_entry = ram_at ''0x1000'', sf_instructions = example_instructions,
        sf_flow_edges = [\<lparr>fl_source = ram_at ''0x1000'', fl_target = Some (ram_at ''0x1004''),
          fl_kind = Fallthrough, fl_conditional = False, fl_computed = False\<rparr>],
        sf_call_targets = [], sf_high_pcode = None\<rparr>\<rparr>"

definition empty_state :: concrete_state where
  "empty_state = \<lparr>cs_register_bytes = [], cs_unique_bytes = [], cs_memory_bytes = []\<rparr>"

section \<open>Its evaluation\<close>

lemma example_valid: "validate_ghidra_snapshot example_snapshot example_digest = Ok ()"
  by code_simp

lemma empty_state_wf: "state_wf empty_state" "state_sorted empty_state"
  by (simp_all add: state_wf_def state_sorted_def empty_state_def bm_wf_def known_byte_count_def bm_len_def MAX_KNOWN_STATE_BYTES_def)

section \<open>Single operations\<close>

definition example_add :: pcode_semantic_operation where
  "example_add = \<lparr>so_source = add_five, so_effect = Assign Add 64\<rparr>"

definition store_op :: pcode_operation where
  "store_op = operation_at ''0x1000'' 0 3 ''STORE'' None
     [vnode ''const'' ''0x1'' 8, vnode ''const'' ''0x2000'' 8, vnode ''const'' ''0x1234'' 2]"

definition example_store :: pcode_semantic_operation where
  "example_store = \<lparr>so_source = store_op, so_effect = lower_operation store_op\<rparr>"

definition seeded_state :: concrete_state where
  \<comment> \<open>the temporary at \<^verbatim>\<open>unique:0x100\<close> holds all ones\<close>
  "seeded_state = empty_state\<lparr>cs_unique_bytes := map (\<lambda>i. (0x100 + word_of_nat i, 0xff)) [0..<8]\<rparr>"

lemma example_hex:
  "hex_u64 ''0x0'' = Ok 0" "hex_u64 ''0x1'' = Ok 1" "hex_u64 ''0x5'' = Ok 5" "hex_u64 ''0x8'' = Ok 8"
  "hex_u64 ''0x10'' = Ok 0x10" "hex_u64 ''0x12'' = Ok 0x12" "hex_u64 ''0x100'' = Ok 0x100"
  "hex_u64 ''0x2000'' = Ok 0x2000" "hex_u64 ''0x1234'' = Ok 0x1234" "hex_u64 ''0x1000'' = Ok 0x1000"
  "hex_u64 ''0x1004'' = Ok 0x1004"
  by code_simp+

lemma example_lowering:
  "lower_operation add_five = Assign Add 64" "lower_operation add_zero = Assign Add 64"
  "\<not> is_assign (lower_operation store_op)"
  "lower_operation store_op = Opaque MemoryWrite ''STORE address-space and pointer semantics are not lowered'' False True False False"
  by code_simp+

lemma upt_8: "[0..<8] = [0, 1, 2, 3, 4, 5, 6, 7]"
  by (simp add: upt_rec)

lemmas example_reads =
  read_varnode_wide_def read_varnode_def checked_range_def example_hex vnode_def seeded_state_def empty_state_def size_in_def byte_at_def
  bm_get_def upt_8 bits_of_def mask_wide_eq mask_eq_exp_minus_1 u64_try_from_def

lemma seeded_state_wf: "state_wf seeded_state"
  by (simp add: state_wf_def seeded_state_def empty_state_def bm_wf_def known_byte_count_def bm_len_def
      MAX_KNOWN_STATE_BYTES_def upt_rec)

lemma seeded_reads:
  "read_varnode_wide seeded_state (vnode ''unique'' ''0x100'' 8) = Ok (Some 0xffffffffffffffff)"
  "read_varnode_wide seeded_state (vnode ''const'' ''0x5'' 8) = Ok (Some 5)"
  "read_varnode_wide empty_state (vnode ''unique'' ''0x100'' 8) = Ok None"
  by (simp_all add: example_reads)

lemma add_five_simps [simp]:
  "op_inputs add_five = [vnode ''unique'' ''0x100'' 8, vnode ''const'' ''0x5'' 8]"
  "op_output add_five = Some (vnode ''register'' ''0x8'' 8)"
  by (simp_all add: add_five_def operation_at_def)

lemma add_five_evaluates: "evaluate_exact_wide example_add [0xffffffffffffffff, 5] = Ok (Some 4)"
  by (simp add: evaluate_exact_wide_def example_add_def example_lowering check_constant_def vnode_def bits_of_def
      mask_wide_eq mask_eq_exp_minus_1 example_hex at2_def)

lemma seeded_write: "\<exists>s'. write_varnode_wide seeded_state (vnode ''register'' ''0x8'' 8) 4 = Ok s'"
  unfolding write_varnode_wide_Ok
  by (simp add: node_range_ok_def checked_range_def size_in_def example_hex vnode_def known_byte_count_def bm_len_def
      missing_bytes_def bm_contains_def MAX_KNOWN_STATE_BYTES_def scalar_space_def seeded_state_def empty_state_def
      scalar_bytes_def node_len_def bm_get_def)

lemma example_write: "\<exists>s'. write_varnode_wide empty_state (vnode ''register'' ''0x10'' 2) v = Ok s'"
  unfolding write_varnode_wide_Ok
  by (simp add: node_range_ok_def checked_range_def size_in_def example_hex vnode_def known_byte_count_def bm_len_def
      missing_bytes_def bm_contains_def MAX_KNOWN_STATE_BYTES_def scalar_space_def empty_state_def
      scalar_bytes_def node_len_def bm_get_def upt_rec)

lemma add_five_runs:
  "\<exists>s' x. execute_effect_operation spaces example_add seeded_state img = (s', Ok x)"
proof -
  have "read_inputs add_five seeded_state = Ok [0xffffffffffffffff, 5]"
    by (simp add: read_inputs_def seeded_reads)
  with seeded_write add_five_evaluates have "\<exists>s' x. execute_exact_operation example_add seeded_state = Ok (s', x)"
    unfolding exact_operation_Ok by (simp add: example_add_def)
  then show ?thesis
    by (auto simp: execute_effect_operation_def example_add_def example_lowering)
qed

lemma add_five_stops:
  "execute_effect_operation spaces example_add empty_state img =
     (empty_state, Err (MissingInput add_five 0 (vnode ''unique'' ''0x100'' 8)))"
  by (simp add: execute_effect_operation_def execute_exact_operation_def example_add_def example_lowering
      read_inputs_def seeded_reads Let_def)

lemma store_op_simps [simp]:
  "op_inputs store_op = [vnode ''const'' ''0x1'' 8, vnode ''const'' ''0x2000'' 8, vnode ''const'' ''0x1234'' 2]"
  "op_output store_op = None" "op_opcode store_op = 3" "op_mnemonic store_op = ''STORE''"
  by (simp_all add: store_op_def operation_at_def)

lemma store_op_effect:
  "execute_effect_operation spaces example_store s img = execute_memory_operation spaces store_op s img"
  by (simp add: execute_effect_operation_def example_store_def example_lowering)

definition ram_space :: ghidra_address_space where
  "ram_space = aspace ''ram'' 1 1"

lemma store_op_plan:
  "memory_kind store_op = Ok Store"
  "memory_space_id store_op (vnode ''const'' ''0x1'' 8) = Ok 1"
  "memory_target (gs_address_spaces example_snapshot) store_op (vnode ''const'' ''0x2000'' 8) 1 = Ok ram_space"
  "memory_width store_op Store ram_space = Ok 2"
  "memory_pointer store_op ram_space empty_state (vnode ''const'' ''0x2000'' 8) 2 = Ok (0x2000, 0x2000)"
  "store_value store_op ram_space empty_state None 0x2000 0x2000 2 = Ok 0x1234"
proof -
  show "memory_kind store_op = Ok Store" by (simp add: memory_kind_def)
  show "memory_space_id store_op (vnode ''const'' ''0x1'' 8) = Ok 1"
    by (simp add: memory_space_id_def vnode_def size_in_def example_hex)
  show "memory_target (gs_address_spaces example_snapshot) store_op (vnode ''const'' ''0x2000'' 8) 1 = Ok ram_space"
    by (simp add: memory_target_def memory_space_def example_snapshot_def aspace_def ram_space_def vnode_def size_in_def
        operand_space_def)
  show "memory_width store_op Store ram_space = Ok 2"
    by (simp add: memory_width_def vnode_def ram_space_def aspace_def operand_space_def size_in_def index_rs_def)
  show "memory_pointer store_op ram_space empty_state (vnode ''const'' ''0x2000'' 8) 2 = Ok (0x2000, 0x2000)"
    by (simp add: memory_pointer_def ram_space_def aspace_def checked_memory_range_wide_def checked_mul_def example_reads)
  show "store_value store_op ram_space empty_state None 0x2000 0x2000 2 = Ok 0x1234"
    by (simp add: store_value_def ram_space_def aspace_def example_reads index_rs_def)
qed

lemma store_op_runs:
  "\<exists>s' x. execute_effect_operation (gs_address_spaces example_snapshot) example_store empty_state None = (s', Ok x)"
proof -
  obtain m where m: "plan_memory_operation (gs_address_spaces example_snapshot) store_op empty_state None = Ok m"
    "mp_kind m = Store" "mp_space m = ram_space" "mp_byte_offset m = 0x2000" "mp_width m = 2"
    by (simp add: plan_memory_operation_def store_op_plan One_nat_def)
  have "space_name_ok ''ram''" by code_simp
  then have "is_ok (snd (write_memory_wide empty_state ''ram'' 0x2000 2 v))" for v
    by (simp add: write_memory_wide_def checked_memory_range_wide_def store_bytes_def
        empty_state_def known_byte_count_def bm_len_def missing_bytes_def MAX_KNOWN_STATE_BYTES_def upt_rec size_in_def Let_def)
  moreover obtain s1 q where "write_memory_wide empty_state ''ram'' 0x2000 2 (mp_value m) = (s1, q)" by force
  ultimately have "write_memory_wide empty_state ''ram'' 0x2000 2 (mp_value m) = (s1, Ok ())"
    by (metis (full_types) is_ok_iff old.unit.exhaust snd_conv)
  then show ?thesis
    using m by (simp add: store_op_effect execute_memory_operation_def commit_memory_operation_def ram_space_def aspace_def)
qed

section \<open>Whole runs\<close>

definition example_function :: pcode_function_ir where
  "example_function =
     \<lparr>fi_schema_version = 1, fi_binary_sha256 = example_digest, fi_source = ''ghidra_raw_pcode'',
      fi_flow_overrides_applied = True, fi_ghidra_version = ''11.3'', fi_language_id = ''x86:LE:64:default'',
      fi_compiler_spec_id = ''gcc'', fi_address_spaces = gs_address_spaces example_snapshot,
      fi_entry = ram_at ''0x1000'', fi_name = ''f'', fi_instructions = example_instructions,
      fi_semantic_fidelity = Unknown, fi_verification = NotRun\<rparr>"

lemma example_function_ir: "Pcode_Validate.pcode_function_ir example_snapshot = Ok example_function"
  by code_simp

definition example_index :: instruction_index where
  "example_index = [((''ram'', 0x1000), 0), ((''ram'', 0x1004), 1)]"

lemma example_stages:
  "validate_execution_setup (lower_semantics example_function) empty_state 10 = Ok ()"
  "build_index (se_instructions (lower_semantics example_function)) = Ok example_index"
  "address_key (ram_at ''0x1000'') = Ok (''ram'', 0x1000)"
  "length (se_instructions (lower_semantics example_function)) = 2"
  by code_simp+

lemma seeded_setup: "validate_execution_setup (lower_semantics example_function) seeded_state 10 = Ok ()"
  using example_stages(1) seeded_state_wf
  by (auto simp: validate_execution_setup_def state_wf_def not_less split: if_splits)

lemma example_index_start: "bm_get example_index (''ram'', 0x1000) = Some 0"
  by (simp add: example_index_def bm_get_def)

lemma example_fallthroughs:
  "build_fallthroughs example_index (sf_flow_edges (gs_selected_function example_snapshot)) 2 =
     Ok [[Some (ram_at ''0x1004'')], []]"
  by (simp add: build_fallthroughs_def add_fallthrough_def example_snapshot_def example_stages example_index_def bm_get_def
      numeral_2_eq_2)

lemma example_snapshot_simps [simp]:
  "gs_binary_sha256 example_snapshot = example_digest"
  "sf_entry (gs_selected_function example_snapshot) = ram_at ''0x1000''"
  by (simp_all add: example_snapshot_def)

lemma example_setup:
  assumes "\<And>im. img = Some im \<Longrightarrow> im_validate_for im example_snapshot empty_state = Ok ()"
  shows "is_ok (path_setup example_snapshot empty_state img None 10 10)"
proof -
  have "(case img of None \<Rightarrow> Ok () | Some im \<Rightarrow> im_validate_for im example_snapshot empty_state) = Ok ()"
    using assms by (simp split: option.split)
  moreover have "(10 :: nat) \<le> MAX_OPERATIONS" by (simp add: MAX_OPERATIONS_def)
  ultimately show ?thesis
    by (simp add: path_setup_def example_valid example_function_ir example_stages example_fallthroughs
        example_index_start Let_def)
qed

lemma example_path:
  assumes "\<And>im. img = Some im \<Longrightarrow> im_validate_for im example_snapshot empty_state = Ok ()"
  obtains t where "execute_concrete_path_inner example_snapshot empty_state img None 10 10 = Some (Ok t)"
proof -
  from example_setup [OF assms] obtain ctx a n where "path_setup example_snapshot empty_state img None 10 10 = Ok (ctx, a, n)"
    by (metis is_ok_iff prod_cases3)
  with concrete_path_returns [OF empty_state_wf(2), of img example_snapshot None 10 10] assms that show thesis
    by (fastforce simp: is_ok_iff)
qed

lemma example_prefix:
  obtains t where "execute_exact_prefix (lower_semantics example_function) seeded_state 10 = Ok t"
proof -
  have "execute_exact_prefix (lower_semantics example_function) seeded_state 10 \<noteq> Panic"
    by (rule execute_exact_prefix_no_panic [OF seeded_state_wf])
  then have "is_ok (execute_exact_prefix (lower_semantics example_function) seeded_state 10)"
    by (auto simp: execute_exact_prefix_def seeded_setup rbind_Err split: result.splits prod.splits)
  with that show thesis by (auto simp: is_ok_iff)
qed

section \<open>Its simplification\<close>

lemma example_simplified: "map_ok (\<lambda>a. map site_of (sm_rewrites a)) (simplify_checked example_function) = Ok [(0, 0)]"
  by code_simp

lemma example_artifact:
  obtains art where "simplify_checked example_function = Ok art" "map site_of (sm_rewrites art) = [(0, 0)]"
  using example_simplified by (auto simp: map_ok_def)

section \<open>A wide load\<close>

definition wide_load :: pcode_operation where
  "wide_load = operation_at ''0x1000'' 0 2 ''LOAD'' (Some (vnode ''unique'' ''0x100'' 16))
     [vnode ''const'' ''0x1'' 8, vnode ''const'' ''0x2000'' 8]"

definition zero_image :: initial_memory where
  "zero_image = \<lparr>im_byte = (\<lambda>_ _. Some 0), im_mapped = (\<lambda>_ _. True), im_writable = (\<lambda>_ _. True), im_reject_unmapped_writes = False,
     im_validate_for = (\<lambda>_ _. Ok ())\<rparr>"

definition load_reason :: string where
  "load_reason = ''LOAD address-space and pointer semantics are not lowered''"

lemma wide_load_lowering: "lower_operation wide_load = Opaque MemoryRead load_reason True False False True"
  by code_simp

lemma wide_load_class:
  "map_ok (\<lambda>(k, s, _). (k, s)) (classify_opaque wide_load MemoryRead load_reason (gs_address_spaces example_snapshot)) =
    Ok (CapMemoryRead, Stops)"
  by code_simp

lemma wide_load_simps [simp]:
  "op_inputs wide_load = [vnode ''const'' ''0x1'' 8, vnode ''const'' ''0x2000'' 8]"
  "op_output wide_load = Some (vnode ''unique'' ''0x100'' 16)" "op_opcode wide_load = 2" "op_mnemonic wide_load = ''LOAD''"
  by (simp_all add: wide_load_def operation_at_def)

lemma wide_load_plan:
  "memory_kind wide_load = Ok Load"
  "memory_space_id wide_load (vnode ''const'' ''0x1'' 8) = Ok 1"
  "memory_target (gs_address_spaces example_snapshot) wide_load (vnode ''const'' ''0x2000'' 8) 1 = Ok ram_space"
  "memory_width wide_load Load ram_space = Ok 16"
  "memory_pointer wide_load ram_space empty_state (vnode ''const'' ''0x2000'' 8) 16 = Ok (0x2000, 0x2000)"
proof -
  show "memory_kind wide_load = Ok Load" by (simp add: memory_kind_def)
  show "memory_space_id wide_load (vnode ''const'' ''0x1'' 8) = Ok 1"
    by (simp add: memory_space_id_def vnode_def size_in_def example_hex)
  show "memory_target (gs_address_spaces example_snapshot) wide_load (vnode ''const'' ''0x2000'' 8) 1 = Ok ram_space"
    by (simp add: memory_target_def memory_space_def example_snapshot_def aspace_def ram_space_def vnode_def size_in_def
        operand_space_def)
  show "memory_width wide_load Load ram_space = Ok 16"
    by (simp add: memory_width_def vnode_def ram_space_def aspace_def scalar_space_def size_in_def)
  show "memory_pointer wide_load ram_space empty_state (vnode ''const'' ''0x2000'' 8) 16 = Ok (0x2000, 0x2000)"
    by (simp add: memory_pointer_def ram_space_def aspace_def checked_memory_range_wide_def checked_mul_def example_reads)
qed

lemma read_loop_total: "(\<And>a. look a = Some c) \<Longrightarrow> \<exists>v. read_loop look b is v0 = Some v"
  by (induction "is" arbitrary: v0) auto

lemma wide_write: "\<exists>s'. write_varnode_wide empty_state (vnode ''unique'' ''0x100'' 16) v = Ok s'"
proof -
  have "length (filter p [0..<16]) \<le> 16" for p using length_filter_le [of p "[0..<16]"] by simp
  then show ?thesis
    unfolding write_varnode_wide_Ok
    by (simp add: node_range_ok_def checked_range_def size_in_def example_hex vnode_def known_byte_count_def bm_len_def
        missing_bytes_def bm_contains_def MAX_KNOWN_STATE_BYTES_def scalar_space_def empty_state_def
        scalar_bytes_def node_len_def bm_get_def)
qed

lemma wide_load_runs:
  "\<exists>s' x. execute_effect_operation (gs_address_spaces example_snapshot) (canonical wide_load) empty_state (Some zero_image) =
     (s', Ok x)"
proof -
  have "memory_byte empty_state (Some zero_image) ''ram'' a = Some 0" for a
    by (simp add: memory_byte_def empty_state_def bm_get_def zero_image_def)
  from read_loop_total [of "memory_byte empty_state (Some zero_image) ''ram''", OF this] obtain v :: u128 where
    "read_loop (memory_byte empty_state (Some zero_image) ''ram'') 0x2000 [0..<16] 0 = Some v" by blast
  moreover have "checked_memory_range_wide 0x2000 16 = Ok ()" by (simp add: size_in_def)
  ultimately have load: "load_value wide_load ram_space empty_state (Some zero_image) 0x2000 0x2000 16 = Ok v"
    by (simp add: load_value_def read_memory_with_image_wide_def ram_space_def aspace_def Let_def del: checked_memory_range_wide_Ok)
  from wide_write obtain s' where "write_varnode_wide empty_state (vnode ''unique'' ''0x100'' 16) v = Ok s'" by blast
  then show ?thesis
    by (simp add: execute_effect_operation_def canonical_def wide_load_lowering execute_memory_operation_def
        plan_memory_operation_def wide_load_plan load commit_memory_operation_def One_nat_def)
qed

definition wide_context :: path_context where
  "wide_context = \<lparr>pc_semantic = lower_semantics example_function, pc_index = [], pc_fallthroughs = [], pc_image = Some zero_image,
     pc_max_operations = 10, pc_max_visits = 10\<rparr>"

lemma wide_context_spaces: "se_address_spaces (pc_semantic wide_context) = gs_address_spaces example_snapshot"
  by (simp add: wide_context_def lower_semantics_def example_function_def case_prod_unfold Let_def)

lemma wide_load_steps:
  "\<exists>ps'. operation_step wide_context i (canonical wide_load) (start_path empty_state 0) = Inl ps'"
proof -
  from wide_load_runs obtain s' x where "execute_effect_operation (gs_address_spaces example_snapshot) (canonical wide_load) empty_state
    (Some zero_image) = (s', Ok x)" by blast
  moreover have "pc_image wide_context = Some zero_image" "pc_max_operations wide_context = 10" by (simp_all add: wide_context_def)
  moreover have "so_source (canonical wide_load) = wide_load" "op_opcode wide_load = 2"
    by (simp_all add: canonical_def wide_load_def operation_at_def)
  ultimately show ?thesis
    by (simp add: operation_step_def effect_step_def wide_context_spaces start_path_def Let_def)
qed

end
