(* ===== verification/Pcode_SliceExample.thy ===== *)
theory Pcode_SliceExample
  imports Pcode_SliceSound Pcode_Example
begin

text \<open>
  The control-flow graph of the example snapshot, the backward slice of its second addition, and two
  executions of the first addition from states with different memories.
\<close>

section \<open>The graph\<close>

definition first_instruction :: pcode_state_instruction where
  "first_instruction = state_instruction_of (semantic_of (example_instructions ! 0))"
definition second_instruction :: pcode_state_instruction where
  "second_instruction = state_instruction_of (semantic_of (example_instructions ! 1))"

lemma example_lowering_return:
  "lower_operation return_op = Opaque ControlTransfer ''control transfer is retained without CFG edges'' True True True False"
  by code_simp

lemma example_state:
  "st_instructions (lower_state_raw example_function) = [first_instruction, second_instruction]"
  "st_entry (lower_state_raw example_function) = ram_at ''0x1000''"
proof -
  show "st_instructions (lower_state_raw example_function) = [first_instruction, second_instruction]"
    by (simp add: lower_state_raw_def lower_state_instructions lower_semantics_instructions example_function_def
        first_instruction_def second_instruction_def example_instructions_def)
  show "st_entry (lower_state_raw example_function) = ram_at ''0x1000''" by code_simp
qed

lemma add_zero_simps [simp]:
  "op_inputs add_zero = [vnode ''register'' ''0x0'' 8, vnode ''const'' ''0x0'' 8]"
  "op_output add_zero = Some (vnode ''unique'' ''0x100'' 8)"
  by (simp_all add: add_zero_def operation_at_def)

lemma instruction_simps [simp]:
  "ti_address first_instruction = ram_at ''0x1000''" "ti_address second_instruction = ram_at ''0x1004''"
  "ti_operations first_instruction = [state_of (canonical add_zero), state_of (canonical add_five)]"
  "ti_operations second_instruction = [state_of (canonical return_op)]"
  by (simp_all add: first_instruction_def second_instruction_def state_instruction_operations semantic_of_operations canonical_def
      example_instructions_def)

definition example_edge :: pcode_cfg_edge where
  "example_edge = \<lparr>ed_source_node = 0, ed_target_node = Some 1, ed_evidence = sf_flow_edges (gs_selected_function example_snapshot) ! 0\<rparr>"

lemma example_evidence:
  "sf_flow_edges (gs_selected_function example_snapshot) = [ed_evidence example_edge]"
  "sf_call_targets (gs_selected_function example_snapshot) = []"
  "fl_source (ed_evidence example_edge) = ram_at ''0x1000''" "fl_target (ed_evidence example_edge) = Some (ram_at ''0x1004'')"
  "fl_kind (ed_evidence example_edge) = Fallthrough"
  by (simp_all add: example_edge_def example_snapshot_def)

lemma example_edge_eta: "\<lparr>ed_source_node = 0, ed_target_node = Some 1, ed_evidence = ed_evidence example_edge\<rparr> = example_edge"
  by (simp add: example_edge_def)

lemma example_keys: "address_key (ram_at ''0x1000'') = Ok (''ram'', 0x1000)" "address_key (ram_at ''0x1004'') = Ok (''ram'', 0x1004)"
  by code_simp+

lemma example_cfg:
  obtains cfg where "pcode_cfg_ir example_snapshot = Ok cfg" "cf_state cfg = lower_state_raw example_function"
    "cf_edges cfg = [example_edge]" "cf_flow_evidence_present cfg" "map cn_address (cf_nodes cfg) = [ram_at ''0x1000'', ram_at ''0x1004'']"
    "map cn_instruction_index (cf_nodes cfg) = [0, 1]"
proof -
  have "\<exists>cfg. pcode_cfg_ir example_snapshot = Ok cfg \<and> cf_state cfg = lower_state_raw example_function \<and>
    cf_edges cfg = [example_edge] \<and> cf_flow_evidence_present cfg \<and> map cn_address (cf_nodes cfg) = [ram_at ''0x1000'', ram_at ''0x1004''] \<and>
    map cn_instruction_index (cf_nodes cfg) = [0, 1]"
    by (simp add: pcode_cfg_ir_def example_valid example_function_ir Let_def example_state example_evidence example_keys
      add_node_def initial_node_def add_flow_def target_node_of_def push_edge_def bm_get_def
      resolve_node_def has_opcode_def state_of_simps canonical_def)
      (rule example_edge_eta)
  then show thesis by (elim exE conjE) (rule that)
qed

lemma example_cfg_state: "pcode_cfg_ir example_snapshot = Ok cfg \<Longrightarrow> cf_state cfg = lower_state_raw example_function"
  by (rule example_cfg) simp

section \<open>The slice of the second addition\<close>

definition add_target :: pcode_slice_target where
  "add_target = \<lparr>tg_instruction_index = 0, tg_operation_index = 1, tg_input_index = None\<rparr>"

lemma example_slice:
  obtains r where "backward_pcode_slice example_snapshot add_target = Some (Ok r)"
    "bs_boundaries r = [\<lparr>bd_kind = SbConstant, bd_varnode = Some (vnode ''const'' ''0x5'' 8), bd_site = Some \<lparr>si_instruction_index = 0, si_operation_index = 1\<rparr>\<rparr>,
      \<lparr>bd_kind = SbConstant, bd_varnode = Some (vnode ''const'' ''0x0'' 8), bd_site = Some \<lparr>si_instruction_index = 0, si_operation_index = 0\<rparr>\<rparr>,
      \<lparr>bd_kind = SbEntryValue, bd_varnode = Some (vnode ''register'' ''0x0'' 8), bd_site = None\<rparr>]"
    "sp_source (hd (bs_steps r)) = add_five"
proof -
  obtain cfg where cfg: "pcode_cfg_ir example_snapshot = Ok cfg" "cf_state cfg = lower_state_raw example_function"
    "cf_edges cfg = [example_edge]" "cf_flow_evidence_present cfg" "map cn_address (cf_nodes cfg) = [ram_at ''0x1000'', ram_at ''0x1004'']"
    "map cn_instruction_index (cf_nodes cfg) = [0, 1]" by (rule example_cfg)
  from cfg(5,6) obtain a b where nodes: "cf_nodes cfg = [a, b]" "cn_address a = ram_at ''0x1000''" "cn_instruction_index a = 0"
    by (auto simp: map_eq_Cons_conv)
  have start: "slice_start cfg add_target = Ok (state_of (canonical add_five))"
    by (simp add: slice_start_def cfg(2) example_state add_target_def nodes)
  define sr0 where "sr0 = initial_run cfg add_target (state_of (canonical add_five))"
  have sr0: "sr_pending sr0 = [vnode ''unique'' ''0x100'' 8]" "sr_current sr0 = 0" "sr_operation_end sr0 = 1" "sr_visited sr0 = {}"
    "bs_boundaries (sr_result sr0) = [\<lparr>bd_kind = SbConstant, bd_varnode = Some (vnode ''const'' ''0x5'' 8), bd_site = Some \<lparr>si_instruction_index = 0, si_operation_index = 1\<rparr>\<rparr>]"
    "bs_truncated (sr_result sr0) = False" "bs_operations_examined (sr_result sr0) = 0" "bs_instructions_examined (sr_result sr0) = 0"
    "sp_source (hd (bs_steps (sr_result sr0))) = add_five" "bs_steps (sr_result sr0) \<noteq> []"
    by (simp_all add: sr0_def initial_run_def add_target_def selected_inputs_def state_of_simps canonical_def add_input_def empty_slice_def record_boundary_def
      slice_limits push_boundary_def vnode_def scalar_space_def Let_def)
  define i0 where "i0 = first_instruction"
  have ops: "ti_operations i0 = [state_of (canonical add_zero), state_of (canonical add_five)]" "ti_address i0 = ram_at ''0x1000''" by (simp_all add: i0_def)
  let ?r1 = "(sr_result sr0)\<lparr>bs_instructions_examined := 1\<rparr>"
  let ?r2 = "?r1\<lparr>bs_operations_examined := 1, bs_boundaries := bs_boundaries ?r1 @ [\<lparr>bd_kind = SbConstant, bd_varnode = Some (vnode ''const'' ''0x0'' 8), bd_site = Some \<lparr>si_instruction_index = 0, si_operation_index = 0\<rparr>\<rparr>],
    bs_steps := bs_steps ?r1 @ [\<lparr>sp_site = \<lparr>si_instruction_index = 0, si_operation_index = 0\<rparr>, sp_source = add_zero, sp_effect = Assign Add 64\<rparr>]\<rparr>"
  have scan: "slice_instruction first_instruction 0 1 (?r1, [vnode ''unique'' ''0x100'' 8]) = Ok (Inl (?r2, [vnode ''register'' ''0x0'' 8]))"
  proof -
    have m: "matched_values (vnode ''unique'' ''0x100'' 8) [vnode ''unique'' ''0x100'' 8] = Ok [(0, True)]"
      by (simp add: matched_values_def overlaps_def vnode_def example_hex map_ok_def) blast
    have d: "defines_value \<lparr>si_instruction_index = 0, si_operation_index = 0\<rparr> add_zero (Assign Add 64) [(0, True)]
       (?r1\<lparr>bs_operations_examined := 1\<rparr>, [vnode ''unique'' ''0x100'' 8]) = Ok (Inl (?r2, [vnode ''register'' ''0x0'' 8]))"
      by (simp add: defines_value_def settle_def remove_at_def map_ok_def add_input_def sr0 vnode_def scalar_space_def record_boundary_def
         slice_limits push_boundary_def push_step_def Let_def)
    show ?thesis using m d
      by (simp add: slice_operation_def slice_limits sr0 state_of_simps canonical_def example_lowering unsliceable_def may_clobber_def)
  qed
  let ?r3 = "?r2\<lparr>bs_boundaries := bs_boundaries ?r2 @ [\<lparr>bd_kind = SbEntryValue, bd_varnode = Some (vnode ''register'' ''0x0'' 8), bd_site = None\<rparr>]\<rparr>"
  have step: "slice_step cfg sr0 = Ok (Inr ?r3)"
  proof -
    have drop: "drop_temporaries 1 (?r2, [vnode ''register'' ''0x0'' 8]) = Ok (?r2, [vnode ''register'' ''0x0'' 8])"
      by (simp add: vnode_def)
    have chain: "chain_step cfg (sr0\<lparr>sr_result := ?r2, sr_pending := [vnode ''register'' ''0x0'' 8], sr_visited := {0}\<rparr>) = Ok (Inr ?r3)"
      by (simp add: chain_step_def unique_fallthrough_predecessor_def at_entry_def sr0 cfg example_state ops map_ok_def example_edge_def
         boundaries_for_def record_boundary_def slice_limits push_boundary_def)
    show ?thesis using scan drop chain by (simp add: slice_step_def slice_limits sr0 cfg(2) example_state del: slice_instruction.simps drop_temporaries.simps)
  qed
  show thesis
  proof (rule that)
    show "backward_pcode_slice example_snapshot add_target = Some (Ok ?r3)"
      using step run_loop_unfold(1) [of "try_step (slice_step cfg)" sr0 "Ok ?r3"] 
      by (simp add: backward_pcode_slice_def cfg(1) slice_cfg_run [OF start, folded sr0_def] sr0 Let_def)
  qed (simp_all add: sr0)
qed

lemma example_slice_clean:
  "\<exists>r. backward_pcode_slice example_snapshot add_target = Some (Ok r) \<and>
     (\<forall>b \<in> set (bs_boundaries r). bd_kind b \<in> {SbConstant, SbEntryValue}) \<and> sp_source (hd (bs_steps r)) = add_five"
proof (rule example_slice)
  fix r
  assume r: "backward_pcode_slice example_snapshot add_target = Some (Ok r)" "sp_source (hd (bs_steps r)) = add_five"
    and "bs_boundaries r = [\<lparr>bd_kind = SbConstant, bd_varnode = Some (vnode ''const'' ''0x5'' 8), bd_site = Some \<lparr>si_instruction_index = 0, si_operation_index = 1\<rparr>\<rparr>,
      \<lparr>bd_kind = SbConstant, bd_varnode = Some (vnode ''const'' ''0x0'' 8), bd_site = Some \<lparr>si_instruction_index = 0, si_operation_index = 0\<rparr>\<rparr>,
      \<lparr>bd_kind = SbEntryValue, bd_varnode = Some (vnode ''register'' ''0x0'' 8), bd_site = None\<rparr>]"
  then have "\<forall>b \<in> set (bs_boundaries r). bd_kind b \<in> {SbConstant, SbEntryValue}" by simp
  with r show ?thesis by blast
qed

section \<open>Two executions\<close>

definition run_state :: "(string, (u64, u8) btree_map) btree_map \<Rightarrow> concrete_state" where
  "run_state m = \<lparr>cs_register_bytes = map (\<lambda>i. (word_of_nat i, 0x11)) [0..<8], cs_unique_bytes = [], cs_memory_bytes = m\<rparr>"

definition other_memory :: "(string, (u64, u8) btree_map) btree_map" where
  "other_memory = [(''ram'', [(0x2000, 7)])]"

lemma run_state_wf: "state_wf (run_state [])" "state_wf (run_state other_memory)"
  by (simp_all add: state_wf_def run_state_def other_memory_def bm_wf_def known_byte_count_def bm_len_def MAX_KNOWN_STATE_BYTES_def upt_rec)

lemma run_state_clear: "clear_unique (run_state m) = run_state m"
  by (simp add: clear_unique_def run_state_def)

lemma run_state_agree: "read_varnode_wide (run_state m) v = read_varnode_wide (run_state m') v"
  by (simp add: read_varnode_wide_def run_state_def cong: if_cong)

lemma run_state_reads:
  "read_inputs add_zero (run_state m) = Ok [0x1111111111111111, 0]"
  by (simp add: read_inputs_def read_varnode_wide_def checked_range_def example_hex vnode_def size_in_def byte_at_def
  bm_get_def upt_8 bits_of_def mask_wide_eq mask_eq_exp_minus_1 run_state_def)

lemma run_state_write:
  assumes "m \<in> {[], other_memory}"
  shows "\<exists>s'. write_varnode_wide (run_state m) (vnode ''unique'' ''0x100'' 8) v = Ok s'"
  using assms unfolding write_varnode_wide_Ok
  by (auto simp add: node_range_ok_def checked_range_def size_in_def example_hex vnode_def known_byte_count_def bm_len_def
      missing_bytes_def bm_contains_def MAX_KNOWN_STATE_BYTES_def scalar_space_def run_state_def other_memory_def
      scalar_bytes_def node_len_def bm_get_def upt_rec)

lemma example_add_zero_evaluates: "evaluate_exact_wide (canonical add_zero) [0x1111111111111111, 0] = Ok (Some 0x1111111111111111)"
  by (simp add: evaluate_exact_wide_def canonical_def example_lowering check_constant_def vnode_def bits_of_def
      mask_wide_eq mask_eq_exp_minus_1 example_hex at2_def)

lemma run_state_reaches:
  assumes "pcode_cfg_ir example_snapshot = Ok cfg" and "m \<in> {[], other_memory}"
  shows "\<exists>s. reaches cfg spaces img (run_state m) 0 1 s"
proof -
  from run_state_write [OF assms(2)] obtain s' where "write_varnode_wide (run_state m) (vnode ''unique'' ''0x100'' 8) 0x1111111111111111 = Ok s'" by blast
  with run_state_reads example_add_zero_evaluates have "\<exists>x. execute_exact_operation (canonical add_zero) (run_state m) = Ok (s', x)"
    unfolding exact_operation_Ok by (auto simp: canonical_def example_lowering)
  then obtain x where "execute_effect_operation spaces (canonical add_zero) (run_state m) img = (s', Ok x)"
    by (auto simp: execute_effect_operation_def canonical_def example_lowering Let_def)
  then have "ops_run spaces img [state_of (canonical add_zero)] (run_state m) s'"
    using ops_snoc [OF ops_nil, of spaces "state_of (canonical add_zero)" "run_state m" img s' x]
    by (simp add: state_of_simps canonical_def)
  moreover from example_cfg_state [OF assms(1)] have "st_instructions (cf_state cfg) = [first_instruction, second_instruction]"
    by (simp add: example_state)
  ultimately have "reaches cfg spaces img (run_state m) 0 1 s'"
    using run_state_wf assms(2) chain_entry [of cfg spaces img "run_state m"] by (auto simp: reaches_def run_state_clear)
  then show ?thesis by blast
qed
end
