(* ===== verification/Pcode_Elf.thy ===== *)
theory Pcode_Elf
  imports Pcode_Validate Pcode_Concrete
begin

text \<open>
  What \<^verbatim>\<open>image.rs\<close> and \<^verbatim>\<open>process_memory.rs\<close> share: the parsed ELF file as the third-party parser
  presents it (a parameter, with the digests, of every function that needs it), the load bias between
  the file and Ghidra's address space, and sorted lists of disjoint address regions.
\<close>

section \<open>The parser and the digests\<close>

datatype object_kind = ObjectExecutable | ObjectDynamic | ObjectOther

record elf_segment =
  \<comment> \<open>the methods of \<^verbatim>\<open>object::Segment\<close>\<close>
  es_address :: u64
  es_size :: u64
  es_file_offset :: u64
  es_file_size :: u64
  es_flags :: "u32 option" \<comment> \<open>\<^verbatim>\<open>SegmentFlags::Elf\<close>\<close>
  es_data :: "(u8 list, string) result"

record elf_file =
  \<comment> \<open>the methods of \<^verbatim>\<open>object::File\<close>; relocations as address, size in bits, ELF type\<close>
  ef_is_elf :: bool
  ef_is_x86_64 :: bool
  ef_is_little_endian :: bool
  ef_kind :: object_kind
  ef_segments :: "elf_segment list"
  ef_dynamic_relocations :: "(u64 \<times> u8 \<times> u32 option) list option"

record program_header =
  \<comment> \<open>\<^verbatim>\<open>goblin::elf::ProgramHeader\<close>\<close>
  ph_type :: u32
  ph_vaddr :: u64
  ph_filesz :: u64
  ph_offset :: u64

record elf_reloc =
  \<comment> \<open>\<^verbatim>\<open>goblin::elf::Reloc\<close>; the addend is an \<^verbatim>\<open>i64\<close>\<close>
  er_offset :: u64
  er_addend :: "64 word option"
  er_sym :: usize
  er_type :: u32

record elf_dynamic_metadata =
  \<comment> \<open>what is read of \<^verbatim>\<open>goblin::elf::Elf\<close>; dynamic entries as tag and value\<close>
  em_is_64 :: bool
  em_little_endian :: bool
  em_machine :: "16 word"
  em_program_headers :: "program_header list"
  em_dynamic :: "(u64 \<times> u64) list option"
  em_dynrelas :: "elf_reloc list"
  em_dynrels :: "elf_reloc list"
  em_pltrelocs :: "elf_reloc list"

record host =
  \<comment> \<open>the third-party functions: SHA-256 in hexadecimal, the JSON of a memory layout, the two ELF parsers\<close>
  ho_sha256 :: "u8 list \<Rightarrow> string"
  ho_layout_json :: "pcode_address \<Rightarrow> ghidra_address_space list \<Rightarrow> ghidra_memory_block list \<Rightarrow> (u8 list, string) result"
  ho_parse_elf :: "u8 list \<Rightarrow> (elf_file, string) result"
  ho_parse_dynamic :: "u8 list \<Rightarrow> (elf_dynamic_metadata, string) result"

definition PF_X :: u32 where "PF_X = 1"
definition PF_W :: u32 where "PF_W = 2"
definition PF_R :: u32 where "PF_R = 4"

definition snapshot_layout_sha256 :: "host \<Rightarrow> ghidra_snapshot \<Rightarrow> (string, string) result" where
  "snapshot_layout_sha256 h snap =
     map_ok (ho_sha256 h)
       (map_err (\<lambda>e. ''cannot serialize Ghidra memory layout: '' @ e)
         (ho_layout_json h (pr_image_base (gs_program snap)) (gs_address_spaces snap) (gs_memory_blocks snap)))"

definition load_elf :: "host \<Rightarrow> string \<Rightarrow> u8 list \<Rightarrow> (elf_file, string) result" where
  \<comment> \<open>the parse and the shape both constructors require\<close>
  "load_elf h wrong binary =
     rbind (map_err (\<lambda>e. ''invalid ELF: '' @ e) (ho_parse_elf h binary)) (\<lambda>file.
     if \<not> ef_is_elf file \<or> \<not> ef_is_x86_64 file \<or> \<not> ef_is_little_endian file \<or> ef_kind file = ObjectOther
       then Err wrong else Ok file)"

definition ram_space_ok :: "ghidra_snapshot \<Rightarrow> bool" where
  \<comment> \<open>the image base lies in a byte-addressable RAM space\<close>
  "ram_space_ok snap =
     list_ex (\<lambda>sp. as_name sp = pa_space (pr_image_base (gs_program snap)) \<and> as_space_type sp = 1 \<and>
       as_addressable_unit_size sp = 1) (gs_address_spaces snap)"

lemma rbind_Ok_right [simp]: "rbind m Ok = m"
  by (cases m) simp_all

section \<open>Host arithmetic\<close>

definition usize_add :: "usize \<Rightarrow> usize \<Rightarrow> usize option" where
  \<comment> \<open>\<^verbatim>\<open>usize::checked_add\<close> on a 64-bit host\<close>
  "usize_add a b = (if a + b < 2 ^ 64 then Some (a + b) else None)"

definition u64_of_int :: "int \<Rightarrow> u64 option" where
  \<comment> \<open>\<^verbatim>\<open>u64::try_from(i128)\<close>; the sums of 64-bit values never leave \<^verbatim>\<open>i128\<close>\<close>
  "u64_of_int i = (if 0 \<le> i \<and> i < 2 ^ 64 then Some (word_of_int i) else None)"

definition sub_u64 :: "u64 \<Rightarrow> u64 \<Rightarrow> (u64, 'e) result" where
  \<comment> \<open>unsigned subtraction, which panics below zero\<close>
  "sub_u64 a b = (if b \<le> a then Ok (a - b) else Panic)"

lemma usize_add_Some [simp]: "usize_add a b = Some c \<longleftrightarrow> a + b < 2 ^ 64 \<and> c = a + b"
  by (auto simp: usize_add_def)

lemma u64_of_int_Some [simp]: "u64_of_int i = Some a \<longleftrightarrow> i = uint a"
proof
  assume "u64_of_int i = Some a"
  then show "i = uint a" by (auto simp: u64_of_int_def unsigned_of_int take_bit_int_eq_self split: if_splits)
next
  assume "i = uint a"
  moreover have "uint a < 2 ^ 64" using uint_lt2p [of a] by simp
  ultimately show "u64_of_int i = Some a" by (simp add: u64_of_int_def)
qed

lemma sub_u64_Ok [simp]: "sub_u64 a b = Ok c \<longleftrightarrow> b \<le> a \<and> c = a - b"
  by (auto simp: sub_u64_def)

lemma sub_u64_simps [simp]: "b \<le> a \<Longrightarrow> sub_u64 a b = Ok (a - b)" "sub_u64 a b \<noteq> Err e"
  by (simp_all add: sub_u64_def)

section \<open>Sorted disjoint regions\<close>

fun no_overlap :: "(u64 \<times> u64) list \<Rightarrow> bool" where
  \<comment> \<open>\<^verbatim>\<open>windows(2)\<close>: no region ends after the next one starts\<close>
  "no_overlap ((s, e) # (s', e') # rest) = (e \<le> s' \<and> no_overlap ((s', e') # rest))"
| "no_overlap _ = True"

definition span_of :: "u64 \<times> u64 \<Rightarrow> nat set" where
  "span_of r = {unat (fst r)..<unat (snd r)}"

lemma no_overlap_Cons:
  "no_overlap (r # rs) \<Longrightarrow> \<forall>p \<in> set (r # rs). fst p < snd p \<Longrightarrow>
    no_overlap rs \<and> (\<forall>p \<in> set rs. snd r \<le> fst p)"
proof (induction rs arbitrary: r)
  case (Cons q rs)
  obtain s e s' e' where r: "r = (s, e)" "q = (s', e')" by (metis surj_pair)
  with Cons.prems have step: "e \<le> s'" "no_overlap (q # rs)" by simp_all
  from Cons.IH [OF step(2)] Cons.prems(2) have "\<forall>p \<in> set rs. snd q \<le> fst p" by simp
  moreover have "s' < e'" using Cons.prems(2) r by simp
  ultimately show ?case using step r by (auto intro: order.trans less_imp_le order.strict_trans1)
qed simp

lemma no_overlap_disjoint:
  assumes "no_overlap rs" and "\<forall>p \<in> set rs. fst p < snd p"
  shows "sorted_wrt (\<lambda>p q. snd p \<le> fst q) rs"
  using assms
proof (induction rs)
  case (Cons r rs)
  from no_overlap_Cons [OF Cons.prems] have "no_overlap rs" "\<forall>p \<in> set rs. snd r \<le> fst p" by blast+
  with Cons show ?case by simp
qed simp

section \<open>Blocks and byte ranges\<close>

definition block_range :: "string \<Rightarrow> ghidra_memory_block \<Rightarrow> (u64 \<times> u64, string) result" where
  \<comment> \<open>the half-open range of a block\<close>
  "block_range overflow b =
     rbind (hex_u64 (pa_offset (mb_start b))) (\<lambda>block_start.
     rbind (hex_u64 (pa_offset (mb_end b))) (\<lambda>last.
     rbind (ok_or overflow (checked_add last 1)) (\<lambda>block_end.
     Ok (block_start, block_end))))"

definition fill_range :: "usize \<Rightarrow> usize \<Rightarrow> 'a list \<Rightarrow> 'a list \<Rightarrow> ('a list, 'e) result" where
  \<comment> \<open>\<^verbatim>\<open>bytes[start..end].copy_from_slice(source)\<close>\<close>
  "fill_range start stop source xs =
     (if start \<le> stop \<and> stop \<le> length xs \<and> length source = stop - start
      then Ok (take start xs @ source @ drop stop xs) else Panic)"

definition slice_rs :: "'a list \<Rightarrow> usize \<Rightarrow> usize \<Rightarrow> 'a list option" where
  \<comment> \<open>\<^verbatim>\<open>xs.get(start..end)\<close>\<close>
  "slice_rs xs start stop = (if start \<le> stop \<and> stop \<le> length xs then Some (take (stop - start) (drop start xs)) else None)"

lemma fill_range_nth:
  assumes "start \<le> stop" and "stop \<le> length xs" and "length source = stop - start"
  shows "\<exists>ys. fill_range start stop source xs = Ok ys \<and> length ys = length xs \<and>
    (\<forall>i < length xs. ys ! i = (if start \<le> i \<and> i < stop then source ! (i - start) else xs ! i))"
  using assms by (auto simp: fill_range_def nth_append min_def)

definition covers :: "ghidra_memory_block \<Rightarrow> u64 \<Rightarrow> bool" where
  "covers b a \<longleftrightarrow> (\<exists>first last. hex_u64 (pa_offset (mb_start b)) = Ok first \<and> hex_u64 (pa_offset (mb_end b)) = Ok last \<and>
     first \<le> a \<and> a \<le> last)"

lemma block_range_covers:
  assumes "block_range msg b = Ok (block_start, block_end)"
  shows "covers b a \<longleftrightarrow> block_start \<le> a \<and> a < block_end"
proof -
  from assms obtain last where "hex_u64 (pa_offset (mb_start b)) = Ok block_start" "hex_u64 (pa_offset (mb_end b)) = Ok last"
    and stop: "unat last + 1 < 2 ^ 64" "block_end = last + 1"
    by (auto simp: block_range_def)
  moreover from stop have "unat block_end = unat last + 1" by (simp add: unat_word_ariths)
  ultimately show ?thesis by (auto simp: covers_def word_le_nat_alt word_less_nat_alt)
qed

section \<open>The load bias\<close>

definition load_bias_of :: "ghidra_snapshot \<Rightarrow> elf_file \<Rightarrow> int" where
  \<comment> \<open>from the lowest address of the file to Ghidra's image base\<close>
  "load_bias_of snap file =
     (case hex_u64 (pa_offset (pr_image_base (gs_program snap))) of
        Ok image_base \<Rightarrow> uint image_base - uint (Min (es_address ` set (ef_segments file)))
      | _ \<Rightarrow> 0)"

lemma mapped_address:
  assumes "uint (m :: u64) = uint s + bias" and "unat m + unat n < 2 ^ 64"
  shows "m \<le> a \<and> a < m + n \<and> i = j + unat (a - m) \<longleftrightarrow>
    (\<exists>k < unat n. uint a = uint s + bias + int k \<and> i = j + k)"
proof -
  have stop: "unat (m + n) = unat m + unat n" using assms(2) by (simp add: unat_word_ariths)
  have at: "uint a = uint s + bias + int k \<longleftrightarrow> unat a = unat m + k" for k
    using assms(1) unfolding uint_nat by linarith
  have "m \<le> a \<and> a < m + n \<and> i = j + unat (a - m) \<longleftrightarrow>
      unat m \<le> unat a \<and> unat a < unat m + unat n \<and> i = j + (unat a - unat m)"
    unfolding word_le_nat_alt word_less_nat_alt stop by (auto simp: unat_sub_if')
  also have "\<dots> \<longleftrightarrow> (\<exists>k < unat n. unat a = unat m + k \<and> i = j + k)"
    by (auto intro: exI [of _ "unat a - unat m"])
  finally show ?thesis unfolding at .
qed

section \<open>Loops that collect\<close>

lemma fold_res_collects:
  assumes "fold_res f s xs = Ok t"
    and "\<And>s x s'. f s x = Ok s' \<Longrightarrow> x \<in> set xs \<Longrightarrow> set s' = set s \<union> A x"
  shows "set t = set s \<union> (\<Union>x \<in> set xs. A x)"
  using assms
proof (induction xs arbitrary: s)
  case (Cons x xs)
  from Cons.prems(1) obtain u where "f s x = Ok u" "fold_res f u xs = Ok t" by auto
  with Cons.prems(2) Cons.IH [of u] show ?case by (simp add: Un_assoc)
qed simp

lemma fold_res_step_at:
  "fold_res f s xs = Ok t \<Longrightarrow> x \<in> set xs \<Longrightarrow> \<exists>u v. f u x = Ok v"
  by (induction xs arbitrary: s) auto

end
