(* ===== verification/Pcode_Process.thy ===== *)
theory Pcode_Process
  imports Pcode_Elf
begin

text \<open>
  \<^verbatim>\<open>hydir-ir/src/pcode/process_memory.rs\<close>: the initial bytes, mappings and permissions of a loaded ELF
  process, with the bytes a dynamic relocation writes unknown unless it is a lone explicit-addend
  \<^verbatim>\<open>RELATIVE\<close>, and the stack and heap allocations a caller declares beside it.
\<close>

section \<open>Data\<close>

definition PCODE_ELF_PROCESS_MEMORY_VERSION :: u32 where "PCODE_ELF_PROCESS_MEMORY_VERSION = 2"
definition PCODE_ELF_PROCESS_MEMORY_V1_VERSION :: u32 where "PCODE_ELF_PROCESS_MEMORY_V1_VERSION = 1"
definition PCODE_ELF_PROCESS_MEMORY_MAX_BYTES :: usize where "PCODE_ELF_PROCESS_MEMORY_MAX_BYTES = 1048576"
definition PCODE_PROCESS_ALLOCATIONS_VERSION :: u32 where "PCODE_PROCESS_ALLOCATIONS_VERSION = 1"
definition PCODE_PROCESS_ALLOCATION_MAX_BYTES :: u64 where "PCODE_PROCESS_ALLOCATION_MAX_BYTES = 1048576"
definition MAX_PCODE_PROCESS_ALLOCATIONS_JSON_BYTES :: usize where "MAX_PCODE_PROCESS_ALLOCATIONS_JSON_BYTES = 4096"
definition PROCESS_MAX_LOAD_SEGMENTS :: usize where "PROCESS_MAX_LOAD_SEGMENTS = 4096"
definition MAX_REGIONS :: usize where "MAX_REGIONS = 8192"
definition MAX_RELOCATIONS :: usize where "MAX_RELOCATIONS = 65536"

datatype allocation_kind = StackAllocation | HeapAllocation

record process_allocation =
  al_kind :: allocation_kind
  al_space :: string
  al_base :: u64
  al_byte_len :: u64

record process_allocations =
  ac_schema_version :: u32
  ac_binary_sha256 :: string
  ac_snapshot_layout_sha256 :: string
  ac_regions :: "process_allocation list"

record declared_allocations =
  da_schema_version :: u32
  da_regions :: "process_allocation list"

record elf_process_memory =
  pm_schema_version :: u32
  pm_binary_sha256 :: string
  pm_snapshot_layout_sha256 :: string
  pm_space :: string
  pm_base :: u64
  pm_bytes :: "u8 list"
  pm_known :: "u8 list"
  pm_mapped :: "u8 list"
  pm_writable :: "u8 list"
  pm_unresolved_relocation_bytes :: usize
  pm_bound_to_binary :: bool

record process_region =
  rg_start :: u64
  rg_end :: u64
  rg_file_offset :: "usize option"
  rg_writable :: bool

record dynamic_relocation =
  dr_address :: u64
  dr_width :: usize
  dr_relative_addend :: "64 word option"

section \<open>Dynamic relocations\<close>

definition EM_X86_64 :: "16 word" where "EM_X86_64 = 62"
definition PT_LOAD :: u32 where "PT_LOAD = 1"

definition header_holds :: "usize \<Rightarrow> u64 \<Rightarrow> u64 \<Rightarrow> u64 \<Rightarrow> program_header \<Rightarrow> bool" where
  \<comment> \<open>the table \<open>address..stop\<close> lies in the file-backed part of a loaded segment\<close>
  "header_holds file_len address bytes_len stop header =
     (ph_type header = PT_LOAD \<and> address \<ge> ph_vaddr header \<and>
      (case checked_add (ph_vaddr header) (ph_filesz header) of None \<Rightarrow> False | Some segment_end \<Rightarrow> stop \<le> segment_end) \<and>
      (case Option.bind (checked_add (ph_offset header) (address - ph_vaddr header)) (\<lambda>offset. checked_add offset bytes_len) of
         None \<Rightarrow> False | Some file_end \<Rightarrow> unat file_end \<le> file_len))"

definition checked_dynamic_table ::
  "u8 list \<Rightarrow> program_header list \<Rightarrow> u64 option \<Rightarrow> u64 option \<Rightarrow> u64 \<Rightarrow> usize \<Rightarrow> (unit, string) result" where
  "checked_dynamic_table binary headers address_opt size_opt entry_size parsed_count =
     (let bytes_len = (case size_opt of None \<Rightarrow> 0 | Some n \<Rightarrow> n) in
      if bytes_len = 0 then
        (if parsed_count \<noteq> 0 then Err ''ELF dynamic relocation table has no declared size'' else Ok ())
      else
        rbind (ok_or ''ELF dynamic relocation table has no address'' address_opt) (\<lambda>address.
        if entry_size = 0 then Panic
        else if bytes_len mod entry_size \<noteq> 0 \<or> unat (bytes_len div entry_size) \<noteq> parsed_count \<or> parsed_count > MAX_RELOCATIONS
          then Err ''ELF dynamic relocation table size disagrees with entries''
        else
          rbind (ok_or ''ELF dynamic relocation table address overflows'' (checked_add address bytes_len)) (\<lambda>stop.
          if \<not> list_ex (header_holds (length binary) address bytes_len stop) headers
            then Err ''ELF dynamic relocation table is outside file-backed PT_LOAD''
          else Ok ())))"

definition R_X86_64_NONE :: u32 where "R_X86_64_NONE = 0"
definition R_X86_64_64 :: u32 where "R_X86_64_64 = 1"
definition R_X86_64_PC32 :: u32 where "R_X86_64_PC32 = 2"
definition R_X86_64_GLOB_DAT :: u32 where "R_X86_64_GLOB_DAT = 6"
definition R_X86_64_JUMP_SLOT :: u32 where "R_X86_64_JUMP_SLOT = 7"
definition R_X86_64_RELATIVE :: u32 where "R_X86_64_RELATIVE = 8"
definition R_X86_64_32 :: u32 where "R_X86_64_32 = 10"
definition R_X86_64_32S :: u32 where "R_X86_64_32S = 11"
definition R_X86_64_DTPMOD64 :: u32 where "R_X86_64_DTPMOD64 = 16"
definition R_X86_64_DTPOFF64 :: u32 where "R_X86_64_DTPOFF64 = 17"
definition R_X86_64_TPOFF64 :: u32 where "R_X86_64_TPOFF64 = 18"
definition R_X86_64_TLSDESC :: u32 where "R_X86_64_TLSDESC = 36"
definition R_X86_64_IRELATIVE :: u32 where "R_X86_64_IRELATIVE = 37"

definition v1_width :: "u8 \<Rightarrow> u32 option \<Rightarrow> (usize, string) result" where
  \<comment> \<open>the width of a version 1 relocation from its size in bits or its type\<close>
  "v1_width size_bits flags =
     (if size_bits = 0 then
        (case flags of
           Some r_type \<Rightarrow>
             if r_type \<in> {R_X86_64_RELATIVE, R_X86_64_GLOB_DAT, R_X86_64_JUMP_SLOT, R_X86_64_IRELATIVE, R_X86_64_64} then Ok 8
             else if r_type = R_X86_64_TLSDESC then Ok 16
             else Err ''ELF dynamic relocation has unknown write width''
         | None \<Rightarrow> Err ''ELF dynamic relocation has unknown write width'')
      else Ok ((unat size_bits + 7) div 8))"

definition v1_relocation ::
  "dynamic_relocation list \<Rightarrow> u64 \<times> u8 \<times> u32 option \<Rightarrow> (dynamic_relocation list, string) result" where
  "v1_relocation found r =
     (let (address, size_bits, flags) = r in
      if length found \<ge> MAX_RELOCATIONS then Err ''ELF dynamic relocation count limit exceeded''
      else map_ok (\<lambda>width. found @ [\<lparr>dr_address = address, dr_width = width, dr_relative_addend = None\<rparr>])
             (v1_width size_bits flags))"

definition v2_width :: "u32 \<Rightarrow> (usize option, string) result" where
  \<comment> \<open>\<^const>\<open>None\<close> is the relocation that writes nothing\<close>
  "v2_width r_type =
     (if r_type = R_X86_64_NONE then Ok None
      else if r_type \<in> {R_X86_64_RELATIVE, R_X86_64_GLOB_DAT, R_X86_64_JUMP_SLOT, R_X86_64_IRELATIVE, R_X86_64_64,
        R_X86_64_DTPMOD64, R_X86_64_DTPOFF64, R_X86_64_TPOFF64} then Ok (Some 8)
      else if r_type = R_X86_64_TLSDESC then Ok (Some 16)
      else if r_type \<in> {R_X86_64_32, R_X86_64_32S, R_X86_64_PC32} then Ok (Some 4)
      else Err (''ELF dynamic relocation type '' @ fmt_dec (unat r_type) @ '' has unknown write width''))"

definition v2_relocation ::
  "dynamic_relocation list \<Rightarrow> elf_reloc \<Rightarrow> (dynamic_relocation list, string) result" where
  "v2_relocation found r =
     (if length found \<ge> MAX_RELOCATIONS then Err ''ELF dynamic relocation count limit exceeded''
      else map_ok (\<lambda>w. case w of
          None \<Rightarrow> found
        | Some width \<Rightarrow> found @ [\<lparr>dr_address = er_offset r, dr_width = width,
            dr_relative_addend = (if er_type r = R_X86_64_RELATIVE \<and> er_sym r = 0 then er_addend r else None)\<rparr>])
        (v2_width (er_type r)))"

definition UNSUPPORTED_PACKED_TAGS :: "u64 list" where
  "UNSUPPORTED_PACKED_TAGS = [35, 36, 37, 0x40000026, 0x6000000f, 0x60000010, 0x60000011, 0x60000012,
     0x6fffe000, 0x6fffe001, 0x6fffe003]"

definition DT_PLTRELSZ :: u64 where "DT_PLTRELSZ = 2"
definition DT_RELA :: u64 where "DT_RELA = 7"
definition DT_RELASZ :: u64 where "DT_RELASZ = 8"
definition DT_RELAENT :: u64 where "DT_RELAENT = 9"
definition DT_REL :: u64 where "DT_REL = 17"
definition DT_RELSZ :: u64 where "DT_RELSZ = 18"
definition DT_RELENT :: u64 where "DT_RELENT = 19"
definition DT_PLTREL :: u64 where "DT_PLTREL = 20"
definition DT_JMPREL :: u64 where "DT_JMPREL = 23"

definition dynamic_tag :: "(u64 \<times> u64) list \<Rightarrow> u64 \<Rightarrow> (u64 option, string) result" where
  \<comment> \<open>the closure \<^verbatim>\<open>tag\<close>: the one value of a tag\<close>
  "dynamic_tag dyns wanted =
     (case filter (\<lambda>(tag, v). tag = wanted) dyns of
        [] \<Rightarrow> Ok None
      | [(tag, v)] \<Rightarrow> Ok (Some v)
      | _ \<Rightarrow> Err ''duplicate ELF dynamic relocation table tag'')"

definition plt_entry_size :: "u64 option \<Rightarrow> u64 option \<Rightarrow> (u64, string) result" where
  "plt_entry_size kind plt_size =
     (case kind of
        Some k \<Rightarrow>
          if k = DT_RELA then Ok 24 else if k = DT_REL then Ok 16 else Err ''ELF PLT relocation format is unsupported''
      | None \<Rightarrow>
          if (case plt_size of None \<Rightarrow> 0 | Some n \<Rightarrow> n) = 0 then Ok 24 else Err ''ELF PLT relocation format is unsupported'')"

definition check_entry_sizes :: "(u64 \<times> u64) list \<Rightarrow> (unit, string) result" where
  "check_entry_sizes dyns =
     (let bad = Err ''ELF dynamic relocation entry size is unsupported'' in
      rbind (dynamic_tag dyns DT_RELAENT) (\<lambda>rela_ent.
      if (case rela_ent of None \<Rightarrow> False | Some bytes_len \<Rightarrow> bytes_len \<noteq> 24) then bad
      else rbind (dynamic_tag dyns DT_RELENT) (\<lambda>rel_ent.
        if (case rel_ent of None \<Rightarrow> False | Some bytes_len \<Rightarrow> bytes_len \<noteq> 16) then bad else Ok ())))"

definition check_dynamic_section :: "u8 list \<Rightarrow> elf_dynamic_metadata \<Rightarrow> (u64 \<times> u64) list \<Rightarrow> (unit, string) result" where
  "check_dynamic_section binary parsed dyns =
     (let tag = dynamic_tag dyns; headers = em_program_headers parsed in
      if list_ex (\<lambda>(t, v). t \<in> set UNSUPPORTED_PACKED_TAGS) dyns
        then Err ''packed ELF dynamic relocations need an explicit loader contract''
      else
        rbind (tag DT_RELASZ) (\<lambda>rela_size.
        rbind (tag DT_RELSZ) (\<lambda>rel_size.
        rbind (tag DT_PLTRELSZ) (\<lambda>plt_size.
        rbind (check_entry_sizes dyns) (\<lambda>_.
        rbind (tag DT_RELA) (\<lambda>rela.
        rbind (checked_dynamic_table binary headers rela rela_size 24 (length (em_dynrelas parsed))) (\<lambda>_.
        rbind (tag DT_REL) (\<lambda>rel.
        rbind (checked_dynamic_table binary headers rel rel_size 16 (length (em_dynrels parsed))) (\<lambda>_.
        rbind (tag DT_PLTREL) (\<lambda>kind.
        rbind (plt_entry_size kind plt_size) (\<lambda>entry_size.
        rbind (tag DT_JMPREL) (\<lambda>jmprel.
        checked_dynamic_table binary headers jmprel plt_size entry_size (length (em_pltrelocs parsed))))))))))))))"

definition dynamic_relocations ::
  "host \<Rightarrow> u8 list \<Rightarrow> elf_file \<Rightarrow> u32 \<Rightarrow> (dynamic_relocation list, string) result" where
  "dynamic_relocations h binary elf schema_version =
     (if schema_version = PCODE_ELF_PROCESS_MEMORY_V1_VERSION then
        (case ef_dynamic_relocations elf of None \<Rightarrow> Ok [] | Some relocations \<Rightarrow> fold_res v1_relocation [] relocations)
      else
        rbind (map_err (\<lambda>e. ''invalid ELF dynamic metadata: '' @ e) (ho_parse_dynamic h binary)) (\<lambda>parsed.
        if \<not> em_is_64 parsed \<or> \<not> em_little_endian parsed \<or> em_machine parsed \<noteq> EM_X86_64
          then Err ''process memory requires executable x86-64 ELF''
        else
          rbind (case em_dynamic parsed of None \<Rightarrow> Ok () | Some dyns \<Rightarrow> check_dynamic_section binary parsed dyns) (\<lambda>_.
          fold_res v2_relocation [] (em_dynrelas parsed @ em_dynrels parsed @ em_pltrelocs parsed))))"

section \<open>Mappings\<close>

definition scan_process_segment :: "usize \<times> u64 \<Rightarrow> elf_segment \<Rightarrow> (usize \<times> u64, string) result" where
  "scan_process_segment st segment =
     (let (count, lowest) = st; count = count + 1 in
      if count > PROCESS_MAX_LOAD_SEGMENTS then Err ''ELF load segment limit exceeded''
      else Ok (count, min lowest (es_address segment)))"

definition process_block :: "string \<Rightarrow> u32 \<Rightarrow> ghidra_memory_block \<Rightarrow> bool" where
  \<comment> \<open>a loaded block of the image's space whose permissions are those of the segment\<close>
  "process_block sp p_flags b =
     (pa_space (mb_start b) = sp \<and> mb_loaded b \<and> mb_read b \<and> \<not> mb_overlay b \<and>
      mb_write b = (p_flags AND PF_W \<noteq> 0) \<and> mb_execute b = (p_flags AND PF_X \<noteq> 0))"

definition add_part ::
  "ghidra_memory_block \<Rightarrow> u64 \<Rightarrow> u64 \<Rightarrow> u64 \<Rightarrow> usize \<Rightarrow> process_region list \<Rightarrow> u64 \<times> u64 \<times> bool \<Rightarrow>
   (process_region list, string) result" where
  \<comment> \<open>the file-backed part of a mapped segment, or its zero tail, cut to the block\<close>
  "add_part b block_start block_end start file_offset regions part =
     (let (part_start, part_end, backed) = part in
      if backed \<and> \<not> mb_initialized b then Ok regions
      else
        let lo = max part_start block_start; hi = min part_end block_end in
        if lo \<ge> hi then Ok regions
        else
          rbind (if backed
                 then rbind (sub_u64 lo start) (\<lambda>displacement.
                   map_ok Some (ok_or ''ELF file offset overflows'' (usize_add file_offset (unat displacement))))
                 else Ok None) (\<lambda>offset.
          let regions' = regions @ [\<lparr>rg_start = lo, rg_end = hi, rg_file_offset = offset, rg_writable = mb_write b\<rparr>] in
          if length regions' > MAX_REGIONS then Err ''ELF process region limit exceeded'' else Ok regions'))"

definition add_process_block ::
  "string \<Rightarrow> u32 \<Rightarrow> u64 \<Rightarrow> u64 \<Rightarrow> u64 \<Rightarrow> usize \<Rightarrow> process_region list \<Rightarrow> ghidra_memory_block \<Rightarrow>
   (process_region list, string) result" where
  "add_process_block sp p_flags start file_end stop file_offset regions b =
     (if \<not> process_block sp p_flags b then Ok regions
      else
        rbind (block_range ''Ghidra block end overflows'' b) (\<lambda>(block_start, block_end).
        fold_res (add_part b block_start block_end start file_offset) regions
          [(start, file_end, True), (file_end, stop, False)]))"

definition add_process_segment ::
  "u8 list \<Rightarrow> ghidra_snapshot \<Rightarrow> int \<Rightarrow> process_region list \<Rightarrow> elf_segment \<Rightarrow> (process_region list, string) result" where
  "add_process_segment binary snap load_bias regions segment =
     (case es_flags segment of
        None \<Rightarrow> Err ''ELF segment has non-ELF flags''
      | Some p_flags \<Rightarrow>
          if p_flags AND PF_R = 0 \<or> es_size segment = 0 then Ok regions
          else if es_file_size segment > es_size segment then Err ''ELF file-backed segment exceeds mapped size''
          else if (case usize_add (unat (es_file_offset segment)) (unat (es_file_size segment)) of
              None \<Rightarrow> True | Some file_end \<Rightarrow> file_end > length binary)
            then Err ''ELF PT_LOAD file range exceeds binary''
          else
            rbind (ok_or ''ELF segment cannot map to Ghidra RAM'' (u64_of_int (uint (es_address segment) + load_bias))) (\<lambda>start.
            rbind (ok_or ''ELF file range overflows Ghidra RAM'' (checked_add start (es_file_size segment))) (\<lambda>file_end.
            rbind (ok_or ''ELF mapped range overflows Ghidra RAM'' (checked_add start (es_size segment))) (\<lambda>stop.
            fold_res (add_process_block (pa_space (pr_image_base (gs_program snap))) p_flags start file_end stop
              (unat (es_file_offset segment))) regions (gs_memory_blocks snap)))))"

definition process_key :: "process_region \<Rightarrow> u64 \<times> u64" where
  "process_key r = (rg_start r, rg_end r)"

section \<open>The byte window\<close>

record process_arrays =
  ay_bytes :: "u8 list"
  ay_known :: "u8 list"
  ay_mapped :: "u8 list"
  ay_writable :: "u8 list"

definition no_arrays :: "usize \<Rightarrow> process_arrays" where
  "no_arrays span = \<lparr>ay_bytes = replicate span 0, ay_known = replicate span 0, ay_mapped = replicate span 0,
     ay_writable = replicate span 0\<rparr>"

definition mark_range :: "usize \<Rightarrow> usize \<Rightarrow> u8 list \<Rightarrow> (u8 list, string) result" where
  \<comment> \<open>\<^verbatim>\<open>mask[lo..hi].fill(0xff)\<close>\<close>
  "mark_range lo hi bits = fill_range lo hi (replicate (hi - lo) 255) bits"

definition load_region :: "u8 list \<Rightarrow> u64 \<Rightarrow> process_arrays \<Rightarrow> process_region \<Rightarrow> (process_arrays, string) result" where
  "load_region binary base a r =
     rbind (sub_u64 (rg_start r) base) (\<lambda>lo64.
     rbind (sub_u64 (rg_end r) base) (\<lambda>hi64.
     let lo = unat lo64; hi = unat hi64 in
     rbind (case rg_file_offset r of
        None \<Rightarrow> Ok (ay_bytes a)
      | Some offset \<Rightarrow>
          if hi < lo then Panic
          else case usize_add offset (hi - lo) of
            None \<Rightarrow> Panic
          | Some stop \<Rightarrow>
              rbind (ok_or ''ELF region exceeds binary'' (slice_rs binary offset stop)) (\<lambda>source.
              fill_range lo hi source (ay_bytes a))) (\<lambda>bytes.
     rbind (mark_range lo hi (ay_known a)) (\<lambda>known.
     rbind (mark_range lo hi (ay_mapped a)) (\<lambda>mapped.
     map_ok (\<lambda>writable. \<lparr>ay_bytes = bytes, ay_known = known, ay_mapped = mapped, ay_writable = writable\<rparr>)
       (if rg_writable r then mark_range lo hi (ay_writable a) else Ok (ay_writable a)))))))"

section \<open>Applying relocations\<close>

record relocation_state =
  rl_known :: "u8 list"
  rl_relocated :: "nat btree_set"
  rl_hits :: "u8 list"
  rl_candidates :: "(nat list \<times> u8 list) list"

definition set_index :: "'a list \<Rightarrow> usize \<Rightarrow> 'a \<Rightarrow> ('a list, 'e) result" where
  \<comment> \<open>\<^verbatim>\<open>xs[i] = v\<close>\<close>
  "set_index xs i v = (if i < length xs then Ok (xs[i := v]) else Panic)"

definition window_index :: "u64 \<Rightarrow> usize \<Rightarrow> u8 list \<Rightarrow> u64 \<Rightarrow> (usize option, 'e) result" where
  \<comment> \<open>the index of a mapped address of the window\<close>
  "window_index base span mapped at =
     (case checked_sub at base of
        None \<Rightarrow> Ok None
      | Some index \<Rightarrow>
          if unat index < span
          then map_ok (\<lambda>m. if m = 255 then Some (unat index) else None) (index_rs mapped (unat index))
          else Ok None)"

definition saturating_inc :: "u8 \<Rightarrow> u8" where
  "saturating_inc n = (if n = 255 then 255 else n + 1)"

definition hit_byte ::
  "u64 \<Rightarrow> usize \<Rightarrow> u8 list \<Rightarrow> u64 \<Rightarrow> relocation_state \<times> nat list \<Rightarrow> nat \<Rightarrow> (relocation_state \<times> nat list, string) result" where
  \<comment> \<open>one destination byte of a relocation\<close>
  "hit_byte base span mapped target st byte =
     (let (rl, destination) = st in
      rbind (ok_or ''ELF relocation address overflows'' (checked_add target (of_nat byte))) (\<lambda>at.
      rbind (window_index base span mapped at) (\<lambda>found.
      case found of
        None \<Rightarrow> Ok st
      | Some index \<Rightarrow>
          rbind (set_index (rl_known rl) index 0) (\<lambda>known.
          rbind (index_rs (rl_hits rl) index) (\<lambda>n.
          rbind (set_index (rl_hits rl) index (saturating_inc n)) (\<lambda>hits.
          Ok (rl\<lparr>rl_known := known, rl_relocated := bs_insert index (rl_relocated rl), rl_hits := hits\<rparr>,
              destination @ [index])))))))"

definition le_bytes :: "u64 \<Rightarrow> u8 list" where
  \<comment> \<open>\<^verbatim>\<open>to_le_bytes\<close>\<close>
  "le_bytes v = map (byte_of v) [0..<8]"

definition relative_value :: "int \<Rightarrow> u32 \<Rightarrow> dynamic_relocation \<Rightarrow> nat list \<Rightarrow> u64 option" where
  \<comment> \<open>the value a wholly mapped 8-byte \<^verbatim>\<open>RELATIVE\<close> stores\<close>
  "relative_value load_bias schema_version r destination =
     (case dr_relative_addend r of
        None \<Rightarrow> None
      | Some addend \<Rightarrow>
          if schema_version = PCODE_ELF_PROCESS_MEMORY_VERSION \<and> dr_width r = 8 \<and> length destination = 8
          then u64_of_int (load_bias + sint addend) else None)"

definition hit_relocation ::
  "u64 \<Rightarrow> usize \<Rightarrow> u8 list \<Rightarrow> int \<Rightarrow> u32 \<Rightarrow> relocation_state \<Rightarrow> dynamic_relocation \<Rightarrow> (relocation_state, string) result" where
  "hit_relocation base span mapped load_bias schema_version rl r =
     (if dr_width r = 0 \<or> dr_width r > 16 then Err ''unsupported ELF dynamic relocation width''
      else
        rbind (ok_or ''ELF relocation cannot map to Ghidra RAM'' (u64_of_int (uint (dr_address r) + load_bias))) (\<lambda>target.
        rbind (fold_res (hit_byte base span mapped target) (rl, []) [0..<dr_width r]) (\<lambda>(rl', destination).
        Ok (case relative_value load_bias schema_version r destination of
            None \<Rightarrow> rl'
          | Some v \<Rightarrow> rl'\<lparr>rl_candidates := rl_candidates rl' @ [(destination, le_bytes v)]\<rparr>))))"

fun all_once :: "u8 list \<Rightarrow> nat list \<Rightarrow> (bool, 'e) result" where
  \<comment> \<open>\<^verbatim>\<open>destination.iter().all(|index| relocation_hits[*index] == 1)\<close>\<close>
  "all_once hits [] = Ok True"
| "all_once hits (i # is) = rbind (index_rs hits i) (\<lambda>n. if n = 1 then all_once hits is else Ok False)"

definition write_candidate_byte :: "u8 list \<times> u8 list \<Rightarrow> nat \<times> u8 \<Rightarrow> (u8 list \<times> u8 list, string) result" where
  "write_candidate_byte st p =
     (let (bytes, known) = st; (index, byte) = p in
      rbind (set_index bytes index byte) (\<lambda>bytes'.
      map_ok (\<lambda>known'. (bytes', known')) (set_index known index 255)))"

definition write_candidate ::
  "u8 list \<Rightarrow> u8 list \<times> u8 list \<Rightarrow> nat list \<times> u8 list \<Rightarrow> (u8 list \<times> u8 list, string) result" where
  "write_candidate hits st c =
     (let (destination, v) = c in
      rbind (all_once hits destination) (\<lambda>once.
      if once then fold_res write_candidate_byte st (zip destination v) else Ok st))"

section \<open>Construction\<close>

definition process_regions ::
  "u8 list \<Rightarrow> ghidra_snapshot \<Rightarrow> elf_file \<Rightarrow> (int \<times> process_region list, string) result" where
  \<comment> \<open>the load bias and the sorted regions\<close>
  "process_regions binary snap elf =
     (case ef_segments elf of
        [] \<Rightarrow> Err ''ELF has no PT_LOAD segments''
      | first # segments \<Rightarrow>
          rbind (fold_res scan_process_segment (1, es_address first) segments) (\<lambda>(_, lowest).
          rbind (hex_u64 (pa_offset (pr_image_base (gs_program snap)))) (\<lambda>image_base.
          let load_bias = uint image_base - uint lowest in
          rbind (fold_res (add_process_segment binary snap load_bias) [] (ef_segments elf)) (\<lambda>found.
          let regions = sort_key process_key found in
          if regions = [] then Err ''ELF and Ghidra have no matching loaded bytes''
          else if \<not> no_overlap (map process_key regions) then Err ''ELF process regions overlap in Ghidra RAM''
          else Ok (load_bias, regions)))))"

definition relocate ::
  "host \<Rightarrow> u8 list \<Rightarrow> elf_file \<Rightarrow> u32 \<Rightarrow> int \<Rightarrow> u64 \<Rightarrow> usize \<Rightarrow> process_arrays \<Rightarrow> (process_arrays \<times> usize, string) result" where
  \<comment> \<open>the bytes and masks after relocation, and how many relocated bytes stay unknown\<close>
  "relocate h binary elf schema_version load_bias base span a =
     rbind (dynamic_relocations h binary elf schema_version) (\<lambda>relocations.
     rbind (fold_res (hit_relocation base span (ay_mapped a) load_bias schema_version)
              \<lparr>rl_known = ay_known a, rl_relocated = [], rl_hits = replicate span 0, rl_candidates = []\<rparr> relocations) (\<lambda>rl.
     rbind (fold_res (write_candidate (rl_hits rl)) (ay_bytes a, rl_known rl) (rl_candidates rl)) (\<lambda>(bytes, known).
     map_ok (\<lambda>ks. (a\<lparr>ay_bytes := bytes, ay_known := known\<rparr>, length (filter (\<lambda>k. k = 0) ks)))
       (collect_res (index_rs known) (rl_relocated rl)))))"

definition process_from_elf_version ::
  "host \<Rightarrow> u8 list \<Rightarrow> ghidra_snapshot \<Rightarrow> usize \<Rightarrow> u32 \<Rightarrow> (elf_process_memory, string) result" where
  "process_from_elf_version h binary snap max_bytes schema_version =
     (if schema_version \<notin> {PCODE_ELF_PROCESS_MEMORY_V1_VERSION, PCODE_ELF_PROCESS_MEMORY_VERSION}
        then Err ''unsupported ELF process memory version''
      else if max_bytes = 0 \<or> max_bytes > PCODE_ELF_PROCESS_MEMORY_MAX_BYTES
        then Err ''ELF process memory allocation limit is invalid''
      else
        let digest = ho_sha256 h binary in
        rbind (validate_ghidra_snapshot snap digest) (\<lambda>_.
        rbind (load_elf h ''process memory requires executable x86-64 ELF'' binary) (\<lambda>elf.
        if \<not> ram_space_ok snap then Err ''Ghidra image base is not byte-addressable RAM''
        else
          rbind (process_regions binary snap elf) (\<lambda>(load_bias, regions).
          let base = rg_start (hd regions) in
          rbind (sub_u64 (rg_end (last regions)) base) (\<lambda>span64.
          let span = unat span64 in
          if span = 0 \<or> max_bytes = 0 \<or> span > max_bytes
            then Err (''ELF process memory needs '' @ fmt_dec span @ '' bytes, limit is '' @ fmt_dec max_bytes)
          else
            rbind (fold_res (load_region binary base) (no_arrays span) regions) (\<lambda>loaded.
            rbind (relocate h binary elf schema_version load_bias base span loaded) (\<lambda>(a, unresolved).
            map_ok (\<lambda>layout. \<lparr>pm_schema_version = schema_version, pm_binary_sha256 = digest, pm_snapshot_layout_sha256 = layout,
                pm_space = pa_space (pr_image_base (gs_program snap)), pm_base = base, pm_bytes = ay_bytes a,
                pm_known = ay_known a, pm_mapped = ay_mapped a, pm_writable = ay_writable a,
                pm_unresolved_relocation_bytes = unresolved, pm_bound_to_binary = True\<rparr>)
              (snapshot_layout_sha256 h snap))))))))"

definition process_from_elf :: "host \<Rightarrow> u8 list \<Rightarrow> ghidra_snapshot \<Rightarrow> usize \<Rightarrow> (elf_process_memory, string) result" where
  "process_from_elf h binary snap max_bytes = process_from_elf_version h binary snap max_bytes PCODE_ELF_PROCESS_MEMORY_VERSION"

definition parse_bound ::
  "(u8 list \<Rightarrow> (elf_process_memory, string) result) \<Rightarrow> host \<Rightarrow> u8 list \<Rightarrow> u8 list \<Rightarrow> ghidra_snapshot \<Rightarrow> usize \<Rightarrow>
   (elf_process_memory, string) result" where
  "parse_bound from_slice h json binary snap max_bytes =
     (if length json > 16 * PCODE_ELF_PROCESS_MEMORY_MAX_BYTES then Err ''ELF process memory JSON exceeds limit''
      else
        rbind (map_err (\<lambda>e. ''invalid ELF process memory JSON: '' @ e) (from_slice json)) (\<lambda>parsed.
        rbind (process_from_elf_version h binary snap max_bytes (pm_schema_version parsed)) (\<lambda>canonical.
        if parsed\<lparr>pm_bound_to_binary := True\<rparr> \<noteq> canonical
          then Err ''ELF process memory differs from binary and Ghidra layout'' else Ok canonical)))"

section \<open>Validation and lookup\<close>

definition mask_entry_ok :: "elf_process_memory \<Rightarrow> usize \<Rightarrow> (unit, string) result" where
  "mask_entry_ok m index =
     rbind (index_rs (pm_known m) index) (\<lambda>known.
     rbind (index_rs (pm_mapped m) index) (\<lambda>mapped.
     rbind (index_rs (pm_writable m) index) (\<lambda>writable.
     if known \<notin> {0, 255} \<or> mapped \<notin> {0, 255} \<or> writable \<notin> {0, 255} \<or> (known = 255 \<and> mapped \<noteq> 255) \<or>
        (writable = 255 \<and> mapped \<noteq> 255)
       then Err ''ELF process memory masks are inconsistent'' else Ok ())))"

definition process_validate_for_snapshot :: "host \<Rightarrow> elf_process_memory \<Rightarrow> ghidra_snapshot \<Rightarrow> (unit, string) result" where
  "process_validate_for_snapshot h m snap =
     (let stale = Err ''ELF process memory disagrees with Ghidra snapshot'' in
      if \<not> pm_bound_to_binary m \<or>
         pm_schema_version m \<notin> {PCODE_ELF_PROCESS_MEMORY_V1_VERSION, PCODE_ELF_PROCESS_MEMORY_VERSION} \<or>
         pm_binary_sha256 m \<noteq> gs_binary_sha256 snap then stale
      else
        rbind (snapshot_layout_sha256 h snap) (\<lambda>layout.
        if pm_snapshot_layout_sha256 m \<noteq> layout \<or> pm_space m \<noteq> pa_space (pr_image_base (gs_program snap)) \<or>
           length (pm_bytes m) \<noteq> length (pm_known m) \<or> length (pm_bytes m) \<noteq> length (pm_mapped m) \<or>
           length (pm_bytes m) \<noteq> length (pm_writable m) \<or> pm_bytes m = [] \<or>
           length (pm_bytes m) > PCODE_ELF_PROCESS_MEMORY_MAX_BYTES then stale
        else for_each (mask_entry_ok m) [0..<length (pm_bytes m)]))"

definition mask_at :: "elf_process_memory \<Rightarrow> u8 list \<Rightarrow> string \<Rightarrow> u64 \<Rightarrow> usize option" where
  \<comment> \<open>the index of an address whose mask entry is set\<close>
  "mask_at m bits sp address =
     (if sp \<noteq> pm_space m then None
      else Option.bind (checked_sub address (pm_base m)) (\<lambda>index.
        if get_rs bits (unat index) = Some 255 then Some (unat index) else None))"

definition initial_byte :: "elf_process_memory \<Rightarrow> string \<Rightarrow> u64 \<Rightarrow> u8 option" where
  \<comment> \<open>the constructor gives the bytes and the masks one length, so \<^verbatim>\<open>self.bytes[index]\<close> is in range\<close>
  "initial_byte m sp address = Option.bind (mask_at m (pm_known m) sp address) (get_rs (pm_bytes m))"

definition is_mapped :: "elf_process_memory \<Rightarrow> string \<Rightarrow> u64 \<Rightarrow> bool" where
  "is_mapped m sp address = (mask_at m (pm_mapped m) sp address \<noteq> None)"

definition is_writable :: "elf_process_memory \<Rightarrow> string \<Rightarrow> u64 \<Rightarrow> bool" where
  "is_writable m sp address = (mask_at m (pm_writable m) sp address \<noteq> None)"

section \<open>Declared allocations\<close>

definition kind_code :: "allocation_kind \<Rightarrow> u8" where
  "kind_code k = (case k of StackAllocation \<Rightarrow> 0 | HeapAllocation \<Rightarrow> 1)"

definition check_allocation ::
  "elf_process_memory \<Rightarrow> u64 \<Rightarrow> u64 \<times> u8 btree_set \<Rightarrow> process_allocation \<Rightarrow> (u64 \<times> u8 btree_set, string) result" where
  "check_allocation process process_end st r =
     (let (sum_len, seen) = st in
      if bs_contains seen (kind_code (al_kind r)) \<or> al_space r \<noteq> pm_space process \<or> al_byte_len r = 0
        then Err ''process allocation kind, space, or size is invalid''
      else
        rbind (ok_or ''process allocation address overflows'' (checked_add (al_base r) (al_byte_len r))) (\<lambda>stop.
        rbind (ok_or ''process allocation size overflows'' (checked_add sum_len (al_byte_len r))) (\<lambda>sum_len'.
        if sum_len' > PCODE_PROCESS_ALLOCATION_MAX_BYTES \<or> (al_base r < process_end \<and> pm_base process < stop)
          then Err ''process allocation exceeds budget or overlaps the ELF span''
        else Ok (sum_len', bs_insert (kind_code (al_kind r)) seen))))"

definition check_two_allocations :: "process_allocation list \<Rightarrow> (unit, string) result" where
  "check_two_allocations regions =
     (case regions of
        [a, b] \<Rightarrow>
          rbind (add_u64 (al_base b) (al_byte_len b)) (\<lambda>b_end.
          if \<not> al_base a < b_end then Ok ()
          else rbind (add_u64 (al_base a) (al_byte_len a)) (\<lambda>a_end.
            if al_base b < a_end then Err ''stack and heap allocations overlap'' else Ok ()))
      | _ \<Rightarrow> Ok ())"

definition allocations_validate_for ::
  "host \<Rightarrow> process_allocations \<Rightarrow> ghidra_snapshot \<Rightarrow> elf_process_memory \<Rightarrow> (unit, string) result" where
  "allocations_validate_for h al snap process =
     (let stale = Err ''process allocations disagree with the ELF or Ghidra snapshot'' in
      rbind (process_validate_for_snapshot h process snap) (\<lambda>_.
      if ac_schema_version al \<noteq> PCODE_PROCESS_ALLOCATIONS_VERSION \<or> ac_binary_sha256 al \<noteq> pm_binary_sha256 process then stale
      else
        rbind (snapshot_layout_sha256 h snap) (\<lambda>layout.
        if ac_snapshot_layout_sha256 al \<noteq> layout \<or> length (ac_regions al) > 2 then stale
        else
          rbind (ok_or ''ELF process span overflows''
                   (checked_add (pm_base process) (of_nat (length (pm_bytes process))))) (\<lambda>process_end.
          rbind (fold_res (check_allocation process process_end) (0, []) (ac_regions al)) (\<lambda>_.
          check_two_allocations (ac_regions al))))))"

definition new_allocations ::
  "host \<Rightarrow> ghidra_snapshot \<Rightarrow> elf_process_memory \<Rightarrow> process_allocation list \<Rightarrow> (process_allocations, string) result" where
  \<comment> \<open>\<^verbatim>\<open>PcodeProcessAllocations::new\<close>\<close>
  "new_allocations h snap process regions =
     rbind (process_validate_for_snapshot h process snap) (\<lambda>_.
     rbind (snapshot_layout_sha256 h snap) (\<lambda>layout.
     let contract = \<lparr>ac_schema_version = PCODE_PROCESS_ALLOCATIONS_VERSION, ac_binary_sha256 = pm_binary_sha256 process,
       ac_snapshot_layout_sha256 = layout, ac_regions = sort_key (kind_code \<circ> al_kind) regions\<rparr> in
     map_ok (\<lambda>_. contract) (allocations_validate_for h contract snap process)))"

definition parse_declared ::
  "(u8 list \<Rightarrow> (declared_allocations, string) result) \<Rightarrow> host \<Rightarrow> u8 list \<Rightarrow> ghidra_snapshot \<Rightarrow> elf_process_memory \<Rightarrow>
   (process_allocations, string) result" where
  "parse_declared from_slice h json snap process =
     (if json = [] \<or> length json > MAX_PCODE_PROCESS_ALLOCATIONS_JSON_BYTES
        then Err ''process allocation declaration is empty or exceeds 4 KiB''
      else
        rbind (from_slice json) (\<lambda>declaration.
        if da_schema_version declaration \<noteq> PCODE_PROCESS_ALLOCATIONS_VERSION
          then Err ''unsupported process allocation declaration version''
        else new_allocations h snap process (da_regions declaration)))"

definition allocation_contains :: "process_allocations \<Rightarrow> string \<Rightarrow> u64 \<Rightarrow> bool" where
  "allocation_contains al sp address =
     list_ex (\<lambda>r. al_space r = sp \<and> address \<ge> al_base r \<and> address - al_base r < al_byte_len r) (ac_regions al)"

end
