(* ===== verification/Pcode_Imports.thy ===== *)
theory Pcode_Imports
  imports Pcode_Process
begin

text \<open>
  \<^verbatim>\<open>hydir-ir/src/pcode/imports.rs\<close>: the named \<^verbatim>\<open>JUMP_SLOT\<close> imports of an ELF and the direct calls whose
  PLT stub jumps through one of them. A link names what a call requests; it says nothing of what the
  dynamic linker binds.
\<close>

section \<open>Data\<close>

definition PCODE_ELF_IMPORT_INDEX_VERSION :: u32 where "PCODE_ELF_IMPORT_INDEX_VERSION = 1"
definition MAX_IMPORTS :: usize where "MAX_IMPORTS = 65536"
definition MAX_IMPORT_NAME_BYTES :: usize where "MAX_IMPORT_NAME_BYTES = 256"
definition MAX_BINARY_BYTES :: usize where "MAX_BINARY_BYTES = 64 * 1024 * 1024"
definition SHN_UNDEF :: usize where "SHN_UNDEF = 0"

record import_header = program_header +
  \<comment> \<open>\<^verbatim>\<open>goblin::elf::ProgramHeader\<close> with the two fields the imports need besides\<close>
  ih_flags :: u32
  ih_memsz :: u64

record elf_import_metadata =
  \<comment> \<open>what is read here of \<^verbatim>\<open>goblin::elf::Elf\<close>: a dynamic symbol by index as name offset and section
      index, a string by offset\<close>
  ei_is_64 :: bool
  ei_little_endian :: bool
  ei_machine :: "16 word"
  ei_headers :: "import_header list"
  ei_dynamic :: "(u64 \<times> u64) list option"
  ei_pltrelocs :: "elf_reloc list"
  ei_dynsym :: "usize \<Rightarrow> (usize \<times> usize) option"
  ei_dynstr :: "usize \<Rightarrow> string option"

record elf_import =
  ip_name :: string
  ip_got :: pcode_address
  ip_relocation_type :: string

record elf_import_call =
  ic_call_site :: pcode_address
  ic_plt_target :: pcode_address
  ic_got :: pcode_address
  ic_name :: string

record elf_import_index =
  ix_schema_version :: u32
  ix_binary_sha256 :: string
  ix_snapshot_layout_sha256 :: string
  ix_imports :: "elf_import list"
  ix_calls :: "elf_import_call list"

section \<open>The PLT stub\<close>

fun find_map :: "('a \<Rightarrow> 'b option) \<Rightarrow> 'a list \<Rightarrow> 'b option" where
  "find_map f [] = None"
| "find_map f (x # xs) = (case f x of None \<Rightarrow> find_map f xs | Some y \<Rightarrow> Some y)"

definition header_bytes :: "u8 list \<Rightarrow> u64 \<Rightarrow> u64 \<Rightarrow> usize \<Rightarrow> import_header \<Rightarrow> u8 list option" where
  \<comment> \<open>the closure of \<^verbatim>\<open>find_map\<close>, whose question marks pass to the next header\<close>
  "header_bytes binary address stop count header =
     (if ph_type header \<noteq> PT_LOAD \<or> ih_flags header AND PF_X = 0 \<or> address < ph_vaddr header then None
      else Option.bind (checked_add (ph_vaddr header) (ph_filesz header)) (\<lambda>segment_end.
        if stop > segment_end then None
        else Option.bind (checked_add (ph_offset header) (address - ph_vaddr header)) (\<lambda>offset.
          Option.bind (usize_add (unat offset) count) (\<lambda>file_end. slice_rs binary (unat offset) file_end))))"

definition executable_bytes :: "import_header list \<Rightarrow> u8 list \<Rightarrow> u64 \<Rightarrow> usize \<Rightarrow> u8 list option" where
  "executable_bytes headers binary address count =
     Option.bind (checked_add address (word_of_nat count)) (\<lambda>stop.
       find_map (header_bytes binary address stop count) headers)"

definition le_word :: "u8 list \<Rightarrow> i32" where
  \<comment> \<open>\<^verbatim>\<open>i32::from_le_bytes\<close>\<close>
  "le_word bs = foldr (\<lambda>b v. push_bit 8 v OR ucast b) bs 0"

definition plt_got_address :: "import_header list \<Rightarrow> u8 list \<Rightarrow> u64 \<Rightarrow> u64 option" where
  \<comment> \<open>the slot an optional \<^verbatim>\<open>endbr64\<close> and \<^verbatim>\<open>jmp [rip+disp32]\<close> jump through\<close>
  "plt_got_address headers binary target =
     Option.bind (executable_bytes headers binary target 10) (\<lambda>first.
       let prefix = (if take 4 first = [0xf3, 0x0f, 0x1e, 0xfa] then 4 else 0) in
       Option.bind (slice_rs first prefix (prefix + 2)) (\<lambda>opcode.
         if opcode \<noteq> [0xff, 0x25] then None
         else Option.bind (slice_rs first (prefix + 2) (prefix + 6)) (\<lambda>displacement.
           u64_of_int (uint target + int (prefix + 6) + sint (le_word displacement)))))"

section \<open>The imports\<close>

definition import_tag :: "(u64 \<times> u64) list \<Rightarrow> u64 \<Rightarrow> (u64 option, string) result" where
  "import_tag dyns wanted =
     (case filter (\<lambda>(tag, v). tag = wanted) dyns of
        [] \<Rightarrow> Ok None
      | [(tag, v)] \<Rightarrow> Ok (Some v)
      | _ \<Rightarrow> Err ''duplicate ELF import table tag'')"

definition slot_in_header :: "u64 \<Rightarrow> u64 \<Rightarrow> import_header \<Rightarrow> bool" where
  "slot_in_header slot slot_end header =
     (ph_type header = PT_LOAD \<and> ih_flags header AND PF_W \<noteq> 0 \<and> slot \<ge> ph_vaddr header \<and>
      (case checked_add (ph_vaddr header) (ih_memsz header) of None \<Rightarrow> False | Some stop \<Rightarrow> slot_end \<le> stop))"

definition import_name :: "elf_import_metadata \<Rightarrow> usize \<Rightarrow> (string, string) result" where
  \<comment> \<open>the name of an undefined dynamic symbol\<close>
  "import_name elf index =
     rbind (ok_or ''ELF JUMP_SLOT symbol index is invalid'' (ei_dynsym elf index)) (\<lambda>(st_name, st_shndx).
     if st_shndx \<noteq> SHN_UNDEF then Err ''ELF JUMP_SLOT is not an undefined import''
     else rbind (ok_or ''ELF JUMP_SLOT symbol name is invalid'' (ei_dynstr elf st_name)) (\<lambda>name.
       if name = [] \<or> length name > MAX_IMPORT_NAME_BYTES \<or> has_control name
         then Err ''ELF JUMP_SLOT symbol name is unsupported'' else Ok name))"

definition add_import ::
  "elf_import_metadata \<Rightarrow> (u64 \<times> string) list \<Rightarrow> elf_reloc \<Rightarrow> ((u64 \<times> string) list, string) result" where
  "add_import elf imports r =
     (if er_type r \<noteq> R_X86_64_JUMP_SLOT then Ok imports
      else if length imports \<ge> MAX_IMPORTS \<or> (case er_addend r of None \<Rightarrow> False | Some addend \<Rightarrow> addend \<noteq> 0)
        then Err ''ELF JUMP_SLOT import count or addend is unsupported''
      else
        rbind (ok_or ''ELF JUMP_SLOT address overflows'' (checked_add (er_offset r) 8)) (\<lambda>slot_end.
        if \<not> list_ex (slot_in_header (er_offset r) slot_end) (ei_headers elf)
          then Err ''ELF JUMP_SLOT is outside writable PT_LOAD''
        else map_ok (\<lambda>name. imports @ [(er_offset r, name)]) (import_name elf (er_sym r))))"

definition plt_imports :: "u8 list \<Rightarrow> elf_import_metadata \<Rightarrow> (u64 \<times> u64) list \<Rightarrow> ((u64 \<times> string) list, string) result" where
  "plt_imports binary elf dyns =
     rbind (import_tag dyns DT_PLTRELSZ) (\<lambda>bytes_len.
     rbind (import_tag dyns DT_PLTREL) (\<lambda>kind.
     rbind (plt_entry_size kind bytes_len) (\<lambda>entry_size.
     rbind (import_tag dyns DT_JMPREL) (\<lambda>jmprel.
     rbind (checked_dynamic_table binary (map program_header.truncate (ei_headers elf)) jmprel bytes_len entry_size
              (length (ei_pltrelocs elf))) (\<lambda>_.
     fold_res (add_import elf) [] (ei_pltrelocs elf))))))"

fun slots_repeat :: "(u64 \<times> string) list \<Rightarrow> bool" where
  \<comment> \<open>\<^verbatim>\<open>windows(2)\<close>: two neighbours at one slot\<close>
  "slots_repeat (p # q # rest) = (fst p = fst q \<or> slots_repeat (q # rest))"
| "slots_repeat _ = False"

definition read_imports ::
  "(u8 list \<Rightarrow> (elf_import_metadata, string) result) \<Rightarrow> u8 list \<Rightarrow> ((u64 \<times> string) list \<times> elf_import_metadata, string) result" where
  "read_imports parse binary =
     (if binary = [] \<or> length binary > MAX_BINARY_BYTES then Err ''ELF import binary is empty or exceeds 64 MiB''
      else
        rbind (map_err (\<lambda>e. ''invalid ELF import metadata: '' @ e) (parse binary)) (\<lambda>elf.
        if \<not> ei_is_64 elf \<or> \<not> ei_little_endian elf \<or> ei_machine elf \<noteq> EM_X86_64
          then Err ''ELF imports require x86-64 little-endian ELF''
        else
          rbind (case ei_dynamic elf of None \<Rightarrow> Ok [] | Some dyns \<Rightarrow> plt_imports binary elf dyns) (\<lambda>found.
          let imports = sort_key fst found in
          if slots_repeat imports then Err ''ELF JUMP_SLOT slots overlap'' else Ok (imports, elf))))"

section \<open>The index\<close>

definition runtime_import :: "string \<Rightarrow> int \<Rightarrow> u64 \<times> string \<Rightarrow> (elf_import, string) result" where
  "runtime_import sp bias p =
     map_ok (\<lambda>got. \<lparr>ip_name = snd p, ip_got = \<lparr>pa_space = sp, pa_offset = fmt_hex got\<rparr>,
         ip_relocation_type = ''R_X86_64_JUMP_SLOT''\<rparr>)
       (ok_or ''ELF GOT cannot map to Ghidra RAM'' (u64_of_int (uint (fst p) + bias)))"

definition stub_import ::
  "string \<Rightarrow> int \<Rightarrow> import_header list \<Rightarrow> u8 list \<Rightarrow> elf_import list \<Rightarrow> u64 \<Rightarrow> elf_import option" where
  \<comment> \<open>the import whose slot the stub at a runtime address jumps through\<close>
  "stub_import sp bias headers binary imports target =
     Option.bind (u64_of_int (uint target - bias)) (\<lambda>target_elf.
     Option.bind (plt_got_address headers binary target_elf) (\<lambda>got_elf.
     Option.bind (u64_of_int (uint got_elf + bias)) (\<lambda>got_runtime.
     List.find (\<lambda>import. pa_space (ip_got import) = sp \<and> to_option (hex_u64 (pa_offset (ip_got import))) = Some got_runtime) imports)))"

type_synonym link_key = "string \<times> u64 \<times> u64"

definition link_call ::
  "string \<Rightarrow> int \<Rightarrow> import_header list \<Rightarrow> u8 list \<Rightarrow> elf_import list \<Rightarrow> elf_import_call list \<times> link_key set \<Rightarrow>
   ghidra_call_target \<Rightarrow> (elf_import_call list \<times> link_key set, string) result" where
  "link_call sp bias headers binary imports st call =
     (let (calls, seen) = st in
      if ct_computed call \<or> ct_conditional call then Ok st
      else case ct_target call of
        None \<Rightarrow> Ok st
      | Some target \<Rightarrow>
          if pa_space target \<noteq> sp \<or> pa_space (ct_call_site call) \<noteq> sp then Ok st
          else
            rbind (hex_u64 (pa_offset target)) (\<lambda>target_value.
            case stub_import sp bias headers binary imports target_value of
              None \<Rightarrow> Ok st
            | Some import \<Rightarrow>
                rbind (hex_u64 (pa_offset (ct_call_site call))) (\<lambda>site.
                let key = (pa_space (ct_call_site call), site, target_value) in
                if key \<in> seen then Ok st
                else Ok (calls @ [\<lparr>ic_call_site = ct_call_site call, ic_plt_target = target, ic_got = ip_got import,
                       ic_name = ip_name import\<rparr>], insert key seen))))"

definition call_order :: "elf_import_call \<Rightarrow> string \<times> u64" where
  "call_order c =
     (pa_space (ic_call_site c), case to_option (hex_u64 (pa_offset (ic_call_site c))) of None \<Rightarrow> 0 | Some v \<Rightarrow> v)"

definition load_vaddrs :: "import_header list \<Rightarrow> u64 list" where
  "load_vaddrs headers = map ph_vaddr (filter (\<lambda>header. ph_type header = PT_LOAD) headers)"

definition import_index_from_elf ::
  "(u8 list \<Rightarrow> (elf_import_metadata, string) result) \<Rightarrow> host \<Rightarrow> u8 list \<Rightarrow> ghidra_snapshot \<Rightarrow>
   (elf_import_index, string) result" where
  \<comment> \<open>\<^verbatim>\<open>PcodeElfImportIndex::from_elf\<close>\<close>
  "import_index_from_elf parse h binary snap =
     (let digest = ho_sha256 h binary; sp = pa_space (pr_image_base (gs_program snap)) in
      rbind (validate_ghidra_snapshot snap digest) (\<lambda>_.
      rbind (read_imports parse binary) (\<lambda>(raw_imports, elf).
      rbind (ok_or ''ELF has no PT_LOAD segments''
               (case load_vaddrs (ei_headers elf) of [] \<Rightarrow> None | a # as \<Rightarrow> Some (fold min as a))) (\<lambda>lowest.
      rbind (hex_u64 (pa_offset (pr_image_base (gs_program snap)))) (\<lambda>image_base.
      let bias = uint image_base - uint lowest in
      rbind (collect_res (runtime_import sp bias) raw_imports) (\<lambda>imports.
      rbind (fold_res (link_call sp bias (ei_headers elf) binary imports) ([], {})
               (sf_call_targets (gs_selected_function snap))) (\<lambda>(calls, seen).
      map_ok (\<lambda>layout. \<lparr>ix_schema_version = PCODE_ELF_IMPORT_INDEX_VERSION, ix_binary_sha256 = digest,
          ix_snapshot_layout_sha256 = layout, ix_imports = imports, ix_calls = sort_key call_order calls\<rparr>)
        (snapshot_layout_sha256 h snap))))))))"

definition parse_bound_imports ::
  "(u8 list \<Rightarrow> (elf_import_index, string) result) \<Rightarrow> (u8 list \<Rightarrow> (elf_import_metadata, string) result) \<Rightarrow> host \<Rightarrow>
   u8 list \<Rightarrow> u8 list \<Rightarrow> ghidra_snapshot \<Rightarrow> (elf_import_index, string) result" where
  "parse_bound_imports from_slice parse h json binary snap =
     (if length json > 4 * 1024 * 1024 then Err ''ELF import index JSON exceeds 4 MiB''
      else
        rbind (map_err (\<lambda>e. ''invalid ELF import index JSON: '' @ e) (from_slice json)) (\<lambda>parsed.
        rbind (import_index_from_elf parse h binary snap) (\<lambda>canonical.
        if parsed \<noteq> canonical then Err ''ELF import index differs from binary and Ghidra analysis'' else Ok canonical)))"

end
