(* ===== verification/Pcode_Image.thy ===== *)
theory Pcode_Image
  imports Pcode_Elf
begin

text \<open>
  \<^verbatim>\<open>hydir-ir/src/pcode/image.rs\<close>: the immutable bytes of the read-only ELF segments that Ghidra also
  marks read-only, looked up by address or materialized as one window with a mask of known bytes.
\<close>

section \<open>Data\<close>

definition IMAGE_MAX_LOAD_SEGMENTS :: usize where "IMAGE_MAX_LOAD_SEGMENTS = 4096"
definition MAX_IMAGE_REGIONS :: usize where "MAX_IMAGE_REGIONS = 8192"

record image_region =
  ir_start :: u64
  ir_end :: u64
  ir_file_offset :: usize

record pcode_read_only_elf_image =
  ri_binary_sha256 :: string
  ri_snapshot_layout_sha256 :: string
  ri_space :: string
  ri_binary :: "u8 list"
  ri_regions :: "image_region list"

record pcode_read_only_elf_window =
  rw_binary_sha256 :: string
  rw_snapshot_layout_sha256 :: string
  rw_space :: string
  rw_base :: u64
  rw_bytes :: "u8 list"
  rw_known :: "u8 list"

section \<open>Construction\<close>

definition scan_segment :: "usize \<times> u64 option \<Rightarrow> elf_segment \<Rightarrow> (usize \<times> u64 option, string) result" where
  "scan_segment st segment =
     (let (count, lowest) = st; count = count + 1 in
      if count > IMAGE_MAX_LOAD_SEGMENTS then Err ''ELF load segment limit exceeded''
      else Ok (count, Some (case lowest of None \<Rightarrow> es_address segment | Some low \<Rightarrow> min low (es_address segment))))"

definition read_only_block :: "string \<Rightarrow> ghidra_memory_block \<Rightarrow> bool" where
  "read_only_block sp b =
     (pa_space (mb_start b) = sp \<and> mb_loaded b \<and> mb_initialized b \<and> mb_read b \<and> \<not> mb_write b \<and> \<not> mb_overlay b)"

definition has_eligible_blocks :: "ghidra_snapshot \<Rightarrow> bool" where
  "has_eligible_blocks snap = list_ex (read_only_block (pa_space (pr_image_base (gs_program snap)))) (gs_memory_blocks snap)"

definition add_block ::
  "string \<Rightarrow> u64 \<Rightarrow> u64 \<Rightarrow> usize \<Rightarrow> image_region list \<Rightarrow> ghidra_memory_block \<Rightarrow> (image_region list, string) result" where
  \<comment> \<open>the part of a mapped segment a block confirms\<close>
  "add_block sp mapped_start mapped_end file_offset regions b =
     (if \<not> read_only_block sp b then Ok regions
      else
        rbind (block_range ''Ghidra memory block end overflows'' b) (\<lambda>(block_start, block_end).
        let start = max mapped_start block_start; stop = min mapped_end block_end in
        if start \<ge> stop then Ok regions
        else
          rbind (sub_u64 start mapped_start) (\<lambda>displacement.
          rbind (ok_or ''ELF image offset overflows'' (usize_add file_offset (unat displacement))) (\<lambda>at.
          let regions' = regions @ [\<lparr>ir_start = start, ir_end = stop, ir_file_offset = at\<rparr>] in
          if length regions' > MAX_IMAGE_REGIONS then Err ''ELF read-only image region limit exceeded'' else Ok regions'))))"

definition segment_in_file :: "u8 list \<Rightarrow> elf_segment \<Rightarrow> (unit, string) result" where
  "segment_in_file binary segment =
     (let file_offset = unat (es_file_offset segment); file_size = unat (es_file_size segment);
          outside = Err ''ELF PT_LOAD file range is outside the binary''
      in if (case usize_add file_offset file_size of None \<Rightarrow> True | Some stop \<Rightarrow> stop > length binary) then outside
         else rbind (map_err (\<lambda>e. ''invalid ELF segment data: '' @ e) (es_data segment)) (\<lambda>data.
           if length data \<noteq> file_size then outside else Ok ()))"

definition add_segment ::
  "u8 list \<Rightarrow> ghidra_snapshot \<Rightarrow> int \<Rightarrow> image_region list \<Rightarrow> elf_segment \<Rightarrow> (image_region list, string) result" where
  "add_segment binary snap load_bias regions segment =
     (case es_flags segment of
        None \<Rightarrow> Err ''ELF load segment has non-ELF flags''
      | Some p_flags \<Rightarrow>
          if p_flags AND PF_R = 0 \<or> p_flags AND PF_W \<noteq> 0 then Ok regions
          else if es_file_size segment = 0 then Ok regions
          else if es_file_size segment > es_size segment then Err ''ELF file-backed segment exceeds memory size''
          else
            rbind (segment_in_file binary segment) (\<lambda>_.
            rbind (ok_or ''ELF load address cannot be mapped to Ghidra RAM''
                     (u64_of_int (uint (es_address segment) + load_bias))) (\<lambda>mapped_start.
            rbind (ok_or ''ELF load address overflows Ghidra RAM''
                     (checked_add mapped_start (es_file_size segment))) (\<lambda>mapped_end.
            fold_res (add_block (pa_space (pr_image_base (gs_program snap))) mapped_start mapped_end
              (unat (es_file_offset segment))) regions (gs_memory_blocks snap)))))"

definition region_key :: "image_region \<Rightarrow> u64 \<times> u64" where
  "region_key r = (ir_start r, ir_end r)"

definition image_from_elf ::
  "host \<Rightarrow> u8 list \<Rightarrow> ghidra_snapshot \<Rightarrow> (pcode_read_only_elf_image, string) result" where
  \<comment> \<open>\<^verbatim>\<open>PcodeReadOnlyElfImage::from_elf\<close>\<close>
  "image_from_elf h binary snap =
     (let digest = ho_sha256 h binary in
      rbind (validate_ghidra_snapshot snap digest) (\<lambda>_.
      rbind (load_elf h ''read-only P-code image requires executable x86-64 ELF'' binary) (\<lambda>file.
      if \<not> ram_space_ok snap then Err ''Ghidra image base is not a byte-addressable RAM space''
      else
        rbind (fold_res scan_segment (0, None) (ef_segments file)) (\<lambda>(_, lowest).
        rbind (ok_or ''ELF has no PT_LOAD segments'' lowest) (\<lambda>lowest_address.
        rbind (hex_u64 (pa_offset (pr_image_base (gs_program snap)))) (\<lambda>image_base.
        rbind (fold_res (add_segment binary snap (uint image_base - uint lowest_address)) [] (ef_segments file)) (\<lambda>found.
        let regions = sort_key region_key found in
        if \<not> no_overlap (map region_key regions) then Err ''ELF read-only image regions overlap in Ghidra RAM''
        else if regions = [] then Err ''ELF and Ghidra have no matching loaded read-only bytes''
        else map_ok (\<lambda>layout. \<lparr>ri_binary_sha256 = digest, ri_snapshot_layout_sha256 = layout,
                 ri_space = pa_space (pr_image_base (gs_program snap)), ri_binary = binary, ri_regions = regions\<rparr>)
               (snapshot_layout_sha256 h snap))))))))"

section \<open>Lookup\<close>

definition image_byte :: "pcode_read_only_elf_image \<Rightarrow> string \<Rightarrow> u64 \<Rightarrow> u8 option" where
  \<comment> \<open>\<^verbatim>\<open>partition_point\<close> of the sorted regions is the length of the prefix that starts at or below\<close>
  "image_byte img sp address =
     (if sp \<noteq> ri_space img then None
      else
        let index = length (takeWhile (\<lambda>r. ir_start r \<le> address) (ri_regions img)) in
        if index = 0 then None
        else case get_rs (ri_regions img) (index - 1) of
            None \<Rightarrow> None
          | Some r \<Rightarrow>
              if address \<ge> ir_end r then None
              else get_rs (ri_binary img) (ir_file_offset r + unat (address - ir_start r)))"

definition validate_readonly_image :: "concrete_state \<Rightarrow> pcode_read_only_elf_image \<Rightarrow> (unit, string) result" where
  "validate_readonly_image s img =
     (case bm_get (cs_memory_bytes s) (ri_space img) of
        None \<Rightarrow> Ok ()
      | Some bytes \<Rightarrow>
          for_each (\<lambda>(address, v). case image_byte img (ri_space img) address of
              None \<Rightarrow> Ok ()
            | Some expected \<Rightarrow>
                if v \<noteq> expected then Err (''seed byte at '' @ ri_space img @ '':'' @ fmt_hex address @
                  '' conflicts with binary read-only image'')
                else Ok ()) bytes)"

definition validate_image_for :: "host \<Rightarrow> pcode_read_only_elf_image \<Rightarrow> ghidra_snapshot \<Rightarrow> concrete_state \<Rightarrow> (unit, string) result" where
  \<comment> \<open>\<^verbatim>\<open>PcodeReadOnlyElfImage::validate_for\<close>\<close>
  "validate_image_for h img snap s =
     (let stale = Err ''read-only ELF image disagrees with Ghidra snapshot'' in
      if ri_binary_sha256 img \<noteq> gs_binary_sha256 snap then stale
      else if ri_space img \<noteq> pa_space (pr_image_base (gs_program snap)) then stale
      else rbind (snapshot_layout_sha256 h snap) (\<lambda>layout.
        if ri_snapshot_layout_sha256 img \<noteq> layout then stale else validate_readonly_image s img))"

section \<open>The window\<close>

definition window_region ::
  "u8 list \<Rightarrow> u64 \<Rightarrow> usize \<Rightarrow> u8 list \<times> u8 list \<Rightarrow> image_region \<Rightarrow> (u8 list \<times> u8 list, string) result" where
  "window_region binary first span st r =
     (let (bytes, known) = st in
      rbind (sub_u64 (ir_start r) first) (\<lambda>start64.
      rbind (sub_u64 (ir_end r) (ir_start r)) (\<lambda>len64.
      let start = unat start64; len = unat len64 in
      rbind (ok_or ''read-only ELF image region exceeds window''
               (case usize_add start len of None \<Rightarrow> None | Some stop \<Rightarrow> if stop \<le> span then Some stop else None)) (\<lambda>stop.
      rbind (ok_or ''read-only ELF image file offset overflows'' (usize_add (ir_file_offset r) len)) (\<lambda>file_end.
      rbind (ok_or ''read-only ELF image region exceeds binary'' (slice_rs binary (ir_file_offset r) file_end)) (\<lambda>source.
      rbind (fill_range start stop source bytes) (\<lambda>bytes'.
      map_ok (\<lambda>known'. (bytes', known')) (fill_range start stop (replicate len 255) known))))))))"

definition materialize_window ::
  "pcode_read_only_elf_image \<Rightarrow> usize \<Rightarrow> (pcode_read_only_elf_window, string) result" where
  "materialize_window img max_bytes =
     (let none = ''read-only ELF image has no eligible regions'' in
      rbind (ok_or none (case ri_regions img of [] \<Rightarrow> None | r # _ \<Rightarrow> Some r)) (\<lambda>first.
      rbind (ok_or none (if ri_regions img = [] then None else Some (last (ri_regions img)))) (\<lambda>last.
      rbind (ok_or ''read-only ELF image window size overflows'' (checked_sub (ir_end last) (ir_start first))) (\<lambda>span64.
      let span = unat span64 in
      if span = 0 \<or> max_bytes = 0 \<or> span > max_bytes
        then Err (''read-only ELF image window requires '' @ fmt_dec span @ '' bytes, limit is '' @ fmt_dec max_bytes)
      else
        rbind (fold_res (window_region (ri_binary img) (ir_start first) span) (replicate span 0, replicate span 0)
                 (ri_regions img)) (\<lambda>(bytes, known).
        Ok \<lparr>rw_binary_sha256 = ri_binary_sha256 img, rw_snapshot_layout_sha256 = ri_snapshot_layout_sha256 img,
            rw_space = ri_space img, rw_base = ir_start first, rw_bytes = bytes, rw_known = known\<rparr>)))))"

definition validate_window :: "host \<Rightarrow> pcode_read_only_elf_window \<Rightarrow> ghidra_snapshot \<Rightarrow> (unit, string) result" where
  \<comment> \<open>\<^verbatim>\<open>PcodeReadOnlyElfWindow::validate_for_snapshot\<close>; \<^verbatim>\<open>||\<close> evaluates the layout digest only when needed\<close>
  "validate_window h w snap =
     (let stale = Err ''read-only ELF window disagrees with Ghidra snapshot layout'' in
      if rw_binary_sha256 w \<noteq> gs_binary_sha256 snap then stale
      else rbind (snapshot_layout_sha256 h snap) (\<lambda>layout.
        if rw_snapshot_layout_sha256 w \<noteq> layout then stale else Ok ()))"


section \<open>Lookup finds the region that holds the address\<close>

definition regions_wf :: "image_region list \<Rightarrow> bool" where
  "regions_wf rs \<longleftrightarrow> (\<forall>r \<in> set rs. ir_start r < ir_end r) \<and> no_overlap (map region_key rs)"

definition image_wf :: "pcode_read_only_elf_image \<Rightarrow> bool" where
  \<comment> \<open>what the constructor establishes: sorted, disjoint, nonempty regions of the file\<close>
  "image_wf img \<longleftrightarrow> ri_regions img \<noteq> [] \<and> regions_wf (ri_regions img) \<and>
     (\<forall>r \<in> set (ri_regions img). ir_file_offset r + (unat (ir_end r) - unat (ir_start r)) \<le> length (ri_binary img))"

lemma regions_wf_sorted:
  assumes "regions_wf rs"
  shows "sorted_wrt (\<lambda>p q. ir_end p \<le> ir_start q) rs"
proof -
  have "sorted_wrt (\<lambda>p q. snd p \<le> fst q) (map region_key rs)"
    using assms by (intro no_overlap_disjoint) (auto simp: regions_wf_def region_key_def)
  then show ?thesis by (simp add: sorted_wrt_map region_key_def)
qed

lemma regions_wf_prefix:
  assumes "regions_wf (xs @ r # ys)" and "ir_start r \<le> a" and "a < ir_end r"
  shows "takeWhile (\<lambda>r. ir_start r \<le> a) (xs @ r # ys) = xs @ [r]"
proof -
  have sorted: "sorted_wrt (\<lambda>p q. ir_end p \<le> ir_start q) (xs @ r # ys)"
    using assms(1) by (rule regions_wf_sorted)
  have "ir_start x \<le> a" if "x \<in> set xs" for x
  proof -
    from that sorted have "ir_end x \<le> ir_start r" by (simp add: sorted_wrt_append)
    moreover from that assms(1) have "ir_start x < ir_end x" by (simp add: regions_wf_def)
    ultimately show ?thesis using assms(2) by simp
  qed
  moreover have "\<not> ir_start y \<le> a" if "y \<in> set ys" for y
    using that sorted assms(3) by (fastforce simp: sorted_wrt_append)
  ultimately show ?thesis using assms(2) by (cases ys) (simp_all add: takeWhile_append)
qed

lemma image_byte_iff:
  assumes "image_wf img"
  shows "image_byte img sp a = Some b \<longleftrightarrow>
    sp = ri_space img \<and>
    (\<exists>r \<in> set (ri_regions img). ir_start r \<le> a \<and> a < ir_end r \<and>
      b = ri_binary img ! (ir_file_offset r + unat (a - ir_start r)))"
proof -
  let ?found = "takeWhile (\<lambda>r. ir_start r \<le> a) (ri_regions img)"
  have inside: "ir_file_offset r + unat (a - ir_start r) < length (ri_binary img)"
    if "r \<in> set (ri_regions img)" "ir_start r \<le> a" "a < ir_end r" for r
  proof -
    from that assms have "ir_file_offset r + (unat (ir_end r) - unat (ir_start r)) \<le> length (ri_binary img)"
      by (simp add: image_wf_def)
    with that show ?thesis by (simp add: unat_sub_if' word_le_nat_alt word_less_nat_alt)
  qed
  have at: "?found \<noteq> [] \<and> ri_regions img ! (length ?found - 1) = r"
    if "r \<in> set (ri_regions img)" "ir_start r \<le> a" "a < ir_end r" for r
  proof -
    from that(1) obtain xs ys where split: "ri_regions img = xs @ r # ys" by (metis split_list)
    with assms that have "?found = xs @ [r]" by (simp add: regions_wf_prefix image_wf_def)
    with split show ?thesis by simp
  qed
  have below: "ri_regions img ! (length ?found - 1) \<in> set (ri_regions img) \<and>
      ir_start (ri_regions img ! (length ?found - 1)) \<le> a" if "?found \<noteq> []"
  proof -
    have "last ?found = ri_regions img ! (length ?found - 1)"
      using that by (simp add: last_conv_nth takeWhile_nth)
    with that show ?thesis by (metis last_in_set set_takeWhileD)
  qed
  have length_le: "length ?found \<le> length (ri_regions img)" by (rule length_takeWhile_le)
  show ?thesis
  proof
    assume "image_byte img sp a = Some b"
    then show "sp = ri_space img \<and> (\<exists>r \<in> set (ri_regions img). ir_start r \<le> a \<and> a < ir_end r \<and>
        b = ri_binary img ! (ir_file_offset r + unat (a - ir_start r)))"
      using below by (auto simp: image_byte_def Let_def not_le split: if_splits option.splits)
  next
    assume "sp = ri_space img \<and> (\<exists>r \<in> set (ri_regions img). ir_start r \<le> a \<and> a < ir_end r \<and>
        b = ri_binary img ! (ir_file_offset r + unat (a - ir_start r)))"
    then obtain r where "sp = ri_space img" and r: "r \<in> set (ri_regions img)" "ir_start r \<le> a" "a < ir_end r"
      and b: "b = ri_binary img ! (ir_file_offset r + unat (a - ir_start r))" by blast
    moreover from at [OF r] have "0 < length ?found" by simp
    with length_le have "length ?found - 1 < length (ri_regions img)" by linarith
    with at [OF r] have "get_rs (ri_regions img) (length ?found - 1) = Some r" by simp
    moreover have "0 < length ?found" by fact
    ultimately show "image_byte img sp a = Some b"
      using at [OF r] inside [OF r] by (simp add: image_byte_def Let_def)
  qed
qed

section \<open>The image holds exactly the immutable file bytes\<close>

definition block_part :: "string \<Rightarrow> u64 \<Rightarrow> u64 \<Rightarrow> usize \<Rightarrow> ghidra_memory_block \<Rightarrow> image_region set" where
  "block_part sp mapped_start mapped_end file_offset b =
     {r. read_only_block sp b \<and>
       (\<exists>block_start block_end. block_range ''Ghidra memory block end overflows'' b = Ok (block_start, block_end) \<and>
         ir_start r = max mapped_start block_start \<and> ir_end r = min mapped_end block_end) \<and>
       ir_start r < ir_end r \<and> ir_file_offset r = file_offset + unat (ir_start r - mapped_start)}"

definition segment_part :: "ghidra_snapshot \<Rightarrow> int \<Rightarrow> elf_segment \<Rightarrow> image_region set" where
  "segment_part snap load_bias segment =
     {r. \<exists>p_flags mapped_start b. es_flags segment = Some p_flags \<and> p_flags AND PF_R \<noteq> 0 \<and> p_flags AND PF_W = 0 \<and>
       uint mapped_start = uint (es_address segment) + load_bias \<and> b \<in> set (gs_memory_blocks snap) \<and>
       r \<in> block_part (pa_space (pr_image_base (gs_program snap))) mapped_start
         (mapped_start + es_file_size segment) (unat (es_file_offset segment)) b}"

lemma add_block_set:
  assumes "add_block sp mapped_start mapped_end file_offset regions b = Ok regions'"
  shows "set regions' = set regions \<union> block_part sp mapped_start mapped_end file_offset b"
proof (cases "read_only_block sp b")
  case True
  with assms obtain block_start block_end where
    range: "block_range ''Ghidra memory block end overflows'' b = Ok (block_start, block_end)"
    by (auto simp: add_block_def)
  define start where "start = max mapped_start block_start"
  define stop where "stop = min mapped_end block_end"
  have part: "block_part sp mapped_start mapped_end file_offset b =
      (if start < stop then {\<lparr>ir_start = start, ir_end = stop, ir_file_offset = file_offset + unat (start - mapped_start)\<rparr>}
       else {})"
    using True range by (auto simp: block_part_def start_def stop_def)
  have "mapped_start \<le> start" by (simp add: start_def)
  with assms True range show ?thesis unfolding part
    by (cases "start < stop") (auto simp: add_block_def Let_def not_le simp flip: start_def stop_def split: if_splits)
qed (use assms in \<open>auto simp: add_block_def block_part_def\<close>)

lemma add_segment_set:
  assumes "add_segment binary snap load_bias regions segment = Ok regions'"
  shows "set regions' = set regions \<union> segment_part snap load_bias segment"
proof -
  from assms obtain p_flags where flags: "es_flags segment = Some p_flags"
    by (auto simp: add_segment_def split: option.splits)
  show ?thesis
  proof (cases "p_flags AND PF_R = 0 \<or> p_flags AND PF_W \<noteq> 0 \<or> es_file_size segment = 0")
    case True
    have "segment_part snap load_bias segment = {}"
      using True flags by (auto simp: segment_part_def block_part_def)
    then show ?thesis using assms True flags by (auto simp: add_segment_def split: if_splits)
  next
    case False
    with assms flags obtain mapped_start where
      at: "uint mapped_start = uint (es_address segment) + load_bias"
      and blocks: "fold_res (add_block (pa_space (pr_image_base (gs_program snap))) mapped_start
          (mapped_start + es_file_size segment) (unat (es_file_offset segment))) regions (gs_memory_blocks snap) = Ok regions'"
      by (auto simp: add_segment_def split: if_splits)
    have "set regions' = set regions \<union> (\<Union>b \<in> set (gs_memory_blocks snap).
        block_part (pa_space (pr_image_base (gs_program snap))) mapped_start
          (mapped_start + es_file_size segment) (unat (es_file_offset segment)) b)"
      using blocks by (rule fold_res_collects) (rule add_block_set)
    moreover have "segment_part snap load_bias segment = (\<Union>b \<in> set (gs_memory_blocks snap).
        block_part (pa_space (pr_image_base (gs_program snap))) mapped_start
          (mapped_start + es_file_size segment) (unat (es_file_offset segment)) b)"
      using False flags by (auto simp: segment_part_def simp flip: at word_uint_eq_iff)
    ultimately show ?thesis by simp
  qed
qed

lemma add_segment_in_file:
  assumes "add_segment binary snap load_bias regions segment = Ok regions'" and "r \<in> segment_part snap load_bias segment"
  shows "ir_file_offset r + (unat (ir_end r) - unat (ir_start r)) \<le> length binary \<and> ir_start r < ir_end r"
proof -
  from assms(2) obtain mapped_start b p_flags where flags: "es_flags segment = Some p_flags" "p_flags AND PF_R \<noteq> 0" "p_flags AND PF_W = 0"
    and at: "uint mapped_start = uint (es_address segment) + load_bias"
    and part: "r \<in> block_part (pa_space (pr_image_base (gs_program snap))) mapped_start
        (mapped_start + es_file_size segment) (unat (es_file_offset segment)) b"
    by (auto simp: segment_part_def)
  from part have bounds: "mapped_start \<le> ir_start r" "ir_end r \<le> mapped_start + es_file_size segment" "ir_start r < ir_end r"
    "ir_file_offset r = unat (es_file_offset segment) + unat (ir_start r - mapped_start)"
    by (auto simp: block_part_def)
  then have "es_file_size segment \<noteq> 0" by auto
  with assms(1) flags have "segment_in_file binary segment = Ok ()"
    and "unat mapped_start + unat (es_file_size segment) < 2 ^ 64"
    by (auto simp: add_segment_def simp flip: at word_uint_eq_iff split: if_splits)
  then have "unat (es_file_offset segment) + unat (es_file_size segment) \<le> length binary"
    and "unat (mapped_start + es_file_size segment) = unat mapped_start + unat (es_file_size segment)"
    by (auto simp: segment_in_file_def Let_def unat_word_ariths split: if_splits option.splits)
  with bounds show ?thesis by (auto simp: word_le_nat_alt word_less_nat_alt unat_sub_if')
qed

lemma scan_segment_Ok:
  "scan_segment (n, low) segment = Ok st \<Longrightarrow> st = (Suc n, Some (Min (insert (es_address segment) (set_option low))))"
  by (cases low) (auto simp: scan_segment_def min.commute split: if_splits)

lemma scan_segments_lowest:
  assumes "fold_res scan_segment (n, low) segments = Ok (n', low')"
  shows "low' = (if segments = [] then low else Some (Min (es_address ` set segments \<union> set_option low)))"
  using assms
proof (induction segments arbitrary: n low)
  case (Cons segment segments)
  let ?seen = "insert (es_address segment) (set_option low)"
  let ?low = "Min ?seen"
  have "finite ?seen" by (cases low) auto
  then have "Min (es_address ` set segments \<union> {?low}) = Min (es_address ` set segments \<union> ?seen)"
    by (cases "segments = []") (simp_all add: Min_Un del: Un_insert_right)
  also have "es_address ` set segments \<union> ?seen = es_address ` set (segment # segments) \<union> set_option low" by auto
  finally have "Min (es_address ` set segments \<union> {?low}) = Min (es_address ` set (segment # segments) \<union> set_option low)" .
  moreover have run: "fold_res scan_segment (Suc n, Some ?low) segments = Ok (n', low')"
    using Cons.prems by (auto dest: scan_segment_Ok)
  ultimately show ?case using Cons.IH [OF run] by (cases "segments = []") (simp_all del: Un_insert_right)
qed simp

lemma image_from_elf_run:
  assumes "image_from_elf h binary snap = Ok img"
  shows "\<exists>elf found. ho_parse_elf h binary = Ok elf \<and> ri_binary img = binary \<and>
    ri_space img = pa_space (pr_image_base (gs_program snap)) \<and> ri_binary_sha256 img = gs_binary_sha256 snap \<and> image_wf img \<and>
    fold_res (add_segment binary snap (load_bias_of snap elf)) [] (ef_segments elf) = Ok found \<and>
    set (ri_regions img) = (\<Union>segment \<in> set (ef_segments elf). segment_part snap (load_bias_of snap elf) segment)"
proof -
  from assms obtain elf n lowest_address image_base found where elf: "ho_parse_elf h binary = Ok elf"
    and lowest: "fold_res scan_segment (0, None) (ef_segments elf) = Ok (n, Some lowest_address)"
    and base: "hex_u64 (pa_offset (pr_image_base (gs_program snap))) = Ok image_base"
    and found: "fold_res (add_segment binary snap (uint image_base - uint lowest_address)) [] (ef_segments elf) = Ok found"
    and img: "ri_binary img = binary" "ri_space img = pa_space (pr_image_base (gs_program snap))"
      "ri_regions img = sort_key region_key found" "ri_regions img \<noteq> []" "no_overlap (map region_key (sort_key region_key found))"
    and digest: "ri_binary_sha256 img = gs_binary_sha256 snap"
    by (auto simp: image_from_elf_def load_elf_def Let_def split: if_splits dest: validated_digest)
  from scan_segments_lowest [OF lowest] have bias: "uint image_base - uint lowest_address = load_bias_of snap elf"
    by (auto simp: load_bias_of_def base split: if_splits)
  have all: "set found = (\<Union>segment \<in> set (ef_segments elf). segment_part snap (load_bias_of snap elf) segment)"
    using fold_res_collects [OF found add_segment_set] by (simp add: bias)
  have "\<forall>r \<in> set found. ir_file_offset r + (unat (ir_end r) - unat (ir_start r)) \<le> length binary \<and> ir_start r < ir_end r"
  proof
    fix r
    assume "r \<in> set found"
    with all obtain segment where "segment \<in> set (ef_segments elf)"
      and part: "r \<in> segment_part snap (load_bias_of snap elf) segment" by auto
    with fold_res_step_at [OF found] obtain u v where "add_segment binary snap (load_bias_of snap elf) u segment = Ok v"
      unfolding bias by blast
    from add_segment_in_file [OF this part]
    show "ir_file_offset r + (unat (ir_end r) - unat (ir_start r)) \<le> length binary \<and> ir_start r < ir_end r" .
  qed
  with img all found elf digest show ?thesis by (auto simp: image_wf_def regions_wf_def bias)
qed

definition readable_only :: "elf_segment \<Rightarrow> bool" where
  "readable_only segment \<longleftrightarrow> (\<exists>p. es_flags segment = Some p \<and> p AND PF_R \<noteq> 0 \<and> p AND PF_W = 0)"

definition immutable_at :: "ghidra_snapshot \<Rightarrow> elf_file \<Rightarrow> u64 \<Rightarrow> usize \<Rightarrow> bool" where
  \<comment> \<open>offset \<open>i\<close> of the file backs address \<open>a\<close>, and both the file and Ghidra call it read-only\<close>
  "immutable_at snap elf a i \<longleftrightarrow>
     (\<exists>segment \<in> set (ef_segments elf). readable_only segment \<and>
        (\<exists>k < unat (es_file_size segment). uint a = uint (es_address segment) + load_bias_of snap elf + int k \<and>
           i = unat (es_file_offset segment) + k)) \<and>
     (\<exists>b \<in> set (gs_memory_blocks snap). read_only_block (pa_space (pr_image_base (gs_program snap))) b \<and> covers b a)"

definition region_byte :: "image_region \<Rightarrow> u64 \<Rightarrow> usize \<Rightarrow> bool" where
  "region_byte r a i \<longleftrightarrow> ir_start r \<le> a \<and> a < ir_end r \<and> i = ir_file_offset r + unat (a - ir_start r)"

lemma block_part_bytes:
  assumes "read_only_block sp b" and "block_range ''Ghidra memory block end overflows'' b = Ok (block_start, block_end)"
  shows "(\<exists>r \<in> block_part sp mapped_start mapped_end offset b. region_byte r a i) \<longleftrightarrow>
    mapped_start \<le> a \<and> a < mapped_end \<and> covers b a \<and> i = offset + unat (a - mapped_start)"
    (is "?lhs \<longleftrightarrow> ?rhs")
proof
  assume ?lhs
  then show ?rhs using assms
    by (cases "mapped_start \<le> block_start")
      (auto simp: block_part_def region_byte_def block_range_covers max_def word_le_nat_alt unat_sub_if')
next
  assume ?rhs
  let ?r = "\<lparr>ir_start = max mapped_start block_start, ir_end = min mapped_end block_end,
    ir_file_offset = offset + unat (max mapped_start block_start - mapped_start)\<rparr>"
  from \<open>?rhs\<close> have "block_start \<le> a" "a < block_end" by (simp_all add: block_range_covers [OF assms(2)])
  with \<open>?rhs\<close> have "region_byte ?r a i" "ir_start ?r < ir_end ?r"
    by (auto simp: region_byte_def max_def min_def word_le_nat_alt word_less_nat_alt unat_sub_if')
  with assms have "?r \<in> block_part sp mapped_start mapped_end offset b" by (simp add: block_part_def)
  with \<open>region_byte ?r a i\<close> show ?lhs by blast
qed

lemma segment_part_bytes:
  assumes "add_segment binary snap load_bias regions segment = Ok regions'"
  shows "(\<exists>r \<in> segment_part snap load_bias segment. region_byte r a i) \<longleftrightarrow>
    readable_only segment \<and>
    (\<exists>k < unat (es_file_size segment). uint a = uint (es_address segment) + load_bias + int k \<and> i = unat (es_file_offset segment) + k) \<and>
    (\<exists>b \<in> set (gs_memory_blocks snap). read_only_block (pa_space (pr_image_base (gs_program snap))) b \<and> covers b a)"
proof (cases "readable_only segment \<and> es_file_size segment \<noteq> 0")
  case False
  then have "segment_part snap load_bias segment = {}"
    by (auto simp: segment_part_def block_part_def readable_only_def)
  then show ?thesis using False by (auto simp: readable_only_def)
next
  case True
  let ?sp = "pa_space (pr_image_base (gs_program snap))" and ?size = "es_file_size segment" and ?offset = "unat (es_file_offset segment)"
  from True assms obtain m where m: "uint m = uint (es_address segment) + load_bias" "unat m + unat ?size < 2 ^ 64"
    and blocks: "fold_res (add_block ?sp m (m + ?size) ?offset) regions (gs_memory_blocks snap) = Ok regions'"
    by (auto simp: add_segment_def readable_only_def split: if_splits)
  have block: "(\<exists>r \<in> block_part ?sp m (m + ?size) ?offset b. region_byte r a i) \<longleftrightarrow>
      read_only_block ?sp b \<and> m \<le> a \<and> a < m + ?size \<and> covers b a \<and> i = ?offset + unat (a - m)"
    if b: "b \<in> set (gs_memory_blocks snap)" for b
  proof (cases "read_only_block ?sp b")
    case eligible: True
    from fold_res_step_at [OF blocks b] obtain u v where "add_block ?sp m (m + ?size) ?offset u b = Ok v" by blast
    with eligible obtain block_start block_end where
      "block_range ''Ghidra memory block end overflows'' b = Ok (block_start, block_end)"
      by (auto simp: add_block_def)
    from block_part_bytes [OF eligible this] eligible show ?thesis by blast
  qed (simp add: block_part_def)
  have "segment_part snap load_bias segment = (\<Union>b \<in> set (gs_memory_blocks snap). block_part ?sp m (m + ?size) ?offset b)"
    using True by (auto simp: segment_part_def readable_only_def simp flip: m(1) word_uint_eq_iff)
  then have "(\<exists>r \<in> segment_part snap load_bias segment. region_byte r a i) \<longleftrightarrow>
      (m \<le> a \<and> a < m + ?size \<and> i = ?offset + unat (a - m)) \<and>
      (\<exists>b \<in> set (gs_memory_blocks snap). read_only_block ?sp b \<and> covers b a)"
    using block by auto
  then show ?thesis using True unfolding mapped_address [OF m] by blast
qed

theorem image_holds_immutable_bytes:
  assumes "image_from_elf h binary snap = Ok img"
  shows "\<exists>elf. ho_parse_elf h binary = Ok elf \<and>
    (\<forall>sp a b. image_byte img sp a = Some b \<longleftrightarrow>
       sp = pa_space (pr_image_base (gs_program snap)) \<and> (\<exists>i. immutable_at snap elf a i \<and> b = binary ! i))"
proof -
  from image_from_elf_run [OF assms] obtain elf found where elf: "ho_parse_elf h binary = Ok elf"
    and img: "ri_binary img = binary" "ri_space img = pa_space (pr_image_base (gs_program snap))" "image_wf img"
      "set (ri_regions img) = (\<Union>segment \<in> set (ef_segments elf). segment_part snap (load_bias_of snap elf) segment)"
    and found: "fold_res (add_segment binary snap (load_bias_of snap elf)) [] (ef_segments elf) = Ok found"
    by blast
  have part: "(\<exists>r \<in> segment_part snap (load_bias_of snap elf) segment. region_byte r a i) \<longleftrightarrow>
      readable_only segment \<and>
      (\<exists>k < unat (es_file_size segment). uint a = uint (es_address segment) + load_bias_of snap elf + int k \<and>
         i = unat (es_file_offset segment) + k) \<and>
      (\<exists>b \<in> set (gs_memory_blocks snap). read_only_block (pa_space (pr_image_base (gs_program snap))) b \<and> covers b a)"
    if "segment \<in> set (ef_segments elf)" for segment a i
  proof -
    from fold_res_step_at [OF found that] obtain u v where
      "add_segment binary snap (load_bias_of snap elf) u segment = Ok v" by blast
    then show ?thesis by (rule segment_part_bytes)
  qed
  have region: "(\<exists>r \<in> set (ri_regions img). region_byte r a i) \<longleftrightarrow> immutable_at snap elf a i" for a i
    unfolding img immutable_at_def using part by (auto 0 3)
  show ?thesis
  proof (intro exI conjI allI)
    fix sp a b
    show "image_byte img sp a = Some b \<longleftrightarrow>
       sp = pa_space (pr_image_base (gs_program snap)) \<and> (\<exists>i. immutable_at snap elf a i \<and> b = binary ! i)"
      unfolding image_byte_iff [OF img(3)] img(1,2) region [symmetric] by (auto simp: region_byte_def)
  qed (rule elf)
qed

section \<open>The window agrees with the lookup\<close>

definition in_region :: "image_region \<Rightarrow> u64 \<Rightarrow> bool" where
  "in_region r a \<longleftrightarrow> ir_start r \<le> a \<and> a < ir_end r"

definition painted :: "u8 list \<Rightarrow> u64 \<Rightarrow> usize \<Rightarrow> image_region set \<Rightarrow> u8 list \<times> u8 list \<Rightarrow> bool" where
  \<comment> \<open>the window after the regions of \<open>rs\<close>, with \<open>base\<close> its first address\<close>
  "painted binary base span rs st \<longleftrightarrow> length (fst st) = span \<and> length (snd st) = span \<and>
     (\<forall>i < span.
        (\<forall>r \<in> rs. in_region r (base + of_nat i) \<longrightarrow> snd st ! i = 255) \<and>
        (\<forall>r \<in> rs. \<forall>j. region_byte r (base + of_nat i) j \<longrightarrow> fst st ! i = binary ! j) \<and>
        ((\<forall>r \<in> rs. \<not> in_region r (base + of_nat i)) \<longrightarrow> snd st ! i = 0 \<and> fst st ! i = 0))"

lemma window_region_paints:
  assumes "painted binary base span rs st" and fits: "unat base + span < 2 ^ 64"
    and r: "base \<le> ir_start r" "ir_start r < ir_end r" "unat (ir_end r) \<le> unat base + span"
      "ir_file_offset r + (unat (ir_end r) - unat (ir_start r)) \<le> length binary"
    and big: "length binary < 2 ^ 64" and apart: "\<forall>q \<in> rs. ir_end q \<le> ir_start r"
  shows "\<exists>st'. window_region binary base span st r = Ok st' \<and> painted binary base span (insert r rs) st'"
proof -
  obtain bytes known where st: "st = (bytes, known)" by (cases st)
  define start where "start = unat (ir_start r) - unat base"
  define len where "len = unat (ir_end r) - unat (ir_start r)"
  let ?source = "take len (drop (ir_file_offset r) binary)"
  from assms st have lengths: "length bytes = span" "length known = span" by (simp_all add: painted_def)
  have nats: "unat (ir_start r - base) = start" "unat (ir_end r - ir_start r) = len" "start + len \<le> span"
    using r fits by (auto simp: start_def len_def word_le_nat_alt word_less_nat_alt unat_sub_if')
  have source: "length ?source = len" using r by (simp add: len_def)
  obtain bytes' where bytes': "(fill_range start (start + len) ?source bytes :: (_, string) result) = Ok bytes'" "length bytes' = span"
    "\<forall>i < span. bytes' ! i = (if start \<le> i \<and> i < start + len then ?source ! (i - start) else bytes ! i)"
    using fill_range_nth [of start "start + len" bytes ?source] nats source lengths by auto
  obtain known' where known': "(fill_range start (start + len) (replicate len 255) known :: (_, string) result) = Ok known'" "length known' = span"
    "\<forall>i < span. known' ! i = (if start \<le> i \<and> i < start + len then replicate len 255 ! (i - start) else known ! i)"
    using fill_range_nth [of start "start + len" known "replicate len 255"] nats(3) lengths
    by (auto cong: if_cong)
  have run: "window_region binary base span st r = Ok (bytes', known')"
    using r big nats bytes'(1) known'(1) fits
    by (simp add: st window_region_def usize_add_def slice_rs_def Let_def flip: len_def)
  have place: "in_region r (base + of_nat i) \<longleftrightarrow> start \<le> i \<and> i < start + len"
    "in_region r (base + of_nat i) \<Longrightarrow> unat (base + of_nat i - ir_start r) = i - start" if "i < span" for i
  proof -
    from that fits have "unat (base + of_nat i :: u64) = unat base + i"
      by (simp add: unat_word_ariths unsigned_of_nat take_bit_nat_eq_self)
    with r show "in_region r (base + of_nat i) \<longleftrightarrow> start \<le> i \<and> i < start + len"
      "in_region r (base + of_nat i) \<Longrightarrow> unat (base + of_nat i - ir_start r) = i - start"
      by (auto simp: in_region_def start_def len_def word_le_nat_alt word_less_nat_alt unat_sub_if')
  qed
  have "(\<forall>q \<in> insert r rs. in_region q (base + of_nat i) \<longrightarrow> known' ! i = 255) \<and>
      (\<forall>q \<in> insert r rs. \<forall>j. region_byte q (base + of_nat i) j \<longrightarrow> bytes' ! i = binary ! j) \<and>
      ((\<forall>q \<in> insert r rs. \<not> in_region q (base + of_nat i)) \<longrightarrow> known' ! i = 0 \<and> bytes' ! i = 0)" if i: "i < span" for i
  proof (cases "in_region r (base + of_nat i)")
    case True
    have "\<not> region_byte q (base + of_nat i) j" if "q \<in> rs" for q j
      using apart that True by (fastforce simp: region_byte_def in_region_def)
    with True place [OF i] bytes'(3) known'(3) i source show ?thesis
      by (auto simp: region_byte_def in_region_def len_def)
  next
    case False
    with place [OF i] bytes'(3) known'(3) i
    have "bytes' ! i = bytes ! i" "known' ! i = known ! i" "\<not> region_byte r (base + of_nat i) j" for j
      by (auto simp: region_byte_def in_region_def)
    moreover from assms(1) i have "(\<forall>q \<in> rs. in_region q (base + of_nat i) \<longrightarrow> known ! i = 255) \<and>
      (\<forall>q \<in> rs. \<forall>j. region_byte q (base + of_nat i) j \<longrightarrow> bytes ! i = binary ! j) \<and>
      ((\<forall>q \<in> rs. \<not> in_region q (base + of_nat i)) \<longrightarrow> known ! i = 0 \<and> bytes ! i = 0)"
      by (simp add: painted_def st)
    ultimately show ?thesis using False by simp
  qed
  then have "painted binary base span (insert r rs) (bytes', known')"
    using bytes'(2) known'(2) by (simp add: painted_def)
  with run show ?thesis by blast
qed

lemma window_regions_paint:
  assumes "painted binary base span (set seen) st" and "unat base + span < 2 ^ 64" and "length binary < 2 ^ 64"
    and "\<forall>r \<in> set rs. base \<le> ir_start r \<and> ir_start r < ir_end r \<and> unat (ir_end r) \<le> unat base + span \<and>
      ir_file_offset r + (unat (ir_end r) - unat (ir_start r)) \<le> length binary"
    and "sorted_wrt (\<lambda>p q. ir_end p \<le> ir_start q) (seen @ rs)"
  shows "\<exists>st'. fold_res (window_region binary base span) st rs = Ok st' \<and> painted binary base span (set (seen @ rs)) st'"
  using assms
proof (induction rs arbitrary: seen st)
  case (Cons r rs)
  from Cons.prems have "\<forall>q \<in> set seen. ir_end q \<le> ir_start r" by (simp add: sorted_wrt_append)
  with Cons.prems have "\<exists>st'. window_region binary base span st r = Ok st' \<and> painted binary base span (insert r (set seen)) st'"
    by (intro window_region_paints) simp_all
  then obtain st' where "window_region binary base span st r = Ok st'"
    and "painted binary base span (insert r (set seen)) st'" by blast
  with Cons.prems Cons.IH [of "seen @ [r]" st'] show ?case by auto
qed auto

lemma image_regions_inside:
  assumes "image_wf img" and "r \<in> set (ri_regions img)"
  shows "ir_start (hd (ri_regions img)) \<le> ir_start r \<and> ir_end r \<le> ir_end (last (ri_regions img))"
proof -
  have sorted: "sorted_wrt (\<lambda>p q. ir_end p \<le> ir_start q) (ri_regions img)"
    and ne: "\<forall>q \<in> set (ri_regions img). ir_start q < ir_end q"
    using assms(1) by (auto simp: image_wf_def regions_wf_def intro: regions_wf_sorted)
  from assms(2) obtain xs ys where split: "ri_regions img = xs @ r # ys" by (metis split_list)
  have "ir_start (hd (xs @ r # ys)) \<le> ir_start r"
    using sorted ne unfolding split by (cases xs) (auto intro: less_imp_le order.strict_trans1)
  moreover have "ir_end r \<le> ir_end (last (xs @ r # ys))"
    using sorted ne unfolding split by (cases ys rule: rev_cases) (auto simp: sorted_wrt_append intro: less_imp_le order.strict_trans2)
  ultimately show ?thesis by (simp add: split)
qed

definition window_span :: "pcode_read_only_elf_image \<Rightarrow> usize" where
  "window_span img = unat (ir_end (last (ri_regions img))) - unat (ir_start (hd (ri_regions img)))"

definition window_agrees :: "pcode_read_only_elf_image \<Rightarrow> pcode_read_only_elf_window \<Rightarrow> bool" where
  \<comment> \<open>the window and its mask say of every address what the lookup says\<close>
  "window_agrees img w \<longleftrightarrow> length (rw_bytes w) = length (rw_known w) \<and>
     (\<forall>i < length (rw_bytes w). case image_byte img (rw_space w) (rw_base w + of_nat i) of
          Some b \<Rightarrow> rw_known w ! i = 255 \<and> rw_bytes w ! i = b
        | None \<Rightarrow> rw_known w ! i = 0 \<and> rw_bytes w ! i = 0) \<and>
     (\<forall>sp a b. image_byte img sp a = Some b \<longrightarrow>
        sp = rw_space w \<and> rw_base w \<le> a \<and> unat a - unat (rw_base w) < length (rw_bytes w))"

theorem window_materializes:
  assumes wf: "image_wf img" and big: "length (ri_binary img) < 2 ^ 64"
  shows "materialize_window img max_bytes \<noteq> Panic"
    and "is_ok (materialize_window img max_bytes) \<longleftrightarrow> window_span img \<le> max_bytes"
    and "materialize_window img max_bytes = Ok w \<Longrightarrow> length (rw_bytes w) = window_span img \<and> window_agrees img w"
proof -
  let ?rs = "ri_regions img" and ?base = "ir_start (hd (ri_regions img))"
  from wf have ne: "?rs \<noteq> []" by (simp add: image_wf_def)
  then have ends: "hd ?rs \<in> set ?rs" "last ?rs \<in> set ?rs" by simp_all
  have shape: "\<forall>r \<in> set ?rs. ?base \<le> ir_start r \<and> ir_start r < ir_end r \<and> ir_end r \<le> ir_end (last ?rs) \<and>
      ir_file_offset r + (unat (ir_end r) - unat (ir_start r)) \<le> length (ri_binary img)"
    using wf image_regions_inside [OF wf] by (auto simp: image_wf_def regions_wf_def)
  then have less: "?base < ir_end (last ?rs)" using ends by (auto intro: order.strict_trans1)
  then have span: "unat (ir_end (last ?rs) - ?base) = window_span img" "0 < window_span img"
    "unat ?base + window_span img = unat (ir_end (last ?rs))"
    by (auto simp: window_span_def word_less_nat_alt unat_sub_if')
  have fits: "unat ?base + window_span img < 2 ^ 64" unfolding span(3) using unsigned_less [of "ir_end (last ?rs)"] by simp
  have "painted (ri_binary img) ?base (window_span img) (set []) (replicate (window_span img) 0, replicate (window_span img) 0)"
    by (simp add: painted_def)
  moreover have "\<forall>r \<in> set ?rs. ?base \<le> ir_start r \<and> ir_start r < ir_end r \<and> unat (ir_end r) \<le> unat ?base + window_span img \<and>
      ir_file_offset r + (unat (ir_end r) - unat (ir_start r)) \<le> length (ri_binary img)"
    using shape by (simp add: span(3) flip: word_le_nat_alt)
  moreover have "sorted_wrt (\<lambda>p q. ir_end p \<le> ir_start q) ([] @ ?rs)"
    using wf by (simp add: image_wf_def regions_wf_sorted)
  ultimately have "\<exists>st. fold_res (window_region (ri_binary img) ?base (window_span img))
      (replicate (window_span img) 0, replicate (window_span img) 0) ?rs = Ok st \<and>
      painted (ri_binary img) ?base (window_span img) (set ([] @ ?rs)) st"
    using fits big by (intro window_regions_paint)
  then obtain st where
    run: "fold_res (window_region (ri_binary img) ?base (window_span img))
      (replicate (window_span img) 0, replicate (window_span img) 0) ?rs = Ok st"
    and painted: "painted (ri_binary img) ?base (window_span img) (set ?rs) st" by auto
  let ?w = "\<lparr>rw_binary_sha256 = ri_binary_sha256 img, rw_snapshot_layout_sha256 = ri_snapshot_layout_sha256 img,
    rw_space = ri_space img, rw_base = ?base, rw_bytes = fst st, rw_known = snd st\<rparr>"
  have result: "materialize_window img max_bytes = (if max_bytes = 0 \<or> window_span img > max_bytes
      then Err (''read-only ELF image window requires '' @ fmt_dec (window_span img) @ '' bytes, limit is '' @ fmt_dec max_bytes)
      else Ok ?w)"
    using ne less span run
    by (cases ?rs) (auto simp: materialize_window_def checked_sub_def Let_def split: prod.splits)
  show "materialize_window img max_bytes \<noteq> Panic" "is_ok (materialize_window img max_bytes) \<longleftrightarrow> window_span img \<le> max_bytes"
    using span(2) by (auto simp: result)
  show "length (rw_bytes w) = window_span img \<and> window_agrees img w" if "materialize_window img max_bytes = Ok w"
  proof -
    from that result have w: "w = ?w" by (auto split: if_splits)
    from painted have lengths: "length (fst st) = window_span img" "length (snd st) = window_span img"
      by (simp_all add: painted_def)
    have "case image_byte img (ri_space img) (?base + of_nat i) of
        Some b \<Rightarrow> snd st ! i = 255 \<and> fst st ! i = b | None \<Rightarrow> snd st ! i = 0 \<and> fst st ! i = 0" if "i < window_span img" for i
    proof (cases "image_byte img (ri_space img) (?base + of_nat i)")
      case None
      then have "\<forall>r \<in> set ?rs. \<not> in_region r (?base + of_nat i)"
        by (metis image_byte_iff [OF wf] in_region_def option.distinct(1))
      with painted that None show ?thesis by (simp add: painted_def)
    next
      case (Some b)
      then obtain r where "r \<in> set ?rs" "in_region r (?base + of_nat i)"
        "region_byte r (?base + of_nat i) (ir_file_offset r + unat (?base + of_nat i - ir_start r))"
        "b = ri_binary img ! (ir_file_offset r + unat (?base + of_nat i - ir_start r))"
        by (auto simp: image_byte_iff [OF wf] in_region_def region_byte_def)
      moreover from painted that have "\<forall>r \<in> set ?rs. in_region r (?base + of_nat i) \<longrightarrow> snd st ! i = 255"
        and "\<forall>r \<in> set ?rs. \<forall>j. region_byte r (?base + of_nat i) j \<longrightarrow> fst st ! i = ri_binary img ! j"
        by (simp_all add: painted_def)
      ultimately show ?thesis using Some by fastforce
    qed
    moreover have "sp = ri_space img \<and> ?base \<le> a \<and> unat a - unat ?base < window_span img"
      if byte: "image_byte img sp a = Some b" for sp a b
    proof -
      from byte obtain r where "sp = ri_space img" "r \<in> set ?rs" "ir_start r \<le> a" "a < ir_end r"
        by (auto simp: image_byte_iff [OF wf])
      with shape have "?base \<le> a" "a < ir_end (last ?rs)" by (auto intro: order.trans order.strict_trans2)
      then have "unat ?base \<le> unat a" "unat a < unat (ir_end (last ?rs))"
        by (simp_all add: word_le_nat_alt word_less_nat_alt)
      with \<open>sp = ri_space img\<close> \<open>?base \<le> a\<close> span(3) show ?thesis by linarith
    qed
    moreover have "rw_bytes w = fst st" "rw_known w = snd st" "rw_space w = ri_space img" "rw_base w = ?base"
      by (simp_all add: w)
    ultimately show ?thesis unfolding window_agrees_def by (simp only: lengths) blast
  qed
qed

end
