(* ===== verification/Pcode_ProcessSpec.thy ===== *)
theory Pcode_ProcessSpec
  imports Pcode_Process
begin

text \<open>
  What the initial process memory says: an address is mapped exactly where a readable segment and a
  block with its permissions meet; its byte is known exactly when no dynamic relocation writes it, or
  when one \<^verbatim>\<open>RELATIVE\<close> alone writes it and its seven neighbours.
\<close>

section \<open>The regions\<close>

definition part_set :: "ghidra_memory_block \<Rightarrow> u64 \<Rightarrow> u64 \<Rightarrow> u64 \<Rightarrow> usize \<Rightarrow> u64 \<times> u64 \<times> bool \<Rightarrow> process_region set" where
  "part_set b block_start block_end start file_offset part =
     (let (part_start, part_end, backed) = part in
      {r. (backed \<longrightarrow> mb_initialized b) \<and> rg_start r = max part_start block_start \<and> rg_end r = min part_end block_end \<and>
          rg_start r < rg_end r \<and> rg_writable r = mb_write b \<and>
          rg_file_offset r = (if backed then Some (file_offset + unat (rg_start r - start)) else None)})"

lemma add_part_set:
  assumes "add_part b block_start block_end start file_offset regions part = Ok regions'"
  shows "set regions' = set regions \<union> part_set b block_start block_end start file_offset part"
proof -
  obtain part_start part_end backed where part: "part = (part_start, part_end, backed)" by (metis surj_pair)
  define lo where "lo = max part_start block_start"
  define hi where "hi = min part_end block_end"
  let ?r = "\<lparr>rg_start = lo, rg_end = hi, rg_file_offset = (if backed then Some (file_offset + unat (lo - start)) else None),
    rg_writable = mb_write b\<rparr>"
  have "part_set b block_start block_end start file_offset part =
      (if (backed \<longrightarrow> mb_initialized b) \<and> lo < hi then {?r} else {})"
    by (auto simp: part_set_def part lo_def hi_def)
  moreover note run = assms [unfolded add_part_def part Let_def prod.case, folded lo_def hi_def]
  have "regions' = regions @ [?r]" if "backed \<longrightarrow> mb_initialized b" "lo < hi"
    using run that by (cases backed) (auto split: if_splits)
  moreover have "regions' = regions" if "\<not> ((backed \<longrightarrow> mb_initialized b) \<and> lo < hi)"
    using run that by (auto split: if_splits)
  ultimately show ?thesis by (cases "(backed \<longrightarrow> mb_initialized b) \<and> lo < hi") simp_all
qed

definition process_block_set ::
  "string \<Rightarrow> u32 \<Rightarrow> u64 \<Rightarrow> u64 \<Rightarrow> u64 \<Rightarrow> usize \<Rightarrow> ghidra_memory_block \<Rightarrow> process_region set" where
  "process_block_set sp p_flags start file_end stop file_offset b =
     {r. process_block sp p_flags b \<and>
       (\<exists>block_start block_end. block_range ''Ghidra block end overflows'' b = Ok (block_start, block_end) \<and>
         r \<in> part_set b block_start block_end start file_offset (start, file_end, True) \<union>
             part_set b block_start block_end start file_offset (file_end, stop, False))}"

lemma add_process_block_set:
  assumes "add_process_block sp p_flags start file_end stop file_offset regions b = Ok regions'"
  shows "set regions' = set regions \<union> process_block_set sp p_flags start file_end stop file_offset b"
proof (cases "process_block sp p_flags b")
  case True
  with assms obtain block_start block_end where
    range: "block_range ''Ghidra block end overflows'' b = Ok (block_start, block_end)"
    and run: "fold_res (add_part b block_start block_end start file_offset) regions
      [(start, file_end, True), (file_end, stop, False)] = Ok regions'"
    by (auto simp: add_process_block_def)
  have "set regions' = set regions \<union> (\<Union>part \<in> set [(start, file_end, True), (file_end, stop, False)].
      part_set b block_start block_end start file_offset part)"
    using run by (rule fold_res_collects) (rule add_part_set)
  with True range show ?thesis by (auto simp: process_block_set_def)
qed (use assms in \<open>auto simp: add_process_block_def process_block_set_def\<close>)

text \<open>
  The file offset behind an address, \<^const>\<open>None\<close> for the zero tail of a segment, and the
  permission to write it.
\<close>

definition region_source :: "process_region \<Rightarrow> u64 \<Rightarrow> usize option \<Rightarrow> bool \<Rightarrow> bool" where
  "region_source r a source w \<longleftrightarrow> rg_start r \<le> a \<and> a < rg_end r \<and> w = rg_writable r \<and>
     source = map_option (\<lambda>offset. offset + unat (a - rg_start r)) (rg_file_offset r)"

definition segment_source :: "elf_segment \<Rightarrow> usize \<Rightarrow> bool \<Rightarrow> usize option \<Rightarrow> bool" where
  \<comment> \<open>of the \<open>k\<close>-th byte of a segment in an initialized or uninitialized block\<close>
  "segment_source segment k initialized source \<longleftrightarrow>
     (if k < unat (es_file_size segment) then initialized \<and> source = Some (unat (es_file_offset segment) + k) else source = None)"

definition loaded_at :: "ghidra_snapshot \<Rightarrow> elf_file \<Rightarrow> u64 \<Rightarrow> usize option \<Rightarrow> bool \<Rightarrow> bool" where
  "loaded_at snap elf a source w \<longleftrightarrow>
     (\<exists>segment \<in> set (ef_segments elf). \<exists>p_flags. es_flags segment = Some p_flags \<and> p_flags AND PF_R \<noteq> 0 \<and>
       (\<exists>k < unat (es_size segment). uint a = uint (es_address segment) + load_bias_of snap elf + int k \<and>
         (\<exists>b \<in> set (gs_memory_blocks snap). process_block (pa_space (pr_image_base (gs_program snap))) p_flags b \<and> covers b a \<and>
            w = mb_write b \<and> segment_source segment k (mb_initialized b) source)))"

lemma block_set_source:
  assumes range: "block_range ''Ghidra block end overflows'' b = Ok (block_start, block_end)"
    and "process_block sp p_flags b" and order: "start \<le> file_end" "file_end \<le> stop"
  shows "(\<exists>r \<in> process_block_set sp p_flags start file_end stop offset b. region_source r a source w) \<longleftrightarrow>
    covers b a \<and> start \<le> a \<and> a < stop \<and> w = mb_write b \<and>
    (if a < file_end then mb_initialized b \<and> source = Some (offset + unat (a - start)) else source = None)"
    (is "?lhs \<longleftrightarrow> ?rhs")
proof
  assume ?lhs
  then obtain r where r: "region_source r a source w"
    "r \<in> part_set b block_start block_end start offset (start, file_end, True) \<or>
     r \<in> part_set b block_start block_end start offset (file_end, stop, False)"
    using range by (auto simp: process_block_set_def)
  from r(2) show ?rhs
  proof
    assume "r \<in> part_set b block_start block_end start offset (start, file_end, True)"
    with r(1) order show ?rhs
      by (cases "start \<le> block_start"; cases "file_end \<le> block_end")
        (auto simp: part_set_def region_source_def block_range_covers [OF range] max_def min_def word_le_nat_alt word_less_nat_alt unat_sub_if')
  next
    assume "r \<in> part_set b block_start block_end start offset (file_end, stop, False)"
    with r(1) order show ?rhs
      by (auto simp: part_set_def region_source_def block_range_covers [OF range])
  qed
next
  assume rhs: ?rhs
  then have inside: "block_start \<le> a" "a < block_end" by (simp_all add: block_range_covers [OF range])
  show ?lhs
  proof (cases "a < file_end")
    case True
    let ?r = "\<lparr>rg_start = max start block_start, rg_end = min file_end block_end,
      rg_file_offset = Some (offset + unat (max start block_start - start)), rg_writable = mb_write b\<rparr>"
    from True rhs inside have "region_source ?r a source w" "rg_start ?r < rg_end ?r"
      by (auto simp: region_source_def max_def min_def word_le_nat_alt word_less_nat_alt unat_sub_if')
    moreover from this True rhs have "?r \<in> part_set b block_start block_end start offset (start, file_end, True)"
      by (simp add: part_set_def)
    ultimately show ?lhs using assms(1,2) by (auto simp: process_block_set_def)
  next
    case False
    let ?r = "\<lparr>rg_start = max file_end block_start, rg_end = min stop block_end, rg_file_offset = None, rg_writable = mb_write b\<rparr>"
    from False rhs inside have "region_source ?r a source w" "rg_start ?r < rg_end ?r"
      by (auto simp: region_source_def max_def min_def not_less)
    moreover from this have "?r \<in> part_set b block_start block_end start offset (file_end, stop, False)"
      by (simp add: part_set_def)
    ultimately show ?lhs using assms(1,2) by (auto simp: process_block_set_def)
  qed
qed

definition process_segment_set :: "ghidra_snapshot \<Rightarrow> int \<Rightarrow> elf_segment \<Rightarrow> process_region set" where
  "process_segment_set snap load_bias segment =
     {r. \<exists>p_flags start b. es_flags segment = Some p_flags \<and> p_flags AND PF_R \<noteq> 0 \<and>
       uint start = uint (es_address segment) + load_bias \<and> b \<in> set (gs_memory_blocks snap) \<and>
       r \<in> process_block_set (pa_space (pr_image_base (gs_program snap))) p_flags start (start + es_file_size segment)
         (start + es_size segment) (unat (es_file_offset segment)) b \<and> es_size segment \<noteq> 0}"

lemma process_segment_runs:
  assumes "add_process_segment binary snap load_bias regions segment = Ok regions'"
    and "es_flags segment = Some p_flags" "p_flags AND PF_R \<noteq> 0" "es_size segment \<noteq> 0"
  shows "\<exists>start. uint start = uint (es_address segment) + load_bias \<and>
    unat (es_file_size segment) \<le> unat (es_size segment) \<and> unat start + unat (es_size segment) < 2 ^ 64 \<and>
    unat (es_file_offset segment) + unat (es_file_size segment) \<le> length binary \<and>
    fold_res (add_process_block (pa_space (pr_image_base (gs_program snap))) p_flags start (start + es_file_size segment)
      (start + es_size segment) (unat (es_file_offset segment))) regions (gs_memory_blocks snap) = Ok regions'"
  using assms by (auto simp: add_process_segment_def not_less word_le_nat_alt split: if_splits option.splits)

lemma process_segment_skipped:
  assumes "add_process_segment binary snap load_bias regions segment = Ok regions'"
    and "\<not> (\<exists>p_flags. es_flags segment = Some p_flags \<and> p_flags AND PF_R \<noteq> 0) \<or> es_size segment = 0"
  shows "regions' = regions" and "process_segment_set snap load_bias segment = {}"
  using assms by (auto simp: add_process_segment_def process_segment_set_def split: if_splits option.splits)

lemma process_segment_blocks:
  assumes "es_flags segment = Some p_flags" "p_flags AND PF_R \<noteq> 0" "es_size segment \<noteq> 0"
    and "uint start = uint (es_address segment) + load_bias"
  shows "process_segment_set snap load_bias segment = (\<Union>b \<in> set (gs_memory_blocks snap).
    process_block_set (pa_space (pr_image_base (gs_program snap))) p_flags start (start + es_file_size segment)
      (start + es_size segment) (unat (es_file_offset segment)) b)"
  using assms by (auto simp: process_segment_set_def simp flip: assms(4) word_uint_eq_iff)

lemma add_process_segment_set:
  assumes "add_process_segment binary snap load_bias regions segment = Ok regions'"
  shows "set regions' = set regions \<union> process_segment_set snap load_bias segment"
proof (cases "(\<exists>p_flags. es_flags segment = Some p_flags \<and> p_flags AND PF_R \<noteq> 0) \<and> es_size segment \<noteq> 0")
  case True
  then obtain p_flags where flags: "es_flags segment = Some p_flags" "p_flags AND PF_R \<noteq> 0" "es_size segment \<noteq> 0" by blast
  from process_segment_runs [OF assms flags] obtain start where at: "uint start = uint (es_address segment) + load_bias"
    and run: "fold_res (add_process_block (pa_space (pr_image_base (gs_program snap))) p_flags start (start + es_file_size segment)
      (start + es_size segment) (unat (es_file_offset segment))) regions (gs_memory_blocks snap) = Ok regions'" by blast
  from fold_res_collects [OF run add_process_block_set] show ?thesis
    unfolding process_segment_blocks [OF flags at] .
qed (use process_segment_skipped [OF assms] in auto)

lemma process_segment_source:
  assumes "add_process_segment binary snap load_bias regions segment = Ok regions'"
  shows "(\<exists>r \<in> process_segment_set snap load_bias segment. region_source r a source w) \<longleftrightarrow>
    (\<exists>p_flags. es_flags segment = Some p_flags \<and> p_flags AND PF_R \<noteq> 0 \<and>
       (\<exists>k < unat (es_size segment). uint a = uint (es_address segment) + load_bias + int k \<and>
         (\<exists>b \<in> set (gs_memory_blocks snap). process_block (pa_space (pr_image_base (gs_program snap))) p_flags b \<and> covers b a \<and>
            w = mb_write b \<and> segment_source segment k (mb_initialized b) source)))"
proof (cases "(\<exists>p_flags. es_flags segment = Some p_flags \<and> p_flags AND PF_R \<noteq> 0) \<and> es_size segment \<noteq> 0")
  case False
  then show ?thesis using process_segment_skipped [OF assms] by auto
next
  case True
  then obtain p_flags where flags: "es_flags segment = Some p_flags" "p_flags AND PF_R \<noteq> 0" "es_size segment \<noteq> 0" by blast
  let ?sp = "pa_space (pr_image_base (gs_program snap))" and ?len = "es_size segment" and ?file = "es_file_size segment"
    and ?offset = "unat (es_file_offset segment)"
  from process_segment_runs [OF assms flags] obtain m where at: "uint m = uint (es_address segment) + load_bias"
    and order: "unat ?file \<le> unat ?len" and fits: "unat m + unat ?len < 2 ^ 64"
    and run: "fold_res (add_process_block ?sp p_flags m (m + ?file) (m + ?len) ?offset) regions (gs_memory_blocks snap) = Ok regions'"
    by blast
  have stops: "unat (m + ?file) = unat m + unat ?file" "unat (m + ?len) = unat m + unat ?len"
    using fits order by (simp_all add: unat_word_ariths)
  have block: "(\<exists>r \<in> process_block_set ?sp p_flags m (m + ?file) (m + ?len) ?offset b. region_source r a source w) \<longleftrightarrow>
      process_block ?sp p_flags b \<and> covers b a \<and> m \<le> a \<and> a < m + ?len \<and> w = mb_write b \<and>
      (if a < m + ?file then mb_initialized b \<and> source = Some (?offset + unat (a - m)) else source = None)"
    if b: "b \<in> set (gs_memory_blocks snap)" for b
  proof (cases "process_block ?sp p_flags b")
    case eligible: True
    from fold_res_step_at [OF run b] obtain u v where "add_process_block ?sp p_flags m (m + ?file) (m + ?len) ?offset u b = Ok v" by blast
    with eligible obtain block_start block_end where "block_range ''Ghidra block end overflows'' b = Ok (block_start, block_end)"
      by (auto simp: add_process_block_def)
    from block_set_source [OF this eligible] order stops eligible show ?thesis by (simp add: word_le_nat_alt)
  qed (simp add: process_block_set_def)
  have shift: "(m \<le> a \<and> a < m + ?len \<and> (if a < m + ?file then i \<and> source = Some (?offset + unat (a - m)) else source = None)) \<longleftrightarrow>
      (\<exists>k < unat ?len. uint a = uint (es_address segment) + load_bias + int k \<and> segment_source segment k i source)" for i
  proof -
    have "a < m + ?file \<longleftrightarrow> unat (a - m) < unat ?file" if "m \<le> a"
      using that stops by (auto simp: word_le_nat_alt word_less_nat_alt unat_sub_if')
    then have "(m \<le> a \<and> a < m + ?len \<and> (if a < m + ?file then i \<and> source = Some (?offset + unat (a - m)) else source = None)) \<longleftrightarrow>
        (\<exists>k. m \<le> a \<and> a < m + ?len \<and> k = 0 + unat (a - m) \<and> segment_source segment k i source)"
      by (auto simp: segment_source_def)
    also have "\<dots> \<longleftrightarrow> (\<exists>k. (\<exists>k' < unat ?len. uint a = uint (es_address segment) + load_bias + int k' \<and> k = 0 + k') \<and>
        segment_source segment k i source)"
      using mapped_address [OF at fits] by blast
    finally show ?thesis by auto
  qed
  have "(\<exists>r \<in> process_block_set ?sp p_flags m (m + ?file) (m + ?len) ?offset b. region_source r a source w) \<longleftrightarrow>
      process_block ?sp p_flags b \<and> covers b a \<and> w = mb_write b \<and>
      (\<exists>k < unat ?len. uint a = uint (es_address segment) + load_bias + int k \<and> segment_source segment k (mb_initialized b) source)"
    if "b \<in> set (gs_memory_blocks snap)" for b
    unfolding block [OF that] shift [symmetric] by blast
  then show ?thesis unfolding process_segment_blocks [OF flags at] flags(1)
    using flags(2) by blast
qed

definition process_region_ok :: "usize \<Rightarrow> process_region \<Rightarrow> bool" where
  "process_region_ok file_len r \<longleftrightarrow> rg_start r < rg_end r \<and>
     (\<forall>offset. rg_file_offset r = Some offset \<longrightarrow> offset + (unat (rg_end r) - unat (rg_start r)) \<le> file_len)"

lemma process_segment_in_file:
  assumes "add_process_segment binary snap load_bias regions segment = Ok regions'"
    and "r \<in> process_segment_set snap load_bias segment"
  shows "process_region_ok (length binary) r"
proof -
  from assms(2) obtain p_flags start b where flags: "es_flags segment = Some p_flags" "p_flags AND PF_R \<noteq> 0" "es_size segment \<noteq> 0"
    and at: "uint start = uint (es_address segment) + load_bias"
    and r: "r \<in> process_block_set (pa_space (pr_image_base (gs_program snap))) p_flags start (start + es_file_size segment)
         (start + es_size segment) (unat (es_file_offset segment)) b"
    by (auto simp: process_segment_set_def)
  from process_segment_runs [OF assms(1) flags] obtain start' :: u64 where "uint start' = uint start"
    and fits: "unat (es_file_size segment) \<le> unat (es_size segment)" "unat start' + unat (es_size segment) < 2 ^ 64"
    "unat (es_file_offset segment) + unat (es_file_size segment) \<le> length binary"
    unfolding at [symmetric] by blast
  then have "start' = start" by (simp flip: word_uint_eq_iff)
  with fits have stop: "unat (start + es_file_size segment) = unat start + unat (es_file_size segment)"
    by (simp add: unat_word_ariths)
  have "offset + (unat (rg_end r) - unat (rg_start r)) \<le> length binary" if offset: "rg_file_offset r = Some offset" for offset
  proof -
    from r offset have "start \<le> rg_start r" "rg_end r \<le> start + es_file_size segment" "rg_start r < rg_end r"
      "offset = unat (es_file_offset segment) + unat (rg_start r - start)"
      by (auto simp: process_block_set_def part_set_def)
    with stop fits(3) show ?thesis by (auto simp: word_le_nat_alt word_less_nat_alt unat_sub_if')
  qed
  moreover have "rg_start r < rg_end r" using r by (auto simp: process_block_set_def part_set_def)
  ultimately show ?thesis by (simp add: process_region_ok_def)
qed

lemma scan_process_segment_Ok:
  "scan_process_segment (n, low) segment = Ok st \<Longrightarrow> st = (Suc n, min low (es_address segment))"
  by (auto simp: scan_process_segment_def split: if_splits)

lemma scan_process_segments_lowest:
  assumes "fold_res scan_process_segment (n, low) segments = Ok (n', low')"
  shows "low' = Min (insert low (es_address ` set segments))"
  using assms
proof (induction segments arbitrary: n low)
  case (Cons segment segments)
  from Cons.prems have "fold_res scan_process_segment (Suc n, min low (es_address segment)) segments = Ok (n', low')"
    by (auto dest: scan_process_segment_Ok)
  from Cons.IH [OF this] show ?case
    by (cases "segments = []") (simp_all add: min.assoc)
qed simp

lemma process_regions_spec:
  assumes "process_regions binary snap elf = Ok (load_bias, regions)"
  shows "load_bias = load_bias_of snap elf" and "regions \<noteq> []" and "no_overlap (map process_key regions)"
    and "\<forall>r \<in> set regions. process_region_ok (length binary) r"
    and "(\<exists>r \<in> set regions. region_source r a source w) \<longleftrightarrow> loaded_at snap elf a source w"
proof -
  from assms obtain first segments n lowest image_base found where segments: "ef_segments elf = first # segments"
    and lowest: "fold_res scan_process_segment (1, es_address first) segments = Ok (n, lowest)"
    and base: "hex_u64 (pa_offset (pr_image_base (gs_program snap))) = Ok image_base"
    and found: "fold_res (add_process_segment binary snap (uint image_base - uint lowest)) [] (ef_segments elf) = Ok found"
    and regions: "load_bias = uint image_base - uint lowest" "regions = sort_key process_key found"
      "regions \<noteq> []" "no_overlap (map process_key regions)"
    by (auto simp: process_regions_def Let_def split: list.splits if_splits)
  from scan_process_segments_lowest [OF lowest] have bias: "uint image_base - uint lowest = load_bias_of snap elf"
    by (simp add: load_bias_of_def base segments)
  with regions show "load_bias = load_bias_of snap elf" "regions \<noteq> []" "no_overlap (map process_key regions)" by simp_all
  from fold_res_collects [OF found add_process_segment_set]
  have all: "set regions = (\<Union>segment \<in> set (ef_segments elf). process_segment_set snap (load_bias_of snap elf) segment)"
    by (simp add: regions bias)
  have each: "\<exists>u v. add_process_segment binary snap (load_bias_of snap elf) u segment = Ok v" if "segment \<in> set (ef_segments elf)" for segment
    using fold_res_step_at [OF found that] by (simp add: bias)
  show "\<forall>r \<in> set regions. process_region_ok (length binary) r"
    unfolding all using each process_segment_in_file by blast
  have "(\<exists>r \<in> process_segment_set snap (load_bias_of snap elf) segment. region_source r a source w) \<longleftrightarrow>
    (\<exists>p_flags. es_flags segment = Some p_flags \<and> p_flags AND PF_R \<noteq> 0 \<and>
       (\<exists>k < unat (es_size segment). uint a = uint (es_address segment) + load_bias_of snap elf + int k \<and>
         (\<exists>b \<in> set (gs_memory_blocks snap). process_block (pa_space (pr_image_base (gs_program snap))) p_flags b \<and> covers b a \<and>
            w = mb_write b \<and> segment_source segment k (mb_initialized b) source)))" if "segment \<in> set (ef_segments elf)" for segment
  proof -
    from each [OF that] obtain u v where "add_process_segment binary snap (load_bias_of snap elf) u segment = Ok v" by blast
    then show ?thesis by (rule process_segment_source)
  qed
  then show "(\<exists>r \<in> set regions. region_source r a source w) \<longleftrightarrow> loaded_at snap elf a source w"
    unfolding all loaded_at_def by simp
qed

section \<open>The loaded window\<close>

definition content :: "u8 list \<Rightarrow> usize option \<Rightarrow> u8" where
  "content binary source = (case source of None \<Rightarrow> 0 | Some offset \<Rightarrow> binary ! offset)"

definition arrays_loaded :: "u8 list \<Rightarrow> u64 \<Rightarrow> usize \<Rightarrow> process_region set \<Rightarrow> process_arrays \<Rightarrow> bool" where
  "arrays_loaded binary base span rs a \<longleftrightarrow>
     length (ay_bytes a) = span \<and> length (ay_known a) = span \<and> length (ay_mapped a) = span \<and> length (ay_writable a) = span \<and>
     (\<forall>i < span.
        (\<forall>r \<in> rs. \<forall>source w. region_source r (base + of_nat i) source w \<longrightarrow>
           ay_known a ! i = 255 \<and> ay_mapped a ! i = 255 \<and> ay_writable a ! i = (if w then 255 else 0) \<and>
           ay_bytes a ! i = content binary source) \<and>
        ((\<forall>r \<in> rs. \<forall>source w. \<not> region_source r (base + of_nat i) source w) \<longrightarrow>
           ay_known a ! i = 0 \<and> ay_mapped a ! i = 0 \<and> ay_writable a ! i = 0 \<and> ay_bytes a ! i = 0))"

lemma mark_range_nth:
  assumes "lo \<le> hi" and "hi \<le> length bits"
  shows "\<exists>ys. mark_range lo hi bits = Ok ys \<and> length ys = length bits \<and>
    (\<forall>i < length bits. ys ! i = (if lo \<le> i \<and> i < hi then 255 else bits ! i))"
proof -
  from fill_range_nth [of lo hi bits "replicate (hi - lo) 255"] assms obtain ys where
    "mark_range lo hi bits = Ok ys" "length ys = length bits"
    "\<forall>i < length bits. ys ! i = (if lo \<le> i \<and> i < hi then replicate (hi - lo) 255 ! (i - lo) else bits ! i)"
    unfolding mark_range_def by auto
  moreover from this(3) have "\<forall>i < length bits. ys ! i = (if lo \<le> i \<and> i < hi then 255 else bits ! i)" by (auto cong: if_cong)
  ultimately show ?thesis by blast
qed

lemma load_region_loads:
  assumes loaded: "arrays_loaded binary base span rs a" and fits: "unat base + span < 2 ^ 64"
    and r: "base \<le> rg_start r" "process_region_ok (length binary) r" "unat (rg_end r) \<le> unat base + span"
    and big: "length binary < 2 ^ 64" and apart: "\<forall>q \<in> rs. rg_end q \<le> rg_start r"
  shows "\<exists>a'. load_region binary base a r = Ok a' \<and> arrays_loaded binary base span (insert r rs) a'"
proof -
  from loaded have lengths: "length (ay_bytes a) = span" "length (ay_known a) = span" "length (ay_mapped a) = span"
    "length (ay_writable a) = span" by (simp_all add: arrays_loaded_def)
  define lo where "lo = unat (rg_start r) - unat base"
  define hi where "hi = unat (rg_end r) - unat base"
  have order: "rg_start r < rg_end r" using r(2) by (simp add: process_region_ok_def)
  have le: "base \<le> rg_end r" using r(1) order by simp
  have nats: "unat (rg_start r - base) = lo" "unat (rg_end r - base) = hi" "lo \<le> hi" "hi \<le> span"
    "hi - lo = unat (rg_end r) - unat (rg_start r)"
    using r order le by (auto simp: lo_def hi_def word_le_nat_alt word_less_nat_alt unat_sub_if')
  obtain known where known: "mark_range lo hi (ay_known a) = Ok known" "length known = span"
    "\<forall>i < span. known ! i = (if lo \<le> i \<and> i < hi then 255 else ay_known a ! i)"
    using mark_range_nth [of lo hi "ay_known a"] nats(3,4) lengths by auto
  obtain mapped where mapped: "mark_range lo hi (ay_mapped a) = Ok mapped" "length mapped = span"
    "\<forall>i < span. mapped ! i = (if lo \<le> i \<and> i < hi then 255 else ay_mapped a ! i)"
    using mark_range_nth [of lo hi "ay_mapped a"] nats(3,4) lengths by auto
  have "\<exists>writable. (if rg_writable r then mark_range lo hi (ay_writable a) else Ok (ay_writable a)) = Ok writable \<and>
      length writable = span \<and> (\<forall>i < span. writable ! i = (if lo \<le> i \<and> i < hi \<and> rg_writable r then 255 else ay_writable a ! i))"
    using mark_range_nth [of lo hi "ay_writable a"] nats(3,4) lengths by auto
  then obtain writable where writable: "(if rg_writable r then mark_range lo hi (ay_writable a) else Ok (ay_writable a)) = Ok writable"
    "length writable = span" "\<forall>i < span. writable ! i = (if lo \<le> i \<and> i < hi \<and> rg_writable r then 255 else ay_writable a ! i)"
    by blast
  let ?copy = "case rg_file_offset r of
      None \<Rightarrow> Ok (ay_bytes a)
    | Some offset \<Rightarrow>
        if hi < lo then Panic
        else case usize_add offset (hi - lo) of
          None \<Rightarrow> Panic
        | Some stop \<Rightarrow> rbind (ok_or ''ELF region exceeds binary'' (slice_rs binary offset stop)) (\<lambda>source.
            fill_range lo hi source (ay_bytes a))"
  have "\<exists>bytes. ?copy = Ok bytes \<and> length bytes = span \<and>
      (\<forall>i < span. bytes ! i = (case rg_file_offset r of
         Some offset \<Rightarrow> if lo \<le> i \<and> i < hi then binary ! (offset + (i - lo)) else ay_bytes a ! i
       | None \<Rightarrow> ay_bytes a ! i))"
  proof (cases "rg_file_offset r")
    case (Some offset)
    with r(2) have inside: "offset + (hi - lo) \<le> length binary" by (simp add: process_region_ok_def nats(5))
    let ?source = "take (hi - lo) (drop offset binary)"
    from inside have "length ?source = hi - lo" by simp
    with fill_range_nth [of lo hi "ay_bytes a" ?source] nats(3,4) lengths obtain bytes where
      "(fill_range lo hi ?source (ay_bytes a) :: (_, string) result) = Ok bytes" "length bytes = span"
      "\<forall>i < span. bytes ! i = (if lo \<le> i \<and> i < hi then ?source ! (i - lo) else ay_bytes a ! i)" by auto
    moreover have "?copy = fill_range lo hi ?source (ay_bytes a)"
      using Some nats(3) inside big by (auto simp: usize_add_def slice_rs_def)
    moreover have "?source ! (i - lo) = binary ! (offset + (i - lo))" if "lo \<le> i" "i < hi" for i
      using that inside by simp
    ultimately show ?thesis using Some by (intro exI [of _ bytes]) (simp cong: if_cong)
  qed (simp add: lengths)
  then obtain bytes where bytes: "?copy = Ok bytes" "length bytes = span"
    "\<forall>i < span. bytes ! i = (case rg_file_offset r of
       Some offset \<Rightarrow> if lo \<le> i \<and> i < hi then binary ! (offset + (i - lo)) else ay_bytes a ! i
     | None \<Rightarrow> ay_bytes a ! i)" by blast
  let ?a = "\<lparr>ay_bytes = bytes, ay_known = known, ay_mapped = mapped, ay_writable = writable\<rparr>"
  have run: "load_region binary base a r = Ok ?a"
    using r(1) le unfolding load_region_def Let_def
    by (simp only: sub_u64_simps rbind_simps nats(1,2) bytes(1) known(1) mapped(1) writable(1) map_ok_simps)
  have "(\<forall>q \<in> insert r rs. \<forall>source w. region_source q (base + of_nat i) source w \<longrightarrow>
          known ! i = 255 \<and> mapped ! i = 255 \<and> writable ! i = (if w then 255 else 0) \<and> bytes ! i = content binary source) \<and>
      ((\<forall>q \<in> insert r rs. \<forall>source w. \<not> region_source q (base + of_nat i) source w) \<longrightarrow>
         known ! i = 0 \<and> mapped ! i = 0 \<and> writable ! i = 0 \<and> bytes ! i = 0)" if i: "i < span" for i
  proof -
    from i fits have at: "unat (base + of_nat i :: u64) = unat base + i"
      by (simp add: unat_word_ariths unsigned_of_nat take_bit_nat_eq_self)
    have inside: "rg_start r \<le> base + of_nat i \<and> base + of_nat i < rg_end r \<longleftrightarrow> lo \<le> i \<and> i < hi"
      using r(1) le at by (auto simp: lo_def hi_def word_le_nat_alt word_less_nat_alt)
    note old = loaded [unfolded arrays_loaded_def, THEN conjunct2, THEN conjunct2, THEN conjunct2, THEN conjunct2, rule_format, OF i]
    show ?thesis
    proof (cases "lo \<le> i \<and> i < hi")
      case True
      with inside have in_r: "rg_start r \<le> base + of_nat i" "base + of_nat i < rg_end r" by blast+
      have none: "\<not> region_source q (base + of_nat i) source w" if "q \<in> rs" for q source w
        using apart that in_r(1) by (fastforce simp: region_source_def)
      with old have zero: "ay_writable a ! i = 0" "ay_bytes a ! i = 0" by blast+
      have "unat (base + of_nat i - rg_start r) = i - lo"
        using in_r(1) at r(1) by (simp add: unat_sub_if' word_le_nat_alt lo_def)
      with True i none in_r zero known(3) mapped(3) writable(3) bytes(3) show ?thesis
        by (auto simp: region_source_def content_def split: option.split)
    next
      case False
      then have "known ! i = ay_known a ! i" "mapped ! i = ay_mapped a ! i" "writable ! i = ay_writable a ! i" "bytes ! i = ay_bytes a ! i"
        using i known(3) mapped(3) writable(3) bytes(3) by (auto split: option.splits)
      moreover have "\<not> region_source r (base + of_nat i) source w" for source w
        unfolding region_source_def using False inside by blast
      ultimately show ?thesis using old by simp
    qed
  qed
  then have "arrays_loaded binary base span (insert r rs) ?a"
    by (simp add: arrays_loaded_def bytes(2) known(2) mapped(2) writable(2))
  with run show ?thesis by blast
qed

lemma load_regions_load:
  assumes "arrays_loaded binary base span (set seen) a" and "unat base + span < 2 ^ 64" and "length binary < 2 ^ 64"
    and "\<forall>r \<in> set rs. base \<le> rg_start r \<and> process_region_ok (length binary) r \<and> unat (rg_end r) \<le> unat base + span"
    and "sorted_wrt (\<lambda>p q. rg_end p \<le> rg_start q) (seen @ rs)"
  shows "\<exists>a'. fold_res (load_region binary base) a rs = Ok a' \<and> arrays_loaded binary base span (set (seen @ rs)) a'"
  using assms
proof (induction rs arbitrary: seen a)
  case (Cons r rs)
  from Cons.prems have "\<forall>q \<in> set seen. rg_end q \<le> rg_start r" by (simp add: sorted_wrt_append)
  with Cons.prems have "\<exists>a'. load_region binary base a r = Ok a' \<and> arrays_loaded binary base span (insert r (set seen)) a'"
    by (intro load_region_loads) simp_all
  then obtain a' where "load_region binary base a r = Ok a'" "arrays_loaded binary base span (insert r (set seen)) a'" by blast
  with Cons.prems Cons.IH [of "seen @ [r]" a'] show ?case by auto
qed auto

lemma sorted_regions_inside:
  assumes "sorted_wrt (\<lambda>p q. e p \<le> s q) rs" and "\<forall>r \<in> set rs. s r < (e r :: 'a :: linorder)" and "r \<in> set rs"
  shows "s (hd rs) \<le> s r \<and> e r \<le> e (last rs)"
proof -
  from assms(3) obtain xs ys where split: "rs = xs @ r # ys" by (metis split_list)
  have "s (hd (xs @ r # ys)) \<le> s r"
    using assms(1,2) unfolding split by (cases xs) (auto intro: less_imp_le order.strict_trans1)
  moreover have "e r \<le> e (last (xs @ r # ys))"
    using assms(1,2) unfolding split
    by (cases ys rule: rev_cases) (auto simp: sorted_wrt_append intro: less_imp_le order.strict_trans2)
  ultimately show ?thesis by (simp add: split)
qed

lemma process_window:
  assumes "process_regions binary snap elf = Ok (load_bias, rs)" and big: "length binary < 2 ^ 64"
  defines "base \<equiv> rg_start (hd rs)" and "span \<equiv> unat (rg_end (last rs) - rg_start (hd rs))"
  shows "rg_start (hd rs) < rg_end (last rs)" and "0 < span" and "unat base + span < 2 ^ 64"
    and "\<exists>a. fold_res (load_region binary base) (no_arrays span) rs = Ok a \<and> arrays_loaded binary base span (set rs) a"
    and "\<forall>r \<in> set rs. \<forall>a source w. region_source r a source w \<longrightarrow> base \<le> a \<and> unat a < unat base + span"
proof -
  note spec = process_regions_spec(2-4) [OF assms(1)]
  have order: "\<forall>r \<in> set rs. rg_start r < rg_end r" using spec(3) by (simp add: process_region_ok_def)
  have "sorted_wrt (\<lambda>p q. snd p \<le> fst q) (map process_key rs)"
    using spec(2) order by (intro no_overlap_disjoint) (auto simp: process_key_def)
  then have sorted: "sorted_wrt (\<lambda>p q. rg_end p \<le> rg_start q) rs" by (simp add: sorted_wrt_map process_key_def)
  have inside: "base \<le> rg_start r \<and> rg_end r \<le> rg_end (last rs)" if "r \<in> set rs" for r
    using sorted_regions_inside [OF sorted order that] by (simp add: base_def)
  have "last rs \<in> set rs" using spec(1) by simp
  with inside order show less: "rg_start (hd rs) < rg_end (last rs)"
    unfolding base_def by (metis order.strict_trans1)
  then have span: "unat base + span = unat (rg_end (last rs))" "0 < span"
    by (auto simp: base_def span_def word_less_nat_alt unat_sub_if')
  show "0 < span" by (rule span(2))
  show fits: "unat base + span < 2 ^ 64" unfolding span(1) using unsigned_less [of "rg_end (last rs)"] by simp
  have "arrays_loaded binary base span (set []) (no_arrays span)" by (simp add: arrays_loaded_def no_arrays_def)
  moreover have "\<forall>r \<in> set rs. base \<le> rg_start r \<and> process_region_ok (length binary) r \<and> unat (rg_end r) \<le> unat base + span"
    using inside spec(3) by (simp add: span(1) flip: word_le_nat_alt)
  moreover have "sorted_wrt (\<lambda>p q. rg_end p \<le> rg_start q) ([] @ rs)" using sorted by simp
  ultimately have "\<exists>a. fold_res (load_region binary base) (no_arrays span) rs = Ok a \<and> arrays_loaded binary base span (set ([] @ rs)) a"
    using fits big by (intro load_regions_load)
  then show "\<exists>a. fold_res (load_region binary base) (no_arrays span) rs = Ok a \<and> arrays_loaded binary base span (set rs) a" by simp
  show "\<forall>r \<in> set rs. \<forall>a source w. region_source r a source w \<longrightarrow> base \<le> a \<and> unat a < unat base + span"
  proof (intro ballI allI impI)
    fix r a source w
    assume r: "r \<in> set rs" "region_source r a source w"
    then have "base \<le> a" "a < rg_end (last rs)" using inside [OF r(1)] by (auto simp: region_source_def)
    then show "base \<le> a \<and> unat a < unat base + span" by (simp add: span(1) word_less_nat_alt)
  qed
qed

end
