(* ===== verification/Pcode_Relocation.thy ===== *)
theory Pcode_Relocation
  imports Pcode_ProcessSpec
begin

text \<open>
  Applying the dynamic relocations: how often each byte of the window is hit, which bytes become
  unknown, and which a lone \<^verbatim>\<open>RELATIVE\<close> makes known again.
\<close>

section \<open>One relocation\<close>

definition lands :: "u64 \<Rightarrow> usize \<Rightarrow> u8 list \<Rightarrow> u64 \<Rightarrow> bool" where
  "lands base span mapped at \<longleftrightarrow> base \<le> at \<and> unat (at - base) < span \<and> mapped ! unat (at - base) = 255"

definition destinations :: "u64 \<Rightarrow> usize \<Rightarrow> u8 list \<Rightarrow> u64 \<Rightarrow> nat \<Rightarrow> nat list" where
  \<comment> \<open>the window indices of the mapped bytes among the first \<open>n\<close>\<close>
  "destinations base span mapped target n =
     map (\<lambda>b. unat (target + of_nat b - base)) (filter (\<lambda>b. lands base span mapped (target + of_nat b)) [0..<n])"

lemma window_index_eq:
  "length mapped = span \<Longrightarrow>
    window_index base span mapped at = Ok (if lands base span mapped at then Some (unat (at - base)) else None)"
  by (auto simp: window_index_def lands_def checked_sub_def)

definition hits_ok :: "usize \<Rightarrow> relocation_state \<Rightarrow> bool" where
  "hits_ok span rl \<longleftrightarrow> length (rl_known rl) = span \<and> length (rl_hits rl) = span \<and> (\<forall>i \<in> set (rl_relocated rl). i < span) \<and>
     sorted_wrt (<) (rl_relocated rl)"

lemma bs_insert_sorted: "sorted_wrt (<) s \<Longrightarrow> sorted_wrt (<) (bs_insert k s)"
  by (induction s) (auto intro: less_trans)

lemma destination_index:
  assumes "unat target + b < 2 ^ 64" and "base \<le> target + of_nat b"
  shows "unat (target + of_nat b :: u64) = unat target + b"
    and "unat (target + of_nat b - base) = unat target + b - unat base"
    and "unat base \<le> unat target + b"
proof -
  show at: "unat (target + of_nat b :: u64) = unat target + b"
    using assms(1) by (simp add: unat_word_ariths unsigned_of_nat take_bit_nat_eq_self)
  show "unat base \<le> unat target + b" using assms(2) at by (simp add: word_le_nat_alt)
  show "unat (target + of_nat b - base) = unat target + b - unat base"
    using assms(2) at by (simp add: word_le_nat_alt unat_sub_if')
qed

lemma destination_new:
  assumes "\<forall>b \<le> n. unat target + b < 2 ^ 64" and "lands base span mapped (target + of_nat n)"
  shows "unat (target + of_nat n - base) \<notin> set (destinations base span mapped target n)"
proof
  assume "unat (target + of_nat n - base) \<in> set (destinations base span mapped target n)"
  then obtain b where b: "b < n" "lands base span mapped (target + of_nat b)"
    "unat (target + of_nat n - base) = unat (target + of_nat b - base)"
    by (auto simp: destinations_def)
  with assms have "unat target + n - unat base = unat target + b - unat base" "unat base \<le> unat target + b"
    by (simp_all add: destination_index lands_def)
  with b(1) show False by simp
qed

definition hit_spec ::
  "u64 \<Rightarrow> usize \<Rightarrow> u8 list \<Rightarrow> u64 \<Rightarrow> nat \<Rightarrow> relocation_state \<Rightarrow> relocation_state \<times> nat list \<Rightarrow> bool" where
  "hit_spec base span mapped target n rl st \<longleftrightarrow>
     (\<forall>b < n. unat target + b < 2 ^ 64) \<and> snd st = destinations base span mapped target n \<and> hits_ok span (fst st) \<and>
     rl_candidates (fst st) = rl_candidates rl \<and>
     set (rl_relocated (fst st)) = set (rl_relocated rl) \<union> set (snd st) \<and>
     (\<forall>i < span. rl_known (fst st) ! i = (if i \<in> set (snd st) then 0 else rl_known rl ! i)) \<and>
     (\<forall>i < span. rl_hits (fst st) ! i = (if i \<in> set (snd st) then saturating_inc (rl_hits rl ! i) else rl_hits rl ! i))"

lemma hit_byte_eq:
  assumes "hits_ok span q" and "length mapped = span" and "n < 2 ^ 64"
  shows "hit_byte base span mapped target (q, destination) n =
    (let i = unat (target + of_nat n - base) in
     if 2 ^ 64 \<le> unat target + n then Err ''ELF relocation address overflows''
     else if lands base span mapped (target + of_nat n)
     then Ok (q\<lparr>rl_known := (rl_known q)[i := 0], rl_relocated := bs_insert i (rl_relocated q),
       rl_hits := (rl_hits q)[i := saturating_inc (rl_hits q ! i)]\<rparr>, destination @ [i])
     else Ok (q, destination))"
proof -
  have n: "unat (of_nat n :: u64) = n" using assms(3) by (simp add: unsigned_of_nat take_bit_nat_eq_self)
  show ?thesis
  proof (cases "unat target + n < 2 ^ 64")
    case True
    then have at: "checked_add target (of_nat n) = Some (target + of_nat n)" by (simp add: n)
    from True assms(1) show ?thesis
      unfolding hit_byte_def prod.case Let_def at ok_or_simps rbind_simps window_index_eq [OF assms(2)]
      by (auto simp: lands_def set_index_def hits_ok_def)
  next
    case False
    then have at: "checked_add target (of_nat n) = None" by (simp add: n)
    from False show ?thesis unfolding hit_byte_def prod.case at by simp
  qed
qed

lemma hit_byte_spec:
  assumes "hit_spec base span mapped target n rl st" and "length mapped = span" and "n < 2 ^ 64"
  shows "hit_byte base span mapped target st n \<noteq> Panic"
    and "hit_byte base span mapped target st n = Ok st' \<Longrightarrow> hit_spec base span mapped target (Suc n) rl st'"
proof -
  obtain q destination where st: "st = (q, destination)" by (cases st)
  let ?at = "target + of_nat n" and ?i = "unat (target + of_nat n - base)"
  from assms(1) have q: "hits_ok span q" "destination = destinations base span mapped target n"
    by (simp_all add: hit_spec_def st)
  note run_eq = hit_byte_eq [OF q(1) assms(2,3), of base target destination, folded st]
  show "hit_byte base span mapped target st n \<noteq> Panic" unfolding run_eq by (simp add: Let_def)
  show "hit_spec base span mapped target (Suc n) rl st'" if run: "hit_byte base span mapped target st n = Ok st'"
  proof -
    from run have fits: "unat target + n < 2 ^ 64" unfolding run_eq by (auto simp: Let_def split: if_splits)
    with assms(1) have all: "\<forall>b \<le> n. unat target + b < 2 ^ 64" by (auto simp: hit_spec_def le_less)
    show ?thesis
    proof (cases "lands base span mapped ?at")
      case False
      with run fits have "st' = st" unfolding run_eq by (simp add: st)
      moreover have "destinations base span mapped target (Suc n) = destinations base span mapped target n"
        using False by (simp add: destinations_def)
      ultimately show ?thesis using assms(1) all by (auto simp: hit_spec_def less_Suc_eq_le)
    next
      case True
      then have i: "?i < span" by (simp add: lands_def)
      note fresh = destination_new [OF all True]
      have st': "st' = (q\<lparr>rl_known := (rl_known q)[?i := 0], rl_relocated := bs_insert ?i (rl_relocated q),
          rl_hits := (rl_hits q)[?i := saturating_inc (rl_hits q ! ?i)]\<rparr>, destination @ [?i])"
        using run fits True unfolding run_eq by (simp add: Let_def)
      have next_dest: "destinations base span mapped target (Suc n) = destinations base span mapped target n @ [?i]"
        using True by (simp add: destinations_def)
      from fresh q(2) have "rl_hits q ! ?i = rl_hits rl ! ?i" using assms(1) i by (auto simp: hit_spec_def st)
      with assms(1) all q i fresh show ?thesis
        unfolding hit_spec_def st st' next_dest
        by (auto simp: less_Suc_eq_le hits_ok_def nth_list_update bs_insert_sorted)
    qed
  qed
qed

lemma hit_bytes_spec:
  assumes "hits_ok span rl" and "length mapped = span" and "n \<le> 2 ^ 64"
  shows "fold_res (hit_byte base span mapped target) (rl, []) [0..<n] \<noteq> Panic \<and>
    (\<forall>st. fold_res (hit_byte base span mapped target) (rl, []) [0..<n] = Ok st \<longrightarrow> hit_spec base span mapped target n rl st)"
  using assms(3)
proof (induction n)
  case 0
  then show ?case using assms(1) by (auto simp: hit_spec_def destinations_def)
next
  case (Suc n)
  then have IH: "fold_res (hit_byte base span mapped target) (rl, []) [0..<n] \<noteq> Panic"
    "\<And>st. fold_res (hit_byte base span mapped target) (rl, []) [0..<n] = Ok st \<Longrightarrow> hit_spec base span mapped target n rl st"
    and n: "n < 2 ^ 64" by simp_all
  have split: "fold_res (hit_byte base span mapped target) (rl, []) [0..<Suc n] =
      rbind (fold_res (hit_byte base span mapped target) (rl, []) [0..<n]) (\<lambda>st. hit_byte base span mapped target st n)"
    by (simp add: fold_res_append)
  show ?case unfolding split
    using IH hit_byte_spec [OF IH(2) assms(2) n] by (auto simp: rbind_Panic)
qed

definition target_of :: "int \<Rightarrow> dynamic_relocation \<Rightarrow> u64" where
  "target_of load_bias r = word_of_int (uint (dr_address r) + load_bias)"

definition dests :: "u64 \<Rightarrow> usize \<Rightarrow> u8 list \<Rightarrow> int \<Rightarrow> dynamic_relocation \<Rightarrow> nat list" where
  "dests base span mapped load_bias r = destinations base span mapped (target_of load_bias r) (dr_width r)"

definition candidates_of :: "u64 \<Rightarrow> usize \<Rightarrow> u8 list \<Rightarrow> int \<Rightarrow> u32 \<Rightarrow> dynamic_relocation \<Rightarrow> (nat list \<times> u8 list) list" where
  "candidates_of base span mapped load_bias v r =
     (case relative_value load_bias v r (dests base span mapped load_bias r) of
        None \<Rightarrow> [] | Some n \<Rightarrow> [(dests base span mapped load_bias r, le_bytes n)])"

definition relocation_fits :: "int \<Rightarrow> dynamic_relocation \<Rightarrow> bool" where
  "relocation_fits load_bias r \<longleftrightarrow> 0 < dr_width r \<and> dr_width r \<le> 16 \<and>
     uint (target_of load_bias r) = uint (dr_address r) + load_bias \<and> unat (target_of load_bias r) + dr_width r \<le> 2 ^ 64"

lemma hit_relocation_spec:
  assumes "hits_ok span rl" and "length mapped = span"
  shows "hit_relocation base span mapped load_bias v rl r \<noteq> Panic"
    and "hit_relocation base span mapped load_bias v rl r = Ok rl' \<Longrightarrow>
      relocation_fits load_bias r \<and> hits_ok span rl' \<and>
      rl_candidates rl' = rl_candidates rl @ candidates_of base span mapped load_bias v r \<and>
      set (rl_relocated rl') = set (rl_relocated rl) \<union> set (dests base span mapped load_bias r) \<and>
      (\<forall>i < span. rl_known rl' ! i = (if i \<in> set (dests base span mapped load_bias r) then 0 else rl_known rl ! i)) \<and>
      (\<forall>i < span. rl_hits rl' ! i =
         (if i \<in> set (dests base span mapped load_bias r) then saturating_inc (rl_hits rl ! i) else rl_hits rl ! i))"
proof -
  have run: "fold_res (hit_byte base span mapped target) (rl, []) [0..<dr_width r] \<noteq> Panic"
    "fold_res (hit_byte base span mapped target) (rl, []) [0..<dr_width r] = Ok st \<Longrightarrow> hit_spec base span mapped target (dr_width r) rl st"
    if "dr_width r \<le> 16" for target st
    using hit_bytes_spec [OF assms, of "dr_width r" base target] that by simp_all
  show "hit_relocation base span mapped load_bias v rl r \<noteq> Panic"
    using run(1) by (auto simp: hit_relocation_def rbind_Panic)
  assume ok: "hit_relocation base span mapped load_bias v rl r = Ok rl'"
  then obtain target q destination where w: "0 < dr_width r" "dr_width r \<le> 16"
    and target: "u64_of_int (uint (dr_address r) + load_bias) = Some target"
    and fold: "fold_res (hit_byte base span mapped target) (rl, []) [0..<dr_width r] = Ok (q, destination)"
    and rl': "rl' = (case relative_value load_bias v r destination of None \<Rightarrow> q
      | Some n \<Rightarrow> q\<lparr>rl_candidates := rl_candidates q @ [(destination, le_bytes n)]\<rparr>)"
    by (auto simp: hit_relocation_def split: if_splits)
  from target have at: "uint target = uint (dr_address r) + load_bias" by simp
  then have target_eq: "target_of load_bias r = target" by (simp add: target_of_def flip: at)
  note spec = run(2) [OF w(2) fold]
  then have "destination = dests base span mapped load_bias r" by (simp add: hit_spec_def dests_def target_eq)
  moreover have "unat target + dr_width r \<le> 2 ^ 64"
    using spec w(1) unfolding hit_spec_def by (cases "dr_width r") auto
  ultimately show "relocation_fits load_bias r \<and> hits_ok span rl' \<and>
      rl_candidates rl' = rl_candidates rl @ candidates_of base span mapped load_bias v r \<and>
      set (rl_relocated rl') = set (rl_relocated rl) \<union> set (dests base span mapped load_bias r) \<and>
      (\<forall>i < span. rl_known rl' ! i = (if i \<in> set (dests base span mapped load_bias r) then 0 else rl_known rl ! i)) \<and>
      (\<forall>i < span. rl_hits rl' ! i =
         (if i \<in> set (dests base span mapped load_bias r) then saturating_inc (rl_hits rl ! i) else rl_hits rl ! i))"
    using spec w at unfolding rl'
    by (auto simp: hit_spec_def relocation_fits_def candidates_of_def target_eq hits_ok_def split: option.splits)
qed

section \<open>All relocations\<close>

definition reaching :: "u64 \<Rightarrow> usize \<Rightarrow> u8 list \<Rightarrow> int \<Rightarrow> dynamic_relocation list \<Rightarrow> nat \<Rightarrow> dynamic_relocation list" where
  "reaching base span mapped load_bias rs i = filter (\<lambda>r. i \<in> set (dests base span mapped load_bias r)) rs"

definition saturated :: "nat \<Rightarrow> u8" where
  "saturated n = (if n < 255 then of_nat n else 255)"

lemma saturated_simps [simp]:
  "saturated 0 = 0" "saturating_inc (saturated n) = saturated (Suc n)" "saturated n = 1 \<longleftrightarrow> n = 1"
proof -
  have unat: "unat (of_nat n :: u8) = n" if "n < 256" for n
    using that by (simp add: unsigned_of_nat take_bit_nat_eq_self)
  have "(of_nat n :: u8) = 255 \<longleftrightarrow> n = 255" "(of_nat n :: u8) = 1 \<longleftrightarrow> n = 1" "(of_nat n :: u8) = 254 \<longleftrightarrow> n = 254"
    if "n < 256" for n
    by (simp_all add: word_unat_eq_iff unat [OF that])
  then show "saturated 0 = 0" "saturating_inc (saturated n) = saturated (Suc n)" "saturated n = 1 \<longleftrightarrow> n = 1"
    by (auto simp: saturated_def saturating_inc_def)
qed

definition relocated_spec ::
  "u64 \<Rightarrow> usize \<Rightarrow> u8 list \<Rightarrow> int \<Rightarrow> u32 \<Rightarrow> u8 list \<Rightarrow> dynamic_relocation list \<Rightarrow> relocation_state \<Rightarrow> bool" where
  "relocated_spec base span mapped load_bias v known rs rl \<longleftrightarrow>
     hits_ok span rl \<and> (\<forall>r \<in> set rs. relocation_fits load_bias r) \<and>
     rl_candidates rl = concat (map (candidates_of base span mapped load_bias v) rs) \<and>
     set (rl_relocated rl) = (\<Union>r \<in> set rs. set (dests base span mapped load_bias r)) \<and>
     (\<forall>i < span. rl_known rl ! i = (if reaching base span mapped load_bias rs i = [] then known ! i else 0)) \<and>
     (\<forall>i < span. rl_hits rl ! i = saturated (length (reaching base span mapped load_bias rs i)))"

lemma hit_relocations_spec:
  assumes "length known = span" and "length mapped = span"
  shows "fold_res (hit_relocation base span mapped load_bias v)
      \<lparr>rl_known = known, rl_relocated = [], rl_hits = replicate span 0, rl_candidates = []\<rparr> rs \<noteq> Panic"
    and "fold_res (hit_relocation base span mapped load_bias v)
      \<lparr>rl_known = known, rl_relocated = [], rl_hits = replicate span 0, rl_candidates = []\<rparr> rs = Ok rl \<Longrightarrow>
      relocated_spec base span mapped load_bias v known rs rl"
proof -
  let ?start = "\<lparr>rl_known = known, rl_relocated = [], rl_hits = replicate span 0, rl_candidates = []\<rparr>"
  let ?run = "fold_res (hit_relocation base span mapped load_bias v) ?start"
  have "?run rs \<noteq> Panic \<and> (\<forall>rl. ?run rs = Ok rl \<longrightarrow> relocated_spec base span mapped load_bias v known rs rl)"
  proof (induction rs rule: rev_induct)
    case Nil
    then show ?case using assms(1) by (simp add: relocated_spec_def hits_ok_def reaching_def)
  next
    case (snoc r rs)
    have split: "?run (rs @ [r]) = rbind (?run rs) (\<lambda>q. hit_relocation base span mapped load_bias v q r)"
      by (simp add: fold_res_append)
    show ?case
    proof (cases "?run rs")
      case (Ok q)
      with snoc have q: "relocated_spec base span mapped load_bias v known rs q" by blast
      then have "hits_ok span q" by (simp add: relocated_spec_def)
      note one = hit_relocation_spec [OF this assms(2), of base load_bias v r]
      have "relocated_spec base span mapped load_bias v known (rs @ [r]) rl"
        if "hit_relocation base span mapped load_bias v q r = Ok rl" for rl
        using one(2) [OF that] q by (auto simp: relocated_spec_def reaching_def)
      with one(1) show ?thesis unfolding split Ok by simp
    qed (use snoc split in auto)
  qed
  then show "?run rs \<noteq> Panic" "?run rs = Ok rl \<Longrightarrow> relocated_spec base span mapped load_bias v known rs rl" by blast+
qed

section \<open>Values that are known again\<close>

lemma all_once_eq:
  "\<forall>i \<in> set is. i < length hits \<Longrightarrow> all_once hits is = Ok (\<forall>i \<in> set is. hits ! i = 1)"
  by (induction "is") auto

lemma write_candidate_bytes:
  assumes "distinct destination" and "length v = length destination" and "\<forall>i \<in> set destination. i < span"
    and "length bytes = span" and "length known = span"
  shows "\<exists>bytes' known'. fold_res write_candidate_byte (bytes, known) (zip destination v) = Ok (bytes', known') \<and>
    length bytes' = span \<and> length known' = span \<and>
    (\<forall>i < span. known' ! i = (if i \<in> set destination then 255 else known ! i)) \<and>
    (\<forall>j < length destination. bytes' ! (destination ! j) = v ! j) \<and>
    (\<forall>i < span. i \<notin> set destination \<longrightarrow> bytes' ! i = bytes ! i)"
  using assms
proof (induction destination arbitrary: v bytes known)
  case (Cons d ds)
  then obtain b vs where v: "v = b # vs" "length vs = length ds" by (cases v) auto
  from Cons.prems have d: "d < span" "d \<notin> set ds" by auto
  from Cons.IH [of vs "bytes[d := b]" "known[d := 255]"] Cons.prems v obtain bytes' known' where
    run: "fold_res write_candidate_byte (bytes[d := b], known[d := 255]) (zip ds vs) = Ok (bytes', known')"
    and rest: "length bytes' = span" "length known' = span"
      "\<forall>i < span. known' ! i = (if i \<in> set ds then 255 else known[d := 255] ! i)"
      "\<forall>j < length ds. bytes' ! (ds ! j) = vs ! j" "\<forall>i < span. i \<notin> set ds \<longrightarrow> bytes' ! i = bytes[d := b] ! i"
    by auto
  have "fold_res write_candidate_byte (bytes, known) (zip (d # ds) v) = Ok (bytes', known')"
    using run d Cons.prems by (simp add: v write_candidate_byte_def set_index_def)
  moreover have "bytes' ! ((d # ds) ! j) = v ! j" if "j < length (d # ds)" for j
    using that rest(4,5) d Cons.prems by (cases j) (auto simp: v)
  ultimately show ?case using rest d Cons.prems by (intro exI [of _ bytes'] exI [of _ known']) (auto simp: nth_list_update)
qed auto

definition once :: "u8 list \<Rightarrow> nat list \<times> u8 list \<Rightarrow> bool" where
  "once hits c \<longleftrightarrow> (\<forall>i \<in> set (fst c). hits ! i = 1)"

definition candidate_ok :: "usize \<Rightarrow> nat list \<times> u8 list \<Rightarrow> bool" where
  "candidate_ok span c \<longleftrightarrow> distinct (fst c) \<and> length (snd c) = length (fst c) \<and> (\<forall>i \<in> set (fst c). i < span)"

lemma write_candidate_eq:
  assumes "candidate_ok span c" and "length hits = span"
  shows "write_candidate hits st c = (if once hits c then fold_res write_candidate_byte st (zip (fst c) (snd c)) else Ok st)"
proof -
  obtain destination v where c: "c = (destination, v)" by (cases c)
  with assms have "all_once hits destination = (Ok (\<forall>i \<in> set destination. hits ! i = 1) :: (bool, string) result)"
    by (intro all_once_eq) (simp add: candidate_ok_def)
  then show ?thesis by (simp add: write_candidate_def c once_def)
qed

definition written :: "u8 list \<Rightarrow> (nat list \<times> u8 list) list \<Rightarrow> usize \<Rightarrow> u8 list \<times> u8 list \<Rightarrow> u8 list \<times> u8 list \<Rightarrow> bool" where
  \<comment> \<open>the bytes and the mask after the candidates \<open>cs\<close>\<close>
  "written hits cs span st st' \<longleftrightarrow> length (fst st') = span \<and> length (snd st') = span \<and>
     (\<forall>c \<in> set cs. once hits c \<longrightarrow>
        (\<forall>j < length (fst c). snd st' ! (fst c ! j) = 255 \<and> fst st' ! (fst c ! j) = snd c ! j)) \<and>
     (\<forall>i < span. (\<forall>c \<in> set cs. once hits c \<longrightarrow> i \<notin> set (fst c)) \<longrightarrow> fst st' ! i = fst st ! i \<and> snd st' ! i = snd st ! i)"

lemma write_candidates_written:
  assumes "length hits = span" and "\<forall>c \<in> set cs. candidate_ok span c"
    and "\<forall>c \<in> set cs. \<forall>d \<in> set cs. once hits c \<and> once hits d \<and> set (fst c) \<inter> set (fst d) \<noteq> {} \<longrightarrow> c = d"
    and "length (fst st) = span" and "length (snd st) = span"
  shows "\<exists>st'. fold_res (write_candidate hits) st cs = Ok st' \<and> written hits cs span st st'"
  using assms(2,3)
proof (induction cs rule: rev_induct)
  case Nil
  then show ?case using assms(4,5) by (simp add: written_def)
next
  case (snoc c cs)
  then obtain st' where run: "fold_res (write_candidate hits) st cs = Ok st'" and st': "written hits cs span st st'" by auto
  have c: "candidate_ok span c" using snoc.prems(1) by simp
  show ?case
  proof (cases "once hits c")
    case False
    with run have "fold_res (write_candidate hits) st (cs @ [c]) = Ok st'"
      by (simp add: fold_res_append write_candidate_eq [OF c assms(1)])
    moreover from st' False have "written hits (cs @ [c]) span st st'" by (auto simp: written_def)
    ultimately show ?thesis by blast
  next
    case True
    obtain bytes known where pair: "st' = (bytes, known)" by (cases st')
    from st' have lengths: "length bytes = span" "length known = span" by (simp_all add: written_def pair)
    from write_candidate_bytes [of "fst c" "snd c" span bytes known] c lengths obtain bytes' known' where
      step: "fold_res write_candidate_byte (bytes, known) (zip (fst c) (snd c)) = Ok (bytes', known')"
      and new: "length bytes' = span" "length known' = span"
        "\<forall>i < span. known' ! i = (if i \<in> set (fst c) then 255 else known ! i)"
        "\<forall>j < length (fst c). bytes' ! (fst c ! j) = snd c ! j" "\<forall>i < span. i \<notin> set (fst c) \<longrightarrow> bytes' ! i = bytes ! i"
      by (auto simp: candidate_ok_def)
    have "fold_res (write_candidate hits) st (cs @ [c]) = Ok (bytes', known')"
      using run step True by (simp add: fold_res_append write_candidate_eq [OF c assms(1)] pair)
    moreover have "known' ! (fst d ! j) = 255 \<and> bytes' ! (fst d ! j) = snd d ! j"
      if d: "d \<in> set (cs @ [c])" "once hits d" "j < length (fst d)" for d j
    proof -
      have i: "fst d ! j < span" using snoc.prems(1) d by (auto simp: candidate_ok_def)
      show ?thesis
      proof (cases "fst d ! j \<in> set (fst c)")
        case in_c: True
        with d have "set (fst c) \<inter> set (fst d) \<noteq> {}" by auto
        with snoc.prems(2) d True have "c = d" by auto
        with d new i show ?thesis by auto
      next
        case False
        with d have "d \<in> set cs" by auto
        with st' d have "known ! (fst d ! j) = 255 \<and> bytes ! (fst d ! j) = snd d ! j" by (auto simp: written_def pair)
        with False new i show ?thesis by simp
      qed
    qed
    moreover have "bytes' ! i = fst st ! i \<and> known' ! i = snd st ! i"
      if i: "i < span" "\<forall>d \<in> set (cs @ [c]). once hits d \<longrightarrow> i \<notin> set (fst d)" for i
    proof -
      from i True have "i \<notin> set (fst c)" by simp
      with i new st' show ?thesis by (auto simp: written_def pair)
    qed
    ultimately show ?thesis using new(1,2) by (intro exI [of _ "(bytes', known')"]) (auto simp: written_def)
  qed
qed

section \<open>The relocated window\<close>

lemma destinations_distinct:
  assumes "\<forall>b < n. unat target + b < 2 ^ 64"
  shows "distinct (destinations base span mapped target n)"
  using assms
proof (induction n)
  case (Suc n)
  have step: "destinations base span mapped target (Suc n) = destinations base span mapped target n @
      (if lands base span mapped (target + of_nat n) then [unat (target + of_nat n - base)] else [])"
    by (simp add: destinations_def)
  from Suc.prems destination_new [of n target base span mapped] Suc.IH show ?case
    unfolding step by (auto simp: less_Suc_eq_le)
qed (simp add: destinations_def)

lemma destinations_bound: "\<forall>i \<in> set (destinations base span mapped target n). i < span \<and> mapped ! i = 255"
  by (auto simp: destinations_def lands_def)

lemma relative_value_Some:
  assumes "relative_value load_bias v r ds = Some n"
  shows "length ds = 8 \<and> dr_width r = 8 \<and> v = PCODE_ELF_PROCESS_MEMORY_VERSION \<and>
    (\<exists>addend. dr_relative_addend r = Some addend \<and> uint n = load_bias + sint addend)"
  using assms by (auto simp: relative_value_def split: option.splits if_splits)

lemma candidate_cases:
  assumes "c \<in> set (candidates_of base span mapped load_bias v r)"
  shows "\<exists>n. relative_value load_bias v r (dests base span mapped load_bias r) = Some n \<and>
    c = (dests base span mapped load_bias r, le_bytes n) \<and> length (dests base span mapped load_bias r) = 8"
  using assms
  by (cases "relative_value load_bias v r (dests base span mapped load_bias r)")
    (auto simp: candidates_of_def dest: relative_value_Some)

lemma candidate_of_ok:
  assumes "c \<in> set (candidates_of base span mapped load_bias v r)" and "relocation_fits load_bias r"
  shows "candidate_ok span c"
proof -
  from assms(2) have "distinct (dests base span mapped load_bias r)"
    unfolding dests_def relocation_fits_def by (intro destinations_distinct) auto
  moreover have "\<forall>i \<in> set (dests base span mapped load_bias r). i < span"
    using destinations_bound by (simp add: dests_def)
  ultimately show ?thesis using candidate_cases [OF assms(1)] by (auto simp: candidate_ok_def le_bytes_def)
qed

definition sole_value :: "u64 \<Rightarrow> usize \<Rightarrow> u8 list \<Rightarrow> int \<Rightarrow> u32 \<Rightarrow> dynamic_relocation list \<Rightarrow> nat \<Rightarrow> u8 \<Rightarrow> bool" where
  \<comment> \<open>one relocation alone hits index \<open>i\<close> and its neighbours and stores byte \<open>b\<close> there\<close>
  "sole_value base span mapped load_bias v rs i b \<longleftrightarrow>
     (\<exists>r n j. reaching base span mapped load_bias rs i = [r] \<and>
        relative_value load_bias v r (dests base span mapped load_bias r) = Some n \<and>
        (\<forall>k \<in> set (dests base span mapped load_bias r). length (reaching base span mapped load_bias rs k) = 1) \<and>
        j < 8 \<and> dests base span mapped load_bias r ! j = i \<and> b = byte_of n j)"

definition relocated_window ::
  "u64 \<Rightarrow> usize \<Rightarrow> int \<Rightarrow> u32 \<Rightarrow> dynamic_relocation list \<Rightarrow> process_arrays \<Rightarrow> process_arrays \<Rightarrow> usize \<Rightarrow> bool" where
  "relocated_window base span load_bias v rs a a' unresolved \<longleftrightarrow>
     ay_mapped a' = ay_mapped a \<and> ay_writable a' = ay_writable a \<and> length (ay_bytes a') = span \<and> length (ay_known a') = span \<and>
     (\<forall>r \<in> set rs. relocation_fits load_bias r) \<and>
     (\<forall>i < span. reaching base span (ay_mapped a) load_bias rs i = [] \<longrightarrow>
        ay_bytes a' ! i = ay_bytes a ! i \<and> ay_known a' ! i = ay_known a ! i) \<and>
     (\<forall>i < span. reaching base span (ay_mapped a) load_bias rs i \<noteq> [] \<longrightarrow>
        (if \<exists>b. sole_value base span (ay_mapped a) load_bias v rs i b
         then ay_known a' ! i = 255 \<and> sole_value base span (ay_mapped a) load_bias v rs i (ay_bytes a' ! i)
         else ay_known a' ! i = 0)) \<and>
     unresolved = card {i. i < span \<and> reaching base span (ay_mapped a) load_bias rs i \<noteq> [] \<and> ay_known a' ! i = 0}"

lemma relocated_window_hit:
  "relocated_window base span load_bias v rs a a' unresolved \<Longrightarrow> i < span \<Longrightarrow>
    reaching base span (ay_mapped a) load_bias rs i \<noteq> [] \<Longrightarrow>
    if \<exists>b. sole_value base span (ay_mapped a) load_bias v rs i b
    then ay_known a' ! i = 255 \<and> sole_value base span (ay_mapped a) load_bias v rs i (ay_bytes a' ! i)
    else ay_known a' ! i = 0"
  unfolding relocated_window_def by blast

lemma reaching_mem: "r \<in> set (reaching base span mapped load_bias rs i) \<longleftrightarrow> r \<in> set rs \<and> i \<in> set (dests base span mapped load_bias r)"
  by (auto simp: reaching_def)

lemma dests_bound: "i \<in> set (dests base span mapped load_bias r) \<Longrightarrow> i < span \<and> mapped ! i = 255"
  using destinations_bound by (simp add: dests_def)

lemma once_iff:
  assumes "\<forall>i < span. hits ! i = saturated (length (reaching base span mapped load_bias rs i))"
  shows "once hits (dests base span mapped load_bias r, x) \<longleftrightarrow>
    (\<forall>k \<in> set (dests base span mapped load_bias r). length (reaching base span mapped load_bias rs k) = 1)"
  using assms by (auto simp: once_def dest: dests_bound)

lemma reaching_unique:
  assumes "length (reaching base span mapped load_bias rs i) = 1" and "r \<in> set rs" and "i \<in> set (dests base span mapped load_bias r)"
  shows "reaching base span mapped load_bias rs i = [r]"
proof -
  from assms(1) obtain q where q: "reaching base span mapped load_bias rs i = [q]" by (metis One_nat_def length_0_conv length_Suc_conv)
  with reaching_mem [of r base span mapped load_bias rs i] assms(2,3) show ?thesis by simp
qed

lemma candidates_written:
  assumes spec: "relocated_spec base span mapped load_bias v known rs rl" and bytes: "length bytes = span"
  shows "\<exists>st. fold_res (write_candidate (rl_hits rl)) (bytes, rl_known rl) (rl_candidates rl) = Ok st \<and>
    written (rl_hits rl) (rl_candidates rl) span (bytes, rl_known rl) st"
proof (rule write_candidates_written)
  let ?reach = "reaching base span mapped load_bias rs" and ?dests = "dests base span mapped load_bias"
  from spec have ok: "hits_ok span rl" and cs: "rl_candidates rl = concat (map (candidates_of base span mapped load_bias v) rs)"
    and fits: "\<forall>r \<in> set rs. relocation_fits load_bias r"
    and count: "\<forall>i < span. rl_hits rl ! i = saturated (length (?reach i))"
    by (simp_all add: relocated_spec_def)
  show "length (rl_hits rl) = span" "length (fst (bytes, rl_known rl)) = span" "length (snd (bytes, rl_known rl)) = span"
    using ok bytes by (simp_all add: hits_ok_def)
  show "\<forall>c \<in> set (rl_candidates rl). candidate_ok span c" using fits candidate_of_ok by (fastforce simp: cs)
  have "c = d" if c: "c \<in> set (rl_candidates rl)" "once (rl_hits rl) c" and d: "d \<in> set (rl_candidates rl)" "once (rl_hits rl) d"
    and meet: "set (fst c) \<inter> set (fst d) \<noteq> {}" for c d
  proof -
    from c(1) d(1) obtain r q where r: "r \<in> set rs" "c \<in> set (candidates_of base span mapped load_bias v r)"
      and q: "q \<in> set rs" "d \<in> set (candidates_of base span mapped load_bias v q)" by (auto simp: cs)
    with candidate_cases [OF r(2)] candidate_cases [OF q(2)] meet obtain i where i: "i \<in> set (?dests r)" "i \<in> set (?dests q)" by auto
    from candidate_cases [OF r(2)] c(2) once_iff [OF count] i(1) have "length (?reach i) = 1" by auto
    with reaching_unique r(1) q(1) i have "r = q" by (metis list.inject)
    with r(2) q(2) show ?thesis
      by (cases "relative_value load_bias v q (?dests q)") (auto simp: candidates_of_def)
  qed
  then show "\<forall>c \<in> set (rl_candidates rl). \<forall>d \<in> set (rl_candidates rl). once (rl_hits rl) c \<and> once (rl_hits rl) d \<and>
    set (fst c) \<inter> set (fst d) \<noteq> {} \<longrightarrow> c = d" by blast
qed

lemma relocate_window:
  assumes run: "relocate h binary elf v load_bias base span a = Ok (a', unresolved)"
    and lengths: "length (ay_bytes a) = span" "length (ay_known a) = span" "length (ay_mapped a) = span"
  shows "\<exists>rs. dynamic_relocations h binary elf v = Ok rs \<and> relocated_window base span load_bias v rs a a' unresolved"
proof -
  let ?mapped = "ay_mapped a"
  from run obtain rs rl bytes known ks where rs: "dynamic_relocations h binary elf v = Ok rs"
    and hits: "fold_res (hit_relocation base span ?mapped load_bias v)
      \<lparr>rl_known = ay_known a, rl_relocated = [], rl_hits = replicate span 0, rl_candidates = []\<rparr> rs = Ok rl"
    and writes: "fold_res (write_candidate (rl_hits rl)) (ay_bytes a, rl_known rl) (rl_candidates rl) = Ok (bytes, known)"
    and ks: "collect_res (index_rs known :: _ \<Rightarrow> (u8, string) result) (rl_relocated rl) = Ok ks"
    and a': "a' = a\<lparr>ay_bytes := bytes, ay_known := known\<rparr>" and unresolved: "unresolved = length (filter (\<lambda>k. k = 0) ks)"
    by (auto simp: relocate_def)
  let ?reach = "reaching base span ?mapped load_bias rs" and ?dests = "dests base span ?mapped load_bias"
    and ?sole = "sole_value base span ?mapped load_bias v rs"
  have spec: "relocated_spec base span ?mapped load_bias v (ay_known a) rs rl"
    using hit_relocations_spec(2) [OF lengths(2,3) hits] .
  then have ok: "hits_ok span rl" and cs: "rl_candidates rl = concat (map (candidates_of base span ?mapped load_bias v) rs)"
    and fits: "\<forall>r \<in> set rs. relocation_fits load_bias r"
    and count: "\<forall>i < span. rl_hits rl ! i = saturated (length (?reach i))"
    and blank: "\<forall>i < span. rl_known rl ! i = (if ?reach i = [] then ay_known a ! i else 0)"
    and where_hit: "set (rl_relocated rl) = (\<Union>r \<in> set rs. set (?dests r))"
    by (simp_all add: relocated_spec_def)
  have in_span: "i < span" if "i \<in> set (?dests r)" for r i using dests_bound [OF that] by blast
  note reach_mem = reaching_mem [of _ base span ?mapped load_bias rs]
  have st: "written (rl_hits rl) (rl_candidates rl) span (ay_bytes a, rl_known rl) (bytes, known)"
    using candidates_written [OF spec lengths(1)] writes by auto
  from st have untouched: "bytes ! i = ay_bytes a ! i \<and> known ! i = rl_known rl ! i"
    if "i < span" "\<forall>c \<in> set (rl_candidates rl). once (rl_hits rl) c \<longrightarrow> i \<notin> set (fst c)" for i
    using that by (simp add: written_def)
  have candidate: "\<exists>r n. r \<in> set rs \<and> c = (?dests r, le_bytes n) \<and> relative_value load_bias v r (?dests r) = Some n"
    if "c \<in> set (rl_candidates rl)" for c
    using that candidate_cases by (fastforce simp: cs)
  have free: "bytes ! i = ay_bytes a ! i \<and> known ! i = ay_known a ! i" if i: "i < span" "?reach i = []" for i
  proof -
    have "i \<notin> set (fst c)" if "c \<in> set (rl_candidates rl)" for c
      using candidate [OF that] reach_mem [of _ i] i(2) by fastforce
    with untouched [OF i(1)] blank i show ?thesis by simp
  qed
  have hit: "if \<exists>b. ?sole i b then known ! i = 255 \<and> ?sole i (bytes ! i) else known ! i = 0"
    if i: "i < span" "?reach i \<noteq> []" for i
  proof (cases "\<exists>b. ?sole i b")
    case True
    then obtain r n j where r: "?reach i = [r]" and n: "relative_value load_bias v r (?dests r) = Some n"
      and alone: "\<forall>k \<in> set (?dests r). length (?reach k) = 1" and j: "j < 8" "?dests r ! j = i"
      unfolding sole_value_def by blast
    from reach_mem [of r i] r have "r \<in> set rs" by simp
    with n have "(?dests r, le_bytes n) \<in> set (rl_candidates rl)" by (auto simp: cs candidates_of_def intro!: bexI [of _ r])
    moreover have "once (rl_hits rl) (?dests r, le_bytes n)" using once_iff [OF count] alone by simp
    ultimately have "known ! (?dests r ! j) = 255 \<and> bytes ! (?dests r ! j) = le_bytes n ! j"
      using st j(1) relative_value_Some [OF n] by (fastforce simp: written_def)
    with j have "known ! i = 255 \<and> bytes ! i = byte_of n j" by (simp add: le_bytes_def)
    moreover from this r n alone j have "?sole i (bytes ! i)" unfolding sole_value_def by blast
    ultimately show ?thesis using True by simp
  next
    case False
    have "i \<notin> set (fst c)" if c: "c \<in> set (rl_candidates rl)" "once (rl_hits rl) c" for c
    proof
      assume "i \<in> set (fst c)"
      from candidate [OF c(1)] obtain r n where r: "r \<in> set rs" "c = (?dests r, le_bytes n)"
        and n: "relative_value load_bias v r (?dests r) = Some n" by blast
      with c(2) once_iff [OF count] have alone: "\<forall>k \<in> set (?dests r). length (?reach k) = 1" by simp
      from \<open>i \<in> set (fst c)\<close> r obtain j where j: "j < length (?dests r)" "?dests r ! j = i" by (auto simp: in_set_conv_nth)
      with alone r(1) have "?reach i = [r]" by (auto intro: reaching_unique)
      with n alone j relative_value_Some [OF n] have "?sole i (byte_of n j)" unfolding sole_value_def by (metis)
      with False show False by blast
    qed
    with untouched [OF i(1)] blank i False show ?thesis by simp
  qed
  have relocated_iff: "i \<in> set (rl_relocated rl) \<longleftrightarrow> i < span \<and> ?reach i \<noteq> []" for i
  proof
    assume "i \<in> set (rl_relocated rl)"
    then obtain r where r: "r \<in> set rs" "i \<in> set (?dests r)" by (auto simp: where_hit)
    then have "r \<in> set (?reach i)" by (simp add: reach_mem)
    then have "?reach i \<noteq> []" by auto
    with in_span [OF r(2)] show "i < span \<and> ?reach i \<noteq> []" by blast
  next
    assume "i < span \<and> ?reach i \<noteq> []"
    then have "hd (?reach i) \<in> set (?reach i)" by simp
    then show "i \<in> set (rl_relocated rl)" unfolding reach_mem where_hit by blast
  qed
  have "list_all2 (\<lambda>i k. k = known ! i) (rl_relocated rl) ks"
    using ks by (auto simp: collect_res_Ok elim: list_all2_mono)
  then have "ks = map ((!) known) (rl_relocated rl)" by (simp add: list_all2_conv_all_nth list_eq_iff_nth_eq)
  moreover have "distinct (rl_relocated rl)" using ok strict_sorted_iff by (auto simp: hits_ok_def)
  ultimately have "unresolved = card {i \<in> set (rl_relocated rl). known ! i = 0}"
    by (simp add: unresolved filter_map o_def distinct_card [symmetric] flip: set_filter)
  also have "{i \<in> set (rl_relocated rl). known ! i = 0} = {i. i < span \<and> ?reach i \<noteq> [] \<and> known ! i = 0}"
    unfolding relocated_iff by blast
  finally have "unresolved = card {i. i < span \<and> ?reach i \<noteq> [] \<and> known ! i = 0}" .
  moreover have "length bytes = span" "length known = span" using st by (simp_all add: written_def)
  ultimately have "relocated_window base span load_bias v rs a a' unresolved"
    using free hit fits unfolding relocated_window_def a' by (simp cong: if_cong)
  with rs show ?thesis by blast
qed

end
