(* ===== verification/Pcode_ProcessMemory.thy ===== *)
theory Pcode_ProcessMemory
  imports Pcode_Relocation
begin

text \<open>
  The initial process memory by address: what is mapped, what is writable, which bytes are known and
  why; and the constructor never reaches a panic and passes its own validation.
\<close>

section \<open>Relocations by address\<close>

definition writes_at :: "int \<Rightarrow> dynamic_relocation \<Rightarrow> u64 \<Rightarrow> bool" where
  "writes_at load_bias r a \<longleftrightarrow> uint (dr_address r) + load_bias \<le> uint a \<and>
     uint a < uint (dr_address r) + load_bias + int (dr_width r)"

definition writers :: "int \<Rightarrow> dynamic_relocation list \<Rightarrow> u64 \<Rightarrow> dynamic_relocation list" where
  "writers load_bias rs a = filter (\<lambda>r. writes_at load_bias r a) rs"

definition lone_relative ::
  "int \<Rightarrow> u32 \<Rightarrow> dynamic_relocation list \<Rightarrow> (u64 \<Rightarrow> bool) \<Rightarrow> u64 \<Rightarrow> u8 \<Rightarrow> bool" where
  \<comment> \<open>the only relocation of \<open>a\<close> is a wholly mapped \<^verbatim>\<open>RELATIVE\<close>, alone at each of its eight addresses\<close>
  "lone_relative load_bias v rs mapped a b \<longleftrightarrow>
     (\<exists>r addend n. writers load_bias rs a = [r] \<and> v = PCODE_ELF_PROCESS_MEMORY_VERSION \<and> dr_width r = 8 \<and>
        dr_relative_addend r = Some addend \<and> uint (n :: u64) = load_bias + sint addend \<and>
        (\<forall>a'. writes_at load_bias r a' \<longrightarrow> mapped a' \<and> writers load_bias rs a' = [r]) \<and>
        b = byte_of n (nat (uint a - (uint (dr_address r) + load_bias))))"

lemma lone_relative_unique:
  assumes "lone_relative load_bias v rs mapped a c" and "lone_relative load_bias v rs mapped a d"
  shows "c = d"
proof -
  from assms(1) obtain r addend and n :: u64 where c: "writers load_bias rs a = [r]" "dr_relative_addend r = Some addend"
    "uint n = load_bias + sint addend" "c = byte_of n (nat (uint a - (uint (dr_address r) + load_bias)))"
    unfolding lone_relative_def by blast
  from assms(2) obtain q other and k :: u64 where d: "writers load_bias rs a = [q]" "dr_relative_addend q = Some other"
    "uint k = load_bias + sint other" "d = byte_of k (nat (uint a - (uint (dr_address q) + load_bias)))"
    unfolding lone_relative_def by blast
  from c(1) d(1) have "q = r" by simp
  with c d have "uint k = uint n" by simp
  then have "k = n" by (simp only: word_uint_eq_iff)
  with \<open>q = r\<close> c d show ?thesis by simp
qed

lemma window_address:
  assumes "base \<le> a"
  shows "base + of_nat (unat (a - base)) = (a :: u64)" and "unat (a - base) = unat a - unat base"
  using assms by (simp_all add: unat_sub_if' word_le_nat_alt)

lemma writes_at_target:
  assumes "relocation_fits load_bias r"
  shows "writes_at load_bias r a \<longleftrightarrow>
    unat (target_of load_bias r) \<le> unat a \<and> unat a < unat (target_of load_bias r) + dr_width r"
proof -
  have "uint (dr_address r) + load_bias = int (unat (target_of load_bias r))"
    using assms by (simp add: relocation_fits_def)
  then show ?thesis unfolding writes_at_def uint_nat by linarith
qed

lemma dests_iff:
  assumes "relocation_fits load_bias r" and "base \<le> a"
  shows "unat (a - base) \<in> set (dests base span mapped load_bias r) \<longleftrightarrow>
    writes_at load_bias r a \<and> unat (a - base) < span \<and> mapped ! unat (a - base) = 255"
proof -
  let ?t = "target_of load_bias r"
  have fits: "unat ?t + b < 2 ^ 64" if "b < dr_width r" for b
    using assms(1) that by (simp add: relocation_fits_def)
  show ?thesis
  proof
    assume "unat (a - base) \<in> set (dests base span mapped load_bias r)"
    then obtain b where b: "b < dr_width r" "lands base span mapped (?t + of_nat b)" "unat (a - base) = unat (?t + of_nat b - base)"
      by (auto simp: dests_def destinations_def)
    then have "base \<le> ?t + of_nat b" by (simp add: lands_def)
    note at = destination_index [OF fits [OF b(1)] this]
    have "a - base = ?t + of_nat b - base" using b(3) by (simp only: word_unat_eq_iff)
    then have "a = ?t + of_nat b" by simp
    with at b show "writes_at load_bias r a \<and> unat (a - base) < span \<and> mapped ! unat (a - base) = 255"
      by (simp add: writes_at_target [OF assms(1)] lands_def)
  next
    assume right: "writes_at load_bias r a \<and> unat (a - base) < span \<and> mapped ! unat (a - base) = 255"
    then have b: "unat a - unat ?t < dr_width r" "unat ?t \<le> unat a" by (auto simp: writes_at_target [OF assms(1)])
    have "?t + of_nat (unat a - unat ?t) = a"
      using b(2) window_address [of ?t a] by (simp add: word_le_nat_alt)
    with right b assms(2) show "unat (a - base) \<in> set (dests base span mapped load_bias r)"
      unfolding dests_def destinations_def
      by (auto simp: lands_def intro!: image_eqI [of _ _ "unat a - unat ?t"])
  qed
qed

lemma reaching_eq:
  assumes "\<forall>r \<in> set rs. relocation_fits load_bias r" and "base \<le> a"
    and "unat (a - base) < span" and "mapped ! unat (a - base) = 255"
  shows "reaching base span mapped load_bias rs (unat (a - base)) = writers load_bias rs a"
  unfolding reaching_def writers_def using assms by (intro filter_cong) (auto simp: dests_iff)

lemma dests_full:
  assumes "length (destinations base span mapped target n) = n"
  shows "\<forall>b < n. lands base span mapped (target + of_nat b)"
    and "j < n \<Longrightarrow> destinations base span mapped target n ! j = unat (target + of_nat j - base)"
proof -
  have "length (filter (\<lambda>b. lands base span mapped (target + of_nat b)) [0..<n]) = length [0..<n]"
    using assms by (simp add: destinations_def)
  then have all: "\<forall>b < n. lands base span mapped (target + of_nat b)"
    using length_filter_less [of _ "[0..<n]" "\<lambda>b. lands base span mapped (target + of_nat b)"] by fastforce
  then show "\<forall>b < n. lands base span mapped (target + of_nat b)" .
  have "filter (\<lambda>b. lands base span mapped (target + of_nat b)) [0..<n] = [0..<n]" using all by simp
  then show "j < n \<Longrightarrow> destinations base span mapped target n ! j = unat (target + of_nat j - base)"
    by (simp add: destinations_def)
qed

lemma lands_iff: "lands base span mapped a \<longleftrightarrow> base \<le> a \<and> unat (a - base) < span \<and> mapped ! unat (a - base) = 255"
  by (simp add: lands_def)

lemma reaching_writers:
  "\<forall>r \<in> set rs. relocation_fits load_bias r \<Longrightarrow> lands base span mapped a \<Longrightarrow>
    reaching base span mapped load_bias rs (unat (a - base)) = writers load_bias rs a"
  by (simp add: lands_iff reaching_eq)

lemma target_offset:
  assumes "relocation_fits load_bias r"
  shows "writes_at load_bias r a \<longleftrightarrow> (\<exists>j < dr_width r. a = target_of load_bias r + of_nat j)"
    and "j < dr_width r \<Longrightarrow> nat (uint (target_of load_bias r + of_nat j) - (uint (dr_address r) + load_bias)) = j"
proof -
  let ?t = "target_of load_bias r"
  have at: "unat (?t + of_nat j) = unat ?t + j" if "j < dr_width r" for j
    using assms that by (simp add: relocation_fits_def unat_word_ariths unsigned_of_nat take_bit_nat_eq_self)
  show "nat (uint (?t + of_nat j) - (uint (dr_address r) + load_bias)) = j" if "j < dr_width r"
  proof -
    have "uint (?t + of_nat j) = int (unat ?t + j)" unfolding uint_nat at [OF that] ..
    moreover have "uint (dr_address r) + load_bias = int (unat ?t)" using assms by (simp add: relocation_fits_def)
    ultimately show ?thesis by linarith
  qed
  show "writes_at load_bias r a \<longleftrightarrow> (\<exists>j < dr_width r. a = ?t + of_nat j)"
  proof
    assume "writes_at load_bias r a"
    then have "unat ?t \<le> unat a" "unat a - unat ?t < dr_width r" by (auto simp: writes_at_target [OF assms])
    moreover have "a = ?t + of_nat (unat a - unat ?t)"
      using \<open>unat ?t \<le> unat a\<close> window_address [of ?t a] by (simp add: word_le_nat_alt)
    ultimately show "\<exists>j < dr_width r. a = ?t + of_nat j" by blast
  qed (auto simp: writes_at_target [OF assms] at)
qed

lemma sole_value_lone:
  assumes fits: "\<forall>r \<in> set rs. relocation_fits load_bias r" and a: "lands base span mapped a"
    and sole: "sole_value base span mapped load_bias v rs (unat (a - base)) b"
  shows "lone_relative load_bias v rs (lands base span mapped) a b"
proof -
  from sole obtain r n j where reach: "writers load_bias rs a = [r]"
    and value_n: "relative_value load_bias v r (dests base span mapped load_bias r) = Some n"
    and alone: "\<forall>k \<in> set (dests base span mapped load_bias r). length (reaching base span mapped load_bias rs k) = 1"
    and j: "j < 8" "dests base span mapped load_bias r ! j = unat (a - base)" and b: "b = byte_of n j"
    by (auto simp: sole_value_def reaching_writers [OF fits a])
  have "r \<in> set (writers load_bias rs a)" by (simp add: reach)
  then have r: "r \<in> set rs" by (simp add: writers_def)
  then have ok: "relocation_fits load_bias r" using fits by blast
  let ?t = "target_of load_bias r"
  from relative_value_Some [OF value_n] obtain addend where w: "dr_width r = 8" "v = PCODE_ELF_PROCESS_MEMORY_VERSION"
    "dr_relative_addend r = Some addend" "uint n = load_bias + sint addend"
    and full: "length (destinations base span mapped ?t 8) = 8" by (auto simp: dests_def)
  note full = dests_full [OF full]
  have "unat (a - base) = unat (?t + of_nat j - base)" using j full(2) by (simp add: dests_def w(1))
  then have "a - base = ?t + of_nat j - base" by (simp only: word_unat_eq_iff)
  then have "a = ?t + of_nat j" by simp
  then have "b = byte_of n (nat (uint a - (uint (dr_address r) + load_bias)))"
    using target_offset(2) [OF ok, of j] j(1) w(1) b by simp
  moreover have "lands base span mapped a' \<and> writers load_bias rs a' = [r]" if a': "writes_at load_bias r a'" for a'
  proof -
    from a' obtain k where "k < 8" "a' = ?t + of_nat k" by (auto simp: target_offset(1) [OF ok] w(1))
    with full(1) have lands: "lands base span mapped a'" by blast
    then have "unat (a' - base) \<in> set (dests base span mapped load_bias r)"
      using a' by (simp add: dests_iff [OF ok] lands_iff)
    with alone have "length (writers load_bias rs a') = 1" by (simp add: flip: reaching_writers [OF fits lands])
    moreover have "r \<in> set (writers load_bias rs a')" using r a' by (simp add: writers_def)
    ultimately have "writers load_bias rs a' = [r]" by (cases "writers load_bias rs a'") auto
    with lands show ?thesis ..
  qed
  ultimately show ?thesis using reach w unfolding lone_relative_def by blast
qed

lemma lone_sole_value:
  assumes fits: "\<forall>r \<in> set rs. relocation_fits load_bias r" and a: "lands base span mapped a"
    and lone: "lone_relative load_bias v rs (lands base span mapped) a b"
  shows "sole_value base span mapped load_bias v rs (unat (a - base)) b"
proof -
  from lone obtain r addend and n :: u64 where reach: "writers load_bias rs a = [r]" and v: "v = PCODE_ELF_PROCESS_MEMORY_VERSION"
    and w: "dr_width r = 8" "dr_relative_addend r = Some addend" "uint n = load_bias + sint addend"
    and all: "\<forall>a'. writes_at load_bias r a' \<longrightarrow> lands base span mapped a' \<and> writers load_bias rs a' = [r]"
    and b: "b = byte_of n (nat (uint a - (uint (dr_address r) + load_bias)))"
    unfolding lone_relative_def by blast
  have "r \<in> set (writers load_bias rs a)" by (simp add: reach)
  then have r: "r \<in> set rs" "writes_at load_bias r a" by (simp_all add: writers_def)
  then have ok: "relocation_fits load_bias r" using fits by blast
  let ?t = "target_of load_bias r"
  from r(2) obtain j where j: "j < 8" "a = ?t + of_nat j" by (auto simp: target_offset(1) [OF ok] w(1))
  have each: "lands base span mapped (?t + of_nat k) \<and> writers load_bias rs (?t + of_nat k) = [r]" if "k < 8" for k
  proof -
    have "writes_at load_bias r (?t + of_nat k)" using that unfolding target_offset(1) [OF ok] w(1) by blast
    with all show ?thesis by blast
  qed
  then have ds: "dests base span mapped load_bias r = map (\<lambda>k. unat (?t + of_nat k - base)) [0..<8]"
    by (simp add: dests_def w(1) destinations_def cong: filter_cong)
  then have "relative_value load_bias v r (dests base span mapped load_bias r) = Some n"
    using v w by (simp add: relative_value_def)
  moreover have "\<forall>k \<in> set (dests base span mapped load_bias r). length (reaching base span mapped load_bias rs k) = 1"
    unfolding ds using each reaching_writers [OF fits] by auto
  moreover have "b = byte_of n j" using b target_offset(2) [OF ok, of j] j w(1) by simp
  moreover have "dests base span mapped load_bias r ! j = unat (a - base)" using j by (simp add: ds)
  ultimately show ?thesis using reach j(1) unfolding sole_value_def reaching_writers [OF fits a] by blast
qed

section \<open>The constructed memory\<close>

definition built :: "host \<Rightarrow> u8 list \<Rightarrow> ghidra_snapshot \<Rightarrow> elf_file \<Rightarrow> process_region list \<Rightarrow> process_arrays \<Rightarrow>
    dynamic_relocation list \<Rightarrow> process_arrays \<Rightarrow> elf_process_memory \<Rightarrow> bool" where
  "built h binary snap elf regions a rs a' m \<longleftrightarrow>
     (let base = rg_start (hd regions); span = length (pm_bytes m) in
      pm_space m = pa_space (pr_image_base (gs_program snap)) \<and> pm_base m = base \<and> 0 < span \<and>
      unat base + span < 2 ^ 64 \<and> arrays_loaded binary base span (set regions) a \<and>
      relocated_window base span (load_bias_of snap elf) (pm_schema_version m) rs a a' (pm_unresolved_relocation_bytes m) \<and>
      pm_bytes m = ay_bytes a' \<and> pm_known m = ay_known a' \<and> pm_mapped m = ay_mapped a' \<and> pm_writable m = ay_writable a' \<and>
      (\<forall>at source w. (\<exists>r \<in> set regions. region_source r at source w) \<longleftrightarrow> loaded_at snap elf at source w) \<and>
      (\<forall>r \<in> set regions. \<forall>at source w. region_source r at source w \<longrightarrow> base \<le> at \<and> unat at < unat base + span))"

lemma process_built:
  assumes "process_from_elf_version h binary snap max_bytes v = Ok m" and "length binary < 2 ^ 64"
  shows "\<exists>elf regions a rs a'. ho_parse_elf h binary = Ok elf \<and> dynamic_relocations h binary elf v = Ok rs \<and>
    pm_schema_version m = v \<and> built h binary snap elf regions a rs a' m"
proof -
  from assms(1) obtain elf load_bias regions loaded a' unresolved where elf: "ho_parse_elf h binary = Ok elf"
    and regions: "process_regions binary snap elf = Ok (load_bias, regions)"
    and loads: "fold_res (load_region binary (rg_start (hd regions)))
      (no_arrays (unat (rg_end (last regions) - rg_start (hd regions)))) regions = Ok loaded"
    and reloc: "relocate h binary elf v load_bias (rg_start (hd regions))
      (unat (rg_end (last regions) - rg_start (hd regions))) loaded = Ok (a', unresolved)"
    and m: "pm_schema_version m = v" "pm_space m = pa_space (pr_image_base (gs_program snap))" "pm_base m = rg_start (hd regions)"
      "pm_bytes m = ay_bytes a'" "pm_known m = ay_known a'" "pm_mapped m = ay_mapped a'" "pm_writable m = ay_writable a'"
      "pm_unresolved_relocation_bytes m = unresolved"
    by (auto simp: process_from_elf_version_def load_elf_def Let_def split: if_splits)
  note window = process_window [OF regions assms(2)] and spec = process_regions_spec [OF regions]
  from window(4) loads have loaded: "arrays_loaded binary (rg_start (hd regions))
      (unat (rg_end (last regions) - rg_start (hd regions))) (set regions) loaded" by simp
  then have "length (ay_bytes loaded) = unat (rg_end (last regions) - rg_start (hd regions))"
    "length (ay_known loaded) = unat (rg_end (last regions) - rg_start (hd regions))"
    "length (ay_mapped loaded) = unat (rg_end (last regions) - rg_start (hd regions))" by (simp_all add: arrays_loaded_def)
  from relocate_window [OF reloc this] obtain rs where rs: "dynamic_relocations h binary elf v = Ok rs"
    and win: "relocated_window (rg_start (hd regions)) (unat (rg_end (last regions) - rg_start (hd regions))) load_bias v rs loaded a' unresolved"
    by blast
  then have span: "length (ay_bytes a') = unat (rg_end (last regions) - rg_start (hd regions))"
    by (simp add: relocated_window_def)
  have "built h binary snap elf regions loaded rs a' m"
    using window(2,3,5) loaded win spec(1,5) unfolding built_def Let_def m span by blast
  with elf rs m(1) show ?thesis by blast
qed

lemma mask_at_Some:
  "mask_at m bits sp a = Some i \<longleftrightarrow>
    sp = pm_space m \<and> pm_base m \<le> a \<and> i = unat (a - pm_base m) \<and> i < length bits \<and> bits ! i = 255"
  by (auto simp: mask_at_def checked_sub_def get_rs_def bind_eq_Some_conv split: if_splits)

lemma built_address:
  assumes "built h binary snap elf regions a rs a' m" and "loaded_at snap elf at source w"
  shows "lands (pm_base m) (length (pm_bytes m)) (ay_mapped a) at"
    and "ay_known a ! unat (at - pm_base m) = 255"
    and "ay_writable a ! unat (at - pm_base m) = (if w then 255 else 0)"
    and "ay_bytes a ! unat (at - pm_base m) = content binary source"
proof -
  from assms obtain r where r: "r \<in> set regions" "region_source r at source w"
    and range: "pm_base m \<le> at" "unat at < unat (pm_base m) + length (pm_bytes m)"
    and loaded: "arrays_loaded binary (pm_base m) (length (pm_bytes m)) (set regions) a"
    unfolding built_def Let_def by metis
  have i: "unat (at - pm_base m) < length (pm_bytes m)" using range by (simp add: window_address word_le_nat_alt less_diff_conv2 add.commute)
  with loaded r window_address(1) [OF range(1)] have
    "ay_known a ! unat (at - pm_base m) = 255 \<and> ay_mapped a ! unat (at - pm_base m) = 255 \<and>
     ay_writable a ! unat (at - pm_base m) = (if w then 255 else 0) \<and> ay_bytes a ! unat (at - pm_base m) = content binary source"
    unfolding arrays_loaded_def by metis
  with i range show "lands (pm_base m) (length (pm_bytes m)) (ay_mapped a) at"
    "ay_known a ! unat (at - pm_base m) = 255"
    "ay_writable a ! unat (at - pm_base m) = (if w then 255 else 0)"
    "ay_bytes a ! unat (at - pm_base m) = content binary source"
    by (simp_all add: lands_iff)
qed

lemma built_unmapped:
  assumes "built h binary snap elf regions a rs a' m" and "pm_base m \<le> at" and "unat (at - pm_base m) < length (pm_bytes m)"
    and "\<nexists>source w. loaded_at snap elf at source w"
  shows "ay_known a ! unat (at - pm_base m) = 0 \<and> ay_mapped a ! unat (at - pm_base m) = 0 \<and> ay_writable a ! unat (at - pm_base m) = 0"
proof -
  from assms(1,4) have "\<forall>r \<in> set regions. \<forall>source w. \<not> region_source r at source w"
    unfolding built_def Let_def by blast
  moreover have "arrays_loaded binary (pm_base m) (length (pm_bytes m)) (set regions) a"
    using assms(1) unfolding built_def Let_def by metis
  ultimately show ?thesis using assms(3) window_address(1) [OF assms(2)] unfolding arrays_loaded_def by metis
qed

lemma built_mapped:
  assumes "built h binary snap elf regions a rs a' m"
  shows "lands (pm_base m) (length (pm_bytes m)) (ay_mapped a) at \<longleftrightarrow> (\<exists>source w. loaded_at snap elf at source w)"
  using built_address(1) [OF assms] built_unmapped [OF assms, of at] by (fastforce simp: lands_iff)

lemma built_lengths:
  assumes "built h binary snap elf regions a rs a' m"
  shows "length (pm_known m) = length (pm_bytes m)" "length (pm_mapped m) = length (pm_bytes m)" "length (pm_writable m) = length (pm_bytes m)"
    and "pm_mapped m = ay_mapped a" "pm_writable m = ay_writable a"
proof -
  from assms have "relocated_window (pm_base m) (length (pm_bytes m)) (load_bias_of snap elf) (pm_schema_version m) rs a a' (pm_unresolved_relocation_bytes m)"
    "arrays_loaded binary (pm_base m) (length (pm_bytes m)) (set regions) a"
    "pm_known m = ay_known a'" "pm_mapped m = ay_mapped a'" "pm_writable m = ay_writable a'"
    unfolding built_def Let_def by metis+
  then show "length (pm_known m) = length (pm_bytes m)" "length (pm_mapped m) = length (pm_bytes m)" "length (pm_writable m) = length (pm_bytes m)"
    "pm_mapped m = ay_mapped a" "pm_writable m = ay_writable a"
    by (simp_all add: relocated_window_def arrays_loaded_def)
qed

lemma built_masks:
  assumes "built h binary snap elf regions a rs a' m"
  shows "is_mapped m sp at \<longleftrightarrow> sp = pm_space m \<and> (\<exists>source w. loaded_at snap elf at source w)"
    and "is_writable m sp at \<longleftrightarrow> sp = pm_space m \<and> (\<exists>source. loaded_at snap elf at source True)"
proof -
  note lengths = built_lengths [OF assms]
  show "is_mapped m sp at \<longleftrightarrow> sp = pm_space m \<and> (\<exists>source w. loaded_at snap elf at source w)"
    unfolding is_mapped_def not_None_eq mask_at_Some built_mapped [OF assms, symmetric]
    using lengths by (auto simp: lands_iff)
  show "is_writable m sp at \<longleftrightarrow> sp = pm_space m \<and> (\<exists>source. loaded_at snap elf at source True)"
  proof
    assume "is_writable m sp at"
    then have w: "sp = pm_space m" "pm_base m \<le> at" "unat (at - pm_base m) < length (pm_bytes m)" "ay_writable a ! unat (at - pm_base m) = 255"
      using lengths by (auto simp: is_writable_def mask_at_Some)
    from built_unmapped [OF assms w(2,3)] w(4) obtain source p where "loaded_at snap elf at source p" by fastforce
    with built_address(3) [OF assms this] w(4) have "loaded_at snap elf at source True" by (cases p) simp_all
    with w(1) show "sp = pm_space m \<and> (\<exists>source. loaded_at snap elf at source True)" by blast
  next
    assume "sp = pm_space m \<and> (\<exists>source. loaded_at snap elf at source True)"
    then obtain source where s: "sp = pm_space m" "loaded_at snap elf at source True" by blast
    from built_address(1,3) [OF assms s(2)] s(1) lengths show "is_writable m sp at"
      by (auto simp: is_writable_def mask_at_Some lands_iff)
  qed
qed

lemma built_bytes:
  assumes "built h binary snap elf regions a rs a' m"
  shows "initial_byte m sp at = Some b \<longleftrightarrow> sp = pm_space m \<and> (\<exists>source w. loaded_at snap elf at source w \<and>
    (if writers (load_bias_of snap elf) rs at = [] then b = content binary source
     else lone_relative (load_bias_of snap elf) (pm_schema_version m) rs (is_mapped m (pm_space m)) at b))"
proof -
  let ?base = "pm_base m" and ?span = "length (pm_bytes m)" and ?bias = "load_bias_of snap elf" and ?v = "pm_schema_version m"
  let ?lands = "lands ?base ?span (ay_mapped a)"
  from assms have win: "relocated_window ?base ?span ?bias ?v rs a a' (pm_unresolved_relocation_bytes m)"
    and fields: "pm_bytes m = ay_bytes a'" "pm_known m = ay_known a'"
    unfolding built_def Let_def by metis+
  have known: "initial_byte m sp at = Some b \<longleftrightarrow> sp = pm_space m \<and> ?base \<le> at \<and> unat (at - ?base) < ?span \<and>
      ay_known a' ! unat (at - ?base) = 255 \<and> b = ay_bytes a' ! unat (at - ?base)"
    using built_lengths(1) [OF assms] by (auto simp: initial_byte_def bind_eq_Some_conv mask_at_Some fields)
  have mapped: "is_mapped m (pm_space m) = ?lands"
    by (intro ext) (simp add: built_masks [OF assms] built_mapped [OF assms])
  have fits: "\<forall>r \<in> set rs. relocation_fits ?bias r" using win by (simp add: relocated_window_def)
  show ?thesis
  proof (cases "?lands at")
    case False
    have "\<not> (ay_known a' ! unat (at - ?base) = 255)" if i: "?base \<le> at" "unat (at - ?base) < ?span"
    proof -
      have none: "\<nexists>source w. loaded_at snap elf at source w" using False built_mapped [OF assms] by blast
      have "reaching ?base ?span (ay_mapped a) ?bias rs (unat (at - ?base)) = []"
        using built_unmapped [OF assms i none] fits by (auto simp: reaching_def dests_iff [OF _ i(1)] filter_empty_conv)
      with win i have "ay_known a' ! unat (at - ?base) = ay_known a ! unat (at - ?base)" by (simp add: relocated_window_def)
      with built_unmapped [OF assms i none] show ?thesis by simp
    qed
    moreover have "\<nexists>source w. loaded_at snap elf at source w" using False built_mapped [OF assms] by blast
    ultimately show ?thesis unfolding known by blast
  next
    case True
    then have i: "?base \<le> at" "unat (at - ?base) < ?span" by (simp_all add: lands_iff)
    obtain source w where s: "loaded_at snap elf at source w" using True built_mapped [OF assms] by blast
    note reach = reaching_writers [OF fits True]
    show ?thesis
    proof (cases "writers ?bias rs at = []")
      case none: True
      with win i built_address(2,4) [OF assms s]
      have at: "ay_known a' ! unat (at - ?base) = 255" "ay_bytes a' ! unat (at - ?base) = content binary source"
        by (simp_all add: relocated_window_def reach)
      have "content binary source' = content binary source" if "loaded_at snap elf at source' w'" for source' w'
        using built_address(4) [OF assms s] built_address(4) [OF assms that] by simp
      then have "(\<exists>source w. loaded_at snap elf at source w \<and> b = content binary source) \<longleftrightarrow> b = content binary source"
        using s by blast
      with none i at show ?thesis unfolding known by simp
    next
      case some: False
      have sole: "sole_value ?base ?span (ay_mapped a) ?bias ?v rs (unat (at - ?base)) c \<longleftrightarrow> lone_relative ?bias ?v rs ?lands at c" for c
        using sole_value_lone [OF fits True] lone_sole_value [OF fits True] by blast
      from relocated_window_hit [OF win i(2)] some have "if \<exists>c. lone_relative ?bias ?v rs ?lands at c
          then ay_known a' ! unat (at - ?base) = 255 \<and> lone_relative ?bias ?v rs ?lands at (ay_bytes a' ! unat (at - ?base))
          else ay_known a' ! unat (at - ?base) = 0"
        unfolding reach sole by blast
      moreover have "c = d" if "lone_relative ?bias ?v rs ?lands at c" "lone_relative ?bias ?v rs ?lands at d" for c d
        using that by (rule lone_relative_unique)
      ultimately show ?thesis using i some s unfolding known mapped by (auto split: if_splits)
    qed
  qed
qed

theorem process_memory_by_address:
  assumes "process_from_elf_version h binary snap max_bytes v = Ok m" and "length binary < 2 ^ 64"
  shows "\<exists>elf rs. ho_parse_elf h binary = Ok elf \<and> dynamic_relocations h binary elf v = Ok rs \<and>
    (\<forall>sp a. is_mapped m sp a \<longleftrightarrow> sp = pm_space m \<and> (\<exists>source w. loaded_at snap elf a source w)) \<and>
    (\<forall>sp a. is_writable m sp a \<longleftrightarrow> sp = pm_space m \<and> (\<exists>source. loaded_at snap elf a source True)) \<and>
    (\<forall>sp a b. initial_byte m sp a = Some b \<longleftrightarrow> sp = pm_space m \<and> (\<exists>source w. loaded_at snap elf a source w \<and>
       (if writers (load_bias_of snap elf) rs a = [] then b = content binary source
        else lone_relative (load_bias_of snap elf) v rs (is_mapped m (pm_space m)) a b)))"
proof -
  from process_built [OF assms] obtain elf regions a rs a' where elf: "ho_parse_elf h binary = Ok elf"
    and rs: "dynamic_relocations h binary elf v = Ok rs" and v: "pm_schema_version m = v" and b: "built h binary snap elf regions a rs a' m"
    by blast
  from built_masks [OF b] built_bytes [OF b] elf rs show ?thesis unfolding v by blast
qed

section \<open>The constructor passes its own validation\<close>

lemma built_entry:
  assumes "built h binary snap elf regions a rs a' m" and i: "i < length (pm_bytes m)"
  shows "mask_entry_ok m i = Ok ()"
proof -
  let ?base = "pm_base m" and ?span = "length (pm_bytes m)"
  from assms(1) have win: "relocated_window ?base ?span (load_bias_of snap elf) (pm_schema_version m) rs a a' (pm_unresolved_relocation_bytes m)"
    and fields: "pm_known m = ay_known a'" and fits: "unat ?base + ?span < 2 ^ 64"
    unfolding built_def Let_def by metis+
  note lengths = built_lengths [OF assms(1)]
  let ?at = "?base + of_nat i"
  have at: "unat ?at = unat ?base + i" using i fits by (simp add: unat_word_ariths unsigned_of_nat take_bit_nat_eq_self)
  then have le: "?base \<le> ?at" by (simp add: word_le_nat_alt)
  then have idx: "unat (?at - ?base) = i" unfolding window_address(2) [OF le] at by simp
  then have n: "unat (of_nat i :: u64) = i" by simp
  have "(ay_known a ! i, ay_mapped a ! i) \<in> {(255, 255), (0, 0)} \<and> ay_writable a ! i \<in> {0, 255} \<and>
      (ay_mapped a ! i = 0 \<longrightarrow> ay_writable a ! i = 0)"
  proof (cases "\<exists>source w. loaded_at snap elf ?at source w")
    case True
    then obtain source w where "loaded_at snap elf ?at source w" by blast
    from built_address(1-3) [OF assms(1) this] show ?thesis by (simp add: lands_iff n)
  next
    case False
    from built_unmapped [OF assms(1) le _ False] i show ?thesis by (simp add: n)
  qed
  moreover have "(ay_known a' ! i = ay_known a ! i) \<or> (ay_known a' ! i = 0) \<or> (ay_known a' ! i = 255 \<and> ay_mapped a ! i = 255)"
  proof (cases "reaching ?base ?span (ay_mapped a) (load_bias_of snap elf) rs i = []")
    case True
    with win i show ?thesis by (simp add: relocated_window_def)
  next
    case False
    then obtain r where "r \<in> set (reaching ?base ?span (ay_mapped a) (load_bias_of snap elf) rs i)" by (meson last_in_set)
    then have "ay_mapped a ! i = 255" using dests_bound by (fastforce simp: reaching_mem)
    with relocated_window_hit [OF win i False] show ?thesis by (auto split: if_splits)
  qed
  ultimately show ?thesis using i lengths by (auto simp: mask_entry_ok_def fields)
qed

lemma process_fields:
  assumes "process_from_elf_version h binary snap max_bytes v = Ok m" and "length binary < 2 ^ 64"
  shows "pm_bound_to_binary m" and "v \<in> {PCODE_ELF_PROCESS_MEMORY_V1_VERSION, PCODE_ELF_PROCESS_MEMORY_VERSION}"
    and "pm_binary_sha256 m = gs_binary_sha256 snap" and "snapshot_layout_sha256 h snap = Ok (pm_snapshot_layout_sha256 m)"
    and "pm_space m = pa_space (pr_image_base (gs_program snap))"
    and "length (pm_bytes m) \<le> max_bytes" and "max_bytes \<le> PCODE_ELF_PROCESS_MEMORY_MAX_BYTES"
proof -
  from assms(1) obtain elf load_bias regions loaded a' unresolved where
    regions: "process_regions binary snap elf = Ok (load_bias, regions)"
    and loads: "fold_res (load_region binary (rg_start (hd regions)))
      (no_arrays (unat (rg_end (last regions) - rg_start (hd regions)))) regions = Ok loaded"
    and reloc: "relocate h binary elf v load_bias (rg_start (hd regions))
      (unat (rg_end (last regions) - rg_start (hd regions))) loaded = Ok (a', unresolved)"
    and rest: "pm_bytes m = ay_bytes a'" "unat (rg_end (last regions) - rg_start (hd regions)) \<le> max_bytes"
      "pm_bound_to_binary m" "v \<in> {PCODE_ELF_PROCESS_MEMORY_V1_VERSION, PCODE_ELF_PROCESS_MEMORY_VERSION}"
      "pm_binary_sha256 m = gs_binary_sha256 snap" "snapshot_layout_sha256 h snap = Ok (pm_snapshot_layout_sha256 m)"
      "pm_space m = pa_space (pr_image_base (gs_program snap))" "max_bytes \<le> PCODE_ELF_PROCESS_MEMORY_MAX_BYTES"
    by (auto simp: process_from_elf_version_def load_elf_def Let_def dest: validated_digest split: if_splits)
  from process_window(4) [OF regions assms(2)] loads have "arrays_loaded binary (rg_start (hd regions))
      (unat (rg_end (last regions) - rg_start (hd regions))) (set regions) loaded" by simp
  then have "length (ay_bytes loaded) = unat (rg_end (last regions) - rg_start (hd regions))"
    "length (ay_known loaded) = unat (rg_end (last regions) - rg_start (hd regions))"
    "length (ay_mapped loaded) = unat (rg_end (last regions) - rg_start (hd regions))" by (simp_all add: arrays_loaded_def)
  from relocate_window [OF reloc this] have "length (ay_bytes a') = unat (rg_end (last regions) - rg_start (hd regions))"
    by (auto simp: relocated_window_def)
  with rest show "pm_bound_to_binary m" "v \<in> {PCODE_ELF_PROCESS_MEMORY_V1_VERSION, PCODE_ELF_PROCESS_MEMORY_VERSION}"
    "pm_binary_sha256 m = gs_binary_sha256 snap" "snapshot_layout_sha256 h snap = Ok (pm_snapshot_layout_sha256 m)"
    "pm_space m = pa_space (pr_image_base (gs_program snap))" "length (pm_bytes m) \<le> max_bytes"
    "max_bytes \<le> PCODE_ELF_PROCESS_MEMORY_MAX_BYTES" by simp_all
qed

lemma process_validates:
  assumes "process_from_elf_version h binary snap max_bytes v = Ok m" and "length binary < 2 ^ 64"
  shows "process_validate_for_snapshot h m snap = Ok ()"
proof -
  from process_built [OF assms] obtain elf regions a rs a' where b: "pm_schema_version m = v" "built h binary snap elf regions a rs a' m"
    by blast
  note fields = process_fields [OF assms] and lengths = built_lengths [OF b(2)]
  have "pm_bytes m \<noteq> []" using b(2) unfolding built_def Let_def by auto
  moreover have "for_each (mask_entry_ok m) [0..<length (pm_bytes m)] = Ok ()"
    using built_entry [OF b(2)] by simp
  ultimately show ?thesis using fields lengths b(1)
    by (simp add: process_validate_for_snapshot_def Let_def)
qed

section \<open>The constructor never reaches a panic\<close>

definition host_total :: "host \<Rightarrow> bool" where
  \<comment> \<open>the parsers and the serializer return\<close>
  "host_total h \<longleftrightarrow> (\<forall>base spaces blocks. ho_layout_json h base spaces blocks \<noteq> Panic) \<and>
     (\<forall>binary. ho_parse_elf h binary \<noteq> Panic) \<and> (\<forall>binary. ho_parse_dynamic h binary \<noteq> Panic)"

lemma layout_no_panic: "host_total h \<Longrightarrow> snapshot_layout_sha256 h snap \<noteq> Panic"
  by (simp add: host_total_def snapshot_layout_sha256_def)

lemma load_elf_no_panic: "host_total h \<Longrightarrow> load_elf h msg binary \<noteq> Panic"
  by (auto simp: host_total_def load_elf_def rbind_Panic)

lemma block_range_no_panic: "block_range msg b \<noteq> Panic"
  by (auto simp: block_range_def rbind_Panic)

lemma add_part_no_panic:
  assumes "backed \<Longrightarrow> start \<le> part_start"
  shows "add_part b block_start block_end start offset regions (part_start, part_end, backed) \<noteq> Panic"
proof -
  have "start \<le> max part_start block_start" if backed using assms [OF that] by (simp add: le_max_iff_disj)
  then show ?thesis by (auto simp: add_part_def Let_def rbind_Panic)
qed

lemma process_regions_no_panic: "process_regions binary snap elf \<noteq> Panic"
proof -
  have block: "add_process_block sp p start file_end stop offset regions b \<noteq> Panic" for sp p start file_end stop offset regions b
    using block_range_no_panic
    by (auto simp: add_process_block_def rbind_Panic intro!: add_part_no_panic simp del: fold_res.simps)
      (auto simp: rbind_Panic add_part_no_panic)
  have "fold_res (add_process_block sp p start file_end stop offset) regions bs \<noteq> Panic" for sp p start file_end stop offset regions bs
    using block by (intro fold_res_no_panic [where P = "\<lambda>_. True"]) auto
  then have segment: "add_process_segment binary snap bias regions segment \<noteq> Panic" for bias regions segment
    by (auto simp: add_process_segment_def rbind_Panic split: option.split)
  have "fold_res scan_process_segment st xs \<noteq> Panic" for st xs
    by (rule fold_res_no_panic [where P = "\<lambda>_. True"]) (auto simp: scan_process_segment_def split: if_splits)
  moreover have "fold_res (add_process_segment binary snap bias) regions xs \<noteq> Panic" for bias regions xs
    using segment by (intro fold_res_no_panic [where P = "\<lambda>_. True"]) auto
  ultimately show ?thesis using segment by (auto simp: process_regions_def rbind_Panic Let_def split: list.split)
qed

lemma dynamic_tag_no_panic: "dynamic_tag dyns wanted \<noteq> Panic"
  by (auto simp: dynamic_tag_def split: list.split)

lemma checked_dynamic_table_no_panic: "entry_size \<noteq> 0 \<Longrightarrow> checked_dynamic_table binary headers a n entry_size count \<noteq> Panic"
  by (auto simp: checked_dynamic_table_def Let_def rbind_Panic)

lemma check_dynamic_section_no_panic: "check_dynamic_section binary parsed dyns \<noteq> Panic"
proof -
  have "entry_size \<noteq> 0" if "plt_entry_size kind n = Ok entry_size" for kind n entry_size
    using that by (auto simp: plt_entry_size_def split: option.splits if_splits)
  moreover have "plt_entry_size kind n \<noteq> Panic" for kind n by (simp add: plt_entry_size_def split: option.split)
  moreover have "check_entry_sizes dyns \<noteq> Panic"
    by (auto simp: check_entry_sizes_def Let_def rbind_Panic dynamic_tag_no_panic)
  ultimately show ?thesis
    by (simp add: check_dynamic_section_def Let_def rbind_Panic dynamic_tag_no_panic checked_dynamic_table_no_panic)
qed

lemma dynamic_relocations_no_panic: "host_total h \<Longrightarrow> dynamic_relocations h binary elf v \<noteq> Panic"
proof -
  assume h: "host_total h"
  have "v1_relocation found r \<noteq> Panic" for found r
    by (auto simp: v1_relocation_def v1_width_def split: prod.split option.split)
  then have "fold_res v1_relocation [] rs \<noteq> Panic" for rs by (intro fold_res_no_panic [where P = "\<lambda>_. True"]) auto
  moreover have "v2_relocation found r \<noteq> Panic" for found r
    by (auto simp: v2_relocation_def v2_width_def)
  then have "fold_res v2_relocation [] rs \<noteq> Panic" for rs by (intro fold_res_no_panic [where P = "\<lambda>_. True"]) auto
  ultimately show ?thesis using h check_dynamic_section_no_panic
    by (auto simp: dynamic_relocations_def host_total_def rbind_Panic split: option.split)
qed

lemma relocate_no_panic:
  assumes "host_total h" and lengths: "length (ay_bytes a) = span" "length (ay_known a) = span" "length (ay_mapped a) = span"
  shows "relocate h binary elf v load_bias base span a \<noteq> Panic"
proof
  assume panic: "relocate h binary elf v load_bias base span a = Panic"
  note hits = hit_relocations_spec [OF lengths(2,3), of base load_bias v]
  from panic dynamic_relocations_no_panic [OF assms(1)] hits(1) obtain rs rl where
    fold: "fold_res (hit_relocation base span (ay_mapped a) load_bias v)
      \<lparr>rl_known = ay_known a, rl_relocated = [], rl_hits = replicate span 0, rl_candidates = []\<rparr> rs = Ok rl"
    and rest: "fold_res (write_candidate (rl_hits rl)) (ay_bytes a, rl_known rl) (rl_candidates rl) = Panic \<or>
      (\<exists>bytes known. fold_res (write_candidate (rl_hits rl)) (ay_bytes a, rl_known rl) (rl_candidates rl) = Ok (bytes, known) \<and>
        collect_res (index_rs known :: _ \<Rightarrow> (u8, string) result) (rl_relocated rl) = Panic)"
    by (auto simp: relocate_def rbind_Panic)
  from hits(2) [OF fold] have spec: "relocated_spec base span (ay_mapped a) load_bias v (ay_known a) rs rl" .
  from candidates_written [OF spec lengths(1)] rest obtain bytes known where
    "written (rl_hits rl) (rl_candidates rl) span (ay_bytes a, rl_known rl) (bytes, known)"
    "collect_res (index_rs known :: _ \<Rightarrow> (u8, string) result) (rl_relocated rl) = Panic" by auto
  moreover have "\<forall>i \<in> set (rl_relocated rl). i < span" using spec by (simp add: relocated_spec_def hits_ok_def)
  then have "collect_res (index_rs known :: _ \<Rightarrow> (u8, string) result) (rl_relocated rl) \<noteq> Panic" if "length known = span"
    using that by (intro collect_res_no_panic) (auto simp: index_rs_def)
  ultimately show False by (simp add: written_def)
qed

lemma process_no_panic:
  assumes "host_total h" and "length binary < 2 ^ 64"
  shows "process_from_elf_version h binary snap max_bytes v \<noteq> Panic"
proof
  assume "process_from_elf_version h binary snap max_bytes v = Panic"
  then obtain elf load_bias regions where regions: "process_regions binary snap elf = Ok (load_bias, regions)"
    and rest: "(sub_u64 (rg_end (last regions)) (rg_start (hd regions)) :: (u64, string) result) = Panic \<or>
      fold_res (load_region binary (rg_start (hd regions))) (no_arrays (unat (rg_end (last regions) - rg_start (hd regions)))) regions = Panic \<or>
      (\<exists>loaded. fold_res (load_region binary (rg_start (hd regions)))
          (no_arrays (unat (rg_end (last regions) - rg_start (hd regions)))) regions = Ok loaded \<and>
        relocate h binary elf v load_bias (rg_start (hd regions)) (unat (rg_end (last regions) - rg_start (hd regions))) loaded = Panic)"
    using validate_snapshot_not_Panic load_elf_no_panic [OF assms(1)] process_regions_no_panic layout_no_panic [OF assms(1)]
    by (auto simp: process_from_elf_version_def Let_def rbind_Panic split: if_splits)
  note window = process_window [OF regions assms(2)]
  from window(4) obtain loaded where loads: "fold_res (load_region binary (rg_start (hd regions)))
      (no_arrays (unat (rg_end (last regions) - rg_start (hd regions)))) regions = Ok loaded"
    and loaded: "arrays_loaded binary (rg_start (hd regions)) (unat (rg_end (last regions) - rg_start (hd regions))) (set regions) loaded"
    by blast
  then have "relocate h binary elf v load_bias (rg_start (hd regions)) (unat (rg_end (last regions) - rg_start (hd regions))) loaded \<noteq> Panic"
    by (intro relocate_no_panic assms) (simp_all add: arrays_loaded_def)
  with rest loads window(1) show False by simp
qed

end
