(* ===== verification/Pcode_Memory.thy ===== *)
theory Pcode_Memory
  imports Pcode_Image Pcode_ProcessMemory Pcode_StepSpec
begin

text \<open>
  The three providers of initial memory behind the trait \<^verbatim>\<open>PcodeInitialMemory\<close> of
  \<^verbatim>\<open>execution.rs\<close>, the path executions that run with them, and the contract they share: a provider
  that accepts a seed keeps every run on the bytes it calls read-only.
\<close>

section \<open>The providers\<close>

definition image_memory :: "host \<Rightarrow> pcode_read_only_elf_image \<Rightarrow> initial_memory" where
  "image_memory h img = \<lparr>im_byte = image_byte img, im_mapped = (\<lambda>sp a. image_byte img sp a \<noteq> None),
     im_writable = (\<lambda>_ _. False), im_reject_unmapped_writes = False, im_validate_for = validate_image_for h img\<rparr>"

definition process_validate_for :: "host \<Rightarrow> elf_process_memory \<Rightarrow> ghidra_snapshot \<Rightarrow> concrete_state \<Rightarrow> (unit, string) result" where
  "process_validate_for h pm snap s =
     rbind (process_validate_for_snapshot h pm snap) (\<lambda>_.
     case bm_get (cs_memory_bytes s) (pm_space pm) of
       None \<Rightarrow> Ok ()
     | Some bytes \<Rightarrow>
         for_each (\<lambda>(address, v).
           if \<not> is_writable pm (pm_space pm) address \<and>
              (case initial_byte pm (pm_space pm) address of None \<Rightarrow> False | Some expected \<Rightarrow> v \<noteq> expected)
           then Err (''seed byte at '' @ pm_space pm @ '':'' @ fmt_hex address @ '' conflicts with binary read-only memory'')
           else Ok ()) bytes)"

definition process_memory :: "host \<Rightarrow> elf_process_memory \<Rightarrow> initial_memory" where
  "process_memory h pm = \<lparr>im_byte = initial_byte pm, im_mapped = is_mapped pm, im_writable = is_writable pm,
     im_reject_unmapped_writes = False, im_validate_for = process_validate_for h pm\<rparr>"

definition allocated_mapped :: "elf_process_memory \<Rightarrow> process_allocations \<Rightarrow> string \<Rightarrow> u64 \<Rightarrow> bool" where
  "allocated_mapped pm al sp a = (is_mapped pm sp a \<or> allocation_contains al sp a)"

definition allocated_writable :: "elf_process_memory \<Rightarrow> process_allocations \<Rightarrow> string \<Rightarrow> u64 \<Rightarrow> bool" where
  "allocated_writable pm al sp a = (is_writable pm sp a \<or> allocation_contains al sp a)"

definition allocated_validate_for ::
  "host \<Rightarrow> elf_process_memory \<Rightarrow> process_allocations \<Rightarrow> ghidra_snapshot \<Rightarrow> concrete_state \<Rightarrow> (unit, string) result" where
  "allocated_validate_for h pm al snap s =
     rbind (allocations_validate_for h al snap pm) (\<lambda>_.
     for_each (\<lambda>(sp, bytes).
       for_each (\<lambda>(address, v).
         if \<not> allocated_mapped pm al sp address
           then Err (''seed byte at '' @ sp @ '':'' @ fmt_hex address @ '' has no declared allocation or ELF mapping'')
         else if \<not> allocated_writable pm al sp address \<and> initial_byte pm sp address \<noteq> Some v
           then Err (''seed byte at '' @ sp @ '':'' @ fmt_hex address @ '' conflicts with read-only ELF memory'')
         else Ok ()) bytes) (cs_memory_bytes s))"

definition allocated_memory :: "host \<Rightarrow> elf_process_memory \<Rightarrow> process_allocations \<Rightarrow> initial_memory" where
  "allocated_memory h pm al = \<lparr>im_byte = initial_byte pm, im_mapped = allocated_mapped pm al,
     im_writable = allocated_writable pm al, im_reject_unmapped_writes = True,
     im_validate_for = allocated_validate_for h pm al\<rparr>"

section \<open>Execution with them\<close>

definition execute_concrete_path_with_image ::
  "host \<Rightarrow> ghidra_snapshot \<Rightarrow> concrete_state \<Rightarrow> pcode_read_only_elf_image \<Rightarrow> pcode_address option \<Rightarrow> usize \<Rightarrow> usize \<Rightarrow>
   (path_trace, string) result option" where
  "execute_concrete_path_with_image h snap s img start max_operations max_visits =
     execute_concrete_path_inner snap s (Some (image_memory h img)) start max_operations max_visits"

definition execute_concrete_path_with_process_memory ::
  "host \<Rightarrow> ghidra_snapshot \<Rightarrow> concrete_state \<Rightarrow> elf_process_memory \<Rightarrow> pcode_address option \<Rightarrow> usize \<Rightarrow> usize \<Rightarrow>
   (path_trace, string) result option" where
  "execute_concrete_path_with_process_memory h snap s pm start max_operations max_visits =
     execute_concrete_path_inner snap s (Some (process_memory h pm)) start max_operations max_visits"

definition execute_concrete_path_with_allocations ::
  "host \<Rightarrow> ghidra_snapshot \<Rightarrow> concrete_state \<Rightarrow> elf_process_memory \<Rightarrow> process_allocations \<Rightarrow> pcode_address option \<Rightarrow>
   usize \<Rightarrow> usize \<Rightarrow> (path_trace, string) result option" where
  "execute_concrete_path_with_allocations h snap s pm al start max_operations max_visits =
     execute_concrete_path_inner snap s (Some (allocated_memory h pm al)) start max_operations max_visits"

section \<open>The contract of a provider\<close>

definition honours :: "initial_memory \<Rightarrow> concrete_state \<Rightarrow> bool" where
  \<comment> \<open>no byte of the state contradicts a read-only initial byte or, where stray writes are
      rejected, lies outside the mappings\<close>
  "honours im s \<longleftrightarrow>
     (\<forall>sp a v. bm_get (space_bytes s sp) a = Some v \<longrightarrow>
        (im_writable im sp a \<or> (\<forall>b. im_byte im sp a = Some b \<longrightarrow> v = b)) \<and>
        (im_reject_unmapped_writes im \<longrightarrow> im_mapped im sp a))"

locale known_where_mapped =
  fixes im :: initial_memory
  assumes known_mapped: "im_byte im sp a = Some b \<Longrightarrow> im_mapped im sp a"
begin

lemma honours_stored:
  assumes "honours im s" and "stored sp b n v s s'" and "store_allowed (Some im) sp b n"
  shows "honours im s'"
  unfolding honours_def
proof (intro allI impI)
  fix sp' a w
  assume w: "bm_get (space_bytes s' sp') a = Some w"
  show "(im_writable im sp' a \<or> (\<forall>b. im_byte im sp' a = Some b \<longrightarrow> w = b)) \<and> (im_reject_unmapped_writes im \<longrightarrow> im_mapped im sp' a)"
  proof (cases "sp' = sp \<and> in_range a b n")
    case True
    with assms(3) show ?thesis using known_mapped by (auto simp: store_allowed_def)
  next
    case False
    with w assms(2) have "bm_get (space_bytes s sp') a = Some w" by (auto simp: stored_def split: if_splits)
    with assms(1) show ?thesis by (simp add: honours_def)
  qed
qed

lemma honours_same_bytes:
  "honours im s \<Longrightarrow> (\<And>sp a. bm_get (space_bytes s' sp) a = bm_get (space_bytes s sp) a) \<Longrightarrow> honours im s'"
  by (simp add: honours_def)

lemma honours_same_memory: "honours im s \<Longrightarrow> cs_memory_bytes s' = cs_memory_bytes s \<Longrightarrow> honours im s'"
  by (rule honours_same_bytes) (simp_all add: space_bytes_def)

lemma honours_step:
  assumes "execute_effect_operation spaces opn s (Some im) = (s', r)" and "state_wf s" and "honours im s"
  shows "honours im s'"
proof (cases "\<exists>x. r = Ok x")
  case True
  then obtain x where run: "execute_effect_operation spaces opn s (Some im) = (s', Ok x)" using assms(1) by blast
  show ?thesis
  proof (cases "is_assign (so_effect opn)")
    case True
    then obtain operation b where "so_effect opn = Assign operation b" by (auto simp: is_assign_def split: pcode_effect.splits)
    from assign_step [OF run this] have "cs_memory_bytes s' = cs_memory_bytes s" unfolding assigned_def by blast
    with assms(3) show ?thesis by (rule honours_same_memory)
  next
    case False
    from memory_step [OF run assms(2) this] obtain e where e: "memory_effect_ok (Some im) s s' e" by blast
    show ?thesis
    proof (cases e)
      case (Loaded sp b n out)
      with e have "cs_memory_bytes s' = cs_memory_bytes s" by (auto simp: loaded_def)
      with assms(3) show ?thesis by (rule honours_same_memory)
    next
      case (Stored sp b n v)
      with e assms(3) show ?thesis by (auto intro: honours_stored)
    qed
  qed
next
  case False
  from effect_operation_spec(3) [OF assms(1,2)] False have "same_view s s'" by blast
  then have "\<And>sp a. bm_get (space_bytes s' sp) a = bm_get (space_bytes s sp) a" unfolding same_view_def by blast
  with assms(3) show ?thesis by (rule honours_same_bytes)
qed

end

sublocale known_where_mapped \<subseteq> run: execution_invariant "Some im" "\<lambda>s. state_wf s \<and> honours im s"
proof unfold_locales
  fix s assume "state_wf s \<and> honours im s"
  then show "state_wf (clear_unique s) \<and> honours im (clear_unique s)"
    by (auto intro: honours_same_memory)
next
  fix s spaces opn s' r
  assume "state_wf s \<and> honours im s" and "execute_effect_operation spaces opn s (Some im) = (s', r)"
  then show "state_wf s' \<and> honours im s'" using effect_operation_spec(1) honours_step by blast
qed

context known_where_mapped begin

lemma trace_honours:
  assumes "execute_concrete_path_inner snap s (Some im) start max_operations max_visits = Some (Ok t)"
    and "state_sorted s" and "honours im s"
  shows "state_wf (pp_final_state t) \<and> honours im (pp_final_state t)"
  using run.trace_keeps [OF assms(1,2)] assms(3) by blast

end

text \<open>
  What a provider owes its client: once it accepts a seed, its known bytes are mapped and the seed
  honours them.
\<close>

locale memory_provider =
  fixes im :: initial_memory
  assumes accepts_known: "im_validate_for im snap s = Ok () \<Longrightarrow> known_where_mapped im"
    and accepts_seed: "im_validate_for im snap s = Ok () \<Longrightarrow> state_sorted s \<Longrightarrow> honours im s"
begin

lemma run_honours:
  assumes run: "execute_concrete_path_inner snap s (Some im) start max_operations max_visits = Some (Ok t)"
    and "state_sorted s"
  shows "state_wf (pp_final_state t) \<and> honours im (pp_final_state t)"
proof -
  from run have "im_validate_for im snap s = Ok ()"
    by (auto simp: execute_concrete_path_inner_def path_setup_def split: result.splits)
  note seed = accepts_known [OF this] accepts_seed [OF this assms(2)]
  show ?thesis by (rule known_where_mapped.trace_honours [OF seed(1) run assms(2) seed(2)])
qed

end

section \<open>Each provider meets the contract\<close>

lemma space_byte_listed:
  assumes "bm_get (space_bytes s sp) a = Some v"
  shows "\<exists>bytes. bm_get (cs_memory_bytes s) sp = Some bytes \<and> (sp, bytes) \<in> set (cs_memory_bytes s) \<and> (a, v) \<in> set bytes"
  using assms by (auto simp: space_bytes_def bm_get_def split: option.splits dest: map_of_SomeD)

interpretation image_provider: memory_provider "image_memory h img" for h img
proof unfold_locales
  show "im_mapped (image_memory h img) sp a" if "im_byte (image_memory h img) sp a = Some b" for sp a b
    using that by (simp add: image_memory_def)
next
  fix snap s
  assume "im_validate_for (image_memory h img) snap s = Ok ()"
  then have seed: "validate_readonly_image s img = Ok ()"
    by (auto simp: image_memory_def validate_image_for_def Let_def split: if_splits)
  have "v = b" if "bm_get (space_bytes s sp) a = Some v" "image_byte img sp a = Some b" for sp a v b
  proof -
    have "sp = ri_space img" using that(2) by (simp add: image_byte_def split: if_splits)
    with space_byte_listed [OF that(1)] that(2) seed show ?thesis
      by (fastforce simp: validate_readonly_image_def split: if_splits)
  qed
  then show "honours (image_memory h img) s" by (simp add: honours_def image_memory_def)
qed

lemma validated_known_mapped:
  assumes "process_validate_for_snapshot h pm snap = Ok ()" and "initial_byte pm sp a = Some b"
  shows "is_mapped pm sp a"
proof -
  from assms(1) have lengths: "length (pm_known pm) = length (pm_bytes pm)" "length (pm_mapped pm) = length (pm_bytes pm)"
    and entries: "\<forall>i < length (pm_bytes pm). mask_entry_ok pm i = Ok ()"
    by (auto simp: process_validate_for_snapshot_def Let_def split: if_splits)
  from assms(2) obtain i where i: "sp = pm_space pm" "pm_base pm \<le> a" "i = unat (a - pm_base pm)" "i < length (pm_known pm)" "pm_known pm ! i = 255"
    by (auto simp: initial_byte_def bind_eq_Some_conv mask_at_Some)
  with entries lengths have "mask_entry_ok pm i = Ok ()" by simp
  with i lengths have "pm_mapped pm ! i = 255" by (auto simp: mask_entry_ok_def split: if_splits)
  with i lengths show ?thesis by (simp add: is_mapped_def mask_at_Some)
qed

interpretation process_provider: memory_provider "process_memory h pm" for h pm
proof unfold_locales
  fix snap s sp a b
  assume "im_validate_for (process_memory h pm) snap s = Ok ()" and "im_byte (process_memory h pm) sp a = Some b"
  then show "im_mapped (process_memory h pm) sp a"
    by (auto simp: process_memory_def process_validate_for_def intro: validated_known_mapped)
next
  fix snap s
  assume ok: "im_validate_for (process_memory h pm) snap s = Ok ()"
  have "v = b" if "bm_get (space_bytes s sp) a = Some v" "initial_byte pm sp a = Some b" "\<not> is_writable pm sp a" for sp a v b
  proof -
    have "sp = pm_space pm" using that(2) by (auto simp: initial_byte_def bind_eq_Some_conv mask_at_Some)
    with space_byte_listed [OF that(1)] that(2,3) ok show ?thesis
      by (fastforce simp: process_memory_def process_validate_for_def split: if_splits)
  qed
  then show "honours (process_memory h pm) s" by (auto simp: honours_def process_memory_def)
qed

lemma allocations_process:
  "allocations_validate_for h al snap pm = Ok () \<Longrightarrow> process_validate_for_snapshot h pm snap = Ok ()"
  by (auto simp: allocations_validate_for_def Let_def)

lemma allocated_accepts:
  assumes "allocated_validate_for h pm al snap s = Ok ()"
  shows "process_validate_for_snapshot h pm snap = Ok ()"
    and "\<forall>(sp, bytes) \<in> set (cs_memory_bytes s). \<forall>(a, v) \<in> set bytes.
      allocated_mapped pm al sp a \<and> (allocated_writable pm al sp a \<or> initial_byte pm sp a = Some v)"
  using assms by (fastforce simp: allocated_validate_for_def intro: allocations_process split: if_splits)+

interpretation allocated_provider: memory_provider "allocated_memory h pm al" for h pm al
proof unfold_locales
  fix snap s sp a b
  assume "im_validate_for (allocated_memory h pm al) snap s = Ok ()" and "im_byte (allocated_memory h pm al) sp a = Some b"
  then show "im_mapped (allocated_memory h pm al) sp a"
    by (auto simp: allocated_memory_def allocated_mapped_def dest!: allocated_accepts(1) intro: validated_known_mapped)
next
  fix snap s
  assume ok: "im_validate_for (allocated_memory h pm al) snap s = Ok ()"
  have "allocated_mapped pm al sp a \<and> (allocated_writable pm al sp a \<or> initial_byte pm sp a = Some v)"
    if "bm_get (space_bytes s sp) a = Some v" for sp a v
    using space_byte_listed [OF that] allocated_accepts(2) [of h pm al snap s] ok
    by (fastforce simp: allocated_memory_def)
  then show "honours (allocated_memory h pm al) s" by (fastforce simp: honours_def allocated_memory_def)
qed

section \<open>The declared allocations are disjoint\<close>

definition in_allocation :: "process_allocation \<Rightarrow> u64 \<Rightarrow> bool" where
  "in_allocation r a \<longleftrightarrow> unat (al_base r) \<le> unat a \<and> unat a < unat (al_base r) + unat (al_byte_len r)"

lemma allocation_contains_iff:
  "allocation_contains al sp a \<longleftrightarrow> (\<exists>r \<in> set (ac_regions al). al_space r = sp \<and> in_allocation r a)"
proof -
  have "al_base r \<le> a \<and> a - al_base r < al_byte_len r \<longleftrightarrow> in_allocation r a" for r
    by (auto simp: in_allocation_def word_le_nat_alt word_less_nat_alt unat_sub_if')
  then show ?thesis by (auto simp: allocation_contains_def list_ex_iff)
qed

lemma check_allocation_Ok:
  assumes "check_allocation pm process_end (sum_len, seen) r = Ok (sum_len', seen')"
  shows "al_space r = pm_space pm \<and> al_byte_len r \<noteq> 0 \<and> kind_code (al_kind r) \<notin> set seen \<and>
    set seen' = insert (kind_code (al_kind r)) (set seen) \<and> unat (al_base r) + unat (al_byte_len r) < 2 ^ 64 \<and>
    unat sum_len' = unat sum_len + unat (al_byte_len r) \<and> sum_len' \<le> PCODE_PROCESS_ALLOCATION_MAX_BYTES \<and>
    (\<forall>a. in_allocation r a \<longrightarrow> \<not> (pm_base pm \<le> a \<and> a < process_end))"
proof -
  from assms have ok: "al_space r = pm_space pm" "al_byte_len r \<noteq> 0" "kind_code (al_kind r) \<notin> set seen"
    "set seen' = insert (kind_code (al_kind r)) (set seen)" "unat (al_base r) + unat (al_byte_len r) < 2 ^ 64"
    "unat sum_len + unat (al_byte_len r) < 2 ^ 64" "sum_len' = sum_len + al_byte_len r"
    "sum_len' \<le> PCODE_PROCESS_ALLOCATION_MAX_BYTES" "\<not> (al_base r < process_end \<and> pm_base pm < al_base r + al_byte_len r)"
    by (auto simp: check_allocation_def not_less split: if_splits)
  then have "unat (al_base r + al_byte_len r) = unat (al_base r) + unat (al_byte_len r)" "unat sum_len' = unat sum_len + unat (al_byte_len r)"
    by (simp_all add: unat_word_ariths)
  with ok show ?thesis by (auto simp: in_allocation_def word_le_nat_alt word_less_nat_alt)
qed

lemma check_allocations_Ok:
  assumes "fold_res (check_allocation pm process_end) (sum_len, seen) rs = Ok (sum_len', seen')"
    and "sum_len \<le> PCODE_PROCESS_ALLOCATION_MAX_BYTES"
  shows "\<forall>r \<in> set rs. al_space r = pm_space pm \<and> al_byte_len r \<noteq> 0 \<and> kind_code (al_kind r) \<notin> set seen \<and>
      unat (al_base r) + unat (al_byte_len r) < 2 ^ 64 \<and> (\<forall>a. in_allocation r a \<longrightarrow> \<not> (pm_base pm \<le> a \<and> a < process_end))"
    and "distinct (map (kind_code \<circ> al_kind) rs)"
    and "unat sum_len + (\<Sum>r \<leftarrow> rs. unat (al_byte_len r)) \<le> unat PCODE_PROCESS_ALLOCATION_MAX_BYTES"
  using assms
proof (induction rs arbitrary: sum_len seen)
  case (Cons r rs)
  {
    case 1
    then obtain t u where "check_allocation pm process_end (sum_len, seen) r = Ok (t, u)"
      and "fold_res (check_allocation pm process_end) (t, u) rs = Ok (sum_len', seen')" by auto
    with check_allocation_Ok [OF this(1)] Cons.IH(1) [OF this(2)] show ?case by auto
  next
    case 2
    then obtain t u where "check_allocation pm process_end (sum_len, seen) r = Ok (t, u)"
      and "fold_res (check_allocation pm process_end) (t, u) rs = Ok (sum_len', seen')" by auto
    note step = check_allocation_Ok [OF this(1)] and rest = Cons.IH(1,2) [OF this(2)]
    from step rest(1) have "\<forall>q \<in> set rs. kind_code (al_kind q) \<noteq> kind_code (al_kind r)" by auto
    then have "kind_code (al_kind r) \<notin> set (map (kind_code \<circ> al_kind) rs)" by (auto dest: sym)
    with step rest(2) show ?case by simp
  next
    case 3
    then obtain t u where "check_allocation pm process_end (sum_len, seen) r = Ok (t, u)"
      and "fold_res (check_allocation pm process_end) (t, u) rs = Ok (sum_len', seen')" by auto
    with check_allocation_Ok [OF this(1)] Cons.IH(3) [OF this(2)] show ?case by simp
  }
qed (simp_all add: word_le_nat_alt)

lemma two_allocations_disjoint:
  assumes "check_two_allocations [r, q] = Ok ()" and "in_allocation r a"
    and "unat (al_base r) + unat (al_byte_len r) < 2 ^ 64" and "unat (al_base q) + unat (al_byte_len q) < 2 ^ 64"
  shows "\<not> in_allocation q a"
proof -
  from assms(3,4) have ends: "unat (al_base r + al_byte_len r) = unat (al_base r) + unat (al_byte_len r)"
    "unat (al_base q + al_byte_len q) = unat (al_base q) + unat (al_byte_len q)"
    by (simp_all add: unat_word_ariths)
  have "add_u64 (al_base q) (al_byte_len q) = (Ok (al_base q + al_byte_len q) :: (u64, string) result)"
    "add_u64 (al_base r) (al_byte_len r) = (Ok (al_base r + al_byte_len r) :: (u64, string) result)"
    using assms(3,4) by (simp_all add: add_u64_def checked_add_def)
  with assms(1) have "\<not> (al_base r < al_base q + al_byte_len q \<and> al_base q < al_base r + al_byte_len r)"
    by (auto simp: check_two_allocations_def split: if_splits)
  with ends assms(2) show ?thesis by (auto simp: in_allocation_def word_less_nat_alt)
qed

lemma allocations_validated:
  assumes "allocations_validate_for h al snap pm = Ok ()"
  shows "length (ac_regions al) \<le> 2" and "distinct (map al_kind (ac_regions al))"
    and "(\<Sum>r \<leftarrow> ac_regions al. unat (al_byte_len r)) \<le> 1048576"
    and "\<forall>r \<in> set (ac_regions al). al_space r = pm_space pm \<and> al_byte_len r \<noteq> 0 \<and>
      (\<forall>a. in_allocation r a \<longrightarrow> \<not> is_mapped pm (pm_space pm) a)"
    and "\<forall>r \<in> set (ac_regions al). \<forall>q \<in> set (ac_regions al). \<forall>a. in_allocation r a \<and> in_allocation q a \<longrightarrow> r = q"
proof -
  from assms obtain st where valid: "process_validate_for_snapshot h pm snap = Ok ()" and two: "length (ac_regions al) \<le> 2"
    and fits: "unat (pm_base pm) + unat (of_nat (length (pm_bytes pm)) :: u64) < 2 ^ 64"
    and run: "fold_res (check_allocation pm (pm_base pm + of_nat (length (pm_bytes pm)))) (0, []) (ac_regions al) = Ok st"
    and apart: "check_two_allocations (ac_regions al) = Ok ()"
    by (auto simp: allocations_validate_for_def Let_def not_less split: if_splits)
  obtain t u where "st = (t, u)" by (cases st)
  with check_allocations_Ok [of pm _ 0 "[]" "ac_regions al" t u] run
  have each: "\<forall>r \<in> set (ac_regions al). al_space r = pm_space pm \<and> al_byte_len r \<noteq> 0 \<and>
      unat (al_base r) + unat (al_byte_len r) < 2 ^ 64 \<and>
      (\<forall>a. in_allocation r a \<longrightarrow> \<not> (pm_base pm \<le> a \<and> a < pm_base pm + of_nat (length (pm_bytes pm))))"
    and kinds: "distinct (map (kind_code \<circ> al_kind) (ac_regions al))"
    and sum_len: "(\<Sum>r \<leftarrow> ac_regions al. unat (al_byte_len r)) \<le> unat PCODE_PROCESS_ALLOCATION_MAX_BYTES"
    by (auto simp: PCODE_PROCESS_ALLOCATION_MAX_BYTES_def)
  show "length (ac_regions al) \<le> 2" by (rule two)
  show kind: "distinct (map al_kind (ac_regions al))" using kinds by (metis distinct_map list.map_comp)
  show "(\<Sum>r \<leftarrow> ac_regions al. unat (al_byte_len r)) \<le> 1048576" using sum_len by (simp add: PCODE_PROCESS_ALLOCATION_MAX_BYTES_def)
  from valid have len: "length (pm_mapped pm) = length (pm_bytes pm)" "length (pm_bytes pm) \<le> 1048576"
    by (auto simp: process_validate_for_snapshot_def Let_def PCODE_ELF_PROCESS_MEMORY_MAX_BYTES_def not_less split: if_splits)
  then have stop: "unat (pm_base pm + of_nat (length (pm_bytes pm))) = unat (pm_base pm) + length (pm_bytes pm)"
    using fits by (simp add: unat_word_ariths unsigned_of_nat take_bit_nat_eq_self)
  have "pm_base pm \<le> a \<and> a < pm_base pm + of_nat (length (pm_bytes pm))" if "is_mapped pm (pm_space pm) a" for a
    using that stop len by (auto simp: is_mapped_def mask_at_Some word_less_nat_alt word_le_nat_alt unat_sub_if')
  with each show "\<forall>r \<in> set (ac_regions al). al_space r = pm_space pm \<and> al_byte_len r \<noteq> 0 \<and>
      (\<forall>a. in_allocation r a \<longrightarrow> \<not> is_mapped pm (pm_space pm) a)" by blast
  show "\<forall>r \<in> set (ac_regions al). \<forall>q \<in> set (ac_regions al). \<forall>a. in_allocation r a \<and> in_allocation q a \<longrightarrow> r = q"
  proof (cases "\<exists>r q. ac_regions al = [r, q]")
    case True
    then obtain r q where "ac_regions al = [r, q]" by blast
    with apart each two_allocations_disjoint [of r q] show ?thesis by auto
  next
    case False
    with two show ?thesis by (cases "ac_regions al" rule: remdups_adj.cases) auto
  qed
qed

end
