(* ===== verification/Pcode_Calls.thy ===== *)
theory Pcode_Calls
  imports Pcode_Imports Pcode_Memory
begin

text \<open>
  \<^verbatim>\<open>hydir-ir/src/pcode/interprocedural.rs\<close>: concrete paths that follow calls and returns across several
  snapshots of one program, each segment a run of \<^verbatim>\<open>execute_concrete_path_inner\<close>, and the contract applied
  at a call of the import \<^verbatim>\<open>strlen\<close>. The digests, serializers and parsers are the record
  \<open>call_services\<close>.
\<close>

section \<open>Traces\<close>

definition PCODE_CALL_PATH_VERSION :: u32 where "PCODE_CALL_PATH_VERSION = 2"
definition PCODE_CALL_PATH_ALLOCATED_PROCESS_VERSION :: u32 where "PCODE_CALL_PATH_ALLOCATED_PROCESS_VERSION = 3"
definition PCODE_CALL_PATH_IMPORT_CONTRACT_VERSION :: u32 where "PCODE_CALL_PATH_IMPORT_CONTRACT_VERSION = 4"
definition MAX_SNAPSHOTS :: usize where "MAX_SNAPSHOTS = 128"
definition MAX_SEGMENTS :: usize where "MAX_SEGMENTS = 128"
definition MAX_CALL_DEPTH :: usize where "MAX_CALL_DEPTH = 16"
definition MISSING_CALLEE_REASON :: string where "MISSING_CALLEE_REASON = ''CALL callee snapshot is unavailable''"
definition MAX_IMPORT_STRING_BYTES :: nat where "MAX_IMPORT_STRING_BYTES = 4096"

record call_path_segment =
  sg_function_entry :: pcode_address
  sg_snapshot_sha256 :: string
  sg_path :: path_trace

record call_transition =
  tr_caller_entry :: pcode_address
  tr_callee_entry :: pcode_address
  tr_call_site :: pcode_address
  tr_return_address :: pcode_address
  tr_depth :: usize

record call_process_binding =
  pb_process_memory_sha256 :: string
  pb_allocations :: process_allocations

record contracted_import_call =
  cn_call_site :: pcode_address
  cn_plt_target :: pcode_address
  cn_got :: pcode_address
  cn_name :: string
  cn_return_address :: pcode_address
  cn_result :: u64
  cn_contract_version :: u32
  cn_binding_assumption :: string

datatype call_path_stop =
    PathReturn pcode_operation
  | CallBoundary pcode_operation string
  | ReturnBoundary pcode_operation string
  | PathBoundary path_stop
  | SegmentBudget

record interprocedural_trace =
  it_schema_version :: u32
  it_binary_sha256 :: string
  it_process_binding :: "call_process_binding option"
  it_root_entry :: pcode_address
  it_segments :: "call_path_segment list"
  it_calls :: "call_transition list"
  it_contracted_imports :: "contracted_import_call list"
  it_snapshot_diagnostics :: "string list"
  it_executed_operations :: usize
  it_instruction_visits :: usize
  it_final_state :: concrete_state
  it_stop :: call_path_stop
  it_semantic_fidelity :: semantic_fidelity
  it_verification :: verification_status

record frame =
  fr_caller_index :: usize
  fr_return_address :: pcode_address

record call_services =
  \<comment> \<open>the host, the JSON of a snapshot and of a process memory, and goblin's parser\<close>
  ks_host :: host
  ks_snapshot_json :: "ghidra_snapshot \<Rightarrow> (u8 list, string) result"
  ks_process_json :: "elf_process_memory \<Rightarrow> (u8 list, string) result"
  ks_parse_imports :: "u8 list \<Rightarrow> (elf_import_metadata, string) result"

section \<open>The target of a call\<close>

definition path_key :: "pcode_address \<Rightarrow> (address_key, string) result" where
  \<comment> \<open>the function \<^verbatim>\<open>key\<close>\<close>
  "path_key a = map_ok (\<lambda>v. (pa_space a, v)) (hex_u64 (pa_offset a))"

definition same_site :: "pcode_address \<Rightarrow> pcode_address \<Rightarrow> bool" where
  "same_site a b = (to_option (path_key a) = to_option (path_key b))"

definition evidence_target :: "ghidra_call_target \<Rightarrow> address_key option" where
  "evidence_target c = Option.bind (ct_target c) (\<lambda>t. to_option (path_key t))"

definition call_evidence_ok :: "bool \<Rightarrow> ghidra_call_target list \<Rightarrow> pcode_address \<Rightarrow> (bool, string) result" where
  \<comment> \<open>one unconditional record: of that target for a direct call; computed, of that or no target, otherwise\<close>
  "call_evidence_ok direct calls target =
     (case calls of
        [c] \<Rightarrow>
          if direct then
            (if ct_conditional c \<or> ct_computed c then Ok False
             else map_ok (\<lambda>k. evidence_target c = Some k) (path_key target))
          else
            (if \<not> ct_computed c \<or> ct_conditional c then Ok False
             else if ct_target c = None then Ok True
             else map_ok (\<lambda>k. evidence_target c = Some k) (path_key target))
      | _ \<Rightarrow> Ok False)"

definition call_value :: "bool \<Rightarrow> pcode_varnode \<Rightarrow> concrete_state \<Rightarrow> (u64, string) result" where
  "call_value direct input s =
     (if direct then hex_u64 (vn_offset input)
      else rbind (read_varnode s input) (ok_or ''CALLIND target is unknown in concrete state''))"

definition call_continuation :: "ghidra_snapshot \<Rightarrow> pcode_address \<Rightarrow> (pcode_address, string) result" where
  \<comment> \<open>the one analyzed fallthrough of the call site, inside the caller\<close>
  "call_continuation snap site =
     (case filter (\<lambda>e. fl_kind e = Fallthrough \<and> same_site (fl_source e) site) (sf_flow_edges (gs_selected_function snap)) of
        [e] \<Rightarrow>
          rbind (ok_or ''CALL fallthrough target is unresolved'' (fl_target e)) (\<lambda>continuation.
          if \<not> list_ex (\<lambda>i. same_site (in_address i) continuation) (sf_instructions (gs_selected_function snap))
            then Err ''CALL fallthrough is outside its caller''
          else Ok continuation)
      | _ \<Rightarrow> Err ''CALL has no unique analyzed fallthrough'')"

definition call_target ::
  "ghidra_snapshot \<Rightarrow> pcode_operation \<Rightarrow> pcode_address \<Rightarrow> concrete_state \<Rightarrow> (pcode_address \<times> pcode_address, string) result" where
  \<comment> \<open>the callee entry and the continuation in the caller\<close>
  "call_target snap source site s =
     (let direct = (op_opcode source = 7) in
      if op_opcode source \<noteq> 7 \<and> op_opcode source \<noteq> 8 \<or>
         op_mnemonic source \<noteq> (if direct then ''CALL'' else ''CALLIND'') \<or>
         length (op_inputs source) \<noteq> 1 \<or> op_output source \<noteq> None
        then Err ''only validated CALL or CALLIND P-code can enter a callee''
      else
        rbind (index_rs (op_inputs source) 0) (\<lambda>input.
        let target_space = (if direct then vn_space input else pa_space site) in
        rbind (ok_or ''CALL target has an unknown address space''
                 (List.find (\<lambda>sp. as_name sp = target_space) (gs_address_spaces snap))) (\<lambda>sp.
        if vn_size input \<noteq> as_pointer_size sp \<or> \<not> size_in 1 8 (vn_size input)
          then Err ''CALL target width differs from its address space''
        else
          rbind (call_value direct input s) (\<lambda>v.
          let target = \<lparr>pa_space = as_name sp, pa_offset = fmt_hex v\<rparr>;
              calls = filter (\<lambda>c. same_site (ct_call_site c) site) (sf_call_targets (gs_selected_function snap)) in
          rbind (call_evidence_ok direct calls target) (\<lambda>ok.
          if \<not> ok then Err ''CALL target disagrees with Ghidra call evidence''
          else map_ok (\<lambda>continuation. (target, continuation)) (call_continuation snap site))))))"

definition unloaded_call_target :: "ghidra_snapshot list \<Rightarrow> interprocedural_trace \<Rightarrow> (pcode_address option, string) result" where
  \<comment> \<open>a callee worth exporting; every error of \<^verbatim>\<open>call_target\<close> is \<open>None\<close>\<close>
  "unloaded_call_target snapshots trace =
     (case it_stop trace of
        CallBoundary source reason \<Rightarrow>
          if reason \<noteq> MISSING_CALLEE_REASON \<or> it_segments trace = [] then Ok None
          else
            let segment = last (it_segments trace) in
            if pp_stop (sg_path segment) \<noteq> CallStop source then Ok None
            else case List.find (\<lambda>snap. sf_entry (gs_selected_function snap) = sg_function_entry segment) snapshots of
              None \<Rightarrow> Ok None
            | Some snap \<Rightarrow>
                if pp_instruction_visits (sg_path segment) = [] then Ok None
                else case call_target snap source (last (pp_instruction_visits (sg_path segment))) (it_final_state trace) of
                  Err _ \<Rightarrow> Ok None
                | Panic \<Rightarrow> Panic
                | Ok (target, _) \<Rightarrow>
                    if list_ex (\<lambda>snap. sf_entry (gs_selected_function snap) = target) snapshots \<or>
                       \<not> list_ex (\<lambda>f. fe_entry f = target) (gs_functions snap)
                      then Ok None else Ok (Some target)
      | _ \<Rightarrow> Ok None)"

definition internal_process_target :: "ghidra_snapshot \<Rightarrow> elf_process_memory \<Rightarrow> pcode_address \<Rightarrow> bool" where
  "internal_process_target snap pm target =
     (pa_space target = pm_space pm \<and>
      (case hex_u64 (pa_offset target) of
         Ok address \<Rightarrow>
           is_mapped pm (pa_space target) address \<and> initial_byte pm (pa_space target) address \<noteq> None \<and>
           list_ex (\<lambda>b. pa_space (mb_start b) = pa_space target \<and> mb_loaded b \<and> mb_execute b \<and> \<not> mb_overlay b \<and>
             (mb_name b = ''.text'' \<or> starts_with ''.text.'' (mb_name b)) \<and>
             (case hex_u64 (pa_offset (mb_start b)) of Ok start \<Rightarrow> start \<le> address | _ \<Rightarrow> False) \<and>
             (case hex_u64 (pa_offset (mb_end b)) of Ok stop \<Rightarrow> address \<le> stop | _ \<Rightarrow> False)) (gs_memory_blocks snap)
       | _ \<Rightarrow> False))"

section \<open>The import contract\<close>

definition abi_register :: "ghidra_snapshot \<Rightarrow> string \<Rightarrow> (pcode_varnode, string) result" where
  "abi_register snap name =
     rbind (ok_or (''SysV import contract requires Ghidra '' @ name @ '' layout'')
              (List.find (\<lambda>r. rl_name r = name) (gs_register_layout snap))) (\<lambda>layout.
     if rl_size_bytes layout \<noteq> 8 \<or> pa_space (rl_storage layout) \<noteq> ''register''
       then Err (''SysV import contract has invalid Ghidra '' @ name @ '' layout'')
     else Ok \<lparr>vn_space = ''register'', vn_offset = pa_offset (rl_storage layout), vn_size = 8\<rparr>)"

fun range_overlaps :: "u64 \<Rightarrow> (u64 \<times> u32) list \<Rightarrow> (bool, 'e) result" where
  \<comment> \<open>the closure given to \<^verbatim>\<open>any\<close>, with the additions that panic on overflow\<close>
  "range_overlaps start [] = Ok False"
| "range_overlaps start ((other, _) # ranges) =
     rbind (add_u64 other 8) (\<lambda>other_end.
     if start < other_end
     then rbind (add_u64 start 8) (\<lambda>stop. if other < stop then Ok True else range_overlaps start ranges)
     else range_overlaps start ranges)"

definition add_register_range ::
  "(u64 \<times> u32) list \<Rightarrow> pcode_varnode \<Rightarrow> ((u64 \<times> u32) list, string) result" where
  "add_register_range ranges node =
     rbind (hex_u64 (vn_offset node)) (\<lambda>start.
     rbind (range_overlaps start ranges) (\<lambda>overlaps.
     if overlaps then Err ''SysV import register layout overlaps'' else Ok (ranges @ [(start, 8)])))"

definition preserve_register ::
  "ghidra_snapshot \<Rightarrow> (u64 \<times> u32) list \<times> (u64 \<times> u32) list \<Rightarrow> string \<Rightarrow>
   ((u64 \<times> u32) list \<times> (u64 \<times> u32) list, string) result" where
  \<comment> \<open>a callee-saved register, when the layout names it\<close>
  "preserve_register snap st name =
     (let (ranges, preserve) = st in
      if \<not> list_ex (\<lambda>r. rl_name r = name) (gs_register_layout snap) then Ok st
      else
        rbind (abi_register snap name) (\<lambda>node.
        map_ok (\<lambda>ranges'. (ranges', preserve @ [last ranges'])) (add_register_range ranges node)))"

fun find_terminator :: "(u64 \<Rightarrow> (u8, string) result) \<Rightarrow> u64 \<Rightarrow> nat \<Rightarrow> nat \<Rightarrow> (nat option, string) result" where
  \<comment> \<open>\<^verbatim>\<open>for offset in 0..MAX_IMPORT_STRING_BYTES\<close> with its break: the remaining iterations and the offset\<close>
  "find_terminator byte pointer 0 offset = Ok None"
| "find_terminator byte pointer (Suc n) offset =
     rbind (ok_or ''strlen argument pointer overflows'' (checked_add pointer (word_of_nat offset))) (\<lambda>address.
     rbind (byte address) (\<lambda>b. if b = 0 then Ok (Some offset) else find_terminator byte pointer n (Suc offset)))"

definition strlen_byte ::
  "concrete_state \<Rightarrow> elf_process_memory \<Rightarrow> process_allocations \<Rightarrow> u64 \<Rightarrow> (u8, string) result" where
  "strlen_byte s pm al address =
     (if \<not> is_mapped pm (pm_space pm) address \<and> \<not> allocation_contains al (pm_space pm) address
        then Err (''strlen reads unmapped byte at '' @ fmt_hex address)
      else
        rbind (read_memory s (pm_space pm) address 1) (\<lambda>known.
        ok_or (''strlen byte at '' @ fmt_hex address @ '' is unknown'')
          (case known of Some v \<Rightarrow> Some (ucast v) | None \<Rightarrow> initial_byte pm (pm_space pm) address)))"

definition stack_slot_declared :: "elf_process_memory \<Rightarrow> process_allocations \<Rightarrow> u64 \<Rightarrow> u64 \<Rightarrow> bool" where
  "stack_slot_declared pm al stack_pointer stack_end =
     list_ex (\<lambda>r. al_kind r = StackAllocation \<and> al_space r = pm_space pm \<and> stack_pointer \<ge> al_base r \<and>
       (case checked_add (al_base r) (al_byte_len r) of None \<Rightarrow> False | Some stop \<Rightarrow> stack_end \<le> stop)) (ac_regions al)"

definition check_return_slot ::
  "concrete_state \<Rightarrow> elf_process_memory \<Rightarrow> pcode_address \<Rightarrow> u64 \<Rightarrow> (unit, string) result" where
  "check_return_slot s pm continuation stack_pointer =
     rbind (read_memory s (pm_space pm) stack_pointer 8) (\<lambda>known.
     rbind (ok_or ''strlen return slot bytes are unknown'' known) (\<lambda>return_address.
     let differs = Err ''strlen return slot differs from analyzed caller continuation'' in
     if pa_space continuation \<noteq> pm_space pm then differs
     else rbind (hex_u64 (pa_offset continuation)) (\<lambda>expected. if return_address \<noteq> expected then differs else Ok ())))"

definition callee_saved :: "string list" where
  "callee_saved = [''RBX'', ''RBP'', ''R12'', ''R13'', ''R14'', ''R15'']"

definition apply_strlen_contract ::
  "ghidra_snapshot \<Rightarrow> concrete_state \<Rightarrow> elf_process_memory \<Rightarrow> process_allocations \<Rightarrow> pcode_address \<Rightarrow>
   (concrete_state \<times> u64, string) result" where
  "apply_strlen_contract snap s pm al continuation =
     rbind (abi_register snap ''RAX'') (\<lambda>rax.
     rbind (abi_register snap ''RDI'') (\<lambda>rdi.
     rbind (abi_register snap ''RSP'') (\<lambda>rsp.
     rbind (fold_res add_register_range [] [rax, rdi, rsp]) (\<lambda>register_ranges.
     rbind (hex_u64 (vn_offset rsp)) (\<lambda>rsp_offset.
     rbind (fold_res (preserve_register snap) (register_ranges, [(rsp_offset, 8)]) callee_saved) (\<lambda>(_, preserve).
     rbind (rbind (read_varnode s rdi) (ok_or ''strlen argument pointer is unknown'')) (\<lambda>pointer.
     rbind (rbind (read_varnode s rsp) (ok_or ''strlen return stack pointer is unknown'')) (\<lambda>stack_pointer.
     rbind (ok_or ''strlen return stack pointer overflows'' (checked_add stack_pointer 8)) (\<lambda>stack_end.
     if \<not> stack_slot_declared pm al stack_pointer stack_end then Err ''strlen return slot is outside the declared stack''
     else
       rbind (check_return_slot s pm continuation stack_pointer) (\<lambda>_.
       rbind (find_terminator (strlen_byte s pm al) pointer MAX_IMPORT_STRING_BYTES 0) (\<lambda>found.
       rbind (ok_or ''strlen terminator exceeds 4096-byte contract budget'' found) (\<lambda>count.
       rbind (write_varnode (retain_register_ranges s preserve) rax (word_of_nat count)) (\<lambda>s1.
       rbind (write_varnode s1 rsp stack_end) (\<lambda>s2. Ok (s2, word_of_nat count)))))))))))))))"

definition apply_import_contract ::
  "elf_import_call \<Rightarrow> ghidra_snapshot \<Rightarrow> concrete_state \<Rightarrow> elf_process_memory \<Rightarrow> process_allocations \<Rightarrow> pcode_address \<Rightarrow>
   (concrete_state \<times> u64, string) result" where
  "apply_import_contract import snap s pm al continuation =
     (if ic_name import = ''strlen'' then apply_strlen_contract snap s pm al continuation
      else Err (''import '' @ ic_name import @ '' has no checked SysV call contract''))"

end
