(* ===== verification/Pcode_CallPath.thy ===== *)
theory Pcode_CallPath
  imports Pcode_Calls
begin

text \<open>
  \<^verbatim>\<open>execute_concrete_call_path_inner\<close> and the functions that call it. The outer \<^verbatim>\<open>loop\<close> is \<open>run_loop\<close>;
  an exit of \<^const>\<open>None\<close> is a segment whose own loop never ends. The call stack \<^verbatim>\<open>frames\<close> is a list
  with its top first.
\<close>

section \<open>Before the loop\<close>

record call_context =
  kx_services :: call_services
  kx_snapshots :: "ghidra_snapshot list"
  kx_index :: "(address_key, nat) btree_map"
  kx_digests :: "string list"
  kx_image :: "pcode_read_only_elf_image option"
  kx_allocated :: "(elf_process_memory \<times> process_allocations) option"
  kx_import_binary :: "u8 list option"
  kx_max_operations :: usize
  kx_max_visits :: usize
  kx_max_depth :: usize

definition snapshot_digest :: "call_services \<Rightarrow> ghidra_snapshot \<Rightarrow> (string, string) result" where
  "snapshot_digest services snap = map_ok (ho_sha256 (ks_host services)) (ks_snapshot_json services snap)"

definition check_call_snapshot ::
  "call_services \<Rightarrow> ghidra_snapshot \<Rightarrow> (elf_process_memory \<times> process_allocations) option \<Rightarrow>
   (address_key, nat) btree_map \<times> string list \<Rightarrow> nat \<times> ghidra_snapshot \<Rightarrow>
   ((address_key, nat) btree_map \<times> string list, string) result" where
  "check_call_snapshot services root allocated st p =
     (let (index, digests) = st; (number, snap) = p in
      rbind (validate_ghidra_snapshot snap (gs_binary_sha256 root)) (\<lambda>_.
      rbind (case allocated of None \<Rightarrow> Ok ()
             | Some (pm, al) \<Rightarrow> allocations_validate_for (ks_host services) al snap pm) (\<lambda>_.
      if gs_program snap \<noteq> gs_program root \<or> gs_address_spaces snap \<noteq> gs_address_spaces root \<or>
         gs_functions snap \<noteq> gs_functions root \<or> gs_flow_overrides_applied snap \<noteq> gs_flow_overrides_applied root
        then Err ''call path snapshots disagree on analyzed program identity''
      else
        rbind (path_key (sf_entry (gs_selected_function snap))) (\<lambda>k.
        if bm_contains index k then Err ''call path has duplicate selected function entries''
        else map_ok (\<lambda>digest. (bm_insert k number index, digests @ [digest])) (snapshot_digest services snap)))))"

record call_state =
  ck_current :: usize
  ck_start :: pcode_address
  ck_state :: concrete_state
  ck_frames :: "frame list"
  ck_segments :: "call_path_segment list"
  ck_calls :: "call_transition list"
  ck_imports :: "contracted_import_call list"
  ck_indices :: "elf_import_index option list"
  ck_executed :: usize
  ck_visits :: usize

type_synonym call_exit = "(call_state \<times> (call_path_stop, string) result) option"

definition call_setup ::
  "call_services \<Rightarrow> ghidra_snapshot list \<Rightarrow> pcode_read_only_elf_image option \<Rightarrow>
   (elf_process_memory \<times> process_allocations) option \<Rightarrow> u8 list option \<Rightarrow> usize \<Rightarrow> usize \<Rightarrow> usize \<Rightarrow>
   (call_context \<times> ghidra_snapshot, string) result" where
  "call_setup services snapshots img allocated import_binary max_operations max_visits max_depth =
     rbind (ok_or ''call path requires a root snapshot'' (get_rs snapshots 0)) (\<lambda>root.
     if length snapshots > MAX_SNAPSHOTS then Err ''call path snapshot limit exceeded''
     else if max_operations > MAX_OPERATIONS \<or> max_visits > MAX_OPERATIONS \<or> max_depth > MAX_CALL_DEPTH
       then Err ''call path budget exceeds artifact limit''
     else
       map_ok (\<lambda>(index, digests).
         (\<lparr>kx_services = services, kx_snapshots = snapshots, kx_index = index, kx_digests = digests, kx_image = img,
            kx_allocated = allocated, kx_import_binary = import_binary, kx_max_operations = max_operations,
            kx_max_visits = max_visits, kx_max_depth = max_depth\<rparr>, root))
         (fold_res (check_call_snapshot services root allocated) ([], []) (List.enumerate 0 snapshots)))"

definition start_calls :: "ghidra_snapshot \<Rightarrow> concrete_state \<Rightarrow> nat \<Rightarrow> call_state" where
  "start_calls root s count =
     \<lparr>ck_current = 0, ck_start = sf_entry (gs_selected_function root), ck_state = s, ck_frames = [], ck_segments = [],
      ck_calls = [], ck_imports = [], ck_indices = replicate count None, ck_executed = 0, ck_visits = 0\<rparr>"

section \<open>One segment\<close>

definition run_segment :: "call_context \<Rightarrow> ghidra_snapshot \<Rightarrow> call_state \<Rightarrow> (path_trace, string) result option" where
  "run_segment ctx snap st =
     (let operations = kx_max_operations ctx - ck_executed st; visits = kx_max_visits ctx - ck_visits st;
          h = ks_host (kx_services ctx)
      in case kx_allocated ctx of
           Some (pm, al) \<Rightarrow>
             execute_concrete_path_with_allocations h snap (ck_state st) pm al (Some (ck_start st)) operations visits
         | None \<Rightarrow>
             (case kx_image ctx of
                Some img \<Rightarrow> execute_concrete_path_with_image h snap (ck_state st) img (Some (ck_start st)) operations visits
              | None \<Rightarrow> execute_concrete_path snap (ck_state st) (Some (ck_start st)) operations visits))"

definition segment_operations :: "path_trace \<Rightarrow> nat" where
  \<comment> \<open>the events other than fallthroughs, and the call or return that ends the segment\<close>
  "segment_operations path =
     length (filter is_operation_event (pp_events path)) +
     (case pp_stop path of CallStop _ \<Rightarrow> 1 | ReturnStop _ \<Rightarrow> 1 | _ \<Rightarrow> 0)"

definition record_segment :: "ghidra_snapshot \<Rightarrow> string \<Rightarrow> path_trace \<Rightarrow> call_state \<Rightarrow> call_state" where
  "record_segment snap digest path st =
     st\<lparr>ck_executed := ck_executed st + segment_operations path,
        ck_visits := ck_visits st + length (pp_instruction_visits path),
        ck_state := pp_final_state path,
        ck_segments := ck_segments st @ [\<lparr>sg_function_entry = sf_entry (gs_selected_function snap),
          sg_snapshot_sha256 = digest, sg_path = path\<rparr>]\<rparr>"

section \<open>Its end\<close>

definition stop_calls :: "call_state \<Rightarrow> call_path_stop \<Rightarrow> call_state + call_exit" where
  "stop_calls st stop = Inr (Some (st, Ok stop))"

definition fail_calls :: "call_state \<Rightarrow> string \<Rightarrow> call_state + call_exit" where
  "fail_calls st e = Inr (Some (st, Err e))"

definition panic_calls :: "call_state \<Rightarrow> call_state + call_exit" where
  "panic_calls st = Inr (Some (st, Panic))"

definition binding_assumption :: "string \<Rightarrow> string" where
  "binding_assumption name = ''ELF JUMP_SLOT '' @ name @ '' resolves to a conforming SysV '' @ name"

definition import_step ::
  "call_context \<Rightarrow> ghidra_snapshot \<Rightarrow> elf_process_memory \<Rightarrow> process_allocations \<Rightarrow> pcode_operation \<Rightarrow>
   pcode_address \<Rightarrow> pcode_address \<Rightarrow> pcode_address \<Rightarrow> elf_import_call \<Rightarrow> call_state \<Rightarrow> call_state + call_exit" where
  \<comment> \<open>a linked import: its contract in place of a callee\<close>
  "import_step ctx snap pm al source site target continuation import st =
     (if length (ck_frames st) \<ge> kx_max_depth ctx then stop_calls st (CallBoundary source ''call depth budget exhausted'')
      else case apply_import_contract import snap (ck_state st) pm al continuation of
        Err reason \<Rightarrow> stop_calls st (CallBoundary source reason)
      | Panic \<Rightarrow> panic_calls st
      | Ok (s', result_value) \<Rightarrow>
          Inl (st\<lparr>ck_state := s', ck_start := continuation,
            ck_imports := ck_imports st @ [\<lparr>cn_call_site = site, cn_plt_target = target, cn_got = ic_got import,
              cn_name = ic_name import, cn_return_address = continuation, cn_result = result_value,
              cn_contract_version = 1, cn_binding_assumption = binding_assumption (ic_name import)\<rparr>]\<rparr>))"

definition load_import_index :: "call_context \<Rightarrow> ghidra_snapshot \<Rightarrow> u8 list \<Rightarrow> call_state \<Rightarrow> (call_state \<times> elf_import_index, string) result" where
  \<comment> \<open>built at the first call of a snapshot, then kept\<close>
  "load_import_index ctx snap binary st =
     (case get_rs (ck_indices st) (ck_current st) of
        None \<Rightarrow> Panic
      | Some (Some index) \<Rightarrow> Ok (st, index)
      | Some None \<Rightarrow>
          map_ok (\<lambda>index. (st\<lparr>ck_indices := (ck_indices st)[ck_current st := Some index]\<rparr>, index))
            (import_index_from_elf (ks_parse_imports (kx_services ctx)) (ks_host (kx_services ctx)) binary snap))"

definition enter_callee ::
  "call_context \<Rightarrow> ghidra_snapshot \<Rightarrow> pcode_operation \<Rightarrow> pcode_address \<Rightarrow> pcode_address \<Rightarrow> pcode_address \<Rightarrow>
   call_state \<Rightarrow> call_state + call_exit" where
  "enter_callee ctx snap source site target continuation st =
     (if (case kx_allocated ctx of None \<Rightarrow> False | Some (pm, _) \<Rightarrow> \<not> internal_process_target snap pm target)
        then stop_calls st (CallBoundary source ''CALL target is not a loaded internal executable ELF function'')
      else if length (ck_frames st) \<ge> kx_max_depth ctx
        then stop_calls st (CallBoundary source ''call depth budget exhausted'')
      else case path_key target of
        Err e \<Rightarrow> fail_calls st e
      | Panic \<Rightarrow> panic_calls st
      | Ok k \<Rightarrow>
          (case bm_get (kx_index ctx) k of
             None \<Rightarrow> stop_calls st (CallBoundary source MISSING_CALLEE_REASON)
           | Some callee \<Rightarrow>
               Inl (st\<lparr>ck_calls := ck_calls st @ [\<lparr>tr_caller_entry = sf_entry (gs_selected_function snap),
                     tr_callee_entry = target, tr_call_site = site, tr_return_address = continuation,
                     tr_depth = length (ck_frames st) + 1\<rparr>],
                   ck_frames := \<lparr>fr_caller_index = ck_current st, fr_return_address = continuation\<rparr> # ck_frames st,
                   ck_current := callee, ck_start := target\<rparr>)))"

definition follow_call ::
  "call_context \<Rightarrow> ghidra_snapshot \<Rightarrow> pcode_operation \<Rightarrow> pcode_address option \<Rightarrow> call_state \<Rightarrow> call_state + call_exit" where
  "follow_call ctx snap source visited st =
     (case visited of
        None \<Rightarrow> stop_calls st (CallBoundary source ''CALL instruction was not visited'')
      | Some site \<Rightarrow>
          (case call_target snap source site (ck_state st) of
             Err reason \<Rightarrow> stop_calls st (CallBoundary source reason)
           | Panic \<Rightarrow> panic_calls st
           | Ok (target, continuation) \<Rightarrow>
               (case (kx_import_binary ctx, kx_allocated ctx) of
                  (Some binary, Some (pm, al)) \<Rightarrow>
                    (case load_import_index ctx snap binary st of
                       Err reason \<Rightarrow> stop_calls st (CallBoundary source reason)
                     | Panic \<Rightarrow> panic_calls st
                     | Ok (st', index) \<Rightarrow>
                         (case List.find (\<lambda>c. ic_call_site c = site \<and> ic_plt_target c = target) (ix_calls index) of
                            Some import \<Rightarrow> import_step ctx snap pm al source site target continuation import st'
                          | None \<Rightarrow> enter_callee ctx snap source site target continuation st'))
                | _ \<Rightarrow> enter_callee ctx snap source site target continuation st)))"

definition return_target_ok :: "ghidra_snapshot \<Rightarrow> pcode_varnode \<Rightarrow> u64 \<Rightarrow> pcode_address \<Rightarrow> (bool, string) result" where
  "return_target_ok snap pointer actual expected =
     (let pointer_size = (case List.find (\<lambda>sp. as_name sp = pa_space expected) (gs_address_spaces snap) of
        None \<Rightarrow> 0 | Some sp \<Rightarrow> as_pointer_size sp) in
      if vn_size pointer \<noteq> pointer_size then Ok False
      else map_ok (\<lambda>v. actual = v) (hex_u64 (pa_offset expected)))"

definition follow_return ::
  "ghidra_snapshot \<Rightarrow> pcode_operation \<Rightarrow> call_state \<Rightarrow> call_state + call_exit" where
  "follow_return snap source st =
     (case ck_frames st of
        [] \<Rightarrow> stop_calls st (PathReturn source)
      | fr # frames \<Rightarrow>
          let st' = st\<lparr>ck_frames := frames\<rparr>; boundary = (\<lambda>reason. stop_calls st' (ReturnBoundary source reason)) in
          case get_rs (op_inputs source) 0 of
            None \<Rightarrow> boundary ''RETURN has no target varnode''
          | Some pointer \<Rightarrow>
              (case read_varnode (ck_state st) pointer of
                 Err reason \<Rightarrow> boundary reason
               | Panic \<Rightarrow> panic_calls st'
               | Ok None \<Rightarrow> boundary ''callee RETURN target is unknown''
               | Ok (Some actual) \<Rightarrow>
                   (case return_target_ok snap pointer actual (fr_return_address fr) of
                      Err e \<Rightarrow> fail_calls st' e
                    | Panic \<Rightarrow> panic_calls st'
                    | Ok False \<Rightarrow> boundary ''callee RETURN target differs from analyzed caller continuation''
                    | Ok True \<Rightarrow> Inl (st'\<lparr>ck_current := fr_caller_index fr, ck_start := fr_return_address fr\<rparr>))))"

definition end_segment :: "call_context \<Rightarrow> ghidra_snapshot \<Rightarrow> path_trace \<Rightarrow> call_state \<Rightarrow> call_state + call_exit" where
  "end_segment ctx snap path st =
     (case pp_stop path of
        CallStop source \<Rightarrow>
          follow_call ctx snap source
            (if pp_instruction_visits path = [] then None else Some (last (pp_instruction_visits path))) st
      | ReturnStop source \<Rightarrow> follow_return snap source st
      | stop \<Rightarrow> stop_calls st (PathBoundary stop))"

definition call_step :: "call_context \<Rightarrow> call_state \<Rightarrow> call_state + call_exit" where
  "call_step ctx st =
     (if length (ck_segments st) \<ge> MAX_SEGMENTS then stop_calls st SegmentBudget
      else case get_rs (kx_snapshots ctx) (ck_current st) of
        None \<Rightarrow> panic_calls st
      | Some snap \<Rightarrow>
          (case run_segment ctx snap st of
             None \<Rightarrow> Inr None
           | Some (Err e) \<Rightarrow> fail_calls st e
           | Some Panic \<Rightarrow> panic_calls st
           | Some (Ok path) \<Rightarrow>
               (case get_rs (kx_digests ctx) (ck_current st) of
                  None \<Rightarrow> panic_calls st
                | Some digest \<Rightarrow> end_segment ctx snap path (record_segment snap digest path st))))"

section \<open>The whole run\<close>

definition process_binding ::
  "call_services \<Rightarrow> (elf_process_memory \<times> process_allocations) option \<Rightarrow> (call_process_binding option, string) result" where
  "process_binding services allocated =
     (case allocated of
        None \<Rightarrow> Ok None
      | Some (pm, al) \<Rightarrow>
          map_ok (\<lambda>bytes. Some \<lparr>pb_process_memory_sha256 = ho_sha256 (ks_host services) bytes, pb_allocations = al\<rparr>)
            (ks_process_json services pm))"

definition call_trace_of :: "call_context \<Rightarrow> ghidra_snapshot \<Rightarrow> call_state \<Rightarrow> call_path_stop \<Rightarrow> (interprocedural_trace, string) result" where
  "call_trace_of ctx root st stop =
     map_ok (\<lambda>binding.
       \<lparr>it_schema_version =
          (if kx_import_binary ctx \<noteq> None then PCODE_CALL_PATH_IMPORT_CONTRACT_VERSION
           else if kx_allocated ctx \<noteq> None then PCODE_CALL_PATH_ALLOCATED_PROCESS_VERSION else PCODE_CALL_PATH_VERSION),
        it_binary_sha256 = gs_binary_sha256 root, it_process_binding = binding,
        it_root_entry = sf_entry (gs_selected_function root), it_segments = ck_segments st, it_calls = ck_calls st,
        it_contracted_imports = ck_imports st, it_snapshot_diagnostics = [],
        it_executed_operations = ck_executed st, it_instruction_visits = ck_visits st,
        it_final_state = ck_state st, it_stop = stop, it_semantic_fidelity = Unknown, it_verification = NotRun\<rparr>)
       (process_binding (kx_services ctx) (kx_allocated ctx))"

definition execute_concrete_call_path_inner ::
  "call_services \<Rightarrow> ghidra_snapshot list \<Rightarrow> concrete_state \<Rightarrow> pcode_read_only_elf_image option \<Rightarrow>
   (elf_process_memory \<times> process_allocations) option \<Rightarrow> u8 list option \<Rightarrow> usize \<Rightarrow> usize \<Rightarrow> usize \<Rightarrow>
   (interprocedural_trace, string) result option" where
  "execute_concrete_call_path_inner services snapshots s img allocated import_binary max_operations max_visits max_depth =
     (case call_setup services snapshots img allocated import_binary max_operations max_visits max_depth of
        Err e \<Rightarrow> Some (Err e)
      | Panic \<Rightarrow> Some Panic
      | Ok (ctx, root) \<Rightarrow>
          Option.bind (run_loop (call_step ctx) (start_calls root s (length snapshots)))
            (map_option (\<lambda>(st, r). rbind r (call_trace_of ctx root st))))"

definition execute_concrete_call_path ::
  "call_services \<Rightarrow> ghidra_snapshot list \<Rightarrow> concrete_state \<Rightarrow> usize \<Rightarrow> usize \<Rightarrow> usize \<Rightarrow> (interprocedural_trace, string) result option" where
  "execute_concrete_call_path services snapshots s max_operations max_visits max_depth =
     execute_concrete_call_path_inner services snapshots s None None None max_operations max_visits max_depth"

definition execute_concrete_call_path_with_image ::
  "call_services \<Rightarrow> ghidra_snapshot list \<Rightarrow> concrete_state \<Rightarrow> pcode_read_only_elf_image \<Rightarrow> usize \<Rightarrow> usize \<Rightarrow> usize \<Rightarrow>
   (interprocedural_trace, string) result option" where
  "execute_concrete_call_path_with_image services snapshots s img max_operations max_visits max_depth =
     execute_concrete_call_path_inner services snapshots s (Some img) None None max_operations max_visits max_depth"

definition execute_concrete_call_path_with_allocations ::
  "call_services \<Rightarrow> ghidra_snapshot list \<Rightarrow> concrete_state \<Rightarrow> elf_process_memory \<Rightarrow> process_allocations \<Rightarrow>
   usize \<Rightarrow> usize \<Rightarrow> usize \<Rightarrow> (interprocedural_trace, string) result option" where
  "execute_concrete_call_path_with_allocations services snapshots s pm al max_operations max_visits max_depth =
     execute_concrete_call_path_inner services snapshots s None (Some (pm, al)) None max_operations max_visits max_depth"

definition execute_concrete_call_path_with_imports ::
  "call_services \<Rightarrow> ghidra_snapshot list \<Rightarrow> concrete_state \<Rightarrow> u8 list \<Rightarrow> elf_process_memory \<Rightarrow> process_allocations \<Rightarrow>
   usize \<Rightarrow> usize \<Rightarrow> usize \<Rightarrow> (interprocedural_trace, string) result option" where
  "execute_concrete_call_path_with_imports services snapshots s binary pm al max_operations max_visits max_depth =
     (if ho_sha256 (ks_host services) binary \<noteq> pm_binary_sha256 pm
      then Some (Err ''import contract binary disagrees with ELF process memory'')
      else execute_concrete_call_path_inner services snapshots s None (Some (pm, al)) (Some binary)
        max_operations max_visits max_depth)"

end
