(* ===== verification/Pcode_ImportsSpec.thy ===== *)
theory Pcode_ImportsSpec
  imports Pcode_Imports
begin

text \<open>
  What the import index says: its calls are, up to repetition, the direct calls of the function whose
  stub jumps through the slot of a named, undefined symbol.
\<close>

section \<open>Slots and stubs\<close>

definition jump_slot :: "elf_import_metadata \<Rightarrow> u64 \<Rightarrow> string \<Rightarrow> bool" where
  \<comment> \<open>a relocation binds the slot to an undefined symbol of that name, in a writable segment\<close>
  "jump_slot elf slot name \<longleftrightarrow>
     (\<exists>r \<in> set (ei_pltrelocs elf). er_type r = R_X86_64_JUMP_SLOT \<and> er_offset r = slot \<and>
        import_name elf (er_sym r) = Ok name \<and>
        (\<exists>header \<in> set (ei_headers elf). ph_type header = PT_LOAD \<and> ih_flags header AND PF_W \<noteq> 0 \<and>
           unat (ph_vaddr header) \<le> unat slot \<and> unat slot + 8 \<le> unat (ph_vaddr header) + unat (ih_memsz header)))"

definition stub_at :: "u8 list \<Rightarrow> nat \<Rightarrow> nat \<Rightarrow> i32 \<Rightarrow> bool" where
  \<comment> \<open>at a file offset: an optional \<^verbatim>\<open>endbr64\<close> of the given length and a jump through a displacement\<close>
  "stub_at binary i prefix displacement \<longleftrightarrow> i + 10 \<le> length binary \<and>
     (prefix = 4 \<and> take 4 (drop i binary) = [0xf3, 0x0f, 0x1e, 0xfa] \<or>
      prefix = 0 \<and> take 4 (drop i binary) \<noteq> [0xf3, 0x0f, 0x1e, 0xfa]) \<and>
     take 2 (drop (i + prefix) binary) = [0xff, 0x25] \<and>
     displacement = le_word (take 4 (drop (i + prefix + 2) binary))"

definition executable_offset :: "import_header list \<Rightarrow> u64 \<Rightarrow> nat \<Rightarrow> bool" where
  \<comment> \<open>the file offset behind ten executable bytes\<close>
  "executable_offset headers a i \<longleftrightarrow>
     (\<exists>header \<in> set headers. ph_type header = PT_LOAD \<and> ih_flags header AND PF_X \<noteq> 0 \<and>
        unat (ph_vaddr header) \<le> unat a \<and> unat a + 10 \<le> unat (ph_vaddr header) + unat (ph_filesz header) \<and>
        i = unat (ph_offset header) + (unat a - unat (ph_vaddr header)))"

lemma find_map_Some: "find_map f xs = Some y \<Longrightarrow> \<exists>x \<in> set xs. f x = Some y"
  by (induction xs) (auto split: option.splits)

lemma executable_bytes_Some:
  assumes "executable_bytes headers binary a 10 = Some bs"
  shows "\<exists>i. executable_offset headers a i \<and> i + 10 \<le> length binary \<and> bs = take 10 (drop i binary)"
proof -
  from assms obtain header where small: "unat a + unat (word_of_nat 10 :: u64) < 2 ^ 64" and header: "header \<in> set headers"
    "header_bytes binary a (a + word_of_nat 10) 10 header = Some bs"
    by (auto simp: executable_bytes_def bind_eq_Some_conv dest: find_map_Some)
  have ten: "unat (word_of_nat 10 :: u64) = 10" by simp
  with small have stop: "unat (a + word_of_nat 10) = unat a + 10" by (simp add: unat_word_ariths)
  from header(2) have h: "ph_type header = PT_LOAD" "ih_flags header AND PF_X \<noteq> 0" "ph_vaddr header \<le> a"
    "unat (ph_vaddr header) + unat (ph_filesz header) < 2 ^ 64" "a + word_of_nat 10 \<le> ph_vaddr header + ph_filesz header"
    "unat (ph_offset header) + unat (a - ph_vaddr header) < 2 ^ 64"
    "slice_rs binary (unat (ph_offset header + (a - ph_vaddr header))) (unat (ph_offset header + (a - ph_vaddr header)) + 10) = Some bs"
    by (auto simp: header_bytes_def bind_eq_Some_conv not_less split: if_splits)
  from h(3,6) have offset: "unat (ph_offset header + (a - ph_vaddr header)) = unat (ph_offset header) + (unat a - unat (ph_vaddr header))"
    by (simp add: unat_word_ariths unat_sub_if' word_le_nat_alt)
  moreover from h(4) have "unat (ph_vaddr header + ph_filesz header) = unat (ph_vaddr header) + unat (ph_filesz header)"
    by (simp add: unat_word_ariths)
  ultimately have "executable_offset headers a (unat (ph_offset header) + (unat a - unat (ph_vaddr header)))"
    using header(1) h(1-3,5) stop unfolding executable_offset_def word_le_nat_alt by auto
  with h(7) offset show ?thesis by (auto simp: slice_rs_def split: if_splits)
qed

lemma plt_got_address_Some:
  assumes "plt_got_address headers binary target = Some slot"
  shows "\<exists>i prefix displacement. executable_offset headers target i \<and> stub_at binary i prefix displacement \<and>
    uint slot = uint target + int (prefix + 6) + sint displacement"
proof -
  from assms obtain bs where bs: "executable_bytes headers binary target 10 = Some bs"
    by (auto simp: plt_got_address_def bind_eq_Some_conv)
  from executable_bytes_Some [OF this] obtain i where i: "executable_offset headers target i" "i + 10 \<le> length binary"
    "bs = take 10 (drop i binary)" by blast
  have first: "take 4 bs = take 4 (drop i binary)" using i(3) by simp
  have part: "slice_rs bs n m = (if n \<le> m \<and> m \<le> 10 then Some (take (m - n) (drop (i + n) binary)) else None)" for n m
    using i(2,3) by (auto simp: slice_rs_def drop_take min_def add.commute)
  have "stub_at binary i prefix displacement \<and> uint slot = uint target + int (prefix + 6) + sint displacement"
    if "prefix = (if take 4 bs = [0xf3, 0x0f, 0x1e, 0xfa] then 4 else 0)"
      "displacement = le_word (take 4 (drop (i + prefix + 2) binary))" for prefix displacement
    using assms bs first i(2) that
    by (auto simp: plt_got_address_def bind_eq_Some_conv part Let_def stub_at_def add.assoc split: if_splits)
      (simp_all add: add.commute)
  with i(1) show ?thesis by blast
qed

lemma add_import_Ok:
  assumes "add_import elf imports r = Ok imports'"
  shows "set imports' = set imports \<union> (if er_type r = R_X86_64_JUMP_SLOT then {(er_offset r, the (to_option (import_name elf (er_sym r))))} else {})"
    and "er_type r = R_X86_64_JUMP_SLOT \<Longrightarrow> \<exists>name. import_name elf (er_sym r) = Ok name \<and>
      (\<exists>header \<in> set (ei_headers elf). ph_type header = PT_LOAD \<and> ih_flags header AND PF_W \<noteq> 0 \<and>
         unat (ph_vaddr header) \<le> unat (er_offset r) \<and>
         unat (er_offset r) + 8 \<le> unat (ph_vaddr header) + unat (ih_memsz header))"
proof -
  show "set imports' = set imports \<union> (if er_type r = R_X86_64_JUMP_SLOT then {(er_offset r, the (to_option (import_name elf (er_sym r))))} else {})"
    using assms by (auto simp: add_import_def split: if_splits)
next
  assume "er_type r = R_X86_64_JUMP_SLOT"
  with assms obtain name header where name: "import_name elf (er_sym r) = Ok name" and small: "unat (er_offset r) + 8 < 2 ^ 64"
    and header: "header \<in> set (ei_headers elf)" "slot_in_header (er_offset r) (er_offset r + 8) header"
    by (auto simp: add_import_def list_ex_iff split: if_splits)
  from small have stop: "unat (er_offset r + 8) = unat (er_offset r) + 8" by (simp add: unat_word_ariths)
  from header(2) have "ph_type header = PT_LOAD \<and> ih_flags header AND PF_W \<noteq> 0 \<and> unat (ph_vaddr header) \<le> unat (er_offset r) \<and>
      unat (er_offset r) + 8 \<le> unat (ph_vaddr header) + unat (ih_memsz header)"
    using stop by (auto simp: slot_in_header_def word_le_nat_alt unat_word_ariths split: option.splits)
  with name header(1) show "\<exists>name. import_name elf (er_sym r) = Ok name \<and>
      (\<exists>header \<in> set (ei_headers elf). ph_type header = PT_LOAD \<and> ih_flags header AND PF_W \<noteq> 0 \<and>
         unat (ph_vaddr header) \<le> unat (er_offset r) \<and>
         unat (er_offset r) + 8 \<le> unat (ph_vaddr header) + unat (ih_memsz header))" by blast
qed

lemma read_imports_slots:
  assumes "read_imports parse binary = Ok (imports, elf)"
  shows "parse binary = Ok elf" and "(slot, name) \<in> set imports \<Longrightarrow> jump_slot elf slot name"
proof -
  from assms show "parse binary = Ok elf" by (auto simp: read_imports_def Let_def split: if_splits)
  assume "(slot, name) \<in> set imports"
  with assms obtain dyns found where found: "plt_imports binary elf dyns = Ok found" "(slot, name) \<in> set found"
    by (auto simp: read_imports_def Let_def split: if_splits option.splits)
  then have run: "fold_res (add_import elf) [] (ei_pltrelocs elf) = Ok found" by (auto simp: plt_imports_def)
  from fold_res_collects [OF this, where A = "\<lambda>r. if er_type r = R_X86_64_JUMP_SLOT
      then {(er_offset r, the (to_option (import_name elf (er_sym r))))} else {}"] add_import_Ok(1) found(2)
  obtain r where r: "r \<in> set (ei_pltrelocs elf)" "er_type r = R_X86_64_JUMP_SLOT" "slot = er_offset r"
    "name = the (to_option (import_name elf (er_sym r)))"
    by (auto split: if_splits)
  from fold_res_step_at [OF run r(1)] obtain u v where "add_import elf u r = Ok v" by blast
  from add_import_Ok(2) [OF this r(2)] r show "jump_slot elf slot name" unfolding jump_slot_def by force
qed

section \<open>Links\<close>

definition direct_call :: "string \<Rightarrow> ghidra_call_target \<Rightarrow> pcode_address \<Rightarrow> bool" where
  "direct_call sp call target \<longleftrightarrow> \<not> ct_computed call \<and> \<not> ct_conditional call \<and> ct_target call = Some target \<and>
     pa_space target = sp \<and> pa_space (ct_call_site call) = sp"

definition linked :: "elf_import_metadata \<Rightarrow> u8 list \<Rightarrow> int \<Rightarrow> pcode_address \<Rightarrow> pcode_address \<Rightarrow> string \<Rightarrow> bool" where
  \<comment> \<open>the stub at the target jumps through the slot, which binds the name\<close>
  "linked elf binary bias target got name \<longleftrightarrow>
     (\<exists>t g i prefix displacement slot stub. hex_u64 (pa_offset target) = Ok t \<and> hex_u64 (pa_offset got) = Ok g \<and>
        uint t = uint stub + bias \<and> uint g = uint slot + bias \<and> jump_slot elf slot name \<and>
        executable_offset (ei_headers elf) stub i \<and> stub_at binary i prefix displacement \<and>
        uint slot = uint stub + int (prefix + 6) + sint displacement)"

definition addr_value :: "pcode_address \<Rightarrow> u64" where
  "addr_value a = (case hex_u64 (pa_offset a) of Ok v \<Rightarrow> v | _ \<Rightarrow> 0)"

lemma addr_value_Ok [simp]: "hex_u64 (pa_offset a) = Ok v \<Longrightarrow> addr_value a = v"
  by (simp add: addr_value_def)

definition link_key_of :: "elf_import_call \<Rightarrow> link_key" where
  "link_key_of c = (pa_space (ic_call_site c), addr_value (ic_call_site c), addr_value (ic_plt_target c))"

definition makes_link ::
  "string \<Rightarrow> int \<Rightarrow> import_header list \<Rightarrow> u8 list \<Rightarrow> elf_import list \<Rightarrow> ghidra_call_target \<Rightarrow> elf_import_call \<Rightarrow> bool" where
  "makes_link sp bias headers binary imports call c \<longleftrightarrow>
     direct_call sp call (ic_plt_target c) \<and> ic_call_site c = ct_call_site call \<and>
     (\<exists>t import. hex_u64 (pa_offset (ic_plt_target c)) = Ok t \<and> stub_import sp bias headers binary imports t = Some import \<and>
        ic_got c = ip_got import \<and> ic_name c = ip_name import)"

lemma makes_link_unique:
  "makes_link sp bias headers binary imports call c \<Longrightarrow> makes_link sp bias headers binary imports call d \<Longrightarrow> c = d"
  by (cases c; cases d) (auto simp: makes_link_def direct_call_def)

lemma link_call_cases:
  assumes "link_call sp bias headers binary imports (calls, seen) call = Ok (calls', seen')"
  shows "(\<forall>c. \<not> makes_link sp bias headers binary imports call c) \<and> calls' = calls \<and> seen' = seen \<or>
    (\<exists>c. makes_link sp bias headers binary imports call c \<and>
      (link_key_of c \<in> seen \<and> calls' = calls \<and> seen' = seen \<or>
       link_key_of c \<notin> seen \<and> calls' = calls @ [c] \<and> seen' = insert (link_key_of c) seen))"
proof (cases "\<exists>target. direct_call sp call target")
  case False
  with assms show ?thesis by (auto simp: link_call_def direct_call_def makes_link_def split: option.splits if_splits)
next
  case True
  then obtain target where target: "direct_call sp call target" by blast
  then have only: "direct_call sp call target' \<longleftrightarrow> target' = target" for target' by (auto simp: direct_call_def)
  from assms target obtain t where t: "hex_u64 (pa_offset target) = Ok t"
    by (auto simp: link_call_def direct_call_def)
  show ?thesis
  proof (cases "stub_import sp bias headers binary imports t")
    case None
    with assms target t only show ?thesis by (auto simp: link_call_def direct_call_def makes_link_def)
  next
    case (Some import)
    let ?c = "\<lparr>ic_call_site = ct_call_site call, ic_plt_target = target, ic_got = ip_got import, ic_name = ip_name import\<rparr>"
    from assms target t Some obtain site where site: "hex_u64 (pa_offset (ct_call_site call)) = Ok site"
      by (auto simp: link_call_def direct_call_def)
    have link: "makes_link sp bias headers binary imports call ?c" using target t Some by (simp add: makes_link_def)
    have key: "link_key_of ?c = (pa_space (ct_call_site call), site, t)" using site t by (simp add: link_key_of_def)
    have "link_key_of ?c \<in> seen \<and> calls' = calls \<and> seen' = seen \<or>
        link_key_of ?c \<notin> seen \<and> calls' = calls @ [?c] \<and> seen' = insert (link_key_of ?c) seen"
      using assms target t Some site by (auto simp: link_call_def direct_call_def key Let_def split: if_splits)
    with link show ?thesis by blast
  qed
qed

definition links_of ::
  "(ghidra_call_target \<Rightarrow> elf_import_call \<Rightarrow> bool) \<Rightarrow> ghidra_call_target list \<Rightarrow> elf_import_call list \<times> link_key set \<Rightarrow> bool" where
  \<comment> \<open>after the listed call targets: one link per key, each made by a target, and none missing\<close>
  "links_of makes cts st \<longleftrightarrow> (case st of (calls, seen) \<Rightarrow>
     seen = link_key_of ` set calls \<and> distinct (map link_key_of calls) \<and>
     (\<forall>c \<in> set calls. \<exists>call \<in> set cts. makes call c) \<and>
     (\<forall>call \<in> set cts. \<forall>c. makes call c \<longrightarrow> link_key_of c \<in> seen))"

lemma fold_res_processed:
  assumes "fold_res f s xs = Ok t" and "P [] s"
    and "\<And>ys x s s'. P ys s \<Longrightarrow> f s x = Ok s' \<Longrightarrow> P (ys @ [x]) s'"
  shows "P xs t"
  using assms(1)
proof (induction xs arbitrary: t rule: rev_induct)
  case (snoc x xs)
  then show ?case using assms(3) by (auto simp: fold_res_append)
qed (use assms(2) in simp)

lemma link_calls_spec:
  assumes "fold_res (link_call sp bias headers binary imports) ([], {}) cts = Ok st"
  shows "links_of (makes_link sp bias headers binary imports) cts st"
  using assms
proof (rule fold_res_processed)
  show "links_of (makes_link sp bias headers binary imports) [] ([], {})" by (simp add: links_of_def)
next
  fix ys call s s'
  assume prior: "links_of (makes_link sp bias headers binary imports) ys s"
    and step: "link_call sp bias headers binary imports s call = Ok s'"
  obtain calls seen where s: "s = (calls, seen)" by (cases s)
  obtain calls' seen' where s': "s' = (calls', seen')" by (cases s')
  from link_call_cases [OF step [unfolded s s']]
  show "links_of (makes_link sp bias headers binary imports) (ys @ [call]) s'"
  proof (elim disjE conjE exE)
    assume "\<forall>c. \<not> makes_link sp bias headers binary imports call c" "calls' = calls" "seen' = seen"
    with prior s s' show ?thesis by (auto simp: links_of_def)
  next
    fix c assume "makes_link sp bias headers binary imports call c" "link_key_of c \<in> seen" "calls' = calls" "seen' = seen"
    with prior s s' show ?thesis by (auto simp: links_of_def dest: makes_link_unique)
  next
    fix c assume "makes_link sp bias headers binary imports call c" "link_key_of c \<notin> seen" "calls' = calls @ [c]"
      "seen' = insert (link_key_of c) seen"
    with prior s s' show ?thesis by (auto simp: links_of_def dest: makes_link_unique)
  qed
qed

section \<open>The index\<close>

lemma collect_res_source: "collect_res f xs = Ok ys \<Longrightarrow> y \<in> set ys \<Longrightarrow> \<exists>x \<in> set xs. f x = Ok y"
  by (induction xs arbitrary: ys) auto

lemma stub_import_linked:
  assumes read: "read_imports parse binary = Ok (raw, elf)" and found: "collect_res (runtime_import sp bias) raw = Ok imports"
    and t: "hex_u64 (pa_offset target) = Ok t"
    and stub: "stub_import sp bias (ei_headers elf) binary imports t = Some import"
  shows "import \<in> set imports \<and> linked elf binary bias target (ip_got import) (ip_name import)"
proof -
  from stub obtain a slot g where a: "uint t - bias = uint a" "plt_got_address (ei_headers elf) binary a = Some slot"
    "uint slot + bias = uint g" and find: "List.find (\<lambda>import. pa_space (ip_got import) = sp \<and>
      to_option (hex_u64 (pa_offset (ip_got import))) = Some g) imports = Some import"
    by (auto simp: stub_import_def bind_eq_Some_conv)
  from find have import: "import \<in> set imports" "to_option (hex_u64 (pa_offset (ip_got import))) = Some g"
    by (auto simp: find_Some_iff)
  from import(1) found obtain p where p: "p \<in> set raw" "runtime_import sp bias p = Ok import"
    using collect_res_source by metis
  from p(2) have "\<exists>got :: u64. uint (fst p) + bias = uint got \<and> ip_got import = \<lparr>pa_space = sp, pa_offset = fmt_hex got\<rparr> \<and> ip_name import = snd p"
    by (auto simp: runtime_import_def)
  then obtain got :: u64 where got: "uint (fst p) + bias = uint got" "ip_got import = \<lparr>pa_space = sp, pa_offset = fmt_hex got\<rparr>" "ip_name import = snd p"
    by blast
  with import(2) have g: "got = g" "hex_u64 (pa_offset (ip_got import)) = Ok g" by (simp_all add: hex_u64_fmt)
  with got a(3) have "fst p = slot" by (metis add_right_imp_eq word_eq_iff_unsigned)
  then have "(slot, ip_name import) \<in> set raw" using p(1) got(3) by auto
  then have "jump_slot elf slot (ip_name import)" by (rule read_imports_slots(2) [OF read])
  moreover from plt_got_address_Some [OF a(2)] obtain i prefix displacement where
    "executable_offset (ei_headers elf) a i" "stub_at binary i prefix displacement"
    "uint slot = uint a + int (prefix + 6) + sint displacement" by blast
  moreover have "uint t = uint a + bias" "uint g = uint slot + bias" using a by simp_all
  ultimately have "linked elf binary bias target (ip_got import) (ip_name import)"
    using t g(2) unfolding linked_def by blast
  with import(1) show ?thesis by blast
qed

definition import_bias :: "ghidra_snapshot \<Rightarrow> elf_import_metadata \<Rightarrow> int" where
  \<comment> \<open>from the lowest loaded address of the file to Ghidra's image base\<close>
  "import_bias snap elf =
     (case hex_u64 (pa_offset (pr_image_base (gs_program snap))) of
        Ok image_base \<Rightarrow> uint image_base - uint (Min (set (load_vaddrs (ei_headers elf)))) | _ \<Rightarrow> 0)"

lemma import_index_run:
  assumes "import_index_from_elf parse h binary snap = Ok ix"
  shows "\<exists>raw elf imps calls seen. read_imports parse binary = Ok (raw, elf) \<and>
    collect_res (runtime_import (pa_space (pr_image_base (gs_program snap))) (import_bias snap elf)) raw = Ok imps \<and>
    fold_res (link_call (pa_space (pr_image_base (gs_program snap))) (import_bias snap elf) (ei_headers elf) binary imps) ([], {})
      (sf_call_targets (gs_selected_function snap)) = Ok (calls, seen) \<and>
    ix_imports ix = imps \<and> ix_calls ix = sort_key call_order calls \<and> validate_ghidra_snapshot snap (ho_sha256 h binary) = Ok ()"
proof -
  from assms obtain raw elf lowest image_base imps calls seen where run: "read_imports parse binary = Ok (raw, elf)"
    "(case load_vaddrs (ei_headers elf) of [] \<Rightarrow> None | a # as \<Rightarrow> Some (fold min as a)) = Some lowest"
    "hex_u64 (pa_offset (pr_image_base (gs_program snap))) = Ok image_base"
    "collect_res (runtime_import (pa_space (pr_image_base (gs_program snap))) (uint image_base - uint lowest)) raw = Ok imps"
    "fold_res (link_call (pa_space (pr_image_base (gs_program snap))) (uint image_base - uint lowest) (ei_headers elf) binary imps)
      ([], {}) (sf_call_targets (gs_selected_function snap)) = Ok (calls, seen)"
    "ix_imports ix = imps" "ix_calls ix = sort_key call_order calls" "validate_ghidra_snapshot snap (ho_sha256 h binary) = Ok ()"
    by (auto simp: import_index_from_elf_def Let_def)
  have "lowest = Min (set (load_vaddrs (ei_headers elf)))"
    using run(2) by (auto simp only: Min.set_eq_fold option.inject split: list.splits)
  then have "import_bias snap elf = uint image_base - uint lowest" using run(3) by (simp add: import_bias_def)
  with run show ?thesis by auto
qed

lemma import_links_exact:
  assumes "import_index_from_elf parse h binary snap = Ok ix"
  shows "\<exists>elf. parse binary = Ok elf \<and> distinct (map link_key_of (ix_calls ix)) \<and>
    (\<forall>c \<in> set (ix_calls ix). linked elf binary (import_bias snap elf) (ic_plt_target c) (ic_got c) (ic_name c) \<and>
       (\<exists>call \<in> set (sf_call_targets (gs_selected_function snap)).
          direct_call (pa_space (pr_image_base (gs_program snap))) call (ic_plt_target c) \<and> ic_call_site c = ct_call_site call)) \<and>
    (\<forall>call \<in> set (sf_call_targets (gs_selected_function snap)). \<forall>target t import.
       direct_call (pa_space (pr_image_base (gs_program snap))) call target \<and> hex_u64 (pa_offset target) = Ok t \<and>
       stub_import (pa_space (pr_image_base (gs_program snap))) (import_bias snap elf) (ei_headers elf) binary (ix_imports ix) t = Some import \<longrightarrow>
       (pa_space (ct_call_site call), addr_value (ct_call_site call), t) \<in> link_key_of ` set (ix_calls ix))"
proof -
  let ?sp = "pa_space (pr_image_base (gs_program snap))"
  from import_index_run [OF assms] obtain raw elf imps calls seen where read: "read_imports parse binary = Ok (raw, elf)"
    and found: "collect_res (runtime_import ?sp (import_bias snap elf)) raw = Ok imps" "ix_imports ix = imps"
    and links: "fold_res (link_call ?sp (import_bias snap elf) (ei_headers elf) binary imps) ([], {})
      (sf_call_targets (gs_selected_function snap)) = Ok (calls, seen)" and calls: "ix_calls ix = sort_key call_order calls"
    by blast
  have parsed: "parse binary = Ok elf" using read_imports_slots(1) [OF read] .
  have spec: "seen = link_key_of ` set calls" "distinct (map link_key_of calls)"
    "\<forall>c \<in> set calls. \<exists>call \<in> set (sf_call_targets (gs_selected_function snap)).
       makes_link ?sp (import_bias snap elf) (ei_headers elf) binary (ix_imports ix) call c"
    "\<forall>call \<in> set (sf_call_targets (gs_selected_function snap)). \<forall>c.
       makes_link ?sp (import_bias snap elf) (ei_headers elf) binary (ix_imports ix) call c \<longrightarrow> link_key_of c \<in> seen"
    using link_calls_spec [OF links] unfolding links_of_def found(2) prod.case by blast+
  have "distinct (map link_key_of (ix_calls ix))" using spec(2) calls by (simp add: distinct_map)
  moreover have "linked elf binary (import_bias snap elf) (ic_plt_target c) (ic_got c) (ic_name c) \<and>
      (\<exists>call \<in> set (sf_call_targets (gs_selected_function snap)). direct_call ?sp call (ic_plt_target c) \<and> ic_call_site c = ct_call_site call)"
    if "c \<in> set (ix_calls ix)" for c
  proof -
    from that calls spec(3) obtain call where call: "call \<in> set (sf_call_targets (gs_selected_function snap))"
      and link: "makes_link ?sp (import_bias snap elf) (ei_headers elf) binary (ix_imports ix) call c" by auto
    from link obtain t import where "hex_u64 (pa_offset (ic_plt_target c)) = Ok t"
      "stub_import ?sp (import_bias snap elf) (ei_headers elf) binary imps t = Some import"
      "ic_got c = ip_got import" "ic_name c = ip_name import" "direct_call ?sp call (ic_plt_target c)" "ic_call_site c = ct_call_site call"
      using found(2) by (auto simp: makes_link_def)
    with stub_import_linked [OF read found(1)] call show ?thesis by auto
  qed
  moreover have "(pa_space (ct_call_site call), addr_value (ct_call_site call), t) \<in> link_key_of ` set (ix_calls ix)"
    if "call \<in> set (sf_call_targets (gs_selected_function snap))" "direct_call ?sp call target" "hex_u64 (pa_offset target) = Ok t"
      "stub_import ?sp (import_bias snap elf) (ei_headers elf) binary (ix_imports ix) t = Some import" for call target t import
  proof -
    let ?c = "\<lparr>ic_call_site = ct_call_site call, ic_plt_target = target, ic_got = ip_got import, ic_name = ip_name import\<rparr>"
    have "makes_link ?sp (import_bias snap elf) (ei_headers elf) binary (ix_imports ix) call ?c" using that by (simp add: makes_link_def)
    with spec(4) that(1) have "link_key_of ?c \<in> seen" by blast
    moreover have "link_key_of ?c = (pa_space (ct_call_site call), addr_value (ct_call_site call), t)" using that(3) by (simp add: link_key_of_def)
    ultimately show ?thesis using spec(1) calls by simp
  qed
  ultimately show ?thesis using parsed by blast
qed

section \<open>No panic\<close>

lemma plt_entry_size_Ok: "plt_entry_size kind n = Ok entry_size \<Longrightarrow> entry_size \<noteq> 0"
  by (auto simp: plt_entry_size_def split: option.splits if_splits)

lemma import_tag_no_panic: "import_tag dyns wanted \<noteq> Panic"
  by (auto simp: import_tag_def split: list.split)

lemma import_index_no_panic:
  assumes "parse binary \<noteq> Panic" and "\<And>a sps bs. ho_layout_json h a sps bs \<noteq> Panic"
  shows "import_index_from_elf parse h binary snap \<noteq> Panic"
proof -
  have adds: "add_import elf u r \<noteq> Panic" for elf u r
    by (auto simp: add_import_def import_name_def rbind_Panic split: prod.splits)
  have "fold_res (add_import elf) u rs \<noteq> Panic" for elf u rs
    by (rule fold_res_no_panic [where P = "\<lambda>_. True"]) (simp_all add: adds)
  moreover have "checked_dynamic_table binary headers a n e count \<noteq> Panic" if "e \<noteq> 0" for headers a n e count
    using that by (auto simp: checked_dynamic_table_def Let_def rbind_Panic)
  ultimately have "plt_imports binary elf dyns \<noteq> Panic" for elf dyns
    using import_tag_no_panic by (auto simp: plt_imports_def rbind_Panic plt_entry_size_def dest: plt_entry_size_Ok split: option.splits if_splits)
  with assms(1) have reads: "read_imports parse binary \<noteq> Panic"
    by (auto simp: read_imports_def rbind_Panic Let_def split: option.splits)
  have "link_call sp bias headers binary found u call \<noteq> Panic" for sp bias headers found u call
    by (auto simp: link_call_def rbind_Panic Let_def split: prod.splits option.splits)
  then have "fold_res (link_call sp bias headers binary found) u calls \<noteq> Panic" for sp bias headers found u calls
    by (intro fold_res_no_panic [where P = "\<lambda>_. True"]) simp_all
  moreover have "collect_res (runtime_import sp bias) raw \<noteq> Panic" for sp bias raw
    by (intro collect_res_no_panic) (simp add: runtime_import_def)
  moreover have "snapshot_layout_sha256 h snap \<noteq> Panic" using assms(2) by (simp add: snapshot_layout_sha256_def)
  ultimately show ?thesis using reads
    by (auto simp: import_index_from_elf_def Let_def rbind_Panic validate_snapshot_not_Panic split: prod.splits)
qed

end
