(* ===== verification/Pcode_Seed.thy ===== *)
theory Pcode_Seed
  imports Pcode_Execute
begin

text \<open>
  \<^verbatim>\<open>hydir-ir/src/pcode/seed.rs\<close>: the concrete state an analyst seeds a trace with. The JSON decoder
  is a parameter; the checks, the reservation of bytes and the writes are the code's. An accepted seed
  makes exactly its declared bytes known.
\<close>

section \<open>Data\<close>

definition PCODE_SEED_VERSION :: u32 where "PCODE_SEED_VERSION = 1"
definition MAX_PCODE_SEED_BYTES :: usize where "MAX_PCODE_SEED_BYTES = 1024 * 1024"

record seed_register =
  sr_offset :: string
  sr_size :: u32
  sr_value :: string

record seed_memory =
  sm_space :: string
  sm_byte_offset :: string
  sm_size :: u32
  sm_value :: string

record seed_file =
  sd_schema_version :: u32
  sd_binary_sha256 :: string
  sd_entry :: pcode_address
  sd_registers :: "seed_register list"
  sd_memory :: "seed_memory list"

section \<open>Checks\<close>

definition seed_hex :: "string \<Rightarrow> (u64, string) result" where
  "seed_hex value =
     rbind (ok_or ''seed values and offsets must be 0x-prefixed hexadecimal''
              (case strip_prefix ''0x'' value of
                 None \<Rightarrow> None
               | Some digits \<Rightarrow> if digits \<noteq> [] \<and> list_all is_ascii_hexdigit digits then Some digits else None))
       (\<lambda>digits. ok_or ''seed value exceeds u64'' (from_str_radix16 digits))"

definition bounded_value :: "string \<Rightarrow> u32 \<Rightarrow> (u64, string) result" where
  "bounded_value value n =
     (if \<not> size_in 1 8 n then Err ''seed width must be 1..=8 bytes''
      else rbind (seed_hex value) (\<lambda>v.
        if n < 8 then
          rbind (mul_u32 n 8) (\<lambda>bits.
          rbind (shl_u64 1 bits) (\<lambda>limit.
          if v \<ge> limit then Err ''seed value does not fit its declared width'' else Ok v))
        else Ok v))"

type_synonym reserved = "(string \<times> u64) set"

definition reserve_byte :: "string \<Rightarrow> u64 \<Rightarrow> reserved \<Rightarrow> nat \<Rightarrow> (reserved, string) result" where
  "reserve_byte sp offset seen index =
     rbind (add_u64 offset (word_of_nat index)) (\<lambda>a.
     if (sp, a) \<in> seen then Err ''seed byte ranges overlap'' else Ok (insert (sp, a) seen))"

definition reserve_bytes :: "reserved \<Rightarrow> string \<Rightarrow> u64 \<Rightarrow> u32 \<Rightarrow> (reserved, string) result" where
  "reserve_bytes seen sp offset n =
     (if \<not> size_in 1 8 n \<or> checked_add offset (ucast (n - 1)) = None then Err ''seed byte range is invalid''
      else fold_res (reserve_byte sp offset) seen [0..<unat n])"

section \<open>The parser\<close>

definition seed_one_register ::
  "concrete_state \<times> reserved \<Rightarrow> seed_register \<Rightarrow> (concrete_state \<times> reserved, string) result" where
  "seed_one_register st r =
     (let (s, seen) = st in
      rbind (seed_hex (sr_offset r)) (\<lambda>offset.
      rbind (bounded_value (sr_value r) (sr_size r)) (\<lambda>v.
      rbind (reserve_bytes seen ''register'' offset (sr_size r)) (\<lambda>seen'.
      map_ok (\<lambda>s'. (s', seen'))
        (write_varnode s \<lparr>vn_space = ''register'', vn_offset = sr_offset r, vn_size = sr_size r\<rparr> v)))))"

definition seed_one_memory ::
  "string set \<Rightarrow> concrete_state \<times> reserved \<Rightarrow> seed_memory \<Rightarrow> (concrete_state \<times> reserved, string) result" where
  "seed_one_memory spaces st m =
     (let (s, seen) = st in
      if sm_space m \<notin> spaces then Err ''P-code seed memory space is not a Ghidra RAM space''
      else
        rbind (seed_hex (sm_byte_offset m)) (\<lambda>offset.
        rbind (bounded_value (sm_value m) (sm_size m)) (\<lambda>v.
        rbind (reserve_bytes seen (sm_space m) offset (sm_size m)) (\<lambda>seen'.
        let (s', r) = write_memory s (sm_space m) offset (sm_size m) v
        in map_ok (\<lambda>_. (s', seen')) r))))"

definition default_state :: concrete_state where
  "default_state = \<lparr>cs_register_bytes = [], cs_unique_bytes = [], cs_memory_bytes = []\<rparr>"

definition ram_spaces :: "ghidra_snapshot \<Rightarrow> string set" where
  "ram_spaces snap = set (map as_name (filter (\<lambda>sp. as_space_type sp = 1) (gs_address_spaces snap)))"

definition parse_pcode_seed ::
  "(u8 list \<Rightarrow> (seed_file, string) result) \<Rightarrow> u8 list \<Rightarrow> ghidra_snapshot \<Rightarrow> (concrete_state, string) result" where
  "parse_pcode_seed from_slice bytes snap =
     (if bytes = [] \<or> length bytes > MAX_PCODE_SEED_BYTES then Err ''P-code seed file is empty or exceeds 1 MiB''
      else
        rbind (from_slice bytes) (\<lambda>seed.
        if sd_schema_version seed \<noteq> PCODE_SEED_VERSION \<or> sd_binary_sha256 seed \<noteq> gs_binary_sha256 snap \<or>
           sd_entry seed \<noteq> sf_entry (gs_selected_function snap)
          then Err ''P-code seed version, binary digest, or function entry disagrees with snapshot''
        else if length (sd_registers seed) + length (sd_memory seed) > 65536 then Err ''P-code seed has too many entries''
        else
          rbind (fold_res seed_one_register (default_state, {}) (sd_registers seed)) (\<lambda>st.
          map_ok fst (fold_res (seed_one_memory (ram_spaces snap)) st (sd_memory seed)))))"

section \<open>What a seed declares\<close>

record claim =
  \<comment> \<open>the bytes one entry declares: of the registers (\<^const>\<open>None\<close>) or of a memory space\<close>
  cl_owner :: "string option"
  cl_base :: u64
  cl_width :: nat
  cl_value :: u64

definition owner_name :: "string option \<Rightarrow> string" where
  "owner_name owner = (case owner of None \<Rightarrow> ''register'' | Some sp \<Rightarrow> sp)"

definition cell :: "concrete_state \<Rightarrow> string option \<Rightarrow> u64 \<Rightarrow> u8 option" where
  "cell s owner a =
     (case owner of None \<Rightarrow> bm_get (cs_register_bytes s) a | Some sp \<Rightarrow> bm_get (space_bytes s sp) a)"

definition claimed_byte :: "claim \<Rightarrow> u64 \<Rightarrow> u8 option" where
  "claimed_byte c a =
     (if in_range a (cl_base c) (cl_width c) then Some (byte_of (cl_value c) (unat a - unat (cl_base c))) else None)"

definition claims_disjoint :: "claim \<Rightarrow> claim \<Rightarrow> bool" where
  "claims_disjoint c d =
     (\<forall>a. owner_name (cl_owner c) = owner_name (cl_owner d) \<longrightarrow>
        \<not> (in_range a (cl_base c) (cl_width c) \<and> in_range a (cl_base d) (cl_width d)))"

definition register_claim :: "seed_register \<Rightarrow> claim \<Rightarrow> bool" where
  "register_claim r c =
     (cl_owner c = None \<and> hex_u64 (sr_offset r) = Ok (cl_base c) \<and> cl_width c = unat (sr_size r) \<and>
      bounded_value (sr_value r) (sr_size r) = Ok (cl_value c))"

definition memory_claim :: "string set \<Rightarrow> seed_memory \<Rightarrow> claim \<Rightarrow> bool" where
  "memory_claim spaces m c =
     (cl_owner c = Some (sm_space m) \<and> sm_space m \<in> spaces \<and> seed_hex (sm_byte_offset m) = Ok (cl_base c) \<and>
      cl_width c = unat (sm_size m) \<and> bounded_value (sm_value m) (sm_size m) = Ok (cl_value c))"

definition known_exactly :: "claim list \<Rightarrow> concrete_state \<Rightarrow> bool" where
  \<comment> \<open>the known bytes are those the claims declare, each by one claim\<close>
  "known_exactly cs s =
     (\<forall>owner a b. cell s owner a = Some b \<longleftrightarrow> (\<exists>c \<in> set cs. cl_owner c = owner \<and> claimed_byte c a = Some b))"

definition reserved_by :: "claim list \<Rightarrow> reserved" where
  "reserved_by cs = {(sp, a). \<exists>c \<in> set cs. owner_name (cl_owner c) = sp \<and> in_range a (cl_base c) (cl_width c)}"

definition seeded :: "claim list \<Rightarrow> concrete_state \<times> reserved \<Rightarrow> bool" where
  "seeded cs st =
     (state_wf (fst st) \<and> cs_unique_bytes (fst st) = [] \<and> known_exactly cs (fst st) \<and> snd st = reserved_by cs \<and>
      sorted_wrt claims_disjoint cs \<and> (\<forall>c \<in> set cs. unat (cl_base c) + cl_width c \<le> 2 ^ 64))"

section \<open>Reservation\<close>

lemma reserve_loop:
  "fold_res (reserve_byte sp offset) seen is = Ok seen' \<Longrightarrow>
    seen' = seen \<union> {(sp, byte_at offset i) | i. i \<in> set is} \<and> (\<forall>i \<in> set is. (sp, byte_at offset i) \<notin> seen)"
  by (induction "is" arbitrary: seen) (force simp: reserve_byte_def add_u64_def byte_at_def split: if_splits option.splits)+

lemma reserve_bytes_Ok:
  assumes "reserve_bytes seen sp offset n = Ok seen'"
  shows "size_in 1 8 n" and "unat offset + unat n \<le> 2 ^ 64"
    and "seen' = seen \<union> {(sp, a) | a. in_range a offset (unat n)}" and "\<And>a. in_range a offset (unat n) \<Longrightarrow> (sp, a) \<notin> seen"
proof -
  from assms have n: "size_in 1 8 n" and "checked_add offset (ucast (n - 1)) \<noteq> None"
    and loop: "fold_res (reserve_byte sp offset) seen [0..<unat n] = Ok seen'"
    by (auto simp: reserve_bytes_def split: if_splits)
  then show range: "size_in 1 8 n" "unat offset + unat n \<le> 2 ^ 64"
    using size_in_unat(2) [OF n] by (auto simp: size_in_def word_le_nat_alt unsigned_ucast_eq simp del: One_nat_def)
  note eq = in_range_byte_at [OF range(2)]
  from reserve_loop [OF loop] have "seen' = seen \<union> {(sp, byte_at offset i) | i. i < unat n}"
      "\<forall>i < unat n. (sp, byte_at offset i) \<notin> seen" by auto
  then show "seen' = seen \<union> {(sp, a) | a. in_range a offset (unat n)}"
    "\<And>a. in_range a offset (unat n) \<Longrightarrow> (sp, a) \<notin> seen" by (auto simp: eq)
qed

section \<open>One entry\<close>

lemma add_claim:
  assumes old: "seeded cs (s, seen)" and wf: "state_wf s'" "cs_unique_bytes s' = []"
    and range: "unat (cl_base c) + cl_width c \<le> 2 ^ 64"
    and fresh: "\<And>a. in_range a (cl_base c) (cl_width c) \<Longrightarrow> (owner_name (cl_owner c), a) \<notin> seen"
    and seen': "seen' = seen \<union> {(owner_name (cl_owner c), a) | a. in_range a (cl_base c) (cl_width c)}"
    and update: "\<And>owner a. cell s' owner a =
      (if owner = cl_owner c \<and> in_range a (cl_base c) (cl_width c) then claimed_byte c a else cell s owner a)"
  shows "seeded (cs @ [c]) (s', seen')"
proof -
  from old have known: "known_exactly cs s" and seen: "seen = reserved_by cs" and sorted: "sorted_wrt claims_disjoint cs"
    and ranges: "\<forall>c \<in> set cs. unat (cl_base c) + cl_width c \<le> 2 ^ 64" by (simp_all add: seeded_def)
  have apart: "claims_disjoint d c" if "d \<in> set cs" for d
    using that fresh by (fastforce simp: claims_disjoint_def seen reserved_by_def)
  have "known_exactly (cs @ [c]) s'"
    unfolding known_exactly_def
  proof (intro allI)
    fix owner a b
    have old_none: "\<not> (d \<in> set cs \<and> cl_owner d = owner \<and> claimed_byte d a = Some b')"
      if "owner = cl_owner c" "in_range a (cl_base c) (cl_width c)" for d b'
      using apart [of d] that by (auto simp: claims_disjoint_def claimed_byte_def split: if_splits)
    show "(cell s' owner a = Some b) = (\<exists>d \<in> set (cs @ [c]). cl_owner d = owner \<and> claimed_byte d a = Some b)"
    proof (cases "owner = cl_owner c \<and> in_range a (cl_base c) (cl_width c)")
      case True
      with old_none show ?thesis by (auto simp: update)
    next
      case False
      with known show ?thesis by (auto simp: update known_exactly_def claimed_byte_def)
    qed
  qed
  moreover have "reserved_by (cs @ [c]) = seen'" by (auto simp: reserved_by_def seen' seen)
  moreover have "sorted_wrt claims_disjoint (cs @ [c])" using sorted apart by (simp add: sorted_wrt_append)
  ultimately show ?thesis using wf range ranges by (simp add: seeded_def)
qed

lemma unique_after_scalar: "write_varnode_wide s node v = Ok s' \<Longrightarrow> vn_space node = ''register'' \<Longrightarrow>
    cs_unique_bytes s' = cs_unique_bytes s \<and> cs_memory_bytes s' = cs_memory_bytes s"
  unfolding write_varnode_wide_Ok by (auto simp: set_scalar_bytes_def)

lemma byte_of_ucast: "i < 8 \<Longrightarrow> byte_of (ucast (v :: u64) :: u128) i = byte_of v i"
  by (rule bit_word_eqI) (auto simp: bit_byte_of bit_ucast_iff)

lemma hex_u64_seed_hex: "hex_u64 value = Ok b \<Longrightarrow> seed_hex value = Ok b' \<Longrightarrow> b' = b"
  by (auto simp: hex_u64_def seed_hex_def split: if_splits option.splits)

lemma small_width: "size_in 1 8 n \<Longrightarrow> n < 8 \<Longrightarrow> mul_u32 n 8 = Ok (n * 8) \<and> shl_u64 1 (n * 8) = Ok (push_bit (unat (n * 8)) 1)"
  by (auto simp: mul_u32_def shl_u64_def checked_mul_def size_in_def word_less_nat_alt word_le_nat_alt unat_word_ariths)

lemma bounded_value_Ok:
  "bounded_value value n = Ok v \<longleftrightarrow>
     size_in 1 8 n \<and> seed_hex value = Ok v \<and> (n < 8 \<longrightarrow> v < push_bit (unat (n * 8)) 1)"
proof (cases "size_in 1 8 n \<and> n < 8")
  case True
  with small_width [of n] show ?thesis by (auto simp: bounded_value_def not_le)
qed (auto simp: bounded_value_def)

lemma bounded_value_size: "bounded_value value n = Ok v \<Longrightarrow> size_in 1 8 n"
  by (simp add: bounded_value_def split: if_splits)

lemma seed_register_step:
  assumes old: "seeded cs st" and step: "seed_one_register st r = Ok st'"
  shows "\<exists>c. register_claim r c \<and> seeded (cs @ [c]) st'"
proof -
  obtain s seen where st: "st = (s, seen)" by force
  let ?node = "\<lparr>vn_space = ''register'', vn_offset = sr_offset r, vn_size = sr_size r\<rparr>"
  from step obtain b v seen' s' where parts: "seed_hex (sr_offset r) = Ok b" "bounded_value (sr_value r) (sr_size r) = Ok v"
      "reserve_bytes seen ''register'' b (sr_size r) = Ok seen'" "write_varnode s ?node v = Ok s'" and st': "st' = (s', seen')"
    by (auto simp: seed_one_register_def st)
  define c where "c = \<lparr>cl_owner = None, cl_base = b, cl_width = unat (sr_size r), cl_value = v\<rparr>"
  note res = reserve_bytes_Ok [OF parts(3)]
  from parts(4) have w: "write_varnode_wide s ?node (ucast v) = Ok s'" by (simp add: write_varnode_def split: if_splits)
  then have node: "node_range_ok ?node" unfolding write_varnode_wide_Ok by blast
  then have base: "node_start ?node = b" "node_len ?node = unat (sr_size r)" and hex: "hex_u64 (sr_offset r) = Ok b"
    using hex_u64_seed_hex [OF _ parts(1)] by (auto simp: node_range_ok_iff node_start_def node_len_def split: result.splits)
  from unat_size_8 [of "sr_size r"] res(1) have w8: "unat (sr_size r) \<le> 8" by (auto simp: size_in_def word_le_nat_alt)
  have "cell s' owner a = (if owner = cl_owner c \<and> in_range a (cl_base c) (cl_width c) then claimed_byte c a else cell s owner a)"
    for owner a
  proof (cases owner)
    case None
    with write_varnode_wide_get [OF w, of "''register''" a] w8 show ?thesis
      by (auto simp: cell_def c_def claimed_byte_def base scalar_bytes_def scalar_space_def in_range_def byte_of_ucast)
  next
    case (Some sp)
    with unique_after_scalar [OF w] show ?thesis by (simp add: cell_def c_def space_bytes_def)
  qed
  moreover have "state_wf s'" "cs_unique_bytes s' = []"
    using old write_varnode_wide_wf(1) [OF _ w] unique_after_scalar [OF w] by (simp_all add: seeded_def st)
  ultimately have "seeded (cs @ [c]) st'"
    unfolding st' using res old by (intro add_claim) (auto simp: st c_def owner_name_def)
  moreover have "register_claim r c" using parts hex by (simp add: register_claim_def c_def)
  ultimately show ?thesis by blast
qed

lemma seed_memory_step:
  assumes old: "seeded cs st" and step: "seed_one_memory spaces st m = Ok st'"
  shows "\<exists>c. memory_claim spaces m c \<and> seeded (cs @ [c]) st'"
proof -
  obtain s seen where st: "st = (s, seen)" by force
  from step obtain b v seen' where parts: "seed_hex (sm_byte_offset m) = Ok b" "bounded_value (sm_value m) (sm_size m) = Ok v"
      "reserve_bytes seen (sm_space m) b (sm_size m) = Ok seen'" "sm_space m \<in> spaces"
      "snd (write_memory s (sm_space m) b (sm_size m) v) = Ok ()"
    and st': "st' = (fst (write_memory s (sm_space m) b (sm_size m) v), seen')"
    by (auto simp: seed_one_memory_def st Let_def split_def split: if_splits)
  define s' where "s' = fst (write_memory s (sm_space m) b (sm_size m) v)"
  define c where "c = \<lparr>cl_owner = Some (sm_space m), cl_base = b, cl_width = unat (sm_size m), cl_value = v\<rparr>"
  note res = reserve_bytes_Ok [OF parts(3)]
  have "checked_memory_range b (sm_size m) = Ok ()" using res(1,2) by simp
  then have run: "write_memory s (sm_space m) b (sm_size m) v = store_bytes s (sm_space m) b (sm_size m) v"
    unfolding write_memory_def by (simp only: result.case)
  from parts(5) have w: "store_bytes s (sm_space m) b (sm_size m) v = (s', Ok ())"
    unfolding s'_def run by (simp add: prod_eq_iff)
  have "state_wf s" "cs_unique_bytes s = []" using old by (simp_all add: seeded_def st)
  note bytes = store_bytes_spec [OF w this(1) res(2)]
  have "cell s' owner a = (if owner = cl_owner c \<and> in_range a (cl_base c) (cl_width c) then claimed_byte c a else cell s owner a)"
    for owner a
  proof (cases owner)
    case None
    with bytes(3) show ?thesis by (simp add: cell_def c_def)
  next
    case (Some sp)
    with bytes(5) [of sp a] show ?thesis by (auto simp: cell_def c_def claimed_byte_def)
  qed
  then have "seeded (cs @ [c]) st'"
    unfolding st' s'_def [symmetric] using res old bytes(1,4) \<open>cs_unique_bytes s = []\<close> by (intro add_claim) (auto simp: st c_def owner_name_def)
  moreover have "memory_claim spaces m c" using parts by (simp add: memory_claim_def c_def)
  ultimately show ?thesis by blast
qed

section \<open>Reading the entries back\<close>

lemma bounded_value_fits:
  assumes "bounded_value value n = Ok v"
  shows "take_bit (8 * unat n) v = v"
proof (cases "unat n = 8")
  case False
  from assms have n: "size_in 1 8 n" and v: "n < 8 \<longrightarrow> v < push_bit (unat (n * 8)) 1"
    by (auto simp: bounded_value_Ok)
  from n unat_size_8 [of n] have bits: "unat n \<le> 8" "unat (n * 8) = 8 * unat n"
    by (auto simp: size_in_def word_le_nat_alt unat_word_ariths)
  with False v have "v < push_bit (8 * unat n) 1" by (simp add: word_less_nat_alt)
  moreover have "uint (push_bit (8 * unat n) 1 :: u64) = 2 ^ (8 * unat n)"
    using False bits(1) unfolding unsigned_push_bit_eq by (simp add: take_bit_int_eq_self)
  ultimately show ?thesis by (simp add: word_uint_eq_iff unsigned_take_bit_eq take_bit_int_eq_self word_less_def)
qed (simp add: take_bit_word_eq_self)

lemma read_claimed:
  assumes "\<And>i. i < n \<Longrightarrow> look (byte_at b i) = Some (byte_of (v :: u64) i)" and "take_bit (8 * n) v = v" and "n \<le> 8"
  shows "read_loop look b [0..<n] 0 = Some v" and "read_loop look b [0..<n] 0 = Some (ucast v :: u128)"
proof -
  have "le_value n (\<lambda>i. the (look (byte_at b i))) = (le_value n (byte_of v) :: u64)" by (rule le_value_cong) (simp add: assms(1))
  with assms(1,2) show "read_loop look b [0..<n] 0 = Some v" by (simp add: read_loop_Some le_value_bytes)
  have "le_value n (\<lambda>i. the (look (byte_at b i))) = (le_value n (byte_of (ucast v :: u128)) :: u128)"
    using assms(1,3) by (intro le_value_cong) (simp add: byte_of_ucast)
  also have "\<dots> = ucast (take_bit (8 * n) v)"
    unfolding le_value_bytes by (rule bit_word_eqI) (auto simp: bit_ucast_iff bit_take_bit_iff dest: bit_imp_le_length)
  finally show "read_loop look b [0..<n] 0 = Some (ucast v :: u128)" using assms(1,2) by (simp add: read_loop_Some)
qed


lemma read_known:
  assumes known: "known_exactly cs s" and c: "c \<in> set cs" "unat (cl_base c) + cl_width c \<le> 2 ^ 64" and i: "i < cl_width c"
  shows "cell s (cl_owner c) (byte_at (cl_base c) i) = Some (byte_of (cl_value c) i)"
proof -
  have "in_range (byte_at (cl_base c) i) (cl_base c) (cl_width c)" "unat (byte_at (cl_base c) i) - unat (cl_base c) = i"
    using unat_byte_at [OF c(2) i] i by (simp_all add: in_range_def)
  then have "claimed_byte c (byte_at (cl_base c) i) = Some (byte_of (cl_value c) i)" by (simp add: claimed_byte_def)
  with known c(1) show ?thesis unfolding known_exactly_def by blast
qed

definition reads_back :: "concrete_state \<Rightarrow> seed_file \<Rightarrow> bool" where
  \<comment> \<open>every entry reads as its declared value\<close>
  "reads_back s seed =
     ((\<forall>r \<in> set (sd_registers seed). \<exists>v. bounded_value (sr_value r) (sr_size r) = Ok v \<and>
         read_varnode s \<lparr>vn_space = ''register'', vn_offset = sr_offset r, vn_size = sr_size r\<rparr> = Ok (Some v)) \<and>
      (\<forall>m \<in> set (sd_memory seed). \<exists>b v. seed_hex (sm_byte_offset m) = Ok b \<and> bounded_value (sm_value m) (sm_size m) = Ok v \<and>
         read_memory s (sm_space m) b (sm_size m) = Ok (Some v)))"

section \<open>Entries\<close>

definition declares :: "ghidra_snapshot \<Rightarrow> seed_file \<Rightarrow> claim list \<Rightarrow> bool" where
  \<comment> \<open>one claim per entry, registers first\<close>
  "declares snap seed cs =
     (\<exists>rs ms. cs = rs @ ms \<and> list_all2 register_claim (sd_registers seed) rs \<and>
        list_all2 (memory_claim (ram_spaces snap)) (sd_memory seed) ms)"

lemma claim_reads:
  assumes known: "known_exactly cs s" and c: "c \<in> set cs" "unat (cl_base c) + cl_width c \<le> 2 ^ 64"
    and fits: "bounded_value value n = Ok (cl_value c)" "cl_width c = unat n"
  shows "read_loop (cell s (cl_owner c)) (cl_base c) [0..<unat n] 0 = Some (cl_value c)"
    and "read_loop (cell s (cl_owner c)) (cl_base c) [0..<unat n] 0 = Some (ucast (cl_value c) :: u128)"
proof -
  have "unat n \<le> 8" using bounded_value_size [OF fits(1)] by (simp add: size_in_def word_le_nat_alt)
  note read = read_claimed [OF _ bounded_value_fits [OF fits(1)] this]
  from read_known [OF known c] fits(2)
  show "read_loop (cell s (cl_owner c)) (cl_base c) [0..<unat n] 0 = Some (cl_value c)"
    "read_loop (cell s (cl_owner c)) (cl_base c) [0..<unat n] 0 = Some (ucast (cl_value c) :: u128)"
    by (auto intro: read)
qed

lemma widen_u64: "ucast (ucast (v :: u64) :: u128) = v" "unat v < 2 ^ 64"
proof -
  show "ucast (ucast v :: u128) = v" by (rule bit_word_eqI) (auto simp: bit_ucast_iff dest: bit_imp_le_length)
  show "unat v < 2 ^ 64" using unsigned_less [where w = v and ?'a = nat] by simp
qed

lemma list_all2_each: "list_all2 P xs ys \<Longrightarrow> x \<in> set xs \<Longrightarrow> \<exists>y \<in> set ys. P x y"
  by (induction rule: list_all2_induct) auto

lemma reads_declared:
  assumes decl: "declares snap seed cs" and known: "known_exactly cs s"
    and ranges: "\<forall>c \<in> set cs. unat (cl_base c) + cl_width c \<le> 2 ^ 64"
  shows "reads_back s seed"
proof -
  from decl obtain rs ms where entries: "cs = rs @ ms" "list_all2 register_claim (sd_registers seed) rs"
    "list_all2 (memory_claim (ram_spaces snap)) (sd_memory seed) ms" by (auto simp: declares_def)
  show ?thesis
    unfolding reads_back_def
  proof (intro conjI ballI)
    fix r assume "r \<in> set (sd_registers seed)"
    from list_all2_each [OF entries(2) this] entries(1) obtain c where c: "c \<in> set cs" "register_claim r c" by auto
    from c(2) have r: "cl_owner c = None" "hex_u64 (sr_offset r) = Ok (cl_base c)" "cl_width c = unat (sr_size r)"
      "bounded_value (sr_value r) (sr_size r) = Ok (cl_value c)" by (simp_all add: register_claim_def)
    note n = bounded_value_size [OF r(4)]
    have "checked_range \<lparr>vn_space = ''register'', vn_offset = sr_offset r, vn_size = sr_size r\<rparr> = Ok (cl_base c)"
      using r ranges c(1) n by (auto simp: size_in_8_16)
    moreover have "cell s None = bm_get (cs_register_bytes s)" by (simp add: cell_def fun_eq_iff)
    ultimately show "\<exists>v. bounded_value (sr_value r) (sr_size r) = Ok v \<and>
        read_varnode s \<lparr>vn_space = ''register'', vn_offset = sr_offset r, vn_size = sr_size r\<rparr> = Ok (Some v)"
      using claim_reads(2) [OF known c(1) _ r(4,3)] ranges c(1) r n widen_u64 [of "cl_value c"]
      by (simp add: read_varnode_def read_varnode_wide_def u64_try_from_def)
  next
    fix m assume "m \<in> set (sd_memory seed)"
    from list_all2_each [OF entries(3) this] entries(1) obtain c where c: "c \<in> set cs" "memory_claim (ram_spaces snap) m c" by auto
    from c(2) have m: "cl_owner c = Some (sm_space m)" "seed_hex (sm_byte_offset m) = Ok (cl_base c)" "cl_width c = unat (sm_size m)"
      "bounded_value (sm_value m) (sm_size m) = Ok (cl_value c)" by (simp_all add: memory_claim_def)
    note n = bounded_value_size [OF m(4)]
    have "0 < cl_width c" using n m(3) by (auto simp: size_in_def word_le_nat_alt)
    from read_known [OF known c(1) _ this] ranges c(1) m(1) have "bm_get (cs_memory_bytes s) (sm_space m) \<noteq> None"
      by (auto simp: cell_def space_bytes_def bm_get_def split: option.splits)
    then obtain bytes where bytes: "bm_get (cs_memory_bytes s) (sm_space m) = Some bytes" by blast
    then have look: "cell s (Some (sm_space m)) = bm_get bytes" by (simp add: cell_def space_bytes_def fun_eq_iff)
    have range: "unat (cl_base c) + cl_width c \<le> 2 ^ 64" using ranges c(1) by blast
    with claim_reads(1) [OF known c(1) range m(4,3)] m n bytes look
    have "read_memory s (sm_space m) (cl_base c) (sm_size m) = Ok (Some (cl_value c))" by (simp add: read_memory_def)
    with m show "\<exists>b v. seed_hex (sm_byte_offset m) = Ok b \<and> bounded_value (sm_value m) (sm_size m) = Ok v \<and>
        read_memory s (sm_space m) b (sm_size m) = Ok (Some v)" by blast
  qed
qed

section \<open>The whole seed\<close>

lemma fold_claims:
  assumes "\<And>cs st st' x. seeded cs st \<Longrightarrow> f st x = Ok st' \<Longrightarrow> \<exists>c. P x c \<and> seeded (cs @ [c]) st'"
    and "seeded cs st" and "fold_res f st xs = Ok st'"
  shows "\<exists>ds. list_all2 P xs ds \<and> seeded (cs @ ds) st'"
  using assms(2,3)
proof (induction xs arbitrary: cs st)
  case (Cons x xs)
  from Cons.prems(2) obtain st1 where "f st x = Ok st1" "fold_res f st1 xs = Ok st'" by auto
  moreover from assms(1) [OF Cons.prems(1) this(1)] obtain c where "P x c" "seeded (cs @ [c]) st1" by blast
  moreover from Cons.IH [OF this(2) calculation(2)] obtain ds where "list_all2 P xs ds" "seeded ((cs @ [c]) @ ds) st'" by blast
  ultimately show ?case by (intro exI [of _ "c # ds"]) simp
qed (auto intro: exI [of _ "[]"])

lemma default_seeded: "seeded [] (default_state, {})"
  by (simp add: seeded_def default_state_def state_wf_def bm_wf_def known_byte_count_def bm_len_def MAX_KNOWN_STATE_BYTES_def
      known_exactly_def cell_def space_bytes_def bm_get_def reserved_by_def split: option.split)

lemma parse_seed_exact:
  assumes "parse_pcode_seed from_slice bytes snap = Ok s"
  shows "\<exists>seed cs. from_slice bytes = Ok seed \<and> sd_binary_sha256 seed = gs_binary_sha256 snap \<and>
    sd_entry seed = sf_entry (gs_selected_function snap) \<and> declares snap seed cs \<and> known_exactly cs s \<and>
    sorted_wrt claims_disjoint cs \<and> state_wf s \<and> cs_unique_bytes s = [] \<and> reads_back s seed"
proof -
  from assms obtain seed st st' where seed: "from_slice bytes = Ok seed" "sd_binary_sha256 seed = gs_binary_sha256 snap"
      "sd_entry seed = sf_entry (gs_selected_function snap)"
      and regs: "fold_res seed_one_register (default_state, {}) (sd_registers seed) = Ok st"
      and mems: "fold_res (seed_one_memory (ram_spaces snap)) st (sd_memory seed) = Ok st'" and s: "s = fst st'"
    by (auto simp: parse_pcode_seed_def split: if_splits)
  have "\<exists>rs. list_all2 register_claim (sd_registers seed) rs \<and> seeded ([] @ rs) st"
    by (rule fold_claims [OF _ default_seeded regs]) (rule seed_register_step)
  then obtain rs where rs: "list_all2 register_claim (sd_registers seed) rs" "seeded rs st" by auto
  have "\<exists>ms. list_all2 (memory_claim (ram_spaces snap)) (sd_memory seed) ms \<and> seeded (rs @ ms) st'"
    by (rule fold_claims [OF _ rs(2) mems]) (rule seed_memory_step)
  then obtain ms where ms: "list_all2 (memory_claim (ram_spaces snap)) (sd_memory seed) ms" "seeded (rs @ ms) st'" by blast
  from rs(1) ms(1) have "declares snap seed (rs @ ms)" by (auto simp: declares_def)
  moreover from this ms(2) have "reads_back s seed" unfolding s by (intro reads_declared) (auto simp: seeded_def)
  ultimately show ?thesis using ms(2) seed s by (auto simp: seeded_def)
qed

section \<open>Errors\<close>

lemma reserve_no_panic: "reserve_bytes seen sp offset n \<noteq> Panic"
proof (cases "size_in 1 8 n \<and> checked_add offset (ucast (n - 1)) \<noteq> None")
  case True
  then have n: "unat offset + unat n \<le> 2 ^ 64" "unat n \<le> 8"
    using size_in_unat(2) [of n] by (auto simp: size_in_def word_le_nat_alt unsigned_ucast_eq simp del: One_nat_def)
  have "unat (word_of_nat i :: u64) = i" if "i < unat n" for i using that n(2) by (simp add: unat_of_nat)
  then have "fold_res (reserve_byte sp offset) seen [0..<unat n] \<noteq> Panic"
    using n(1) by (intro fold_res_no_panic [where P = "\<lambda>_. True"]) (auto simp: reserve_byte_def add_u64_def checked_add_def)
  then show ?thesis by (simp add: reserve_bytes_def)
qed (auto simp: reserve_bytes_def)

lemma seed_hex_no_panic [simp]: "seed_hex v \<noteq> Panic"
  by (auto simp: seed_hex_def split: option.splits)

lemma bounded_value_no_panic [simp]: "bounded_value v n \<noteq> Panic"
  by (cases "n < 8") (auto simp: bounded_value_def rbind_Panic small_width)

lemma parse_seed_no_panic:
  assumes "from_slice bytes \<noteq> Panic"
  shows "parse_pcode_seed from_slice bytes snap \<noteq> Panic"
proof -
  have regs: "seed_one_register st r \<noteq> Panic" for st r
    using reserve_no_panic by (auto simp: seed_one_register_def rbind_Panic write_varnode_def write_varnode_wide_no_panic split: prod.splits if_splits)
  have "snd (store_bytes s sp b w v) \<noteq> Panic" for s :: concrete_state and sp b w and v :: u64
    by (simp add: store_bytes_def Let_def)
  then have mems: "seed_one_memory spaces st m \<noteq> Panic" for spaces st m
    using reserve_no_panic
    by (auto simp: seed_one_memory_def rbind_Panic write_memory_def Let_def split: prod.splits result.splits)
      (metis snd_conv)+
  have "fold_res seed_one_register x xs \<noteq> Panic" for x xs
    by (rule fold_res_no_panic [where P = "\<lambda>_. True"]) (simp_all add: regs)
  moreover have "fold_res (seed_one_memory spaces) x xs \<noteq> Panic" for spaces x xs
    by (rule fold_res_no_panic [where P = "\<lambda>_. True"]) (simp_all add: mems)
  ultimately show ?thesis using assms by (auto simp: parse_pcode_seed_def rbind_Panic)
qed

end
