(* ===== verification/Pcode_Strlen.thy ===== *)
theory Pcode_Strlen
  imports Pcode_Calls Pcode_ImportsSpec Pcode_Seed
begin

text \<open>
  The contract of \<^verbatim>\<open>strlen\<close>: when it applies, the result is the length of the terminated string the
  argument points to, and the state after it is the one the calling convention leaves.
\<close>

section \<open>The string\<close>

definition seen_byte :: "concrete_state \<Rightarrow> elf_process_memory \<Rightarrow> u64 \<Rightarrow> u8 option" where
  \<comment> \<open>what a load sees in the process's space: the state over the initial memory\<close>
  "seen_byte s pm a =
     (case bm_get (space_bytes s (pm_space pm)) a of Some b \<Rightarrow> Some b | None \<Rightarrow> initial_byte pm (pm_space pm) a)"

lemma read_one_byte: "read_memory s sp a 1 = Ok (map_option ucast (bm_get (space_bytes s sp) a))"
proof -
  have "checked_memory_range a 1 = Ok ()"
    using unsigned_less [of a, where ?'a = nat]
    by (simp add: checked_memory_range_def checked_memory_range_wide_def size_in_def checked_add_def)
  moreover have "byte_at a 0 = a" by (simp add: byte_at_def)
  ultimately show ?thesis
    by (auto simp: read_memory_def space_bytes_def bm_get_def split: option.splits)
qed

lemma strlen_byte_Ok:
  "strlen_byte s pm al a = Ok b \<longleftrightarrow>
     (is_mapped pm (pm_space pm) a \<or> allocation_contains al (pm_space pm) a) \<and> seen_byte s pm a = Some b"
proof -
  have "ucast (ucast b :: u64) = b" for b :: u8
    by (rule bit_word_eqI) (auto simp: bit_ucast_iff dest: bit_imp_le_length)
  then show ?thesis
    by (auto simp: strlen_byte_def read_one_byte seen_byte_def split: option.splits)
qed

lemma strlen_byte_no_panic: "strlen_byte s pm al a \<noteq> Panic"
  by (auto simp: strlen_byte_def read_one_byte)

definition string_length_is ::
  "concrete_state \<Rightarrow> elf_process_memory \<Rightarrow> process_allocations \<Rightarrow> u64 \<Rightarrow> nat \<Rightarrow> bool" where
  \<comment> \<open>a zero after that many nonzero bytes, all of them known and mapped or allocated\<close>
  "string_length_is s pm al pointer count \<longleftrightarrow> unat pointer + count < 2 ^ 64 \<and>
     (\<forall>i \<le> count. \<exists>b. strlen_byte s pm al (byte_at pointer i) = Ok b \<and> (b = 0 \<longleftrightarrow> i = count))"

lemma find_terminator_Ok:
  assumes "find_terminator byte pointer n offset = Ok (Some k)" and "offset < 2 ^ 64 - n"
  shows "offset \<le> k \<and> k < offset + n \<and> unat pointer + k < 2 ^ 64 \<and>
    (\<forall>i. offset \<le> i \<and> i \<le> k \<longrightarrow> (\<exists>b. byte (byte_at pointer i) = Ok b \<and> (b = 0 \<longleftrightarrow> i = k)))"
  using assms
proof (induction n arbitrary: offset)
  case (Suc n)
  have small: "unat (word_of_nat offset :: u64) = offset" using Suc.prems(2) by (simp add: unat_of_nat)
  from Suc.prems(1) small obtain b where fits: "unat pointer + offset < 2 ^ 64" and b: "byte (byte_at pointer offset) = Ok b"
    and rest: "(if b = 0 then Ok (Some offset) else find_terminator byte pointer n (Suc offset)) = Ok (Some k)"
    by (auto simp: byte_at_def)
  show ?case
  proof (cases "b = 0")
    case True
    with rest fits b show ?thesis by auto
  next
    case False
    with rest Suc.IH [of "Suc offset"] Suc.prems(2) have ih: "Suc offset \<le> k" "k < Suc offset + n" "unat pointer + k < 2 ^ 64"
      "\<forall>i. Suc offset \<le> i \<and> i \<le> k \<longrightarrow> (\<exists>b. byte (byte_at pointer i) = Ok b \<and> (b = 0 \<longleftrightarrow> i = k))" by auto
    have "\<exists>b. byte (byte_at pointer i) = Ok b \<and> (b = 0 \<longleftrightarrow> i = k)" if "offset \<le> i" "i \<le> k" for i
      using that ih(1,4) b False by (cases "i = offset") auto
    with ih show ?thesis by auto
  qed
qed simp

lemma terminator_length:
  assumes "find_terminator (strlen_byte s pm al) pointer MAX_IMPORT_STRING_BYTES 0 = Ok (Some k)"
  shows "string_length_is s pm al pointer k" and "k < 4096"
  using find_terminator_Ok [OF assms] by (simp_all add: string_length_is_def MAX_IMPORT_STRING_BYTES_def)

lemma find_terminator_no_panic: "(\<And>a. byte a \<noteq> Panic) \<Longrightarrow> find_terminator byte pointer n offset \<noteq> Panic"
  by (induction n arbitrary: offset) (auto simp: rbind_Panic)

section \<open>The registers\<close>

definition ranges_apart :: "u64 \<times> u32 \<Rightarrow> u64 \<times> u32 \<Rightarrow> bool" where
  "ranges_apart p q \<longleftrightarrow> unat (fst p) + 8 \<le> unat (fst q) \<or> unat (fst q) + 8 \<le> unat (fst p)"

lemma range_overlaps_False:
  assumes "range_overlaps start ranges = (Ok False :: (bool, string) result)" and "q \<in> set ranges"
  shows "ranges_apart q (start, 8)"
  using assms
proof (induction ranges)
  case (Cons r ranges)
  obtain other w where r: "r = (other, w)" by (cases r)
  have add: "add_u64 a 8 = (Ok c :: (u64, string) result) \<Longrightarrow> unat c = unat a + 8" for a c :: u64
    by (auto simp: add_u64_def unat_word_ariths split: option.splits)
  from Cons.prems(1) r obtain other_end where o: "unat other_end = unat other + 8"
    and rest: "if start < other_end then rbind (add_u64 start 8) (\<lambda>stop. if other < stop then Ok True else range_overlaps start ranges) = (Ok False :: (bool, string) result)
      else range_overlaps start ranges = (Ok False :: (bool, string) result)"
    by (auto dest: add split: if_splits)
  from rest o have "ranges_apart r (start, 8) \<and> range_overlaps start ranges = (Ok False :: (bool, string) result)"
    by (auto simp: r ranges_apart_def word_less_nat_alt not_less dest: add split: if_splits)
  with Cons show ?case by auto
qed simp

lemma add_register_range_Ok:
  assumes "add_register_range ranges node = Ok ranges'"
  shows "hex_u64 (vn_offset node) = Ok (node_start node) \<and> ranges' = ranges @ [(node_start node, 8)] \<and>
    (\<forall>q \<in> set ranges. ranges_apart q (node_start node, 8))"
proof -
  from assms obtain start where "hex_u64 (vn_offset node) = Ok start" "range_overlaps start ranges = (Ok False :: (bool, string) result)"
    "ranges' = ranges @ [(start, 8)]"
    by (auto simp: add_register_range_def split: if_splits)
  moreover from this have "node_start node = start" by (simp add: node_start_def)
  ultimately show ?thesis using range_overlaps_False by auto
qed

definition saved_node :: "ghidra_snapshot \<Rightarrow> string \<Rightarrow> pcode_varnode" where
  "saved_node snap name = the (to_option (abi_register snap name))"

definition saved_ranges :: "ghidra_snapshot \<Rightarrow> string list \<Rightarrow> (u64 \<times> u32) list" where
  \<comment> \<open>of the callee-saved registers the layout names\<close>
  "saved_ranges snap names =
     map (\<lambda>name. (node_start (saved_node snap name), 8))
       (filter (\<lambda>name. list_ex (\<lambda>r. rl_name r = name) (gs_register_layout snap)) names)"

lemma abi_register_present: "abi_register snap name = Ok node \<Longrightarrow> list_ex (\<lambda>r. rl_name r = name) (gs_register_layout snap)"
  by (auto simp: abi_register_def list_ex_iff find_Some_iff)

lemma preserve_registers_Ok:
  assumes "fold_res (preserve_register snap) (ranges, preserve) names = Ok (ranges', preserve')"
    and "sorted_wrt ranges_apart ranges"
  shows "ranges' = ranges @ saved_ranges snap names \<and> preserve' = preserve @ saved_ranges snap names \<and>
    sorted_wrt ranges_apart ranges' \<and>
    (\<forall>name \<in> set names. list_ex (\<lambda>r. rl_name r = name) (gs_register_layout snap) \<longrightarrow> is_ok (abi_register snap name))"
    (is "?P names (ranges', preserve')")
proof -
  have "case (ranges', preserve') of (r, p) \<Rightarrow> r = ranges @ saved_ranges snap names \<and> p = preserve @ saved_ranges snap names \<and>
      sorted_wrt ranges_apart r \<and>
      (\<forall>name \<in> set names. list_ex (\<lambda>r. rl_name r = name) (gs_register_layout snap) \<longrightarrow> is_ok (abi_register snap name))"
    using assms(1)
  proof (rule fold_res_processed)
    fix ys name st st'
    assume prior: "case st of (r, p) \<Rightarrow> r = ranges @ saved_ranges snap ys \<and> p = preserve @ saved_ranges snap ys \<and>
        sorted_wrt ranges_apart r \<and>
        (\<forall>name \<in> set ys. list_ex (\<lambda>r. rl_name r = name) (gs_register_layout snap) \<longrightarrow> is_ok (abi_register snap name))"
      and step: "preserve_register snap st name = Ok st'"
    obtain r p where st: "st = (r, p)" by (cases st)
    show "case st' of (r, p) \<Rightarrow> r = ranges @ saved_ranges snap (ys @ [name]) \<and> p = preserve @ saved_ranges snap (ys @ [name]) \<and>
        sorted_wrt ranges_apart r \<and> (\<forall>name \<in> set (ys @ [name]). list_ex (\<lambda>r. rl_name r = name) (gs_register_layout snap) \<longrightarrow>
          is_ok (abi_register snap name))"
    proof (cases "list_ex (\<lambda>r. rl_name r = name) (gs_register_layout snap)")
      case False
      with step prior st show ?thesis by (simp add: preserve_register_def saved_ranges_def)
    next
      case True
      with step st obtain node r' where node: "abi_register snap name = Ok node" and r': "add_register_range r node = Ok r'"
        and st': "st' = (r', p @ [last r'])"
        by (auto simp: preserve_register_def)
      from node have "saved_node snap name = node" by (simp add: saved_node_def)
      with add_register_range_Ok [OF r'] prior st st' True node show ?thesis
        by (auto simp: saved_ranges_def sorted_wrt_append)
    qed
  qed (use assms(2) in \<open>simp add: saved_ranges_def\<close>)
  then show ?thesis unfolding prod.case by blast
qed

lemma retained_register:
  assumes "state_wf s"
  shows "bm_get (cs_register_bytes (retain_register_ranges s ranges)) a =
    (if \<exists>(start, w) \<in> set ranges. in_range a start (unat w) then bm_get (cs_register_bytes s) a else None)"
proof -
  have "start \<le> a \<and> a - start < ucast w \<longleftrightarrow> in_range a start (unat w)" for start and w :: u32
    by (auto simp: in_range_def word_le_nat_alt word_less_nat_alt unat_sub_if')
  then have "list_ex (\<lambda>(start, width). start \<le> a \<and> a - start < ucast width) ranges \<longleftrightarrow>
      (\<exists>(start, w) \<in> set ranges. in_range a start (unat w))"
    by (auto simp: list_ex_iff)
  moreover have "bm_wf (cs_register_bytes s)" using assms by (simp add: state_wf_def)
  ultimately show ?thesis by (simp add: retain_register_ranges_def clear_unique_def bm_get_retain split: option.splits)
qed

lemma retained_wf:
  assumes "state_wf s"
  shows "state_wf (retain_register_ranges s ranges)"
    and "cs_memory_bytes (retain_register_ranges s ranges) = cs_memory_bytes s"
    and "cs_unique_bytes (retain_register_ranges s ranges) = []"
proof -
  have empty: "bm_wf []" by (simp add: bm_wf_def)
  have "known_byte_count (retain_register_ranges s ranges) \<le> known_byte_count s"
    using bm_len_retain [of _ "cs_register_bytes s"]
    by (simp add: known_byte_count_def retain_register_ranges_def clear_unique_def bm_len_def trans_le_add1)
  with assms show "state_wf (retain_register_ranges s ranges)"
    by (auto simp: state_wf_def retain_register_ranges_def clear_unique_def bm_wf_retain empty)
qed (simp_all add: retain_register_ranges_def clear_unique_def)

definition callee_saved_byte :: "ghidra_snapshot \<Rightarrow> u64 \<Rightarrow> bool" where
  \<comment> \<open>a byte of a callee-saved register of the layout\<close>
  "callee_saved_byte snap a \<longleftrightarrow>
     (\<exists>name \<in> set callee_saved. \<exists>node. abi_register snap name = Ok node \<and> in_range a (node_start node) 8)"

definition strlen_registers :: "ghidra_snapshot \<Rightarrow> u64 \<Rightarrow> u64 \<Rightarrow> (u64 \<Rightarrow> u8 option) \<Rightarrow> u64 \<Rightarrow> u8 option" where
  \<comment> \<open>the register bytes after the call: the result, the popped stack pointer, the callee-saved bytes as before, no other\<close>
  "strlen_registers snap count stack_end before a =
     (let rax = node_start (saved_node snap ''RAX''); rsp = node_start (saved_node snap ''RSP'') in
      if in_range a rsp 8 then Some (byte_of stack_end (unat a - unat rsp))
      else if in_range a rax 8 then Some (byte_of count (unat a - unat rax))
      else if callee_saved_byte snap a then before a else None)"

lemma strlen_contract_steps:
  assumes "apply_strlen_contract snap s pm al continuation = Ok (s', count)"
  obtains rax rdi rsp pointer stack_pointer k s1 where
    "abi_register snap ''RAX'' = Ok rax" "abi_register snap ''RDI'' = Ok rdi" "abi_register snap ''RSP'' = Ok rsp"
    "sorted_wrt ranges_apart ([(node_start rax, 8), (node_start rdi, 8), (node_start rsp, 8)] @ saved_ranges snap callee_saved)"
    "\<forall>name \<in> set callee_saved. list_ex (\<lambda>r. rl_name r = name) (gs_register_layout snap) \<longrightarrow> is_ok (abi_register snap name)"
    "read_varnode s rdi = Ok (Some pointer)" "read_varnode s rsp = Ok (Some stack_pointer)" "unat stack_pointer + 8 < 2 ^ 64"
    "stack_slot_declared pm al stack_pointer (stack_pointer + 8)" "check_return_slot s pm continuation stack_pointer = Ok ()"
    "string_length_is s pm al pointer k" "k < 4096" "count = word_of_nat k"
    "write_varnode (retain_register_ranges s ((node_start rsp, 8) # saved_ranges snap callee_saved)) rax count = Ok s1"
    "write_varnode s1 rsp (stack_pointer + 8) = Ok s'"
proof -
  from assms obtain rax rdi rsp ranges rsp_offset ranges' preserve pointer stack_pointer k s1 where
    nodes: "abi_register snap ''RAX'' = Ok rax" "abi_register snap ''RDI'' = Ok rdi" "abi_register snap ''RSP'' = Ok rsp"
    and ranges: "fold_res add_register_range [] [rax, rdi, rsp] = Ok ranges" and offset: "hex_u64 (vn_offset rsp) = Ok rsp_offset"
    and saved: "fold_res (preserve_register snap) (ranges, [(rsp_offset, 8)]) callee_saved = Ok (ranges', preserve)"
    and reads: "read_varnode s rdi = Ok (Some pointer)" "read_varnode s rsp = Ok (Some stack_pointer)" "unat stack_pointer + 8 < 2 ^ 64"
    and slot: "stack_slot_declared pm al stack_pointer (stack_pointer + 8)" "check_return_slot s pm continuation stack_pointer = Ok ()"
    and found: "find_terminator (strlen_byte s pm al) pointer MAX_IMPORT_STRING_BYTES 0 = Ok (Some k)" "count = word_of_nat k"
    and writes: "write_varnode (retain_register_ranges s preserve) rax count = Ok s1" "write_varnode s1 rsp (stack_pointer + 8) = Ok s'"
    by (auto simp: apply_strlen_contract_def simp del: fold_res.simps split: if_splits)
  from ranges have apart: "ranges = [(node_start rax, 8), (node_start rdi, 8), (node_start rsp, 8)] \<and> sorted_wrt ranges_apart ranges"
    by (auto dest!: add_register_range_Ok)
  have keep: "ranges' = ranges @ saved_ranges snap callee_saved"
    "preserve = (rsp_offset, 8) # saved_ranges snap callee_saved" "sorted_wrt ranges_apart ranges'"
    "\<forall>name \<in> set callee_saved. list_ex (\<lambda>r. rl_name r = name) (gs_register_layout snap) \<longrightarrow> is_ok (abi_register snap name)"
    using preserve_registers_Ok [OF saved] apart unfolding append.simps by blast+
  have "rsp_offset = node_start rsp" using offset by (simp add: node_start_def)
  with keep(2) have preserve: "preserve = (node_start rsp, 8) # saved_ranges snap callee_saved" by simp
  have sorted: "sorted_wrt ranges_apart ([(node_start rax, 8), (node_start rdi, 8), (node_start rsp, 8)] @ saved_ranges snap callee_saved)"
    using keep(1,3) apart by simp
  show thesis
    by (rule that [OF nodes sorted keep(4) reads slot terminator_length [OF found(1)] found(2) writes(1) [unfolded preserve] writes(2)])
qed

lemma abi_register_node:
  assumes "abi_register snap name = Ok node"
  shows "vn_space node = ''register''" and "node_len node = 8" and "saved_node snap name = node"
  using assms by (auto simp: abi_register_def node_len_def saved_node_def split: if_splits)

lemma saved_ranges_cover:
  assumes "\<forall>name \<in> set callee_saved. list_ex (\<lambda>r. rl_name r = name) (gs_register_layout snap) \<longrightarrow> is_ok (abi_register snap name)"
  shows "(\<exists>(start, w) \<in> set (saved_ranges snap callee_saved). in_range a start (unat w)) \<longleftrightarrow> callee_saved_byte snap a"
proof
  assume "\<exists>(start, w) \<in> set (saved_ranges snap callee_saved). in_range a start (unat w)"
  then obtain name where name: "name \<in> set callee_saved" "list_ex (\<lambda>r. rl_name r = name) (gs_register_layout snap)"
    "in_range a (node_start (saved_node snap name)) 8"
    by (auto simp: saved_ranges_def)
  with assms obtain node where "abi_register snap name = Ok node" by (auto simp: is_ok_iff)
  with name abi_register_node(3) [OF this] show "callee_saved_byte snap a" by (auto simp: callee_saved_byte_def)
next
  assume "callee_saved_byte snap a"
  then obtain name node where name: "name \<in> set callee_saved" "abi_register snap name = Ok node" "in_range a (node_start node) 8"
    by (auto simp: callee_saved_byte_def)
  then have "(node_start node, 8) \<in> set (saved_ranges snap callee_saved)"
    using abi_register_node(3) [OF name(2)] abi_register_present [OF name(2)] by (auto simp: saved_ranges_def)
  with name(3) show "\<exists>(start, w) \<in> set (saved_ranges snap callee_saved). in_range a start (unat w)" by force
qed

lemma write_abi_register:
  assumes "write_varnode s node v = Ok s'" and "vn_space node = ''register''" and "node_len node = 8" and "state_wf s"
  shows "state_wf s'" and "cs_memory_bytes s' = cs_memory_bytes s" and "cs_unique_bytes s' = cs_unique_bytes s"
    and "bm_get (cs_register_bytes s') a =
      (if in_range a (node_start node) 8 then Some (byte_of v (unat a - unat (node_start node))) else bm_get (cs_register_bytes s) a)"
proof -
  from assms(1) have w: "write_varnode_wide s node (ucast v) = Ok s'" by (auto simp: write_varnode_def split: if_splits)
  show "state_wf s'" by (rule write_varnode_wide_wf [OF assms(4) w])
  from w assms(2) show "cs_memory_bytes s' = cs_memory_bytes s" "cs_unique_bytes s' = cs_unique_bytes s"
    by (auto simp: write_varnode_wide_Ok set_scalar_bytes_def)
  from write_varnode_wide_get [OF w, of "''register''" a] assms(2,3)
  show "bm_get (cs_register_bytes s') a =
      (if in_range a (node_start node) 8 then Some (byte_of v (unat a - unat (node_start node))) else bm_get (cs_register_bytes s) a)"
    by (auto simp: scalar_bytes_def scalar_space_def in_range_def byte_of_ucast)
qed

lemma strlen_contract_spec:
  assumes run: "apply_strlen_contract snap s pm al continuation = Ok (s', count)" and wf: "state_wf s"
  shows "\<exists>pointer stack_pointer return_address.
    read_varnode s (saved_node snap ''RDI'') = Ok (Some pointer) \<and> string_length_is s pm al pointer (unat count) \<and> unat count < 4096 \<and>
    read_varnode s (saved_node snap ''RSP'') = Ok (Some stack_pointer) \<and>
    read_memory s (pm_space pm) stack_pointer 8 = Ok (Some return_address) \<and>
    pa_space continuation = pm_space pm \<and> hex_u64 (pa_offset continuation) = Ok return_address \<and>
    state_wf s' \<and> cs_memory_bytes s' = cs_memory_bytes s \<and> cs_unique_bytes s' = [] \<and>
    bm_get (cs_register_bytes s') = strlen_registers snap count (stack_pointer + 8) (bm_get (cs_register_bytes s))"
proof -
  obtain rax rdi rsp pointer stack_pointer k s1 where nodes: "abi_register snap ''RAX'' = Ok rax" "abi_register snap ''RDI'' = Ok rdi"
    "abi_register snap ''RSP'' = Ok rsp"
    and present: "\<forall>name \<in> set callee_saved. list_ex (\<lambda>r. rl_name r = name) (gs_register_layout snap) \<longrightarrow> is_ok (abi_register snap name)"
    and reads: "read_varnode s rdi = Ok (Some pointer)" "read_varnode s rsp = Ok (Some stack_pointer)"
    and slot: "check_return_slot s pm continuation stack_pointer = Ok ()"
    and str: "string_length_is s pm al pointer k" "k < 4096" "count = word_of_nat k"
    and w1: "write_varnode (retain_register_ranges s ((node_start rsp, 8) # saved_ranges snap callee_saved)) rax count = Ok s1"
    and w2: "write_varnode s1 rsp (stack_pointer + 8) = Ok s'"
    by (rule strlen_contract_steps [OF run])
  have k: "unat count = k" using str(2,3) by (simp add: unat_of_nat)
  note rax = abi_register_node [OF nodes(1)] and rdi = abi_register_node [OF nodes(2)] and rsp = abi_register_node [OF nodes(3)]
  note kept = retained_wf [OF wf, of "(node_start rsp, 8) # saved_ranges snap callee_saved"]
  note step1 = write_abi_register [OF w1 rax(1,2) kept(1)]
  note step2 = write_abi_register [OF w2 rsp(1,2) step1(1)]
  have "bm_get (cs_register_bytes s') a = strlen_registers snap count (stack_pointer + 8) (bm_get (cs_register_bytes s)) a" for a
    unfolding step2(4) step1(4) retained_register [OF wf] strlen_registers_def Let_def rax(3) rsp(3)
    using saved_ranges_cover [OF present, of a] by auto
  moreover from slot obtain return_address where "read_memory s (pm_space pm) stack_pointer 8 = Ok (Some return_address)"
    "pa_space continuation = pm_space pm" "hex_u64 (pa_offset continuation) = Ok return_address"
    by (auto simp: check_return_slot_def Let_def split: if_splits)
  ultimately show ?thesis using reads str k rdi(3) rsp(3) step1 step2 kept by (auto simp: fun_eq_iff)
qed

end
