(* ===== verification/Pcode_CallSpec.thy ===== *)
theory Pcode_CallSpec
  imports Pcode_CallPath Pcode_Strlen
begin

text \<open>
  The call path returns: its invariant and measure, and what a returned trace keeps of the budgets and
  of the initial memory.
\<close>

section \<open>A segment that ends at a call or return\<close>

definition terminal_stop :: "path_stop \<Rightarrow> bool" where
  "terminal_stop stop = (case stop of CallStop _ \<Rightarrow> True | ReturnStop _ \<Rightarrow> True | _ \<Rightarrow> False)"

lemma terminal_stop_simps [simp]:
  "terminal_stop (CallStop a)" "terminal_stop (ReturnStop a)" "\<not> terminal_stop (UnknownCondition a b)"
  "\<not> terminal_stop (UnknownIndirectTarget a b)" "\<not> terminal_stop (MalformedTarget a e)" "\<not> terminal_stop (TargetNotSelected a t)"
  "\<not> terminal_stop (FallthroughTargetNotSelected t u)" "\<not> terminal_stop (UnresolvedFallthrough t)"
  "\<not> terminal_stop (AmbiguousFallthrough t)" "\<not> terminal_stop (EffectBoundary x)" "\<not> terminal_stop (PathOperationBudget a)"
  "\<not> terminal_stop (VisitBudget t)"
  by (simp_all add: terminal_stop_def)

lemma leave_simps [simp]: "leave ps stop = Inr (ps', r) \<longleftrightarrow> ps' = ps \<and> r = Ok stop" "leave ps stop \<noteq> Inl x"
  by (auto simp: leave_def)

lemma branch_taken_stop: "branch_taken source s conditional = Err stop \<Longrightarrow> \<not> terminal_stop stop"
  by (auto simp: branch_taken_def rbind_Err index_rs_def map_err_def split: if_splits option.splits result.splits)

lemma relative_target_stop: "relative_target source node n m = Err stop \<Longrightarrow> \<not> terminal_stop stop"
  by (auto simp: relative_target_def Let_def split: if_splits result.splits)

lemma direct_branch_stop: "direct_branch_step ctx i source ps = Inr (ps', Ok stop) \<Longrightarrow> \<not> terminal_stop stop"
  unfolding direct_branch_step_def Let_def
  by (auto split: if_splits result.splits option.splits bool.splits dest: branch_taken_stop relative_target_stop)

lemma indirect_branch_stop: "indirect_branch_step ctx i source ps = Inr (ps', Ok stop) \<Longrightarrow> \<not> terminal_stop stop"
  unfolding indirect_branch_step_def Let_def
  by (auto split: if_splits result.splits option.splits)

lemma effect_stop: "effect_step ctx opn ps = Inr (ps', Ok stop) \<Longrightarrow> \<not> terminal_stop stop"
  by (auto simp: effect_step_def Let_def split: prod.splits result.splits)

lemma fallthrough_stop: "fallthrough_step ctx i ps = Inr (ps', Ok stop) \<Longrightarrow> \<not> terminal_stop stop"
  by (auto simp: fallthrough_step_def split: result.splits option.splits list.splits)

lemma terminal_within_budget:
  assumes "path_step ctx t = Inr (ps, Ok stop)" and "terminal_stop stop"
  shows "ph_operation_count ps < pc_max_operations ctx"
proof -
  have step: "ph_operation_count ps < pc_max_operations ctx" if "operation_step ctx i opn ps' = Inr (ps, Ok stop)" for i opn ps'
    using that assms(2)
    by (auto simp: operation_step_def Let_def call_return_step_def not_le split: if_splits
        dest: direct_branch_stop indirect_branch_stop effect_stop)
  from assms show ?thesis
    by (auto simp: path_step_def split: option.splits if_splits dest: fallthrough_stop intro: step)
qed

lemma path_trace_terminal:
  assumes "execute_concrete_path_inner snap s img start max_operations max_visits = Some (Ok t)" and "state_sorted s"
  shows "segment_operations t \<le> max_operations"
proof -
  from assms(1) obtain ctx start_address current where
    exec: "path_setup snap s img start max_operations max_visits = Ok (ctx, start_address, current)"
    by (auto simp: execute_concrete_path_inner_def split: result.splits)
  note start = path_setup_ok [OF exec assms(2)]
  from path_returns [OF start(1)] obtain ps stop where
    run: "run_loop (path_step ctx) (start_path s current) = Some (ps, Ok stop)" and ok: "path_ok ctx ps" by blast
  from assms(1) exec run have t: "t = path_trace_of snap start_address ps stop"
    by (simp add: execute_concrete_path_inner_def)
  have "ph_operation_count ps < max_operations" if "terminal_stop stop"
    using path.exit_state [OF start(1) run] terminal_within_budget that start(2) by blast
  then show ?thesis using ok start(2)
    by (auto simp: t path_trace_of_def segment_operations_def path_ok_def split: path_stop.splits)
qed

section \<open>Nothing panics\<close>

definition services_total :: "call_services \<Rightarrow> bool" where
  \<comment> \<open>the parsers and the serializers return\<close>
  "services_total services \<longleftrightarrow> host_total (ks_host services) \<and> (\<forall>snap. ks_snapshot_json services snap \<noteq> Panic) \<and>
     (\<forall>pm. ks_process_json services pm \<noteq> Panic) \<and> (\<forall>binary. ks_parse_imports services binary \<noteq> Panic)"

lemma process_validation_no_panic:
  assumes "host_total h"
  shows "process_validate_for_snapshot h pm snap \<noteq> Panic"
proof -
  have "mask_entry_ok pm i \<noteq> Panic"
    if "i < length (pm_bytes pm)" "length (pm_known pm) = length (pm_bytes pm)" "length (pm_mapped pm) = length (pm_bytes pm)"
      "length (pm_writable pm) = length (pm_bytes pm)" for i
    using that by (simp add: mask_entry_ok_def index_rs_def)
  then have "for_each (mask_entry_ok pm) [0..<length (pm_bytes pm)] \<noteq> Panic"
    if "length (pm_known pm) = length (pm_bytes pm)" "length (pm_mapped pm) = length (pm_bytes pm)"
      "length (pm_writable pm) = length (pm_bytes pm)"
    using that by (intro for_each_no_panic) simp
  then show ?thesis using layout_no_panic [OF assms]
    by (auto simp: process_validate_for_snapshot_def Let_def rbind_Panic)
qed

lemma allocations_validation_no_panic:
  assumes "host_total h"
  shows "allocations_validate_for h al snap pm \<noteq> Panic"
proof -
  have "check_allocation pm stop st r \<noteq> Panic" for stop st r
    by (auto simp: check_allocation_def rbind_Panic split: prod.splits)
  then have each: "fold_res (check_allocation pm stop) st rs \<noteq> Panic" for stop st rs
    by (intro fold_res_no_panic [where P = "\<lambda>_. True"]) simp_all
  have two: "check_two_allocations rs \<noteq> Panic" if run: "fold_res (check_allocation pm stop) (0, []) rs = Ok st" for stop rs st
  proof -
    obtain t u where "st = (t, u)" by (cases st)
    with check_allocations_Ok(1) [of pm stop 0 "[]" rs t u] run
    have "\<forall>r \<in> set rs. add_u64 (al_base r) (al_byte_len r) \<noteq> (Panic :: (u64, string) result)"
      by (auto simp: PCODE_PROCESS_ALLOCATION_MAX_BYTES_def add_u64_def checked_add_def)
    then show ?thesis by (auto simp: check_two_allocations_def rbind_Panic split: list.splits)
  qed
  show ?thesis using process_validation_no_panic [OF assms] layout_no_panic [OF assms] each two
    by (auto simp: allocations_validate_for_def Let_def rbind_Panic)
qed

lemma image_validation_no_panic:
  assumes "host_total h"
  shows "validate_image_for h img snap s \<noteq> Panic"
proof -
  have "validate_readonly_image s img \<noteq> Panic"
    by (auto simp: validate_readonly_image_def intro!: for_each_no_panic split: option.splits if_splits)
  then show ?thesis using layout_no_panic [OF assms]
    by (auto simp: validate_image_for_def Let_def rbind_Panic)
qed

lemma allocated_validation_no_panic:
  assumes "host_total h"
  shows "allocated_validate_for h pm al snap s \<noteq> Panic"
proof -
  have "for_each (\<lambda>(sp, bytes). for_each (\<lambda>(address, v).
         if \<not> allocated_mapped pm al sp address
           then Err (''seed byte at '' @ sp @ '':'' @ fmt_hex address @ '' has no declared allocation or ELF mapping'')
         else if \<not> allocated_writable pm al sp address \<and> initial_byte pm sp address \<noteq> Some v
           then Err (''seed byte at '' @ sp @ '':'' @ fmt_hex address @ '' conflicts with read-only ELF memory'')
         else Ok ()) bytes) ms \<noteq> Panic" for ms
    by (intro for_each_no_panic) (auto intro!: for_each_no_panic split: if_splits)
  then show ?thesis using allocations_validation_no_panic [OF assms]
    by (auto simp: allocated_validate_for_def rbind_Panic)
qed

lemma call_target_no_panic: "call_target snap source site s \<noteq> Panic"
proof -
  have key: "path_key a \<noteq> Panic" for a by (simp add: path_key_def)
  then have "call_evidence_ok direct calls target \<noteq> Panic" for direct calls target
    by (auto simp: call_evidence_ok_def split: list.splits)
  moreover have "call_continuation snap site \<noteq> Panic"
    by (auto simp: call_continuation_def rbind_Panic split: list.splits)
  moreover have "call_value direct input s \<noteq> Panic" for direct input
    by (auto simp: call_value_def rbind_Panic)
  moreover have "index_rs xs 0 \<noteq> (Panic :: (pcode_varnode, string) result)" if "length xs = 1" for xs
    using that by (simp add: index_rs_def)
  ultimately show ?thesis by (auto simp: call_target_def Let_def rbind_Panic)
qed

lemma accepted_register:
  assumes "validate_ghidra_snapshot snap d = Ok ()" and "r \<in> set (gs_register_layout snap)"
  shows "\<exists>a. hex_u64 (pa_offset (rl_storage r)) = Ok a \<and> unat a + unat (rl_size_bytes r) < 2 ^ 64"
proof -
  from assms(1) obtain names st where "fold_res (validate_register names) None (gs_register_layout snap) = Ok st"
    by (auto simp: validate_ghidra_snapshot_def validate_layout_def split: if_splits)
  from fold_res_step_at [OF this assms(2)] obtain u v where "validate_register names u r = Ok v" by blast
  then obtain a where "address_offset (rl_storage r) = Ok a" "checked_add a (ucast (rl_size_bytes r)) \<noteq> None"
    by (auto simp: validate_register_def split: if_splits)
  then show ?thesis by (auto simp: address_offset_def)
qed

definition below_top :: "u64 \<times> u32 \<Rightarrow> bool" where
  "below_top p \<longleftrightarrow> unat (fst p) + 8 < 2 ^ 64"

lemma range_overlaps_no_panic:
  assumes "below_top (start, 8)" and "\<forall>p \<in> set ranges. below_top p"
  shows "range_overlaps start ranges \<noteq> (Panic :: (bool, string) result)"
  using assms(2)
proof (induction ranges)
  case (Cons p ranges)
  have add: "add_u64 (fst q) 8 = (Ok (fst q + 8) :: (u64, string) result)" if "below_top q" for q
    using that by (simp add: add_u64_def checked_add_def below_top_def)
  obtain other w where p: "p = (other, w)" by (cases p)
  with Cons add [of p] add [OF assms(1)] show ?case by (simp add: rbind_Panic)
qed simp

lemma abi_register_below:
  assumes "validate_ghidra_snapshot snap d = Ok ()" and "abi_register snap name = Ok node"
  shows "hex_u64 (vn_offset node) = Ok (node_start node) \<and> below_top (node_start node, 8)"
proof -
  from assms(2) obtain r where r: "List.find (\<lambda>r. rl_name r = name) (gs_register_layout snap) = Some r" "rl_size_bytes r = 8"
    "vn_offset node = pa_offset (rl_storage r)"
    by (auto simp: abi_register_def split: if_splits)
  then have "r \<in> set (gs_register_layout snap)" by (auto simp: find_Some_iff)
  from accepted_register [OF assms(1) this] r show ?thesis by (auto simp: node_start_def below_top_def)
qed

lemma add_range_below:
  assumes "hex_u64 (vn_offset node) = Ok (node_start node)" and "below_top (node_start node, 8)" and "\<forall>p \<in> set ranges. below_top p"
  shows "add_register_range ranges node \<noteq> Panic"
    and "add_register_range ranges node = Ok ranges' \<Longrightarrow> \<forall>p \<in> set ranges'. below_top p"
proof -
  show "add_register_range ranges node \<noteq> Panic"
    using assms range_overlaps_no_panic [OF assms(2,3)] by (simp add: add_register_range_def rbind_Panic)
  show "\<forall>p \<in> set ranges'. below_top p" if "add_register_range ranges node = Ok ranges'"
    using add_register_range_Ok [OF that] assms(2,3) by auto
qed

lemma abi_register_no_panic: "abi_register snap name \<noteq> Panic"
  by (auto simp: abi_register_def rbind_Panic)

lemma strlen_no_panic:
  assumes valid: "validate_ghidra_snapshot snap d = Ok ()"
  shows "apply_strlen_contract snap s pm al continuation \<noteq> Panic"
proof -
  note below = abi_register_below [OF valid]
  have three: "fold_res add_register_range [] nodes \<noteq> Panic \<and>
      (\<forall>ranges. fold_res add_register_range [] nodes = Ok ranges \<longrightarrow> (\<forall>p \<in> set ranges. below_top p))"
    if nodes: "\<forall>node \<in> set nodes. hex_u64 (vn_offset node) = Ok (node_start node) \<and> below_top (node_start node, 8)" for nodes
  proof -
    have ok: "add_register_range ranges node \<noteq> Panic"
      and next_ok: "add_register_range ranges node = Ok ranges' \<Longrightarrow> \<forall>p \<in> set ranges'. below_top p"
      if "\<forall>p \<in> set ranges. below_top p" "node \<in> set nodes" for ranges node ranges'
    proof -
      from nodes that(2) have node: "hex_u64 (vn_offset node) = Ok (node_start node)" "below_top (node_start node, 8)" by blast+
      show "add_register_range ranges node \<noteq> Panic" by (rule add_range_below(1) [OF node that(1)])
      show "add_register_range ranges node = Ok ranges' \<Longrightarrow> \<forall>p \<in> set ranges'. below_top p"
        by (rule add_range_below(2) [OF node that(1)])
    qed
    have "fold_res add_register_range [] nodes \<noteq> Panic"
    proof (rule fold_res_no_panic [where P = "\<lambda>ranges. \<forall>p \<in> set ranges. below_top p"])
      show "add_register_range ranges node \<noteq> Panic" if "\<forall>p \<in> set ranges. below_top p" "node \<in> set nodes" for ranges node
        using that by (rule ok)
      show "\<forall>p \<in> set ranges'. below_top p"
        if "\<forall>p \<in> set ranges. below_top p" "node \<in> set nodes" "add_register_range ranges node = Ok ranges'" for ranges node ranges'
        using that by (rule next_ok)
    qed simp
    moreover have "\<forall>p \<in> set ranges. below_top p" if run: "fold_res add_register_range [] nodes = Ok ranges" for ranges
    proof (rule fold_res_invariant [OF run, where P = "\<lambda>ranges. \<forall>p \<in> set ranges. below_top p"])
      show "\<forall>p \<in> set ranges'. below_top p"
        if "\<forall>p \<in> set ranges. below_top p" "node \<in> set nodes" "add_register_range ranges node = Ok ranges'" for ranges node ranges'
        using that by (rule next_ok)
    qed simp
    ultimately show ?thesis by blast
  qed
  have keep: "fold_res (preserve_register snap) (ranges, preserve) names \<noteq> Panic" if "\<forall>p \<in> set ranges. below_top p" for ranges preserve names
  proof (rule fold_res_no_panic [where P = "\<lambda>st. \<forall>p \<in> set (fst st). below_top p"])
    show "\<forall>p \<in> set (fst (ranges, preserve)). below_top p" using that by simp
  next
    fix st :: "(u64 \<times> u32) list \<times> (u64 \<times> u32) list" and name assume "\<forall>p \<in> set (fst st). below_top p"
    then have ranges: "\<forall>p \<in> set (fst st). below_top p" .
    have "add_register_range (fst st) node \<noteq> Panic" if "abi_register snap name = Ok node" for node
    proof -
      from below [OF that] have node: "hex_u64 (vn_offset node) = Ok (node_start node)" "below_top (node_start node, 8)" by blast+
      show ?thesis by (rule add_range_below(1) [OF node ranges])
    qed
    then show "preserve_register snap st name \<noteq> Panic"
      using abi_register_no_panic [of snap name]
      by (cases st; cases "abi_register snap name") (simp_all add: preserve_register_def)
  next
    fix st st' :: "(u64 \<times> u32) list \<times> (u64 \<times> u32) list" and name assume ok: "\<forall>p \<in> set (fst st). below_top p" and step: "preserve_register snap st name = Ok st'"
    obtain r p where st: "st = (r, p)" by (cases st)
    show "\<forall>p \<in> set (fst st'). below_top p"
    proof (cases "list_ex (\<lambda>r. rl_name r = name) (gs_register_layout snap)")
      case True
      with step st obtain node r' where node: "abi_register snap name = Ok node" and r': "add_register_range r node = Ok r'"
        and st': "st' = (r', p @ [last r'])" by (auto simp: preserve_register_def)
      from below [OF node] add_range_below(2) [OF _ _ _ r'] ok st st' show ?thesis by auto
    qed (use step ok st in \<open>simp add: preserve_register_def\<close>)
  qed
  have abi: "fold_res add_register_range [] [rax, rdi, rsp] \<noteq> Panic \<and>
      (\<forall>ranges preserve. fold_res add_register_range [] [rax, rdi, rsp] = Ok ranges \<longrightarrow>
         fold_res (preserve_register snap) (ranges, preserve) callee_saved \<noteq> Panic)"
    if "abi_register snap ''RAX'' = Ok rax" "abi_register snap ''RDI'' = Ok rdi" "abi_register snap ''RSP'' = Ok rsp" for rax rdi rsp
  proof -
    have "\<forall>node \<in> set [rax, rdi, rsp]. hex_u64 (vn_offset node) = Ok (node_start node) \<and> below_top (node_start node, 8)"
      using below [OF that(1)] below [OF that(2)] below [OF that(3)] by simp
    from three [OF this] keep show ?thesis by blast
  qed
  have slot: "check_return_slot s pm continuation sp \<noteq> Panic" for sp
    by (auto simp: check_return_slot_def read_memory_def checked_memory_range_def checked_memory_range_wide_def rbind_Panic Let_def
        split: option.splits)
  have writes: "write_varnode s node v \<noteq> Panic" for s node v by (simp add: write_varnode_def)
  show ?thesis
    using abi_register_no_panic abi slot writes find_terminator_no_panic [of "strlen_byte s pm al", OF strlen_byte_no_panic]
    by (auto simp: apply_strlen_contract_def rbind_Panic simp del: fold_res.simps)
qed

lemma import_contract_no_panic:
  "validate_ghidra_snapshot snap d = Ok () \<Longrightarrow> apply_import_contract import snap s pm al continuation \<noteq> Panic"
  by (simp add: apply_import_contract_def strlen_no_panic)

end
