(* ===== verification/Pcode_CallRun.thy ===== *)
theory Pcode_CallRun
  imports Pcode_CallSpec
begin

text \<open>
  The loop of the call path as an instance of the locale \<open>bounded_loop\<close>: its invariant, its measure (the
  segments left of 128), and from them that the run returns, never panics, and keeps its budgets and
  the initial memory.
\<close>

section \<open>The setup\<close>

definition calls_context_ok :: "call_context \<Rightarrow> bool" where
  \<comment> \<open>what the setup establishes\<close>
  "calls_context_ok ctx \<longleftrightarrow> services_total (kx_services ctx) \<and>
     map Ok (kx_digests ctx) = map (snapshot_digest (kx_services ctx)) (kx_snapshots ctx) \<and>
     (\<forall>snap \<in> set (kx_snapshots ctx). \<exists>d. validate_ghidra_snapshot snap d = Ok ()) \<and>
     (\<forall>k n. bm_get (kx_index ctx) k = Some n \<longrightarrow> n < length (kx_snapshots ctx) \<and>
        path_key (sf_entry (gs_selected_function (kx_snapshots ctx ! n))) = Ok k)"

lemma calls_context_digests: "calls_context_ok ctx \<Longrightarrow> length (kx_digests ctx) = length (kx_snapshots ctx)"
  unfolding calls_context_ok_def by (metis length_map)

definition checked_snapshots ::
  "call_services \<Rightarrow> (nat \<times> ghidra_snapshot) list \<Rightarrow> (address_key, nat) btree_map \<times> string list \<Rightarrow> bool" where
  "checked_snapshots services ps st \<longleftrightarrow> (case st of (index, digests) \<Rightarrow>
     map Ok digests = map (snapshot_digest services \<circ> snd) ps \<and> (\<forall>p \<in> set ps. \<exists>d. validate_ghidra_snapshot (snd p) d = Ok ()) \<and>
     (\<forall>k n. bm_get index k = Some n \<longrightarrow>
        (\<exists>snap. (n, snap) \<in> set ps \<and> path_key (sf_entry (gs_selected_function snap)) = Ok k)))"

lemma check_call_snapshots:
  assumes "fold_res (check_call_snapshot services root allocated) ([], []) ps = Ok st"
  shows "checked_snapshots services ps st"
  using assms
proof (rule fold_res_processed)
  show "checked_snapshots services [] ([], [])" by (simp add: checked_snapshots_def bm_get_def)
next
  fix ys p st st'
  assume prior: "checked_snapshots services ys st" and step: "check_call_snapshot services root allocated st p = Ok st'"
  obtain index digests number snap where split: "st = (index, digests)" "p = (number, snap)" by (metis surj_pair)
  with step obtain k digest where "validate_ghidra_snapshot snap (gs_binary_sha256 root) = Ok ()"
    "path_key (sf_entry (gs_selected_function snap)) = Ok k" "st' = (bm_insert k number index, digests @ [digest])"
    "snapshot_digest services snap = Ok digest"
    by (auto simp: check_call_snapshot_def split: if_splits)
  with prior split show "checked_snapshots services (ys @ [p]) st'"
    by (auto simp: checked_snapshots_def bm_get_insert split: if_splits) blast
qed

lemma call_setup_ok:
  assumes "call_setup services snapshots img allocated binary max_operations max_visits max_depth = Ok (ctx, root)"
    and "services_total services"
  shows "calls_context_ok ctx" and "kx_snapshots ctx = snapshots" and "snapshots \<noteq> []" and "root = hd snapshots"
    and "kx_services ctx = services" and "kx_image ctx = img" and "kx_allocated ctx = allocated" and "kx_import_binary ctx = binary"
    and "kx_max_operations ctx = max_operations" and "kx_max_visits ctx = max_visits" and "kx_max_depth ctx = max_depth"
    and "max_operations \<le> MAX_OPERATIONS" and "max_visits \<le> MAX_OPERATIONS" and "max_depth \<le> MAX_CALL_DEPTH"
proof -
  from assms(1) obtain index digests where root: "get_rs snapshots 0 = Some root"
    and run: "fold_res (check_call_snapshot services root allocated) ([], []) (List.enumerate 0 snapshots) = Ok (index, digests)"
    and ctx: "ctx = \<lparr>kx_services = services, kx_snapshots = snapshots, kx_index = index, kx_digests = digests, kx_image = img,
            kx_allocated = allocated, kx_import_binary = binary, kx_max_operations = max_operations,
            kx_max_visits = max_visits, kx_max_depth = max_depth\<rparr>"
    and limits: "max_operations \<le> MAX_OPERATIONS" "max_visits \<le> MAX_OPERATIONS" "max_depth \<le> MAX_CALL_DEPTH"
    by (auto simp: call_setup_def split: if_splits)
  have listed: "(n, snapshots ! n) \<in> set (List.enumerate 0 snapshots)" if "n < length snapshots" for n
    using that by (simp add: in_set_enumerate_eq)
  from check_call_snapshots [OF run] have checked: "map Ok digests = map (snapshot_digest services) snapshots"
    "\<forall>p \<in> set (List.enumerate 0 snapshots). \<exists>d. validate_ghidra_snapshot (snd p) d = Ok ()"
    "\<forall>k n. bm_get index k = Some n \<longrightarrow> n < length snapshots \<and> path_key (sf_entry (gs_selected_function (snapshots ! n))) = Ok k"
    by (auto simp: checked_snapshots_def in_set_enumerate_eq simp flip: map_map)
  have "\<forall>snap \<in> set snapshots. \<exists>d. validate_ghidra_snapshot snap d = Ok ()"
    using checked(2) listed by (metis in_set_conv_nth snd_conv)
  with checked assms(2) show "calls_context_ok ctx" by (auto simp: calls_context_ok_def ctx)
  from root show "snapshots \<noteq> []" "root = hd snapshots" by (auto simp: get_rs_def hd_conv_nth split: if_splits)
qed (use assms(1) in \<open>auto simp: call_setup_def split: if_splits\<close>)

lemma call_setup_no_panic:
  assumes "services_total services"
  shows "call_setup services snapshots img allocated binary max_operations max_visits max_depth \<noteq> Panic"
proof -
  have total: "host_total (ks_host services)" "ks_snapshot_json services snap \<noteq> Panic" for snap
    using assms by (simp_all add: services_total_def)
  have "check_call_snapshot services root allocated st p \<noteq> Panic" for root st p
    using allocations_validation_no_panic [OF total(1)] total(2) validate_snapshot_not_Panic
    by (auto simp: check_call_snapshot_def path_key_def snapshot_digest_def rbind_Panic split: prod.splits option.splits)
  then have "fold_res (check_call_snapshot services root allocated) st ps \<noteq> Panic" for root st ps
    by (intro fold_res_no_panic [where P = "\<lambda>_. True"]) simp_all
  then show ?thesis by (auto simp: call_setup_def rbind_Panic)
qed

section \<open>A segment\<close>

definition segment_memory :: "call_context \<Rightarrow> initial_memory option" where
  "segment_memory ctx =
     (case kx_allocated ctx of
        Some (pm, al) \<Rightarrow> Some (allocated_memory (ks_host (kx_services ctx)) pm al)
      | None \<Rightarrow> map_option (image_memory (ks_host (kx_services ctx))) (kx_image ctx))"

lemma run_segment_eq:
  "run_segment ctx snap st = execute_concrete_path_inner snap (ck_state st) (segment_memory ctx) (Some (ck_start st))
     (kx_max_operations ctx - ck_executed st) (kx_max_visits ctx - ck_visits st)"
  by (auto simp: run_segment_def segment_memory_def Let_def execute_concrete_path_with_allocations_def
      execute_concrete_path_with_image_def execute_concrete_path_def split: option.splits)

definition memory_kept :: "call_context \<Rightarrow> concrete_state \<Rightarrow> bool" where
  "memory_kept ctx s \<longleftrightarrow> state_wf s \<and> (\<forall>im. segment_memory ctx = Some im \<longrightarrow> honours im s)"

lemma segment_ends:
  assumes ctx: "calls_context_ok ctx" and sorted: "state_sorted (ck_state st)"
  shows "\<exists>r. run_segment ctx snap st = Some r \<and> r \<noteq> Panic"
    and "run_segment ctx snap st = Some (Ok path) \<Longrightarrow>
      segment_operations path \<le> kx_max_operations ctx - ck_executed st \<and>
      length (pp_instruction_visits path) \<le> kx_max_visits ctx - ck_visits st \<and> memory_kept ctx (pp_final_state path)"
proof -
  have total: "host_total (ks_host (kx_services ctx))" using ctx by (simp add: calls_context_ok_def services_total_def)
  have "im_validate_for im snap s \<noteq> Panic" if "segment_memory ctx = Some im" for im s
    using that image_validation_no_panic [OF total] allocated_validation_no_panic [OF total]
    by (auto simp: segment_memory_def allocated_memory_def image_memory_def split: option.splits)
  with concrete_path_returns [OF sorted, of "segment_memory ctx"] show "\<exists>r. run_segment ctx snap st = Some r \<and> r \<noteq> Panic"
    unfolding run_segment_eq by blast
  assume run: "run_segment ctx snap st = Some (Ok path)"
  note trace = concrete_path_trace [OF run [unfolded run_segment_eq] sorted]
  have "honours im (pp_final_state path)" if im: "segment_memory ctx = Some im" for im
  proof -
    from im consider img where "im = image_memory (ks_host (kx_services ctx)) img"
      | pm al where "im = allocated_memory (ks_host (kx_services ctx)) pm al"
      by (auto simp: segment_memory_def split: option.splits)
    then show ?thesis
      using run [unfolded run_segment_eq im] sorted image_provider.run_honours allocated_provider.run_honours by cases blast+
  qed
  with trace path_trace_terminal [OF run [unfolded run_segment_eq] sorted]
  show "segment_operations path \<le> kx_max_operations ctx - ck_executed st \<and>
      length (pp_instruction_visits path) \<le> kx_max_visits ctx - ck_visits st \<and> memory_kept ctx (pp_final_state path)"
    by (simp add: memory_kept_def)
qed

section \<open>The invariant\<close>

definition calls_ok :: "call_context \<Rightarrow> call_state \<Rightarrow> bool" where
  "calls_ok ctx st \<longleftrightarrow> calls_context_ok ctx \<and> ck_current st < length (kx_snapshots ctx) \<and>
     length (ck_indices st) = length (kx_snapshots ctx) \<and>
     (\<forall>fr \<in> set (ck_frames st). fr_caller_index fr < length (kx_snapshots ctx)) \<and>
     length (ck_frames st) \<le> kx_max_depth ctx \<and> state_sorted (ck_state st) \<and>
     (ck_segments st \<noteq> [] \<longrightarrow> memory_kept ctx (ck_state st)) \<and>
     ck_executed st = sum_list (map (segment_operations \<circ> sg_path) (ck_segments st)) \<and>
     ck_visits st = sum_list (map (length \<circ> pp_instruction_visits \<circ> sg_path) (ck_segments st)) \<and>
     ck_executed st \<le> kx_max_operations ctx \<and> ck_visits st \<le> kx_max_visits ctx \<and>
     length (ck_segments st) \<le> MAX_SEGMENTS \<and>
     (\<forall>tr \<in> set (ck_calls st). 1 \<le> tr_depth tr \<and> tr_depth tr \<le> kx_max_depth ctx)"

definition calls_measure :: "call_state \<Rightarrow> nat" where
  "calls_measure st = MAX_SEGMENTS - length (ck_segments st)"

definition ends_ok :: "call_context \<Rightarrow> call_state \<Rightarrow> call_state + call_exit \<Rightarrow> bool" where
  \<comment> \<open>after a recorded segment: go on, or leave without a panic\<close>
  "ends_ok ctx st result \<longleftrightarrow> (case result of
     Inl st' \<Rightarrow> calls_ok ctx st' \<and> ck_segments st' = ck_segments st
   | Inr None \<Rightarrow> False
   | Inr (Some (st', r)) \<Rightarrow> calls_ok ctx st' \<and> ck_segments st' = ck_segments st \<and> r \<noteq> Panic)"

lemma ends_ok_simps [simp]:
  "ends_ok ctx st (Inl st') \<longleftrightarrow> calls_ok ctx st' \<and> ck_segments st' = ck_segments st"
  "ends_ok ctx st (stop_calls st' stop) \<longleftrightarrow> calls_ok ctx st' \<and> ck_segments st' = ck_segments st"
  "ends_ok ctx st (fail_calls st' e) \<longleftrightarrow> calls_ok ctx st' \<and> ck_segments st' = ck_segments st"
  "\<not> ends_ok ctx st (panic_calls st')"
  by (simp_all add: ends_ok_def stop_calls_def fail_calls_def panic_calls_def)

lemma honours_memory: "honours im s \<Longrightarrow> cs_memory_bytes s' = cs_memory_bytes s \<Longrightarrow> honours im s'"
  by (simp add: honours_def space_bytes_def)

lemma contract_keeps_memory:
  assumes "apply_import_contract import snap s pm al continuation = Ok (s', count)" and "memory_kept ctx s"
  shows "memory_kept ctx s'"
proof -
  from assms(1) have "apply_strlen_contract snap s pm al continuation = Ok (s', count)"
    by (auto simp: apply_import_contract_def split: if_splits)
  moreover have "state_wf s" using assms(2) by (simp add: memory_kept_def)
  ultimately have "state_wf s'" "cs_memory_bytes s' = cs_memory_bytes s" using strlen_contract_spec by blast+
  with assms(2) honours_memory show ?thesis by (auto simp: memory_kept_def)
qed

lemma import_step_ok:
  assumes ok: "calls_ok ctx st" and recorded: "ck_segments st \<noteq> []" and valid: "\<exists>d. validate_ghidra_snapshot snap d = Ok ()"
  shows "ends_ok ctx st (import_step ctx snap pm al source site target continuation import st)"
proof (cases "apply_import_contract import snap (ck_state st) pm al continuation")
  case (Ok q)
  obtain s' count where q: "q = (s', count)" by (cases q)
  from ok recorded have "memory_kept ctx (ck_state st)" by (simp add: calls_ok_def)
  from contract_keeps_memory [OF Ok [unfolded q] this] have kept: "memory_kept ctx s'" .
  then have "state_sorted s'" by (simp add: memory_kept_def state_wf_sorted)
  with ok kept Ok q show ?thesis by (auto simp: import_step_def calls_ok_def)
next
  case Panic
  with valid import_contract_no_panic show ?thesis by blast
qed (use ok in \<open>simp add: import_step_def\<close>)

lemma load_import_index_ok:
  assumes "calls_ok ctx st"
  shows "load_import_index ctx snap binary st \<noteq> Panic"
    and "load_import_index ctx snap binary st = Ok (st', index) \<Longrightarrow> calls_ok ctx st' \<and> ck_segments st' = ck_segments st"
proof -
  from assms have "host_total (ks_host (kx_services ctx))" "\<And>binary. ks_parse_imports (kx_services ctx) binary \<noteq> Panic"
    "ck_current st < length (ck_indices st)"
    by (simp_all add: calls_ok_def calls_context_ok_def services_total_def)
  then show "load_import_index ctx snap binary st \<noteq> Panic"
    using import_index_no_panic [of "ks_parse_imports (kx_services ctx)" binary "ks_host (kx_services ctx)" snap]
    by (auto simp: load_import_index_def get_rs_def host_total_def split: option.splits)
  show "calls_ok ctx st' \<and> ck_segments st' = ck_segments st" if "load_import_index ctx snap binary st = Ok (st', index)"
    using that assms by (auto simp: load_import_index_def calls_ok_def split: option.splits)
qed

lemma enter_callee_ok:
  assumes "calls_ok ctx st"
  shows "ends_ok ctx st (enter_callee ctx snap source site target continuation st)"
proof -
  have "path_key target \<noteq> Panic" by (simp add: path_key_def)
  moreover have "callee < length (kx_snapshots ctx)" if "bm_get (kx_index ctx) k = Some callee" for k callee
    using assms that unfolding calls_ok_def calls_context_ok_def by blast
  ultimately show ?thesis using assms
    by (auto simp: enter_callee_def split: result.split option.split) (auto simp: calls_ok_def)
qed

lemma follow_call_ok:
  assumes "calls_ok ctx st" and "ck_segments st \<noteq> []" and "\<exists>d. validate_ghidra_snapshot snap d = Ok ()"
  shows "ends_ok ctx st (follow_call ctx snap source visited st)"
proof -
  have step: "ends_ok ctx st r" if "ends_ok ctx st' r" "ck_segments st' = ck_segments st" for st' r
    using that by (auto simp: ends_ok_def split: sum.splits option.splits prod.splits)
  have linked: "ends_ok ctx st (import_step ctx snap pm al source site target continuation import st')"
    "ends_ok ctx st (enter_callee ctx snap source site target continuation st')"
    if "load_import_index ctx snap binary st = Ok (st', index)" for binary st' index pm al site target continuation import
    using load_import_index_ok(2) [OF assms(1) that] assms step import_step_ok enter_callee_ok by metis+
  show ?thesis
    using call_target_no_panic load_import_index_ok(1) [OF assms(1)] assms(1)
    by (auto simp: follow_call_def intro: linked enter_callee_ok split: option.splits result.splits prod.splits)
qed

lemma follow_return_ok:
  assumes "calls_ok ctx st"
  shows "ends_ok ctx st (follow_return snap source st)"
proof -
  have "read_varnode (ck_state st) pointer \<noteq> Panic" for pointer by simp
  moreover have "return_target_ok snap pointer actual expected \<noteq> Panic" for pointer actual expected
    by (simp add: return_target_ok_def Let_def)
  ultimately show ?thesis using assms
    by (auto simp: follow_return_def Let_def split: list.split option.split result.split bool.split) (auto simp: calls_ok_def)
qed

lemma end_segment_ok:
  assumes "calls_ok ctx st" and "ck_segments st \<noteq> []" and "\<exists>d. validate_ghidra_snapshot snap d = Ok ()"
  shows "ends_ok ctx st (end_segment ctx snap path st)"
  using follow_call_ok [OF assms] follow_return_ok [OF assms(1)] assms(1)
  by (auto simp: end_segment_def split: path_stop.split)

lemma record_segment_ok:
  assumes ok: "calls_ok ctx st" and room: "length (ck_segments st) < MAX_SEGMENTS" and run: "run_segment ctx snap st = Some (Ok path)"
  shows "calls_ok ctx (record_segment snap digest path st)"
proof -
  from ok have "calls_context_ok ctx" "state_sorted (ck_state st)" by (simp_all add: calls_ok_def)
  from segment_ends(2) [OF this run] have "segment_operations path \<le> kx_max_operations ctx - ck_executed st"
    "length (pp_instruction_visits path) \<le> kx_max_visits ctx - ck_visits st" "memory_kept ctx (pp_final_state path)" by blast+
  with ok room show ?thesis by (auto simp: calls_ok_def record_segment_def memory_kept_def state_wf_sorted)
qed

lemma call_step_ok:
  assumes ok: "calls_ok ctx st"
  shows "case call_step ctx st of
      Inl st' \<Rightarrow> calls_ok ctx st' \<and> calls_measure st' < calls_measure st
    | Inr None \<Rightarrow> False
    | Inr (Some (st', r)) \<Rightarrow> calls_ok ctx st' \<and> r \<noteq> Panic"
proof (cases "length (ck_segments st) \<ge> MAX_SEGMENTS")
  case True
  with ok show ?thesis by (simp add: call_step_def stop_calls_def)
next
  case False
  define snap where "snap = kx_snapshots ctx ! ck_current st"
  define digest where "digest = kx_digests ctx ! ck_current st"
  from ok have here: "ck_current st < length (kx_snapshots ctx)" "calls_context_ok ctx" "state_sorted (ck_state st)"
    by (simp_all add: calls_ok_def)
  then have current: "get_rs (kx_snapshots ctx) (ck_current st) = Some snap" "get_rs (kx_digests ctx) (ck_current st) = Some digest"
    and "snap \<in> set (kx_snapshots ctx)"
    using calls_context_digests [OF here(2)] by (simp_all add: get_rs_def snap_def digest_def)
  with here have valid: "\<exists>d. validate_ghidra_snapshot snap d = Ok ()" by (simp add: calls_context_ok_def)
  from segment_ends(1) [OF here(2,3)] obtain r where run: "run_segment ctx snap st = Some r" "r \<noteq> Panic" by blast
  show ?thesis
  proof (cases r)
    case (Ok path)
    let ?st = "record_segment snap digest path st"
    have rec: "calls_ok ctx ?st" using record_segment_ok [OF ok _ run(1) [unfolded Ok]] False by simp
    have "ends_ok ctx ?st (end_segment ctx snap path ?st)"
      using rec valid by (intro end_segment_ok) (simp_all add: record_segment_def)
    moreover have "call_step ctx st = end_segment ctx snap path ?st" using False current run Ok by (simp add: call_step_def)
    ultimately show ?thesis using False
      by (auto simp: ends_ok_def calls_measure_def record_segment_def split: sum.splits option.splits prod.splits)
  qed (use False current run ok in \<open>simp_all add: call_step_def fail_calls_def\<close>)
qed

interpretation calls: bounded_loop "call_step ctx" "calls_ok ctx" calls_measure
  for ctx
proof unfold_locales
  fix st st' assume ok: "calls_ok ctx st" and step: "call_step ctx st = Inl st'"
  from call_step_ok [OF ok] step show "calls_ok ctx st'" "calls_measure st' < calls_measure st" by simp_all
qed

section \<open>The run\<close>

lemma calls_run:
  assumes "calls_ok ctx st"
  shows "\<exists>st' r. run_loop (call_step ctx) st = Some (Some (st', r)) \<and> calls_ok ctx st' \<and> r \<noteq> Panic"
proof -
  from calls.returns [OF assms] obtain exit where run: "run_loop (call_step ctx) st = Some exit" by blast
  from calls.exit_state [OF assms run] obtain t where "calls_ok ctx t" "call_step ctx t = Inr exit" by blast
  with call_step_ok [of ctx t] run show ?thesis by (cases exit) auto
qed

lemma start_calls_ok:
  assumes "calls_context_ok ctx" and "kx_snapshots ctx = snapshots" and "snapshots \<noteq> []" and "state_sorted s"
  shows "calls_ok ctx (start_calls root s (length snapshots))"
  using assms by (simp add: calls_ok_def start_calls_def)

lemma process_binding_no_panic: "services_total services \<Longrightarrow> process_binding services allocated \<noteq> Panic"
  by (auto simp: process_binding_def services_total_def split: option.split prod.split)

lemma call_path_run:
  assumes total: "services_total services" and sorted: "state_sorted s"
  shows "\<exists>r. execute_concrete_call_path_inner services snapshots s img allocated binary max_operations max_visits max_depth = Some r \<and> r \<noteq> Panic"
    and "execute_concrete_call_path_inner services snapshots s img allocated binary max_operations max_visits max_depth = Some (Ok t) \<Longrightarrow>
      \<exists>ctx root st stop. call_setup services snapshots img allocated binary max_operations max_visits max_depth = Ok (ctx, root) \<and>
        calls_ok ctx st \<and> run_loop (call_step ctx) (start_calls root s (length snapshots)) = Some (Some (st, Ok stop)) \<and>
        call_trace_of ctx root st stop = Ok t"
proof -
  let ?start = "call_setup services snapshots img allocated binary max_operations max_visits max_depth"
  have run: "\<exists>st' r. run_loop (call_step ctx) (start_calls root s (length snapshots)) = Some (Some (st', r)) \<and> calls_ok ctx st' \<and> r \<noteq> Panic"
    if "?start = Ok (ctx, root)" for ctx root
    using call_setup_ok(1-3) [OF that total] sorted by (intro calls_run start_calls_ok)
  have trace: "call_trace_of ctx root st stop \<noteq> Panic" if "?start = Ok (ctx, root)" for ctx root st stop
    using call_setup_ok(5) [OF that total] process_binding_no_panic [OF total] by (simp add: call_trace_of_def)
  show "\<exists>r. execute_concrete_call_path_inner services snapshots s img allocated binary max_operations max_visits max_depth = Some r \<and> r \<noteq> Panic"
  proof (cases ?start)
    case (Ok p)
    obtain ctx root where p: "p = (ctx, root)" by (cases p)
    from run [OF Ok [unfolded p]] trace [OF Ok [unfolded p]] Ok p show ?thesis
      by (auto simp: execute_concrete_call_path_inner_def rbind_Panic)
  qed (use call_setup_no_panic [OF total] in \<open>auto simp: execute_concrete_call_path_inner_def\<close>)
  assume finished: "execute_concrete_call_path_inner services snapshots s img allocated binary max_operations max_visits max_depth = Some (Ok t)"
  then obtain ctx root where setup_ok: "?start = Ok (ctx, root)"
    by (auto simp: execute_concrete_call_path_inner_def split: result.splits)
  with finished run [OF setup_ok] show "\<exists>ctx root st stop. ?start = Ok (ctx, root) \<and>
        calls_ok ctx st \<and> run_loop (call_step ctx) (start_calls root s (length snapshots)) = Some (Some (st, Ok stop)) \<and>
        call_trace_of ctx root st stop = Ok t"
    by (auto simp: execute_concrete_call_path_inner_def)
qed

lemma call_path_segments:
  assumes total: "services_total services" and sorted: "state_sorted s"
    and start: "call_setup services snapshots img allocated binary max_operations max_visits max_depth = Ok (ctx, root)"
  shows "\<exists>st r. run_loop (call_step ctx) (start_calls root s (length snapshots)) = Some (Some (st, r)) \<and>
    length (ck_segments st) \<le> MAX_SEGMENTS"
proof -
  note parts = call_setup_ok [OF start total]
  from calls_run [OF start_calls_ok [OF parts(1,2,3) sorted, of root]] obtain st r where
    run: "run_loop (call_step ctx) (start_calls root s (length snapshots)) = Some (Some (st, r))" and ok: "calls_ok ctx st"
    by blast
  from ok have "length (ck_segments st) \<le> MAX_SEGMENTS" by (simp only: calls_ok_def)
  with run show ?thesis by blast
qed

lemma call_path_bounded:
  assumes total: "services_total services" and sorted: "state_sorted s"
  shows "\<exists>r. execute_concrete_call_path_inner services snapshots s img allocated binary max_operations max_visits max_depth = Some r \<and>
    r \<noteq> Panic \<and> (\<forall>t. r = Ok t \<longrightarrow> length (it_segments t) \<le> MAX_SEGMENTS)"
proof -
  from call_path_run(1) [OF total sorted] obtain r where
    r: "execute_concrete_call_path_inner services snapshots s img allocated binary max_operations max_visits max_depth = Some r" "r \<noteq> Panic"
    by blast
  have "length (it_segments t) \<le> MAX_SEGMENTS" if "r = Ok t" for t
  proof -
    from call_path_run(2) [OF total sorted r(1) [unfolded that]] obtain ctx root st stop where
      ok: "calls_ok ctx st" and t: "call_trace_of ctx root st stop = Ok t" by blast
    from ok have "length (ck_segments st) \<le> MAX_SEGMENTS" by (simp only: calls_ok_def)
    moreover from t have "it_segments t = ck_segments st" by (auto simp: call_trace_of_def)
    ultimately show ?thesis by simp
  qed
  with r show ?thesis by blast
qed

end
