(* ===== verification/Pcode_CallMachine.thy ===== *)
theory Pcode_CallMachine
  imports Pcode_CallRun
begin

text \<open>
  The abstract machine of calls and returns: a stack of (caller, continuation), and four rules, one
  for the root and one for each way a segment may be followed by another. The loop of the call path
  only ever makes steps of this machine, and its stops say where the machine stands.
\<close>

section \<open>The machine\<close>

record call_word =
  cw_segments :: "call_path_segment list"
  cw_calls :: "call_transition list"
  cw_imports :: "contracted_import_call list"
  cw_stack :: "(nat \<times> pcode_address) list"
  cw_current :: nat
  cw_start :: pcode_address
  cw_state :: concrete_state

definition snapshot_at :: "call_context \<Rightarrow> call_word \<Rightarrow> ghidra_snapshot" where
  "snapshot_at ctx w = kx_snapshots ctx ! cw_current w"

definition segment_of :: "call_context \<Rightarrow> call_word \<Rightarrow> call_path_segment \<Rightarrow> bool" where
  \<comment> \<open>a path of the current function, from where the machine stands\<close>
  "segment_of ctx w sg \<longleftrightarrow> cw_current w < length (kx_snapshots ctx) \<and>
     sg_function_entry sg = sf_entry (gs_selected_function (snapshot_at ctx w)) \<and>
     snapshot_digest (kx_services ctx) (snapshot_at ctx w) = Ok (sg_snapshot_sha256 sg) \<and>
     (\<exists>operations visits. execute_concrete_path_inner (snapshot_at ctx w) (cw_state w) (segment_memory ctx)
        (Some (cw_start w)) operations visits = Some (Ok (sg_path sg)))"

definition calls_from :: "call_context \<Rightarrow> call_word \<Rightarrow> call_path_segment \<Rightarrow> pcode_address \<Rightarrow> pcode_address \<Rightarrow> pcode_address \<Rightarrow> bool" where
  \<comment> \<open>the segment ends in a CALL at \<open>site\<close> with evidence for \<open>target\<close> and \<open>continuation\<close>\<close>
  "calls_from ctx w sg site target continuation \<longleftrightarrow>
     (\<exists>source. pp_stop (sg_path sg) = CallStop source \<and> pp_instruction_visits (sg_path sg) \<noteq> [] \<and>
        site = last (pp_instruction_visits (sg_path sg)) \<and>
        call_target (snapshot_at ctx w) source site (pp_final_state (sg_path sg)) = Ok (target, continuation))"

definition linked_import :: "call_context \<Rightarrow> call_word \<Rightarrow> pcode_address \<Rightarrow> pcode_address \<Rightarrow> elf_import_call \<Rightarrow> bool" where
  "linked_import ctx w site target import \<longleftrightarrow>
     (\<exists>binary index. kx_import_binary ctx = Some binary \<and>
        import_index_from_elf (ks_parse_imports (kx_services ctx)) (ks_host (kx_services ctx)) binary (snapshot_at ctx w) = Ok index \<and>
        import \<in> set (ix_calls index) \<and> ic_call_site import = site \<and> ic_plt_target import = target)"

definition callee_allowed :: "call_context \<Rightarrow> call_word \<Rightarrow> pcode_address \<Rightarrow> bool" where
  "callee_allowed ctx w target \<longleftrightarrow> (case kx_allocated ctx of None \<Rightarrow> True
     | Some (pm, _) \<Rightarrow> internal_process_target (snapshot_at ctx w) pm target)"

inductive nested_calls :: "call_context \<Rightarrow> concrete_state \<Rightarrow> call_word \<Rightarrow> bool"
  for ctx :: call_context and s0 :: concrete_state where
  nested_root:
    "nested_calls ctx s0 \<lparr>cw_segments = [], cw_calls = [], cw_imports = [], cw_stack = [], cw_current = 0,
       cw_start = sf_entry (gs_selected_function (hd (kx_snapshots ctx))), cw_state = s0\<rparr>"
| nested_call:
    "nested_calls ctx s0 w \<Longrightarrow> segment_of ctx w sg \<Longrightarrow> calls_from ctx w sg site target continuation \<Longrightarrow>
     callee_allowed ctx w target \<Longrightarrow> length (cw_stack w) < kx_max_depth ctx \<Longrightarrow>
     callee < length (kx_snapshots ctx) \<Longrightarrow> path_key target = Ok k \<Longrightarrow>
     path_key (sf_entry (gs_selected_function (kx_snapshots ctx ! callee))) = Ok k \<Longrightarrow>
     nested_calls ctx s0
       (w\<lparr>cw_segments := cw_segments w @ [sg],
          cw_calls := cw_calls w @ [\<lparr>tr_caller_entry = sg_function_entry sg, tr_callee_entry = target,
            tr_call_site = site, tr_return_address = continuation, tr_depth = length (cw_stack w) + 1\<rparr>],
          cw_stack := (cw_current w, continuation) # cw_stack w, cw_current := callee, cw_start := target,
          cw_state := pp_final_state (sg_path sg)\<rparr>)"
| nested_import:
    "nested_calls ctx s0 w \<Longrightarrow> segment_of ctx w sg \<Longrightarrow> calls_from ctx w sg site target continuation \<Longrightarrow>
     linked_import ctx w site target import \<Longrightarrow> length (cw_stack w) < kx_max_depth ctx \<Longrightarrow>
     kx_allocated ctx = Some (pm, al) \<Longrightarrow>
     apply_import_contract import (snapshot_at ctx w) (pp_final_state (sg_path sg)) pm al continuation = Ok (s', count) \<Longrightarrow>
     nested_calls ctx s0
       (w\<lparr>cw_segments := cw_segments w @ [sg],
          cw_imports := cw_imports w @ [\<lparr>cn_call_site = site, cn_plt_target = target, cn_got = ic_got import,
            cn_name = ic_name import, cn_return_address = continuation, cn_result = count,
            cn_contract_version = 1, cn_binding_assumption = binding_assumption (ic_name import)\<rparr>],
          cw_start := continuation, cw_state := s'\<rparr>)"
| nested_return:
    "nested_calls ctx s0 w \<Longrightarrow> segment_of ctx w sg \<Longrightarrow> pp_stop (sg_path sg) = ReturnStop source \<Longrightarrow>
     cw_stack w = (caller, continuation) # stack \<Longrightarrow> op_inputs source = pointer # inputs \<Longrightarrow>
     read_varnode (pp_final_state (sg_path sg)) pointer = Ok (Some address) \<Longrightarrow>
     hex_u64 (pa_offset continuation) = Ok address \<Longrightarrow>
     nested_calls ctx s0
       (w\<lparr>cw_segments := cw_segments w @ [sg], cw_stack := stack, cw_current := caller, cw_start := continuation,
          cw_state := pp_final_state (sg_path sg)\<rparr>)"

section \<open>The loop\<close>

definition frame_pair :: "frame \<Rightarrow> nat \<times> pcode_address" where
  "frame_pair fr = (fr_caller_index fr, fr_return_address fr)"

definition word_of :: "call_state \<Rightarrow> call_word" where
  "word_of st = \<lparr>cw_segments = ck_segments st, cw_calls = ck_calls st, cw_imports = ck_imports st,
     cw_stack = map frame_pair (ck_frames st), cw_current = ck_current st, cw_start = ck_start st, cw_state = ck_state st\<rparr>"

definition indices_ok :: "call_context \<Rightarrow> call_state \<Rightarrow> bool" where
  \<comment> \<open>a kept index is the one its snapshot has\<close>
  "indices_ok ctx st \<longleftrightarrow> (\<forall>i index. i < length (ck_indices st) \<longrightarrow> ck_indices st ! i = Some index \<longrightarrow>
     (\<exists>binary. kx_import_binary ctx = Some binary \<and>
       import_index_from_elf (ks_parse_imports (kx_services ctx)) (ks_host (kx_services ctx)) binary (kx_snapshots ctx ! i) = Ok index))"

definition traced :: "call_context \<Rightarrow> concrete_state \<Rightarrow> call_state \<Rightarrow> bool" where
  "traced ctx s0 st \<longleftrightarrow> calls_ok ctx st \<and> nested_calls ctx s0 (word_of st) \<and> indices_ok ctx st"

definition recorded :: "call_context \<Rightarrow> concrete_state \<Rightarrow> call_word \<Rightarrow> call_path_segment \<Rightarrow> call_state \<Rightarrow> bool" where
  \<comment> \<open>the loop has run the segment \<open>sg\<close> and not yet followed its end\<close>
  "recorded ctx s0 w sg st \<longleftrightarrow> nested_calls ctx s0 w \<and> segment_of ctx w sg \<and> indices_ok ctx st \<and>
     word_of st = w\<lparr>cw_segments := cw_segments w @ [sg], cw_start := ck_start st, cw_state := pp_final_state (sg_path sg)\<rparr>"

lemma word_of_simps [simp]:
  "cw_segments (word_of st) = ck_segments st" "cw_calls (word_of st) = ck_calls st" "cw_imports (word_of st) = ck_imports st"
  "cw_stack (word_of st) = map frame_pair (ck_frames st)" "cw_current (word_of st) = ck_current st"
  "cw_start (word_of st) = ck_start st" "cw_state (word_of st) = ck_state st"
  by (simp_all add: word_of_def)

lemma recorded_parts:
  assumes "recorded ctx s0 w sg st"
  shows "nested_calls ctx s0 w" and "segment_of ctx w sg" and "indices_ok ctx st"
    and "ck_segments st = cw_segments w @ [sg]" and "ck_calls st = cw_calls w" and "ck_imports st = cw_imports w"
    and "map frame_pair (ck_frames st) = cw_stack w" and "ck_current st = cw_current w"
    and "ck_state st = pp_final_state (sg_path sg)" and "length (ck_frames st) = length (cw_stack w)"
proof -
  from assms show "nested_calls ctx s0 w" "segment_of ctx w sg" "indices_ok ctx st" by (simp_all add: recorded_def)
  from assms have same: "word_of st = w\<lparr>cw_segments := cw_segments w @ [sg], cw_start := ck_start st, cw_state := pp_final_state (sg_path sg)\<rparr>"
    by (simp add: recorded_def)
  from arg_cong [OF same, of cw_segments] arg_cong [OF same, of cw_calls] arg_cong [OF same, of cw_imports]
    arg_cong [OF same, of cw_stack] arg_cong [OF same, of cw_current] arg_cong [OF same, of cw_state]
  show "ck_segments st = cw_segments w @ [sg]" "ck_calls st = cw_calls w" "ck_imports st = cw_imports w"
    "map frame_pair (ck_frames st) = cw_stack w" "ck_current st = cw_current w" "ck_state st = pp_final_state (sg_path sg)"
    by simp_all
  from arg_cong [OF same, of "length \<circ> cw_stack"] show "length (ck_frames st) = length (cw_stack w)" by simp
qed

lemma record_segment_recorded:
  assumes traced: "traced ctx s0 st" and snap: "get_rs (kx_snapshots ctx) (ck_current st) = Some snap"
    and digest: "get_rs (kx_digests ctx) (ck_current st) = Some digest" and run: "run_segment ctx snap st = Some (Ok path)"
  shows "recorded ctx s0 (word_of st) \<lparr>sg_function_entry = sf_entry (gs_selected_function snap), sg_snapshot_sha256 = digest, sg_path = path\<rparr>
    (record_segment snap digest path st)"
proof -
  from snap have here: "ck_current st < length (kx_snapshots ctx)" "snapshot_at ctx (word_of st) = snap"
    by (auto simp: get_rs_def snapshot_at_def split: if_splits)
  from traced have "calls_context_ok ctx" by (simp add: traced_def calls_ok_def)
  then have "map Ok (kx_digests ctx) ! ck_current st = map (snapshot_digest (kx_services ctx)) (kx_snapshots ctx) ! ck_current st"
    by (simp only: calls_context_ok_def)
  with here snap digest have "snapshot_digest (kx_services ctx) snap = Ok digest"
    by (auto simp: get_rs_def split: if_splits)
  with traced here run show ?thesis
    by (auto simp: recorded_def segment_of_def traced_def indices_ok_def record_segment_def word_of_def run_segment_eq)
qed

section \<open>Its steps\<close>

lemma enter_callee_nested:
  assumes rec: "recorded ctx s0 w sg st" and call: "calls_from ctx w sg site target continuation" and ok: "calls_ok ctx st"
    and step: "enter_callee ctx (snapshot_at ctx w) source site target continuation st = Inl st'"
  shows "nested_calls ctx s0 (word_of st') \<and> indices_ok ctx st'"
proof -
  note parts = recorded_parts [OF rec]
  from step obtain k callee where "callee_allowed ctx w target" "length (ck_frames st) < kx_max_depth ctx" "path_key target = Ok k"
    and index: "bm_get (kx_index ctx) k = Some callee"
    and st': "st' = st\<lparr>ck_calls := ck_calls st @ [\<lparr>tr_caller_entry = sf_entry (gs_selected_function (snapshot_at ctx w)),
                     tr_callee_entry = target, tr_call_site = site, tr_return_address = continuation,
                     tr_depth = length (ck_frames st) + 1\<rparr>],
                   ck_frames := \<lparr>fr_caller_index = ck_current st, fr_return_address = continuation\<rparr> # ck_frames st,
                   ck_current := callee, ck_start := target\<rparr>"
    by (auto simp: enter_callee_def callee_allowed_def stop_calls_def fail_calls_def panic_calls_def not_le
        split: if_splits option.splits result.splits prod.splits)
  from ok index have callee: "callee < length (kx_snapshots ctx)"
    and entry: "path_key (sf_entry (gs_selected_function (kx_snapshots ctx ! callee))) = Ok k"
    unfolding calls_ok_def calls_context_ok_def by blast+
  have "sg_function_entry sg = sf_entry (gs_selected_function (snapshot_at ctx w))"
    using parts(2) by (simp add: segment_of_def)
  then have "word_of st' = w\<lparr>cw_segments := cw_segments w @ [sg],
          cw_calls := cw_calls w @ [\<lparr>tr_caller_entry = sg_function_entry sg, tr_callee_entry = target,
            tr_call_site = site, tr_return_address = continuation, tr_depth = length (cw_stack w) + 1\<rparr>],
          cw_stack := (cw_current w, continuation) # cw_stack w, cw_current := callee, cw_start := target,
          cw_state := pp_final_state (sg_path sg)\<rparr>"
    by (intro call_word.equality) (simp_all add: st' parts frame_pair_def)
  with nested_call [OF parts(1,2) call \<open>callee_allowed ctx w target\<close> _ callee \<open>path_key target = Ok k\<close> entry]
    parts(10) \<open>length (ck_frames st) < kx_max_depth ctx\<close>
  have "nested_calls ctx s0 (word_of st')" by simp
  moreover have "indices_ok ctx st'" using parts(3) by (simp add: indices_ok_def st')
  ultimately show ?thesis ..
qed

lemma import_step_nested:
  assumes rec: "recorded ctx s0 w sg st" and call: "calls_from ctx w sg site target continuation"
    and linked: "linked_import ctx w site target import" and allocated: "kx_allocated ctx = Some (pm, al)"
    and step: "import_step ctx (snapshot_at ctx w) pm al source site target continuation import st = Inl st'"
  shows "nested_calls ctx s0 (word_of st') \<and> indices_ok ctx st'"
proof -
  note parts = recorded_parts [OF rec]
  from step obtain s' count where depth: "length (ck_frames st) < kx_max_depth ctx"
    and contract: "apply_import_contract import (snapshot_at ctx w) (ck_state st) pm al continuation = Ok (s', count)"
    and st': "st' = st\<lparr>ck_state := s', ck_start := continuation,
            ck_imports := ck_imports st @ [\<lparr>cn_call_site = site, cn_plt_target = target, cn_got = ic_got import,
              cn_name = ic_name import, cn_return_address = continuation, cn_result = count,
              cn_contract_version = 1, cn_binding_assumption = binding_assumption (ic_name import)\<rparr>]\<rparr>"
    by (auto simp: import_step_def stop_calls_def panic_calls_def not_le split: if_splits result.splits prod.splits)
  have "indices_ok ctx st'" using parts(3) by (simp add: indices_ok_def st')
  moreover have "word_of st' = w\<lparr>cw_segments := cw_segments w @ [sg],
          cw_imports := cw_imports w @ [\<lparr>cn_call_site = site, cn_plt_target = target, cn_got = ic_got import,
            cn_name = ic_name import, cn_return_address = continuation, cn_result = count,
            cn_contract_version = 1, cn_binding_assumption = binding_assumption (ic_name import)\<rparr>],
          cw_start := continuation, cw_state := s'\<rparr>"
    by (intro call_word.equality) (simp_all add: st' parts)
  ultimately show ?thesis
    using nested_import [OF parts(1,2) call linked _ allocated, of s' count] parts depth contract by simp
qed

lemma load_import_index_recorded:
  assumes rec: "recorded ctx s0 w sg st" and binary: "kx_import_binary ctx = Some binary"
    and load: "load_import_index ctx (snapshot_at ctx w) binary st = Ok (st', index)"
  shows "recorded ctx s0 w sg st'"
    and "import_index_from_elf (ks_parse_imports (kx_services ctx)) (ks_host (kx_services ctx)) binary (snapshot_at ctx w) = Ok index"
proof -
  note parts = recorded_parts [OF rec]
  show built: "import_index_from_elf (ks_parse_imports (kx_services ctx)) (ks_host (kx_services ctx)) binary (snapshot_at ctx w) = Ok index"
    using load parts(3,8) binary
    by (auto simp: load_import_index_def indices_ok_def snapshot_at_def get_rs_def split: option.splits if_splits)
  have "indices_ok ctx st'"
    using load parts(3,8) binary built
    by (auto simp: load_import_index_def indices_ok_def snapshot_at_def nth_list_update split: option.splits if_splits)
  then show "recorded ctx s0 w sg st'"
    using rec load by (auto simp: recorded_def load_import_index_def word_of_def split: option.splits)
qed

lemma follow_return_nested:
  assumes rec: "recorded ctx s0 w sg st" and stop: "pp_stop (sg_path sg) = ReturnStop source"
    and step: "follow_return snap source st = Inl st'"
  shows "nested_calls ctx s0 (word_of st') \<and> indices_ok ctx st'"
proof -
  note parts = recorded_parts [OF rec]
  from step obtain fr frames pointer actual where frames: "ck_frames st = fr # frames"
    and pointer: "get_rs (op_inputs source) 0 = Some pointer" "read_varnode (ck_state st) pointer = Ok (Some actual)"
    and target: "return_target_ok snap pointer actual (fr_return_address fr) = Ok True"
    and st': "st' = st\<lparr>ck_frames := frames, ck_current := fr_caller_index fr, ck_start := fr_return_address fr\<rparr>"
    by (auto simp: follow_return_def Let_def stop_calls_def fail_calls_def panic_calls_def
        split: list.splits option.splits result.splits bool.splits)
  from pointer(1) obtain inputs where inputs: "op_inputs source = pointer # inputs"
    by (cases "op_inputs source") (simp_all add: get_rs_def)
  from target have "hex_u64 (pa_offset (fr_return_address fr)) = Ok actual"
    by (auto simp: return_target_ok_def Let_def split: if_splits)
  moreover have "cw_stack w = (fr_caller_index fr, fr_return_address fr) # map frame_pair frames"
    using parts(7) by (simp add: frames frame_pair_def flip: parts(7))
  moreover have "indices_ok ctx st'" using parts(3) by (simp add: indices_ok_def st')
  moreover have "word_of st' = w\<lparr>cw_segments := cw_segments w @ [sg], cw_stack := map frame_pair frames,
      cw_current := fr_caller_index fr, cw_start := fr_return_address fr, cw_state := pp_final_state (sg_path sg)\<rparr>"
    by (intro call_word.equality) (simp_all add: st' parts)
  ultimately show ?thesis using nested_return [OF parts(1,2) stop _ inputs] parts(9) pointer(2) by simp
qed

section \<open>The whole run\<close>

definition stop_explained :: "call_word \<Rightarrow> call_path_segment \<Rightarrow> call_path_stop \<Rightarrow> bool" where
  \<comment> \<open>how the last segment ended; a return to the root's caller only with an empty stack\<close>
  "stop_explained w sg stop \<longleftrightarrow> (case stop of
     CallBoundary source _ \<Rightarrow> pp_stop (sg_path sg) = CallStop source
   | ReturnBoundary source _ \<Rightarrow> pp_stop (sg_path sg) = ReturnStop source \<and> cw_stack w \<noteq> []
   | PathReturn source \<Rightarrow> pp_stop (sg_path sg) = ReturnStop source \<and> cw_stack w = []
   | PathBoundary p \<Rightarrow> pp_stop (sg_path sg) = p \<and> (\<forall>source. p \<noteq> CallStop source \<and> p \<noteq> ReturnStop source)
   | SegmentBudget \<Rightarrow> False)"

definition ends_at :: "call_context \<Rightarrow> call_state \<Rightarrow> call_path_stop \<Rightarrow> call_word \<Rightarrow> bool" where
  \<comment> \<open>the run left the machine at \<open>w\<close>: at the segment budget, or in one more segment\<close>
  "ends_at ctx st stop w \<longleftrightarrow> ck_calls st = cw_calls w \<and> ck_imports st = cw_imports w \<and>
     (stop = SegmentBudget \<and> ck_segments st = cw_segments w \<and> length (cw_segments w) = MAX_SEGMENTS \<and> ck_state st = cw_state w \<or>
      (\<exists>sg. segment_of ctx w sg \<and> ck_segments st = cw_segments w @ [sg] \<and> ck_state st = pp_final_state (sg_path sg) \<and>
         stop_explained w sg stop))"

lemma ends_atI:
  assumes "recorded ctx s0 w sg st" and "ck_segments st' = ck_segments st" and "ck_calls st' = ck_calls st"
    and "ck_imports st' = ck_imports st" and "ck_state st' = ck_state st" and "stop_explained w sg stop"
  shows "ends_at ctx st' stop w"
  using recorded_parts [OF assms(1)] assms(2-6) by (simp add: ends_at_def)

definition followed :: "call_context \<Rightarrow> concrete_state \<Rightarrow> call_word \<Rightarrow> call_state + call_exit \<Rightarrow> bool" where
  "followed ctx s0 w result \<longleftrightarrow> (case result of
     Inl st' \<Rightarrow> nested_calls ctx s0 (word_of st') \<and> indices_ok ctx st'
   | Inr None \<Rightarrow> True
   | Inr (Some (st', r)) \<Rightarrow> (\<forall>stop. r = Ok stop \<longrightarrow> ends_at ctx st' stop w))"

lemma followed_simps [simp]:
  "followed ctx s0 w (Inl st') \<longleftrightarrow> nested_calls ctx s0 (word_of st') \<and> indices_ok ctx st'"
  "followed ctx s0 w (stop_calls st' stop) \<longleftrightarrow> ends_at ctx st' stop w"
  "followed ctx s0 w (fail_calls st' e)" "followed ctx s0 w (panic_calls st')"
  by (simp_all add: followed_def stop_calls_def fail_calls_def panic_calls_def)

lemma followed_by:
  assumes "\<And>st'. result = Inl st' \<Longrightarrow> nested_calls ctx s0 (word_of st') \<and> indices_ok ctx st'"
    and "\<And>st' stop. result = stop_calls st' stop \<Longrightarrow> ends_at ctx st' stop w"
  shows "followed ctx s0 w result"
  using assms by (auto simp: followed_def stop_calls_def split: sum.splits option.splits)

lemma import_step_followed:
  assumes rec: "recorded ctx s0 w sg st" and call: "calls_from ctx w sg site target continuation"
    and stop: "pp_stop (sg_path sg) = CallStop source"
    and linked: "linked_import ctx w site target import" and allocated: "kx_allocated ctx = Some (pm, al)"
  shows "followed ctx s0 w (import_step ctx (snapshot_at ctx w) pm al source site target continuation import st)"
proof (rule followed_by)
  show "nested_calls ctx s0 (word_of st') \<and> indices_ok ctx st'"
    if "import_step ctx (snapshot_at ctx w) pm al source site target continuation import st = Inl st'" for st'
    using that by (rule import_step_nested [OF rec call linked allocated])
  show "ends_at ctx st' b w"
    if "import_step ctx (snapshot_at ctx w) pm al source site target continuation import st = stop_calls st' b" for st' b
    using that stop by (intro ends_atI [OF rec])
      (auto simp: import_step_def stop_calls_def panic_calls_def stop_explained_def split: if_splits result.splits)
qed

lemma enter_callee_followed:
  assumes rec: "recorded ctx s0 w sg st" and call: "calls_from ctx w sg site target continuation" and ok: "calls_ok ctx st"
    and stop: "pp_stop (sg_path sg) = CallStop source"
  shows "followed ctx s0 w (enter_callee ctx (snapshot_at ctx w) source site target continuation st)"
proof (rule followed_by)
  show "nested_calls ctx s0 (word_of st') \<and> indices_ok ctx st'"
    if "enter_callee ctx (snapshot_at ctx w) source site target continuation st = Inl st'" for st'
    using that by (rule enter_callee_nested [OF rec call ok])
  show "ends_at ctx st' b w" if "enter_callee ctx (snapshot_at ctx w) source site target continuation st = stop_calls st' b" for st' b
    using that stop by (intro ends_atI [OF rec])
      (auto simp: enter_callee_def stop_calls_def fail_calls_def panic_calls_def stop_explained_def
        split: if_splits result.splits option.splits)
qed

lemma follow_call_followed:
  assumes rec: "recorded ctx s0 w sg st" and ok: "calls_ok ctx st" and stop: "pp_stop (sg_path sg) = CallStop source"
  shows "followed ctx s0 w (follow_call ctx (snapshot_at ctx w) source
      (if pp_instruction_visits (sg_path sg) = [] then None else Some (last (pp_instruction_visits (sg_path sg)))) st)"
proof -
  let ?site = "last (pp_instruction_visits (sg_path sg))"
  note state = recorded_parts(9) [OF rec]
  have boundary: "ends_at ctx st (CallBoundary source reason) w" for reason
    by (rule ends_atI [OF rec]) (simp_all add: stop_explained_def stop)
  have call: "calls_from ctx w sg ?site target continuation"
    if "pp_instruction_visits (sg_path sg) \<noteq> []"
      "call_target (snapshot_at ctx w) source ?site (pp_final_state (sg_path sg)) = Ok (target, continuation)" for target continuation
    using that stop by (auto simp: calls_from_def)
  have imported: "followed ctx s0 w (import_step ctx (snapshot_at ctx w) pm al source ?site target continuation import st')"
    if "calls_from ctx w sg ?site target continuation" "kx_import_binary ctx = Some binary" "kx_allocated ctx = Some (pm, al)"
      "load_import_index ctx (snapshot_at ctx w) binary st = Ok (st', index)"
      "List.find (\<lambda>c. ic_call_site c = ?site \<and> ic_plt_target c = target) (ix_calls index) = Some import"
    for target continuation binary pm al st' index import
  proof -
    note loaded = load_import_index_recorded [OF rec that(2,4)]
    from that(5) have "import \<in> set (ix_calls index)" "ic_call_site import = ?site" "ic_plt_target import = target"
      by (auto simp: find_Some_iff)
    with loaded(2) that(2) have "linked_import ctx w ?site target import" by (auto simp: linked_import_def)
    with import_step_followed [OF loaded(1) that(1) stop] that(3) show ?thesis by blast
  qed
  have entered: "followed ctx s0 w (enter_callee ctx (snapshot_at ctx w) source ?site target continuation st')"
    if "calls_from ctx w sg ?site target continuation" "kx_import_binary ctx = Some binary"
      "load_import_index ctx (snapshot_at ctx w) binary st = Ok (st', index)" for target continuation binary st' index
    using enter_callee_followed [OF load_import_index_recorded(1) [OF rec that(2,3)] that(1) _ stop]
      load_import_index_ok(2) [OF ok that(3)] by blast
  show ?thesis
    by (auto simp: follow_call_def boundary state
        intro!: enter_callee_followed [OF rec _ ok stop] intro: imported entered call
        split: option.split result.split prod.split)
qed

lemma follow_return_followed:
  assumes rec: "recorded ctx s0 w sg st" and stop: "pp_stop (sg_path sg) = ReturnStop source"
  shows "followed ctx s0 w (follow_return snap source st)"
proof (rule followed_by)
  show "nested_calls ctx s0 (word_of st') \<and> indices_ok ctx st'" if "follow_return snap source st = Inl st'" for st'
    using that by (rule follow_return_nested [OF rec stop])
  show "ends_at ctx st' b w" if "follow_return snap source st = stop_calls st' b" for st' b
    using that stop recorded_parts(7) [OF rec, symmetric] by (intro ends_atI [OF rec])
      (auto simp: follow_return_def Let_def stop_calls_def fail_calls_def panic_calls_def stop_explained_def
        split: list.splits option.splits result.splits bool.splits)
qed

lemma end_segment_followed:
  assumes rec: "recorded ctx s0 w sg st" and ok: "calls_ok ctx st"
  shows "followed ctx s0 w (end_segment ctx (snapshot_at ctx w) (sg_path sg) st)"
proof (cases "pp_stop (sg_path sg)")
  case (CallStop source)
  with follow_call_followed [OF rec ok] show ?thesis by (simp add: end_segment_def)
next
  case (ReturnStop source)
  with follow_return_followed [OF rec] show ?thesis by (simp add: end_segment_def)
qed (simp_all add: end_segment_def ends_atI [OF rec] stop_explained_def)

lemma call_step_followed:
  assumes traced: "traced ctx s0 st"
  shows "followed ctx s0 (word_of st) (call_step ctx st)"
proof (cases "length (ck_segments st) \<ge> MAX_SEGMENTS")
  case True
  with traced show ?thesis by (simp add: call_step_def ends_at_def traced_def calls_ok_def)
next
  case False
  define snap where "snap = snapshot_at ctx (word_of st)"
  from traced have ok: "calls_ok ctx st" by (simp add: traced_def)
  then have current: "get_rs (kx_snapshots ctx) (ck_current st) = Some snap"
    by (simp add: calls_ok_def get_rs_def snap_def snapshot_at_def)
  show ?thesis
  proof (cases "run_segment ctx snap st")
    case (Some r)
    show ?thesis
    proof (cases r)
      case (Ok path)
      show ?thesis
      proof (cases "get_rs (kx_digests ctx) (ck_current st)")
        case digest: (Some digest)
        have "calls_ok ctx (record_segment snap digest path st)"
          using record_segment_ok [OF ok _ Some [unfolded Ok]] False by simp
        from end_segment_followed [OF record_segment_recorded [OF traced current digest Some [unfolded Ok]] this]
        show ?thesis using False current Some Ok digest by (simp add: call_step_def snap_def)
      qed (use False current Some Ok in \<open>simp add: call_step_def\<close>)
    qed (use False current Some in \<open>simp_all add: call_step_def\<close>)
  qed (use False current in \<open>simp add: call_step_def followed_def\<close>)
qed

interpretation traced_calls: bounded_loop "call_step ctx" "traced ctx s0" calls_measure
  for ctx s0
proof unfold_locales
  fix st st' assume traced: "traced ctx s0 st" and step: "call_step ctx st = Inl st'"
  from call_step_followed [OF traced] step have "nested_calls ctx s0 (word_of st')" "indices_ok ctx st'" by simp_all
  moreover from traced have ok: "calls_ok ctx st" by (simp add: traced_def)
  ultimately show "traced ctx s0 st'" using calls.step_inv [OF ok step] by (simp add: traced_def)
  show "calls_measure st' < calls_measure st" by (rule calls.step_bound [OF ok step])
qed

lemma start_traced:
  assumes "calls_context_ok ctx" and "kx_snapshots ctx = snapshots" and "snapshots \<noteq> []" and "state_sorted s"
  shows "traced ctx s (start_calls (hd snapshots) s (length snapshots))"
proof -
  have "word_of (start_calls (hd snapshots) s (length snapshots)) =
      \<lparr>cw_segments = [], cw_calls = [], cw_imports = [], cw_stack = [], cw_current = 0,
       cw_start = sf_entry (gs_selected_function (hd (kx_snapshots ctx))), cw_state = s\<rparr>"
    by (simp add: word_of_def start_calls_def assms(2))
  with nested_root [of ctx s] start_calls_ok [OF assms] show ?thesis
    by (simp add: traced_def indices_ok_def start_calls_def)
qed

lemma ends_at_kept:
  assumes "calls_ok ctx st" and "ends_at ctx st stop w"
  shows "memory_kept ctx (ck_state st)"
proof -
  have "ck_segments st \<noteq> []" using assms(2) by (auto simp: ends_at_def MAX_SEGMENTS_def)
  with assms(1) show ?thesis by (simp add: calls_ok_def)
qed

lemma call_trace_nested:
  assumes run: "execute_concrete_call_path_inner services snapshots s img allocated binary max_operations max_visits max_depth = Some (Ok t)"
    and total: "services_total services" and sorted: "state_sorted s"
  shows "\<exists>ctx root st w. call_setup services snapshots img allocated binary max_operations max_visits max_depth = Ok (ctx, root) \<and>
    nested_calls ctx s w \<and> calls_ok ctx st \<and> ends_at ctx st (it_stop t) w \<and> it_segments t = ck_segments st \<and>
    it_calls t = ck_calls st \<and> it_contracted_imports t = ck_imports st \<and> it_final_state t = ck_state st \<and>
    it_executed_operations t = ck_executed st \<and> it_instruction_visits t = ck_visits st \<and>
    it_binary_sha256 t = gs_binary_sha256 (hd snapshots) \<and> it_semantic_fidelity t = Unknown \<and> it_verification t = NotRun"
proof -
  from call_path_run(2) [OF total sorted run] obtain ctx root st stop where
    ctx: "call_setup services snapshots img allocated binary max_operations max_visits max_depth = Ok (ctx, root)"
    and ok: "calls_ok ctx st" and loop: "run_loop (call_step ctx) (start_calls root s (length snapshots)) = Some (Some (st, Ok stop))"
    and t: "call_trace_of ctx root st stop = Ok t" by blast
  note parts = call_setup_ok [OF ctx total]
  have start: "traced ctx s (start_calls root s (length snapshots))"
    using start_traced [OF parts(1,2,3) sorted] parts(4) by simp
  from traced_calls.exit_state [OF start loop] obtain st0 where "traced ctx s st0" "call_step ctx st0 = Inr (Some (st, Ok stop))" by blast
  with call_step_followed [of ctx s st0] have "nested_calls ctx s (word_of st0)" "ends_at ctx st stop (word_of st0)"
    by (simp_all add: traced_def followed_def)
  moreover from t parts(4) have "it_stop t = stop \<and> it_segments t = ck_segments st \<and>
    it_calls t = ck_calls st \<and> it_contracted_imports t = ck_imports st \<and> it_final_state t = ck_state st \<and>
    it_executed_operations t = ck_executed st \<and> it_instruction_visits t = ck_visits st \<and>
    it_binary_sha256 t = gs_binary_sha256 (hd snapshots) \<and> it_semantic_fidelity t = Unknown \<and> it_verification t = NotRun"
    by (auto simp: call_trace_of_def)
  ultimately show ?thesis using ctx ok
    by (intro exI [of _ ctx] exI [of _ root] exI [of _ st] exI [of _ "word_of st0"]) simp
qed

section \<open>What nesting gives\<close>

lemma nested_counts:
  assumes "nested_calls ctx s0 w"
  shows "length (cw_segments w) + length (cw_stack w) = 2 * length (cw_calls w) + length (cw_imports w) \<and>
    length (cw_stack w) \<le> kx_max_depth ctx"
  using assms by induction simp_all

lemma returned_counts:
  assumes "nested_calls ctx s0 w" and "ends_at ctx st (PathReturn source) w"
  shows "length (ck_segments st) = 2 * length (ck_calls st) + length (ck_imports st) + 1"
  using nested_counts [OF assms(1)] assms(2) by (auto simp: ends_at_def stop_explained_def)

lemma nested_depths:
  assumes "nested_calls ctx s0 w" and "tr \<in> set (cw_calls w)"
  shows "1 \<le> tr_depth tr \<and> tr_depth tr \<le> kx_max_depth ctx"
  using assms by induction auto

end
