(* ===== verification/Pcode_ElfExample.thy ===== *)
theory Pcode_ElfExample
  imports Pcode_Memory Pcode_Seed Pcode_Example
begin

text \<open>
  A twelve-byte binary with a read-only and a writable segment, the snapshot that maps both, and a
  host whose parsers know this binary; the image, the process memory, two declared allocations and a
  seed are evaluated on it. Its first dynamic relocation binds a symbol, its second is relative.
\<close>

section \<open>The binary and its snapshot\<close>

definition example_binary :: "u8 list" where
  "example_binary = [0x7f, 0x45, 0x4c, 0x46, 1, 2, 3, 4, 5, 6, 7, 8]"

definition example_segment :: "u64 \<Rightarrow> u64 \<Rightarrow> u64 \<Rightarrow> u64 \<Rightarrow> u32 \<Rightarrow> elf_segment" where
  "example_segment address n offset file_size flags =
     \<lparr>es_address = address, es_size = n, es_file_offset = offset, es_file_size = file_size,
      es_flags = Some flags, es_data = Ok (take (unat file_size) (drop (unat offset) example_binary))\<rparr>"

definition example_elf :: elf_file where
  "example_elf =
     \<lparr>ef_is_elf = True, ef_is_x86_64 = True, ef_is_little_endian = True, ef_kind = ObjectDynamic,
      ef_segments = [example_segment 0x400000 4 0 4 PF_R, example_segment 0x400008 16 4 8 6],
      ef_dynamic_relocations = None\<rparr>"

definition example_metadata :: elf_dynamic_metadata where
  "example_metadata =
     \<lparr>em_is_64 = True, em_little_endian = True, em_machine = EM_X86_64, em_program_headers = [],
      em_dynamic = None,
      em_dynrelas = [\<lparr>er_offset = 0x400008, er_addend = Some 0, er_sym = 1, er_type = R_X86_64_GLOB_DAT\<rparr>,
                     \<lparr>er_offset = 0x400010, er_addend = Some 0x400004, er_sym = 0, er_type = R_X86_64_RELATIVE\<rparr>],
      em_dynrels = [], em_pltrelocs = []\<rparr>"

definition example_host :: host where
  "example_host =
     \<lparr>ho_sha256 = (\<lambda>_. example_digest), ho_layout_json = (\<lambda>_ _ _. Ok []),
      ho_parse_elf = (\<lambda>_. Ok example_elf), ho_parse_dynamic = (\<lambda>_. Ok example_metadata)\<rparr>"

definition example_block :: "string \<Rightarrow> string \<Rightarrow> string \<Rightarrow> u64 \<Rightarrow> bool \<Rightarrow> ghidra_memory_block" where
  "example_block n first final count w =
     \<lparr>mb_name = n, mb_start = ram_at first, mb_end = ram_at final, mb_size = count, mb_read = True,
      mb_write = w, mb_execute = False, mb_initialized = True, mb_loaded = True, mb_overlay = False,
      mb_block_type = ''Default''\<rparr>"

definition ro_block :: ghidra_memory_block where
  "ro_block = example_block ''.rodata'' ''0x0'' ''0x3'' 4 False"

definition rw_block :: ghidra_memory_block where
  "rw_block = example_block ''.data'' ''0x8'' ''0x17'' 16 True"

definition mapped_snapshot :: ghidra_snapshot where
  "mapped_snapshot = example_snapshot\<lparr>gs_memory_blocks := [ro_block, rw_block]\<rparr>"

section \<open>The snapshot is valid\<close>

lemma mapped_snapshot_simps [simp]:
  "gs_memory_blocks mapped_snapshot = [ro_block, rw_block]" "gs_binary_sha256 mapped_snapshot = example_digest"
  "pr_image_base (gs_program mapped_snapshot) = ram_at ''0x0''"
  "gs_address_spaces mapped_snapshot = [aspace ''const'' 0 0, aspace ''ram'' 1 1, aspace ''unique'' 2 3, aspace ''register'' 4 4]"
  "sf_entry (gs_selected_function mapped_snapshot) = ram_at ''0x1000''"
  by (simp_all add: mapped_snapshot_def example_snapshot_def)

lemma ram_at_simps [simp]: "pa_space (ram_at a) = ''ram''" "pa_offset (ram_at a) = a"
  by (simp_all add: ram_at_def)

lemma aspace_simps [simp]:
  "as_name (aspace n i t) = n" "as_space_type (aspace n i t) = t" "as_addressable_unit_size (aspace n i t) = 1"
  by (simp_all add: aspace_def)

lemma block_simps [simp]:
  "pa_space (mb_start ro_block) = ''ram''" "pa_space (mb_end ro_block) = ''ram''" "mb_size ro_block = 4"
  "mb_write ro_block = False" "mb_initialized ro_block"
  "pa_space (mb_start rw_block) = ''ram''" "pa_space (mb_end rw_block) = ''ram''" "mb_size rw_block = 16"
  "mb_write rw_block" "mb_initialized rw_block"
  by (simp_all add: ro_block_def rw_block_def example_block_def)

lemma block_texts:
  "bounded_text (mb_name ro_block) ''memory block name'' 4096 = Ok ()" "bounded_text (mb_name rw_block) ''memory block name'' 4096 = Ok ()"
  "bounded_text (mb_block_type ro_block) ''memory block type'' 128 = Ok ()"
  "bounded_text (mb_block_type rw_block) ''memory block type'' 128 = Ok ()"
  by code_simp+

lemma block_offsets:
  "address_offset (mb_start ro_block) = Ok 0" "address_offset (mb_end ro_block) = Ok 3"
  "address_offset (mb_start rw_block) = Ok 8" "address_offset (mb_end rw_block) = Ok 0x17"
  by code_simp+

lemma block_sizes: "expected_block_size 0 3 1 = Some 4" "expected_block_size 8 0x17 1 = Some 16"
  by code_simp+

lemma mapped_blocks:
  assumes "''ram'' \<in> names"
  shows "fold_res (validate_memory_block mapped_snapshot names) None [ro_block, rw_block] = Ok (Some (''ram'', 8, 0x17))"
  using assms
  by (simp add: validate_memory_block_def block_texts block_offsets block_sizes less_eq_prod_simp)

lemma other_blocks:
  "validate_header (snap\<lparr>gs_memory_blocks := bs\<rparr>) = validate_header snap"
  "validate_selected (snap\<lparr>gs_memory_blocks := bs\<rparr>) = validate_selected snap"
  "validate_evidence (snap\<lparr>gs_memory_blocks := bs\<rparr>) = validate_evidence snap"
  by (simp_all add: fun_eq_iff validate_header_def validate_selected_def validate_evidence_def)

lemma layout_blocks:
  assumes "validate_layout snap = Ok names" and "length bs \<le> MAX_MEMORY_BLOCKS"
    and "fold_res (validate_memory_block (snap\<lparr>gs_memory_blocks := bs\<rparr>) names) None bs = Ok final"
  shows "validate_layout (snap\<lparr>gs_memory_blocks := bs\<rparr>) = Ok names"
  using assms by (auto simp: validate_layout_def split: if_splits)

lemma mapped_valid: "validate_ghidra_snapshot mapped_snapshot example_digest = Ok ()"
proof -
  from example_valid obtain names addresses where header: "validate_header example_snapshot example_digest = Ok ()"
    and layout: "validate_layout example_snapshot = Ok names"
    and rest: "validate_selected example_snapshot names = Ok addresses" "validate_evidence example_snapshot names addresses = Ok ()"
    by (auto simp: validate_ghidra_snapshot_def)
  from layout have "''ram'' \<in> names"
    by (auto simp: validate_layout_def example_snapshot_def split: if_splits)
  with layout mapped_blocks [of names] have "validate_layout mapped_snapshot = Ok names"
    unfolding mapped_snapshot_def by (intro layout_blocks) (simp_all add: MAX_MEMORY_BLOCKS_def)
  with header rest show ?thesis by (simp add: validate_ghidra_snapshot_def mapped_snapshot_def other_blocks)
qed

section \<open>The image and the process memory\<close>

definition example_image :: pcode_read_only_elf_image where
  "example_image =
     \<lparr>ri_binary_sha256 = example_digest, ri_snapshot_layout_sha256 = example_digest, ri_space = ''ram'',
      ri_binary = example_binary, ri_regions = [\<lparr>ir_start = 0, ir_end = 4, ir_file_offset = 0\<rparr>]\<rparr>"

lemma example_host_simps [simp]:
  "ho_sha256 example_host binary = example_digest" "ho_parse_elf example_host binary = Ok example_elf"
  "ho_parse_dynamic example_host binary = Ok example_metadata" "ho_layout_json example_host a sps bs = Ok []"
  by (simp_all add: example_host_def)

lemma example_elf_simps [simp]:
  "ef_segments example_elf = [example_segment 0x400000 4 0 4 PF_R, example_segment 0x400008 16 4 8 6]"
  by (simp add: example_elf_def)

lemma example_segment_simps [simp]:
  "es_address (example_segment a n i m f) = a" "es_size (example_segment a n i m f) = n"
  "es_file_offset (example_segment a n i m f) = i" "es_file_size (example_segment a n i m f) = m"
  "es_flags (example_segment a n i m f) = Some f"
  "es_data (example_segment a n i m f) = Ok (take (unat m) (drop (unat i) example_binary))"
  by (simp_all add: example_segment_def)

lemma block_roles:
  "read_only_block ''ram'' ro_block" "\<not> read_only_block ''ram'' rw_block"
  "process_block ''ram'' PF_R ro_block" "\<not> process_block ''ram'' PF_R rw_block"
  "process_block ''ram'' 6 rw_block" "\<not> process_block ''ram'' 6 ro_block"
  "block_range msg ro_block = Ok (0, 4)" "block_range msg rw_block = Ok (8, 0x18)"
  by code_simp+

lemma example_flags: "PF_R \<noteq> 0" "PF_R AND PF_W = 0" "6 AND PF_R \<noteq> 0" "6 AND PF_W \<noteq> 0"
  by code_simp+

lemma example_biased: "u64_of_int 0 = Some 0" "u64_of_int 4 = Some 4" "u64_of_int 8 = Some 8" "u64_of_int 16 = Some 16"
  by simp_all

lemma mapped_parts:
  "load_elf example_host wrong example_binary = Ok example_elf" "ram_space_ok mapped_snapshot"
  "snapshot_layout_sha256 example_host mapped_snapshot = Ok example_digest"
  by (simp_all add: load_elf_def example_elf_def ram_space_ok_def snapshot_layout_sha256_def)

lemma mapped_regions:
  "add_segment example_binary mapped_snapshot (- 0x400000) [] (example_segment 0x400000 4 0 4 PF_R) =
     Ok [\<lparr>ir_start = 0, ir_end = 4, ir_file_offset = 0\<rparr>]"
  "add_segment example_binary mapped_snapshot (- 0x400000) regions (example_segment 0x400008 16 4 8 6) = Ok regions"
  by (simp_all add: add_segment_def add_block_def block_roles example_flags segment_in_file_def usize_add_def
      example_binary_def example_biased checked_add_def MAX_IMAGE_REGIONS_def)

lemma example_image_built: "image_from_elf example_host example_binary mapped_snapshot = Ok example_image"
  by (simp add: image_from_elf_def mapped_valid mapped_parts mapped_regions example_image_def Let_def
      scan_segment_def IMAGE_MAX_LOAD_SEGMENTS_def example_hex)

definition example_process :: elf_process_memory where
  "example_process =
     \<lparr>pm_schema_version = 2, pm_binary_sha256 = example_digest, pm_snapshot_layout_sha256 = example_digest,
      pm_space = ''ram'', pm_base = 0,
      pm_bytes = [0x7f, 0x45, 0x4c, 0x46] @ replicate 4 0 @ [1, 2, 3, 4, 5, 6, 7, 8] @ [4, 0, 0, 0, 0, 0, 0, 0],
      pm_known = replicate 4 255 @ replicate 12 0 @ replicate 8 255,
      pm_mapped = replicate 4 255 @ replicate 4 0 @ replicate 16 255,
      pm_writable = replicate 8 0 @ replicate 16 255,
      pm_unresolved_relocation_bytes = 8, pm_bound_to_binary = True\<rparr>"


lemma mapped_process_regions:
  "process_regions example_binary mapped_snapshot example_elf = Ok (- 0x400000, [
     \<lparr>rg_start = 0, rg_end = 4, rg_file_offset = Some 0, rg_writable = False\<rparr>,
     \<lparr>rg_start = 8, rg_end = 0x10, rg_file_offset = Some 4, rg_writable = True\<rparr>,
     \<lparr>rg_start = 0x10, rg_end = 0x18, rg_file_offset = None, rg_writable = True\<rparr>])"
  by (simp add: process_regions_def scan_process_segment_def PROCESS_MAX_LOAD_SEGMENTS_def example_hex Let_def
      add_process_segment_def add_process_block_def add_part_def block_roles example_flags usize_add_def
      example_binary_def example_biased checked_add_def MAX_REGIONS_def process_key_def)

definition example_arrays :: process_arrays where
  "example_arrays =
     \<lparr>ay_bytes = [0x7f, 0x45, 0x4c, 0x46] @ replicate 4 0 @ [1, 2, 3, 4, 5, 6, 7, 8] @ replicate 8 0,
      ay_known = pm_mapped example_process, ay_mapped = pm_mapped example_process,
      ay_writable = pm_writable example_process\<rparr>"

lemma list_numerals:
  "replicate (numeral n) x = x # replicate (pred_numeral n) x"
  "(y # ys)[numeral n := x] = y # ys[pred_numeral n := x]"
  by (simp_all add: numeral_eq_Suc)

lemma mapped_arrays:
  "rbind (load_region example_binary 0 (no_arrays 24)
       \<lparr>rg_start = 0, rg_end = 4, rg_file_offset = Some 0, rg_writable = False\<rparr>) (\<lambda>a.
   rbind (load_region example_binary 0 a
       \<lparr>rg_start = 8, rg_end = 0x10, rg_file_offset = Some 4, rg_writable = True\<rparr>) (\<lambda>a.
   load_region example_binary 0 a
       \<lparr>rg_start = 0x10, rg_end = 0x18, rg_file_offset = None, rg_writable = True\<rparr>)) = Ok example_arrays"
  by (simp add: load_region_def no_arrays_def mark_range_def fill_range_def slice_rs_def usize_add_def Let_def
      example_binary_def example_arrays_def example_process_def list_numerals)

lemma example_relocations:
  "dynamic_relocations example_host example_binary example_elf 2 =
     Ok [\<lparr>dr_address = 0x400008, dr_width = 8, dr_relative_addend = None\<rparr>,
         \<lparr>dr_address = 0x400010, dr_width = 8, dr_relative_addend = Some 0x400004\<rparr>]"
  by code_simp

lemma example_relocated:
  "relocate example_host example_binary example_elf 2 (- 0x400000) 0 24 example_arrays =
     Ok (example_arrays\<lparr>ay_bytes := pm_bytes example_process, ay_known := pm_known example_process\<rparr>, 8)"
  by (simp add: relocate_def example_relocations PCODE_ELF_PROCESS_MEMORY_VERSION_def hit_relocation_def hit_byte_def window_index_def set_index_def
    relative_value_def example_biased checked_add_def checked_sub_def saturating_inc_def upt_rec write_candidate_def
    write_candidate_byte_def le_bytes_def byte_of_def example_arrays_def example_process_def list_numerals)

lemma example_masks:
  "ay_mapped example_arrays = pm_mapped example_process" "ay_writable example_arrays = pm_writable example_process"
  "\<lparr>pm_schema_version = 2, pm_binary_sha256 = example_digest, pm_snapshot_layout_sha256 = example_digest,
     pm_space = ''ram'', pm_base = 0, pm_bytes = pm_bytes example_process, pm_known = pm_known example_process,
     pm_mapped = pm_mapped example_process, pm_writable = pm_writable example_process,
     pm_unresolved_relocation_bytes = 8, pm_bound_to_binary = True\<rparr> = example_process"
  by (simp_all add: example_arrays_def example_process_def)

lemma example_process_built: "process_from_elf example_host example_binary mapped_snapshot 64 = Ok example_process"
  by (simp add: process_from_elf_def process_from_elf_version_def PCODE_ELF_PROCESS_MEMORY_VERSION_def
    PCODE_ELF_PROCESS_MEMORY_MAX_BYTES_def mapped_valid mapped_parts
    mapped_process_regions mapped_arrays example_relocated example_masks del: rbind_Ok)

definition example_allocations :: process_allocations where
  "example_allocations =
     \<lparr>ac_schema_version = 1, ac_binary_sha256 = example_digest, ac_snapshot_layout_sha256 = example_digest,
      ac_regions = [\<lparr>al_kind = StackAllocation, al_space = ''ram'', al_base = 0x7000, al_byte_len = 0x100\<rparr>,
                    \<lparr>al_kind = HeapAllocation, al_space = ''ram'', al_base = 0x8000, al_byte_len = 0x40\<rparr>]\<rparr>"

lemma example_allocations_valid:
  "allocations_validate_for example_host example_allocations mapped_snapshot example_process = Ok ()"
  by code_simp

section \<open>A seed\<close>

definition example_seed :: seed_file where
  "example_seed =
     \<lparr>sd_schema_version = 1, sd_binary_sha256 = example_digest, sd_entry = ram_at ''0x1000'',
      sd_registers = [\<lparr>sr_offset = ''0x8'', sr_size = 2, sr_value = ''0x1234''\<rparr>],
      sd_memory = [\<lparr>sm_space = ''ram'', sm_byte_offset = ''0x7010'', sm_size = 1, sm_value = ''0xab''\<rparr>]\<rparr>"

definition example_seeded :: concrete_state where
  "example_seeded =
     \<lparr>cs_register_bytes = [(8, 0x34), (9, 0x12)], cs_unique_bytes = [],
      cs_memory_bytes = [(''ram'', [(0x7010, 0xab)])]\<rparr>"

lemma example_seed_hex:
  "seed_hex ''0x8'' = Ok 8" "seed_hex ''0x1234'' = Ok 0x1234" "seed_hex ''0x7010'' = Ok 0x7010" "seed_hex ''0xab'' = Ok 0xab"
  by code_simp+

lemma example_seed_parsed: "parse_pcode_seed (\<lambda>_. Ok example_seed) [0x7b] mapped_snapshot = Ok example_seeded"
proof -
  have register: "seed_one_register (default_state, {}) \<lparr>sr_offset = ''0x8'', sr_size = 2, sr_value = ''0x1234''\<rparr> =
      Ok (example_seeded\<lparr>cs_memory_bytes := []\<rparr>, {(''register'', 8), (''register'', 9)})"
    by code_simp
  have memory: "seed_one_memory {''ram''} (example_seeded\<lparr>cs_memory_bytes := []\<rparr>, {(''register'', 8), (''register'', 9)})
        \<lparr>sm_space = ''ram'', sm_byte_offset = ''0x7010'', sm_size = 1, sm_value = ''0xab''\<rparr> =
      Ok (example_seeded, {(''ram'', 0x7010), (''register'', 8), (''register'', 9)})"
    by code_simp
  have "ram_spaces mapped_snapshot = {''ram''}" by (simp add: ram_spaces_def)
  with register memory show ?thesis
    by (simp add: parse_pcode_seed_def example_seed_def MAX_PCODE_SEED_BYTES_def PCODE_SEED_VERSION_def del: rbind_Ok)
qed

section \<open>Runs over the initial memories\<close>

lemma mapped_function: "Pcode_Validate.pcode_function_ir mapped_snapshot = Ok example_function"
proof -
  have "Pcode_Validate.pcode_function_ir (snap\<lparr>gs_memory_blocks := bs\<rparr>) = Pcode_Validate.pcode_function_ir snap"
    if "validate_ghidra_snapshot (snap\<lparr>gs_memory_blocks := bs\<rparr>) (gs_binary_sha256 snap) = Ok ()"
      "validate_ghidra_snapshot snap (gs_binary_sha256 snap) = Ok ()" for snap bs
    using that by (simp add: Pcode_Validate.pcode_function_ir_def)
  from this [where snap = example_snapshot and bs = "[ro_block, rw_block]"] mapped_valid example_valid example_function_ir
  show ?thesis by (simp add: mapped_snapshot_def)
qed

lemma example_seeded_wf: "state_wf example_seeded" "state_sorted example_seeded"
  by (simp_all add: state_wf_def state_sorted_def example_seeded_def bm_wf_def known_byte_count_def bm_len_def
      MAX_KNOWN_STATE_BYTES_def)

lemma mapped_setup:
  assumes "im_validate_for im mapped_snapshot example_seeded = Ok ()"
  shows "is_ok (path_setup mapped_snapshot example_seeded (Some im) None 10 10)"
proof -
  have "validate_execution_setup (lower_semantics example_function) example_seeded 10 = Ok ()"
    using example_stages(1) example_seeded_wf(1)
    by (auto simp: validate_execution_setup_def state_wf_def not_less split: if_splits)
  moreover have "sf_flow_edges (gs_selected_function mapped_snapshot) = sf_flow_edges (gs_selected_function example_snapshot)"
    by (simp add: mapped_snapshot_def)
  ultimately show ?thesis using assms
    by (simp add: path_setup_def mapped_valid mapped_function example_stages example_fallthroughs
        example_index_start Let_def MAX_OPERATIONS_def)
qed

lemma mapped_path:
  assumes "im_validate_for im mapped_snapshot example_seeded = Ok ()"
  obtains t where "execute_concrete_path_inner mapped_snapshot example_seeded (Some im) None 10 10 = Some (Ok t)"
proof -
  from mapped_setup [OF assms] obtain ctx a n where
    "path_setup mapped_snapshot example_seeded (Some im) None 10 10 = Ok (ctx, a, n)"
    by (metis is_ok_iff prod_cases3)
  with concrete_path_returns [OF example_seeded_wf(2), of "Some im" mapped_snapshot None 10 10] assms that show thesis
    by (fastforce simp: is_ok_iff)
qed

lemma example_stack: "bm_get (cs_memory_bytes example_seeded) ''ram'' = Some [(0x7010, 0xab)]"
  "cs_memory_bytes example_seeded = [(''ram'', [(0x7010, 0xab)])]"
  by (simp_all add: example_seeded_def bm_get_def)

lemma example_accepted:
  "im_validate_for (image_memory example_host example_image) mapped_snapshot example_seeded = Ok ()"
  "im_validate_for (process_memory example_host example_process) mapped_snapshot example_seeded = Ok ()"
  "im_validate_for (allocated_memory example_host example_process example_allocations) mapped_snapshot example_seeded = Ok ()"
proof -
  have "image_byte example_image ''ram'' 0x7010 = None" by (simp add: image_byte_def example_image_def)
  moreover have "ri_space example_image = ''ram''" "ri_binary_sha256 example_image = example_digest"
    "ri_snapshot_layout_sha256 example_image = example_digest"
    by (simp_all add: example_image_def)
  ultimately show "im_validate_for (image_memory example_host example_image) mapped_snapshot example_seeded = Ok ()"
    using mapped_parts(3)
    by (simp add: image_memory_def validate_image_for_def validate_readonly_image_def example_stack(1))
  have valid: "process_validate_for_snapshot example_host example_process mapped_snapshot = Ok ()"
    using allocations_process [OF example_allocations_valid] .
  moreover have "initial_byte example_process (pm_space example_process) 0x7010 = None" "pm_space example_process = ''ram''"
    by code_simp+
  ultimately show "im_validate_for (process_memory example_host example_process) mapped_snapshot example_seeded = Ok ()"
    by (simp add: process_memory_def process_validate_for_def example_stack(1))
  have "allocation_contains example_allocations ''ram'' 0x7010" by code_simp
  then show "im_validate_for (allocated_memory example_host example_process example_allocations) mapped_snapshot example_seeded = Ok ()"
    using example_allocations_valid
    by (simp add: allocated_memory_def allocated_validate_for_def allocated_mapped_def allocated_writable_def example_stack(2))
qed

end
