(* ===== verification/Pcode_CallExample.thy ===== *)
theory Pcode_CallExample
  imports Pcode_CallMachine Pcode_ElfExample
begin

text \<open>
  Two snapshots of one program: a root that calls and returns, and its callee that returns at once,
  through a register that holds the continuation. The run enters the callee, comes back and leaves.
\<close>

section \<open>The snapshots\<close>

definition call_op :: pcode_operation where
  "call_op = operation_at ''0x1000'' 0 7 ''CALL'' None [vnode ''ram'' ''0x2000'' 8]"

definition root_return :: pcode_operation where
  "root_return = operation_at ''0x1005'' 0 10 ''RETURN'' None [vnode ''register'' ''0x288'' 8]"

definition callee_return :: pcode_operation where
  "callee_return = operation_at ''0x2000'' 0 10 ''RETURN'' None [vnode ''register'' ''0x288'' 8]"

definition root_instructions :: "pcode_instruction list" where
  "root_instructions =
     [\<lparr>in_address = ram_at ''0x1000'', in_bytes = ''e8fb0f0000'', in_parsed_bytes = ''e8fb0f0000'',
       in_mnemonic = ''CALL'', in_pcode = [call_op]\<rparr>,
      \<lparr>in_address = ram_at ''0x1005'', in_bytes = ''c3'', in_parsed_bytes = ''c3'',
       in_mnemonic = ''RET'', in_pcode = [root_return]\<rparr>]"

definition callee_instructions :: "pcode_instruction list" where
  "callee_instructions =
     [\<lparr>in_address = ram_at ''0x2000'', in_bytes = ''c3'', in_parsed_bytes = ''c3'',
       in_mnemonic = ''RET'', in_pcode = [callee_return]\<rparr>]"

definition root_edge :: ghidra_flow_edge where
  "root_edge = \<lparr>fl_source = ram_at ''0x1000'', fl_target = Some (ram_at ''0x1005''),
     fl_kind = Fallthrough, fl_conditional = False, fl_computed = False\<rparr>"

definition call_edge :: ghidra_flow_edge where
  "call_edge = \<lparr>fl_source = ram_at ''0x1000'', fl_target = Some (ram_at ''0x2000''),
     fl_kind = Call, fl_conditional = False, fl_computed = False\<rparr>"

definition root_call :: ghidra_call_target where
  "root_call = \<lparr>ct_call_site = ram_at ''0x1000'', ct_target = Some (ram_at ''0x2000''), ct_conditional = False, ct_computed = False\<rparr>"

definition two_functions :: "ghidra_function_entry list" where
  "two_functions =
     [\<lparr>fe_entry = ram_at ''0x1000'', fe_name = ''f'', fe_size = 6, fe_prototype = None\<rparr>,
      \<lparr>fe_entry = ram_at ''0x2000'', fe_name = ''g'', fe_size = 1, fe_prototype = None\<rparr>]"

definition root_snapshot :: ghidra_snapshot where
  "root_snapshot = example_snapshot\<lparr>gs_functions := two_functions,
     gs_selected_function := \<lparr>sf_entry = ram_at ''0x1000'', sf_instructions = root_instructions,
       sf_flow_edges = [root_edge, call_edge], sf_call_targets = [root_call], sf_high_pcode = None\<rparr>\<rparr>"

definition callee_snapshot :: ghidra_snapshot where
  "callee_snapshot = example_snapshot\<lparr>gs_functions := two_functions,
     gs_selected_function := \<lparr>sf_entry = ram_at ''0x2000'', sf_instructions = callee_instructions,
       sf_flow_edges = [], sf_call_targets = [], sf_high_pcode = None\<rparr>\<rparr>"

definition return_state :: concrete_state where
  \<comment> \<open>the register that both returns read holds the continuation\<close>
  "return_state = \<lparr>cs_register_bytes = [(0x288, 0x05), (0x289, 0x10), (0x28a, 0), (0x28b, 0), (0x28c, 0), (0x28d, 0),
     (0x28e, 0), (0x28f, 0)], cs_unique_bytes = [], cs_memory_bytes = []\<rparr>"

lemma calls_valid:
  "validate_ghidra_snapshot root_snapshot example_digest = Ok ()" "validate_ghidra_snapshot callee_snapshot example_digest = Ok ()"
  by code_simp+

definition root_function :: pcode_function_ir where
  "root_function = example_function\<lparr>fi_instructions := root_instructions\<rparr>"

definition callee_function :: pcode_function_ir where
  "callee_function = example_function\<lparr>fi_entry := ram_at ''0x2000'', fi_name := ''g'', fi_instructions := callee_instructions\<rparr>"

lemma calls_function_ir:
  "Pcode_Validate.pcode_function_ir root_snapshot = Ok root_function" "Pcode_Validate.pcode_function_ir callee_snapshot = Ok callee_function"
  by code_simp+

lemma calls_stage0: "validate_execution_setup (lower_semantics root_function) empty_state 10 = Ok ()"
  by code_simp

lemma calls_stage1: "validate_execution_setup (lower_semantics callee_function) empty_state 10 = Ok ()"
  by code_simp

lemma calls_stage2: "build_index (se_instructions (lower_semantics root_function)) = Ok [((''ram'', 0x1000), 0), ((''ram'', 0x1005), 1)]"
  by code_simp

lemma calls_stage3: "build_index (se_instructions (lower_semantics callee_function)) = Ok [((''ram'', 0x2000), 0)]"
  by code_simp

lemma calls_keys:
  "hex_u64 ''0x1000'' = Ok 0x1000" "hex_u64 ''0x1005'' = Ok 0x1005" "hex_u64 ''0x2000'' = Ok 0x2000" "hex_u64 ''0x288'' = Ok 0x288"
  "fmt_hex (0x2000 :: u64) = ''0x2000''"
  by code_simp+

lemma calls_address_keys:
  "address_key (ram_at ''0x1000'') = Ok (''ram'', 0x1000)"
  "address_key (ram_at ''0x1005'') = Ok (''ram'', 0x1005)"
  "address_key (ram_at ''0x2000'') = Ok (''ram'', 0x2000)"
  by code_simp+

lemma return_state_wf: "state_wf return_state" "state_sorted return_state"
  by (simp_all add: state_wf_def state_sorted_def return_state_def bm_wf_def known_byte_count_def bm_len_def MAX_KNOWN_STATE_BYTES_def)

section \<open>The segments\<close>

lemma setup_mono:
  assumes "validate_execution_setup f empty_state 10 = Ok ()" and "state_wf s" and "n \<le> 10"
  shows "validate_execution_setup f s n = Ok ()"
  using assms by (auto simp: validate_execution_setup_def state_wf_def MAX_OPERATIONS_def split: if_splits)

lemma snapshot_simps [simp]:
  "gs_binary_sha256 root_snapshot = example_digest" "gs_binary_sha256 callee_snapshot = example_digest"
  "gs_selected_function root_snapshot = \<lparr>sf_entry = ram_at ''0x1000'', sf_instructions = root_instructions,
     sf_flow_edges = [root_edge, call_edge], sf_call_targets = [root_call], sf_high_pcode = None\<rparr>"
  "gs_selected_function callee_snapshot = \<lparr>sf_entry = ram_at ''0x2000'', sf_instructions = callee_instructions,
     sf_flow_edges = [], sf_call_targets = [], sf_high_pcode = None\<rparr>"
  "gs_program callee_snapshot = gs_program root_snapshot" "gs_functions callee_snapshot = gs_functions root_snapshot"
  "gs_address_spaces callee_snapshot = gs_address_spaces root_snapshot"
  "gs_flow_overrides_applied callee_snapshot = gs_flow_overrides_applied root_snapshot"
  by (simp_all add: root_snapshot_def callee_snapshot_def)

definition root_path_context :: "nat \<Rightarrow> nat \<Rightarrow> path_context" where
  "root_path_context n v = \<lparr>pc_semantic = lower_semantics root_function, pc_index = [((''ram'', 0x1000), 0), ((''ram'', 0x1005), 1)],
     pc_fallthroughs = [[Some (ram_at ''0x1005'')], []], pc_image = None, pc_max_operations = n, pc_max_visits = v\<rparr>"

definition callee_path_context :: "nat \<Rightarrow> nat \<Rightarrow> path_context" where
  "callee_path_context n v = \<lparr>pc_semantic = lower_semantics callee_function, pc_index = [((''ram'', 0x2000), 0)],
     pc_fallthroughs = [[]], pc_image = None, pc_max_operations = n, pc_max_visits = v\<rparr>"

lemma calls_instructions:
  "se_instructions (lower_semantics root_function) = map semantic_of root_instructions"
  "se_instructions (lower_semantics callee_function) = map semantic_of callee_instructions"
  by (simp_all add: lower_semantics_instructions root_function_def callee_function_def)

lemma root_setup:
  assumes "n \<le> 10" and "v \<le> 10"
  shows "path_setup root_snapshot return_state None (Some (ram_at ''0x1000'')) n v = Ok (root_path_context n v, ram_at ''0x1000'', 0)"
    and "path_setup root_snapshot return_state None (Some (ram_at ''0x1005'')) n v = Ok (root_path_context n v, ram_at ''0x1005'', 1)"
proof -
  have "build_fallthroughs [((''ram'', 0x1000), 0), ((''ram'', 0x1005), 1)] [root_edge, call_edge] (Suc (Suc 0)) = Ok [[Some (ram_at ''0x1005'')], []]"
    by (simp add: build_fallthroughs_def add_fallthrough_def root_edge_def call_edge_def calls_address_keys bm_get_def)
  with assms show
    "path_setup root_snapshot return_state None (Some (ram_at ''0x1000'')) n v = Ok (root_path_context n v, ram_at ''0x1000'', 0)"
    "path_setup root_snapshot return_state None (Some (ram_at ''0x1005'')) n v = Ok (root_path_context n v, ram_at ''0x1005'', 1)"
    using setup_mono [OF calls_stage0 return_state_wf(1) assms(1)] calls_stage2
    by (simp_all add: path_setup_def calls_valid calls_function_ir calls_address_keys calls_instructions root_instructions_def
      root_path_context_def bm_get_def MAX_OPERATIONS_def Let_def)
qed

lemma callee_setup:
  assumes "n \<le> 10" and "v \<le> 10"
  shows "path_setup callee_snapshot return_state None (Some (ram_at ''0x2000'')) n v = Ok (callee_path_context n v, ram_at ''0x2000'', 0)"
  using assms setup_mono [OF calls_stage1 return_state_wf(1) assms(1)] calls_stage3
  by (simp add: path_setup_def calls_valid calls_function_ir calls_address_keys calls_instructions callee_instructions_def
      callee_path_context_def bm_get_def MAX_OPERATIONS_def build_fallthroughs_def Let_def)

definition one_visit :: "ghidra_snapshot \<Rightarrow> pcode_address \<Rightarrow> nat \<Rightarrow> path_stop \<Rightarrow> path_trace" where
  "one_visit snap a i stop = path_trace_of snap a ((start_path return_state i)\<lparr>ph_visits := [a], ph_entering := False\<rparr>) stop"

lemma terminal_path:
  assumes "path_setup snap return_state None (Some a) n v = Ok (ctx, a, i)"
    and "get_rs (se_instructions (pc_semantic ctx)) i = Some sem" and "si_address sem = a" and "si_operations sem = [canonical x]"
    and "op_output x = None" and "length (op_inputs x) = 1" and "0 < pc_max_operations ctx" and "0 < pc_max_visits ctx"
    and "op_opcode x = 7 \<and> op_mnemonic x = ''CALL'' \<and> stop = CallStop x \<or> op_opcode x = 10 \<and> op_mnemonic x = ''RETURN'' \<and> stop = ReturnStop x"
  shows "execute_concrete_path_inner snap return_state None (Some a) n v = Some (Ok (one_visit snap a i stop))"
proof -
  have "clear_unique return_state = return_state" by (simp add: clear_unique_def return_state_def)
  with assms(2-9) have "path_step ctx (start_path return_state i) =
      Inr ((start_path return_state i)\<lparr>ph_visits := [a], ph_entering := False\<rparr>, Ok stop)"
    by (auto simp: path_step_def start_path_def enter_instruction_def operation_step_def call_return_step_def leave_def
        canonical_def get_rs_def Let_def)
  from run_loop_unfold(1) [of "path_step ctx", OF this] assms(1) show ?thesis
    by (simp add: execute_concrete_path_inner_def one_visit_def)
qed

lemma calls_segments:
  assumes "0 < n" and "n \<le> 10" and "0 < v" and "v \<le> 10"
  shows "execute_concrete_path_inner root_snapshot return_state None (Some (ram_at ''0x1000'')) n v =
      Some (Ok (one_visit root_snapshot (ram_at ''0x1000'') 0 (CallStop call_op)))"
    and "execute_concrete_path_inner callee_snapshot return_state None (Some (ram_at ''0x2000'')) n v =
      Some (Ok (one_visit callee_snapshot (ram_at ''0x2000'') 0 (ReturnStop callee_return)))"
    and "execute_concrete_path_inner root_snapshot return_state None (Some (ram_at ''0x1005'')) n v =
      Some (Ok (one_visit root_snapshot (ram_at ''0x1005'') 1 (ReturnStop root_return)))"
proof -
  have sem: "si_operations (semantic_of i) = map canonical (in_pcode i)" "si_address (semantic_of i) = in_address i" for i
    by (simp_all add: semantic_of_operations canonical_def)
  note instructions = calls_instructions root_path_context_def callee_path_context_def root_instructions_def callee_instructions_def
    get_rs_def sem
  note operations = call_op_def root_return_def callee_return_def operation_at_def
  show "execute_concrete_path_inner root_snapshot return_state None (Some (ram_at ''0x1000'')) n v =
      Some (Ok (one_visit root_snapshot (ram_at ''0x1000'') 0 (CallStop call_op)))"
    by (rule terminal_path [OF root_setup(1) [OF assms(2,4)], of "semantic_of (root_instructions ! 0)" call_op])
      (use assms in \<open>simp_all add: instructions\<close>, simp_all add: operations)
  show "execute_concrete_path_inner callee_snapshot return_state None (Some (ram_at ''0x2000'')) n v =
      Some (Ok (one_visit callee_snapshot (ram_at ''0x2000'') 0 (ReturnStop callee_return)))"
    by (rule terminal_path [OF callee_setup [OF assms(2,4)], of "semantic_of (callee_instructions ! 0)" callee_return])
      (use assms in \<open>simp_all add: instructions\<close>, simp_all add: operations)
  show "execute_concrete_path_inner root_snapshot return_state None (Some (ram_at ''0x1005'')) n v =
      Some (Ok (one_visit root_snapshot (ram_at ''0x1005'') 1 (ReturnStop root_return)))"
    by (rule terminal_path [OF root_setup(2) [OF assms(2,4)], of "semantic_of (root_instructions ! 1)" root_return])
      (use assms in \<open>simp_all add: instructions\<close>, simp_all add: operations)
qed

section \<open>The run\<close>

definition calls_services :: call_services where
  "calls_services = \<lparr>ks_host = example_host, ks_snapshot_json = (\<lambda>_. Ok []), ks_process_json = (\<lambda>_. Ok []),
     ks_parse_imports = (\<lambda>_. Err ''not an ELF file'')\<rparr>"

lemma calls_services_total: "services_total calls_services"
  by (simp add: services_total_def calls_services_def host_total_def)

definition calls_context :: call_context where
  "calls_context = \<lparr>kx_services = calls_services, kx_snapshots = [root_snapshot, callee_snapshot],
     kx_index = [((''ram'', 0x1000), 0), ((''ram'', 0x2000), 1)], kx_digests = [example_digest, example_digest], kx_image = None,
     kx_allocated = None, kx_import_binary = None, kx_max_operations = 10, kx_max_visits = 10, kx_max_depth = 4\<rparr>"

lemma calls_context_simps [simp]:
  "kx_services calls_context = calls_services" "kx_snapshots calls_context = [root_snapshot, callee_snapshot]"
  "kx_index calls_context = [((''ram'', 0x1000), 0), ((''ram'', 0x2000), 1)]"
  "kx_digests calls_context = [example_digest, example_digest]" "kx_image calls_context = None" "kx_allocated calls_context = None"
  "kx_import_binary calls_context = None" "kx_max_operations calls_context = 10" "kx_max_visits calls_context = 10"
  "kx_max_depth calls_context = 4"
  by (simp_all add: calls_context_def)

lemma calls_setup:
  "call_setup calls_services [root_snapshot, callee_snapshot] None None None 10 10 4 = Ok (calls_context, root_snapshot)"
  by (simp add: call_setup_def get_rs_def MAX_SNAPSHOTS_def MAX_OPERATIONS_def MAX_CALL_DEPTH_def check_call_snapshot_def
      calls_valid path_key_def calls_keys ram_at_simps snapshot_digest_def bm_contains_def bm_get_def bm_insert.simps
      calls_services_def calls_context_def)

lemma root_call_target:
  "call_target root_snapshot call_op (ram_at ''0x1000'') return_state = Ok (ram_at ''0x2000'', ram_at ''0x1005'')"
proof -
  have spaces: "gs_address_spaces root_snapshot = [aspace ''const'' 0 0, aspace ''ram'' 1 1, aspace ''unique'' 2 3, aspace ''register'' 4 4]"
    by (simp add: root_snapshot_def example_snapshot_def)
  have at: "\<lparr>pa_space = ''ram'', pa_offset = ''0x2000''\<rparr> = ram_at ''0x2000''" by (simp add: ram_at_def)
  show ?thesis
    by (simp add: call_target_def call_op_def operation_at_def index_rs_def spaces aspace_def size_in_def vnode_def call_value_def
        calls_keys at same_site_def path_key_def ram_at_simps root_call_def call_evidence_ok_def evidence_target_def
        call_continuation_def root_edge_def call_edge_def root_instructions_def to_option_def Let_def)
qed

lemma return_register: "read_varnode return_state (vnode ''register'' ''0x288'' 8) = Ok (Some 0x1005)"
  by (simp add: read_varnode_def read_varnode_wide_def checked_range_def calls_keys vnode_def return_state_def size_in_def byte_at_def
      bm_get_def upt_8 bits_of_def mask_wide_eq mask_eq_exp_minus_1 u64_try_from_def)

lemma one_visit_simps [simp]:
  "pp_stop (one_visit snap a i stop) = stop" "pp_instruction_visits (one_visit snap a i stop) = [a]"
  "pp_final_state (one_visit snap a i stop) = return_state" "pp_events (one_visit snap a i stop) = []"
  by (simp_all add: one_visit_def path_trace_of_def start_path_def)

definition after_call :: call_state where
  "after_call = (start_calls root_snapshot return_state 2)\<lparr>ck_executed := 1, ck_visits := 1,
     ck_segments := [\<lparr>sg_function_entry = ram_at ''0x1000'', sg_snapshot_sha256 = example_digest,
       sg_path = one_visit root_snapshot (ram_at ''0x1000'') 0 (CallStop call_op)\<rparr>],
     ck_calls := [\<lparr>tr_caller_entry = ram_at ''0x1000'', tr_callee_entry = ram_at ''0x2000'', tr_call_site = ram_at ''0x1000'',
       tr_return_address = ram_at ''0x1005'', tr_depth = 1\<rparr>],
     ck_frames := [\<lparr>fr_caller_index = 0, fr_return_address = ram_at ''0x1005''\<rparr>],
     ck_current := 1, ck_start := ram_at ''0x2000''\<rparr>"

definition after_return :: call_state where
  "after_return = after_call\<lparr>ck_executed := 2, ck_visits := 2,
     ck_segments := ck_segments after_call @ [\<lparr>sg_function_entry = ram_at ''0x2000'', sg_snapshot_sha256 = example_digest,
       sg_path = one_visit callee_snapshot (ram_at ''0x2000'') 0 (ReturnStop callee_return)\<rparr>],
     ck_frames := [], ck_current := 0, ck_start := ram_at ''0x1005''\<rparr>"

definition calls_finished :: call_state where
  "calls_finished = after_return\<lparr>ck_executed := 3, ck_visits := 3,
     ck_segments := ck_segments after_return @ [\<lparr>sg_function_entry = ram_at ''0x1000'', sg_snapshot_sha256 = example_digest,
       sg_path = one_visit root_snapshot (ram_at ''0x1005'') 1 (ReturnStop root_return)\<rparr>]\<rparr>"

lemma calls_steps:
  "call_step calls_context (start_calls root_snapshot return_state 2) = Inl after_call"
  "call_step calls_context after_call = Inl after_return"
  "call_step calls_context after_return = Inr (Some (calls_finished, Ok (PathReturn root_return)))"
proof -
  note run = run_segment_def execute_concrete_path_def calls_segments get_rs_def record_segment_def segment_operations_def
    end_segment_def MAX_SEGMENTS_def
  show "call_step calls_context (start_calls root_snapshot return_state 2) = Inl after_call"
    by (simp add: call_step_def run start_calls_def follow_call_def root_call_target enter_callee_def path_key_def
        calls_keys ram_at_simps bm_get_def after_call_def)
  have read: "read_varnode return_state \<lparr>vn_space = ''register'', vn_offset = ''0x288'', vn_size = 8\<rparr> = Ok (Some 0x1005)"
    using return_register by (simp add: vnode_def)
  have input: "op_inputs callee_return = [vnode ''register'' ''0x288'' 8]" "List.find (\<lambda>sp. as_name sp = ''ram'') (gs_address_spaces root_snapshot) = Some (aspace ''ram'' 1 1)"
    by (simp_all add: callee_return_def operation_at_def root_snapshot_def example_snapshot_def aspace_def)
  show "call_step calls_context after_call = Inl after_return"
    by (simp add: call_step_def run start_calls_def follow_return_def input read return_target_ok_def vnode_def aspace_def
        calls_keys ram_at_simps after_call_def after_return_def Let_def)
  show "call_step calls_context after_return = Inr (Some (calls_finished, Ok (PathReturn root_return)))"
    by (simp add: call_step_def run start_calls_def follow_return_def stop_calls_def after_call_def after_return_def calls_finished_def)
qed

lemma calls_run_example:
  "\<exists>t. execute_concrete_call_path_inner calls_services [root_snapshot, callee_snapshot] return_state None None None 10 10 4 = Some (Ok t) \<and>
     it_stop t = PathReturn root_return \<and> length (it_segments t) = 3 \<and> length (it_calls t) = 1"
proof -
  have "run_loop (call_step calls_context) (start_calls root_snapshot return_state 2) =
      Some (Some (calls_finished, Ok (PathReturn root_return)))"
    by (simp only: run_loop_unfold(2) [of "call_step calls_context", OF calls_steps(1)]
        run_loop_unfold(2) [of "call_step calls_context", OF calls_steps(2)] run_loop_unfold(1) [of "call_step calls_context", OF calls_steps(3)])
  then show ?thesis
    by (simp add: execute_concrete_call_path_inner_def calls_setup call_trace_of_def process_binding_def calls_finished_def
        after_return_def after_call_def start_calls_def numeral_2_eq_2)
qed

end
