(* ===== verification/Pcode_StrlenExample.thy ===== *)
theory Pcode_StrlenExample
  imports Pcode_Strlen Pcode_ElfExample
begin

text \<open>
  A call of \<^verbatim>\<open>strlen\<close> on the relocated word of the example process: one byte and a terminator. The
  return address lies in the declared stack.
\<close>

definition eight_bytes :: "string \<Rightarrow> string \<Rightarrow> ghidra_register_layout" where
  "eight_bytes name a = \<lparr>rl_name = name, rl_storage = \<lparr>pa_space = ''register'', pa_offset = a\<rparr>, rl_size_bytes = 8\<rparr>"

definition strlen_snapshot :: ghidra_snapshot where
  "strlen_snapshot = mapped_snapshot\<lparr>gs_register_layout :=
     [eight_bytes ''RAX'' ''0x0'', eight_bytes ''RBX'' ''0x18'', eight_bytes ''RSP'' ''0x20'', eight_bytes ''RDI'' ''0x38'']\<rparr>"

definition strlen_state :: concrete_state where
  \<comment> \<open>\<^verbatim>\<open>RDI\<close> points to the string, \<^verbatim>\<open>RSP\<close> to the return address\<close>
  "strlen_state = \<lparr>cs_register_bytes =
       [(0x20, 0x10), (0x21, 0x70), (0x22, 0), (0x23, 0), (0x24, 0), (0x25, 0), (0x26, 0), (0x27, 0),
        (0x38, 0x10), (0x39, 0), (0x3a, 0), (0x3b, 0), (0x3c, 0), (0x3d, 0), (0x3e, 0), (0x3f, 0)],
     cs_unique_bytes = [],
     cs_memory_bytes = [(''ram'', [(0x7010, 0x05), (0x7011, 0x10), (0x7012, 0), (0x7013, 0), (0x7014, 0), (0x7015, 0),
       (0x7016, 0), (0x7017, 0)])]\<rparr>"

lemma strlen_hex:
  "hex_u64 ''0x0'' = Ok 0" "hex_u64 ''0x18'' = Ok 0x18" "hex_u64 ''0x20'' = Ok 0x20" "hex_u64 ''0x38'' = Ok 0x38"
  "hex_u64 ''0x1005'' = Ok 0x1005"
  by code_simp+

definition register_node :: "string \<Rightarrow> pcode_varnode" where
  "register_node a = \<lparr>vn_space = ''register'', vn_offset = a, vn_size = 8\<rparr>"

lemma register_node_simps [simp]:
  "vn_space (register_node a) = ''register''" "vn_offset (register_node a) = a" "vn_size (register_node a) = 8"
  by (simp_all add: register_node_def)

lemma strlen_layout:
  "gs_register_layout strlen_snapshot =
     [eight_bytes ''RAX'' ''0x0'', eight_bytes ''RBX'' ''0x18'', eight_bytes ''RSP'' ''0x20'', eight_bytes ''RDI'' ''0x38'']"
  by (simp add: strlen_snapshot_def)

lemma strlen_abi:
  "abi_register strlen_snapshot ''RAX'' = Ok (register_node ''0x0'')" "abi_register strlen_snapshot ''RDI'' = Ok (register_node ''0x38'')"
  "abi_register strlen_snapshot ''RSP'' = Ok (register_node ''0x20'')" "abi_register strlen_snapshot ''RBX'' = Ok (register_node ''0x18'')"
  by (simp_all add: abi_register_def strlen_layout eight_bytes_def register_node_def)

lemma strlen_ranges:
  "fold_res add_register_range [] [register_node ''0x0'', register_node ''0x38'', register_node ''0x20''] = Ok [(0, 8), (0x38, 8), (0x20, 8)]"
  "fold_res (preserve_register strlen_snapshot) ([(0, 8), (0x38, 8), (0x20, 8)], [(0x20, 8)]) callee_saved =
     Ok ([(0, 8), (0x38, 8), (0x20, 8), (0x18, 8)], [(0x20, 8), (0x18, 8)])"
  by (simp_all add: add_register_range_def strlen_hex add_u64_def checked_add_def preserve_register_def callee_saved_def strlen_layout
      eight_bytes_def strlen_abi)

lemma strlen_reads:
  "read_varnode strlen_state (register_node ''0x38'') = Ok (Some 0x10)" "read_varnode strlen_state (register_node ''0x20'') = Ok (Some 0x7010)"
  by (simp_all add: read_varnode_def read_varnode_wide_def checked_range_def strlen_hex strlen_state_def size_in_def byte_at_def
      bm_get_def upt_8 bits_of_def mask_wide_eq mask_eq_exp_minus_1 u64_try_from_def)

lemma process_space: "pm_space example_process = ''ram''"
  by (simp add: example_process_def)

lemma strlen_slot:
  "stack_slot_declared example_process example_allocations 0x7010 0x7018"
  "check_return_slot strlen_state example_process (ram_at ''0x1005'') 0x7010 = Ok ()"
  by (simp_all add: stack_slot_declared_def example_allocations_def process_space checked_add_def check_return_slot_def read_memory_def
      checked_memory_range_def checked_memory_range_wide_def size_in_def bm_get_def strlen_state_def upt_8 byte_at_def strlen_hex
      ram_at_simps)

lemma strlen_bytes:
  "strlen_byte strlen_state example_process example_allocations 0x10 = Ok 4"
  "strlen_byte strlen_state example_process example_allocations 0x11 = Ok 0"
proof -
  have "is_mapped example_process ''ram'' 0x10" "is_mapped example_process ''ram'' 0x11"
    "initial_byte example_process ''ram'' 0x10 = Some 4" "initial_byte example_process ''ram'' 0x11 = Some 0"
    by code_simp+
  then show "strlen_byte strlen_state example_process example_allocations 0x10 = Ok 4"
    "strlen_byte strlen_state example_process example_allocations 0x11 = Ok 0"
    by (simp_all add: strlen_byte_Ok seen_byte_def process_space space_bytes_def strlen_state_def bm_get_def)
qed

lemma strlen_found: "find_terminator (strlen_byte strlen_state example_process example_allocations) 0x10 MAX_IMPORT_STRING_BYTES 0 = Ok (Some 1)"
proof -
  have "MAX_IMPORT_STRING_BYTES = Suc (Suc 4094)" by (simp add: MAX_IMPORT_STRING_BYTES_def)
  moreover have "find_terminator (strlen_byte strlen_state example_process example_allocations) 0x10 (Suc (Suc n)) 0 = Ok (Some 1)" for n
    by (simp add: strlen_bytes checked_add_def)
  ultimately show ?thesis by metis
qed

lemma strlen_state_wf: "state_wf strlen_state"
  by (simp add: state_wf_def strlen_state_def bm_wf_def known_byte_count_def bm_len_def MAX_KNOWN_STATE_BYTES_def)

lemma register_write_fits:
  assumes "state_wf s" and "known_byte_count s + 8 \<le> MAX_KNOWN_STATE_BYTES" and "hex_u64 a = Ok start" and "unat start + 8 \<le> 2 ^ 64"
  obtains s' where "write_varnode s (register_node a) v = Ok s'" "state_wf s'" "known_byte_count s' \<le> known_byte_count s + 8"
proof -
  have start: "node_start (register_node a) = start" "node_len (register_node a) = 8"
    using assms(3) by (simp_all add: node_start_def node_len_def)
  have few: "missing_bytes start 8 bytes \<le> 8" for bytes
    using length_filter_le [of "\<lambda>index. \<not> bm_contains bytes (byte_at start index)" "[0..<8]"] by (simp add: missing_bytes_def)
  have "node_range_ok (register_node a)" using assms(3,4) start by (simp add: node_range_ok_iff size_in_def)
  moreover have "known_byte_count s + missing_bytes start 8 (scalar_bytes s ''register'') \<le> MAX_KNOWN_STATE_BYTES"
    using assms(2) few [of "scalar_bytes s ''register''"] by linarith
  ultimately obtain s' where w: "write_varnode_wide s (register_node a) (ucast v) = Ok s'"
    using write_varnode_wide_Ok [of s "register_node a" "ucast v"] start by (auto simp: scalar_space_def)
  moreover have "write_varnode s (register_node a) v = write_varnode_wide s (register_node a) (ucast v)"
    by (simp add: write_varnode_def size_in_def)
  ultimately show thesis
    using that write_varnode_wide_wf [OF assms(1) w] few [of "scalar_bytes s ''register''"] start by simp
qed

lemma strlen_example:
  "\<exists>s'. apply_strlen_contract strlen_snapshot strlen_state example_process example_allocations (ram_at ''0x1005'') = Ok (s', 1)"
proof -
  let ?s = "retain_register_ranges strlen_state [(0x20, 8), (0x18, 8)]"
  have small: "known_byte_count ?s + 16 \<le> MAX_KNOWN_STATE_BYTES"
    by (simp add: known_byte_count_def retain_register_ranges_def clear_unique_def strlen_state_def bm_retain_def bm_len_def
        MAX_KNOWN_STATE_BYTES_def)
  have wf: "state_wf ?s" using retained_wf(1) [OF strlen_state_wf] .
  obtain s1 where s1: "write_varnode ?s (register_node ''0x0'') 1 = Ok s1" "state_wf s1" "known_byte_count s1 \<le> known_byte_count ?s + 8"
    by (rule register_write_fits [OF wf _ strlen_hex(1), of 1]) (use small in simp_all)
  obtain s2 where s2: "write_varnode s1 (register_node ''0x20'') 0x7018 = Ok s2" "state_wf s2" "known_byte_count s2 \<le> known_byte_count s1 + 8"
  proof (rule register_write_fits [where s = s1 and a = "''0x20''" and v = "0x7018" and start = "0x20"])
    show "known_byte_count s1 + 8 \<le> MAX_KNOWN_STATE_BYTES" using s1(3) small by simp
  qed (use s1(2) strlen_hex(3) in simp_all)
  show ?thesis
    by (simp add: apply_strlen_contract_def strlen_abi strlen_ranges strlen_hex strlen_reads checked_add_def strlen_slot strlen_found
        s1(1) s2(1) del: fold_res.simps)
qed

end
