(* ===== verification/Spec2Isabelle.thy ===== *)
theory Spec2Isabelle
  imports Pcode_StepSpec Pcode_SliceExample Pcode_CallExample Pcode_StrlenExample
begin

text \<open>
  Verification of HydIR's raw P-code pipeline, the crate \<^verbatim>\<open>crates/hydir-ir/src/pcode.rs\<close> and
  \<^verbatim>\<open>crates/hydir-ir/src/pcode/\<close>. Ghidra exports a function as a snapshot; HydIR validates it, turns it
  into a function IR, classifies every P-code operation as an exact bitvector assignment or an opaque
  effect, builds its control-flow graph, slices and simplifies it, and executes prefixes, concrete paths
  and paths through calls of it on a sparse byte state with explicit budgets, over the memory that the
  ELF file of the program defines.

  Prelude. \<open>Hydir_Prelude\<close>: machine integers and checked arithmetic, \<^verbatim>\<open>Result\<close> with a panic outcome,
  \<^verbatim>\<open>for\<close> loops with early return, \<^verbatim>\<open>loop\<close> as \<open>run_loop\<close> (\<open>None\<close> is a loop that never ends) and the locale
  \<open>bounded_loop\<close> of loops that a measure stops. \<open>Hydir_BTree\<close>: \<^verbatim>\<open>BTreeMap\<close>/\<^verbatim>\<open>BTreeSet\<close> behind the locale
  \<open>ordered_map\<close>. \<open>Hydir_Text\<close>: text bounds and hexadecimal notation.

  Import. \<open>Pcode_Model\<close>: the records of \<^verbatim>\<open>pcode.rs\<close>. \<open>Pcode_Validate\<close>: \<^verbatim>\<open>validate_ghidra_snapshot\<close> with all
  its parts, and \<^verbatim>\<open>pcode_function_ir\<close>; what acceptance establishes, and that validation never panics.

  Semantics. \<open>Pcode_Semantics\<close>: \<^verbatim>\<open>lower_operation\<close>. \<open>Pcode_Eval\<close>: \<^verbatim>\<open>evaluate_exact_wide\<close> on 128-bit words.
  \<open>Pcode_EvalSpec\<close>: the contract \<open>spec_value\<close> over unbounded integers and the refinement. \<open>Pcode_State\<close>:
  \<^verbatim>\<open>lower_semantics\<close> and \<^verbatim>\<open>lower_state\<close>, and what becomes of an effect its raw operation does not support.

  Analyses. \<open>Pcode_Cfg\<close> and \<open>Pcode_CfgSpec\<close>: \<^verbatim>\<open>pcode/cfg.rs\<close>, the graph and the invariant of its nodes, edges
  and calls, the calls only the flow shows among them. \<open>Pcode_Slice\<close>, \<open>Pcode_SliceSpec\<close>, \<open>Pcode_SliceSound\<close>: \<^verbatim>\<open>pcode/slice.rs\<close>, that the slice returns
  within its budgets, and that two runs that agree on the boundaries of a clean slice agree on what it
  explains. \<open>Pcode_Simplify\<close>: \<^verbatim>\<open>pcode/simplify.rs\<close>, its record of rewrites and that it preserves runs.
  \<open>Pcode_Coverage\<close>: both reports of \<^verbatim>\<open>pcode/coverage.rs\<close> against counts over the whole function, and
  the classification of opaque operations against what the executor does with them.

  Execution. \<open>Pcode_Concrete\<close>: the byte state and its readers and writers. \<open>Pcode_Execute\<close>: one operation,
  the checks before a run, the prefix run. \<open>Pcode_Path\<close> and \<open>Pcode_PathRun\<close>: the path loop, its invariant and
  measure, and the run of a validated snapshot. \<open>Pcode_StepSpec\<close>: what one operation does to varnodes and
  bytes, in terms of its own operands, and the locale \<open>execution_invariant\<close> of predicates every run keeps.

  Memory. \<open>Pcode_Elf\<close>: the parsed ELF file and the record \<open>host\<close> of what is called outside the sources.
  \<open>Pcode_Image\<close>: \<^verbatim>\<open>pcode/image.rs\<close>. \<open>Pcode_Process\<close>, with \<open>Pcode_ProcessSpec\<close>, \<open>Pcode_Relocation\<close> and
  \<open>Pcode_ProcessMemory\<close>: \<^verbatim>\<open>pcode/process_memory.rs\<close>, the regions, what relocation does to every byte, and the
  whole construction. \<open>Pcode_Memory\<close>: the three initial memories of \<^verbatim>\<open>pcode/execution.rs\<close> and the locale of
  what each provides to a run. \<open>Pcode_Seed\<close>: \<^verbatim>\<open>pcode/seed.rs\<close>.

  Calls. \<open>Pcode_Imports\<close> and \<open>Pcode_ImportsSpec\<close>: \<^verbatim>\<open>pcode/imports.rs\<close>, the PLT relocations, the stub scan, and
  what a linked call stands for. \<open>Pcode_Calls\<close>: the records of \<^verbatim>\<open>pcode/interprocedural.rs\<close>, call targets with
  their evidence, and the import contract; \<open>Pcode_Strlen\<close>: what that contract computes. \<open>Pcode_CallPath\<close>:
  the outer loop and its entry points; \<open>Pcode_CallSpec\<close>: no step of it panics; \<open>Pcode_CallRun\<close>: its
  invariant and measure; \<open>Pcode_CallMachine\<close>: the machine \<open>nested_calls\<close> of a call stack with rules for call,
  contracted import and return, and that the loop simulates it.

  Examples. \<open>Pcode_Example\<close>, \<open>Pcode_SliceExample\<close>, \<open>Pcode_ElfExample\<close>, \<open>Pcode_CallExample\<close> and
  \<open>Pcode_StrlenExample\<close>: the snapshots, ELF file, seed and runs the witnesses are evaluated on.

  Parameters. JSON decoding and encoding (serde), SHA-256, and the ELF parsers of the crates object and
  goblin are not in the sources: they are arguments or fields of the records \<open>host\<close> and \<open>call_services\<close>.
  The only hypotheses about them are \<open>host_total\<close> and \<open>services_total\<close>: they return.

  Loops and bounds. Every Rust \<^verbatim>\<open>loop\<close> is a \<open>run_loop\<close>, so that it ends is proved, with a measure: the path
  loop by its operation and visit budgets (at most \<^verbatim>\<open>MAX_OPERATIONS\<close> each, which also bound the number of
  fallthroughs), the slice by its budgets, the call loop by \<^verbatim>\<open>MAX_SEGMENTS = 128\<close>. The scan for a string's
  end is a recursion on the 4096 iterations left. No fuel is used.

  Conventions. A Rust panic is the outcome \<open>Panic\<close>, so its absence is a theorem. \<^verbatim>\<open>usize\<close> is \<open>nat\<close>: every
  length in these modules is bounded far below \<open>2 ^ 32\<close> by the artifact limits. A string is a list of
  bytes. The trait \<^verbatim>\<open>PcodeInitialMemory\<close> is a record of its methods. The call stack has its top first. An error
  text that quotes its input with \<^verbatim>\<open>{value:?}\<close>, as in \<^verbatim>\<open>hex_u64\<close>, is written without the quotation.

  Not modelled: the derived serde attributes; and the other crates of the repository. The native x86
  pipeline (state IR, lifting, transform, VM) is separate from this one and rests on third-party
  disassemblers; the decompiler, C generator, backend and patcher produce text or objects for external
  tools (LLVM, clang) and have no semantics in the sources to be verified against; the project store,
  model client, workers, server, command line and graphical interface are I/O, transport and rendering.
\<close>

section \<open>Execution of one operation\<close>

text \<open>
  C1. When an operation that \<^verbatim>\<open>lower_operation\<close> classifies as an exact assignment executes, every input
  was known, the mathematical contract of the operation has a value for those inputs, and afterwards
  the output varnode reads as that integer modulo the output width, every varnode disjoint from the
  output reads as before and memory is untouched.
\<close>

theorem exact_operation_assigns:
  assumes "execute_effect_operation spaces opn s img = (s', Ok x)" and "so_effect opn = Assign operation b"
  shows "assigned operation (so_source opn) s s'"
  using assms by (rule assign_step)

theorem exact_operation_assigns_witness:
  "\<exists>s' x. execute_effect_operation [] example_add seeded_state None = (s', Ok x) \<and>
     assigned Add add_five seeded_state s'"
proof -
  from add_five_runs [of "[]" None] obtain s' x where
    run: "execute_effect_operation [] example_add seeded_state None = (s', Ok x)" by blast
  from exact_operation_assigns [OF run, of Add 64] run show ?thesis by (auto simp: example_add_def)
qed

text \<open>
  C2. The scalar evaluator refines the mathematical contract: on a canonical operation with inputs
  that agree with its constants it returns the contract's integer modulo the output width, and it
  fails exactly where the contract has no value (a zero divisor, a signed quotient out of range).
\<close>

theorem evaluator_refines_contract:
  assumes "so_effect x = Assign operation b" and "lower_operation (so_source x) = Assign operation b"
    and "length inputs = length (op_inputs (so_source x))" and "constants_agree (so_source x) inputs"
  shows "case spec_value operation (spec_inputs inputs (map bits_of (op_inputs (so_source x))))
        (map bits_of (op_inputs (so_source x))) of
      Some i \<Rightarrow> evaluate_exact_wide x inputs = Ok (Some (word_of_int (i mod 2 ^ unat b)))
    | None \<Rightarrow> \<exists>e. evaluate_exact_wide x inputs = Err e"
  using assms by (rule evaluate_wide_computes)

theorem evaluator_refines_contract_witness:
  "evaluate_exact_wide example_add [2 ^ 64 - 1, 5] = Ok (Some 4)"
proof -
  have "constants_agree add_five [2 ^ 64 - 1, 5]"
    by (simp add: constants_agree_def check_constant_def vnode_def example_hex mask_wide_eq bits_of_def)
  moreover have "map bits_of (op_inputs add_five) = [64, 64]" by (simp add: bits_of_def vnode_def)
  ultimately show ?thesis
    using evaluator_refines_contract [of example_add Add 64 "[2 ^ 64 - 1, 5]"]
    by (simp add: example_add_def spec_inputs_def example_lowering)
qed

text \<open>
  C3. The evaluator never reaches a panic (a shift by the width, an index out of range, a division
  overflow), whatever operation and whatever host values it is given.
\<close>

theorem evaluator_never_panics: "evaluate_exact_wide x inputs \<noteq> Panic"
  by (rule evaluate_wide_no_panic)

text \<open>
  C4. A LOAD, a STORE or a direct copy that executes does what its operands say, and nothing else. The RAM
  space is the one whose ID is the first input, the address the value of the second in the space's
  units; a LOAD fills its output with the known bytes there, little-endian, and changes no memory and no
  varnode disjoint from the output; a STORE puts the bytes of its third input there and changes no other
  byte, in a range that is nowhere read-only and, under a memory that rejects unmapped writes,
  everywhere mapped; a copy reads the address its input names. The trace records the access of a LOAD or
  STORE.
\<close>

theorem memory_operation_effect:
  assumes "execute_effect_operation spaces opn s img = (s', Ok x)" and "state_wf s"
    and "\<not> is_assign (so_effect opn)"
  shows "memory_effect_of spaces img (so_source opn) x s s'"
  using assms by (rule memory_effect_step)

theorem memory_operation_effect_witness:
  "\<exists>s' x. execute_effect_operation (gs_address_spaces example_snapshot) example_store empty_state None = (s', Ok x) \<and>
     memory_effect_of (gs_address_spaces example_snapshot) None store_op x empty_state s'"
proof -
  from store_op_runs obtain s' x where run:
    "execute_effect_operation (gs_address_spaces example_snapshot) example_store empty_state None = (s', Ok x)" by blast
  moreover have "\<not> is_assign (so_effect example_store)" using example_lowering(3) by (simp add: example_store_def)
  moreover have "so_source example_store = store_op" by (simp add: example_store_def)
  ultimately show ?thesis using memory_operation_effect [OF run empty_state_wf(1)] by auto
qed

text \<open>
  C5. An operation that stops (an unknown input, an opaque effect, an unknown alias, a read-only or
  unmapped write, the byte limit) leaves a state that no read can tell from the one before.
\<close>

theorem stopped_operation_changes_nothing:
  assumes "execute_effect_operation spaces opn s img = (s', Err stop)" and "state_wf s"
  shows "same_view s s'"
  using effect_operation_spec(3) [OF assms] by simp

theorem stopped_operation_changes_nothing_witness:
  "\<exists>s' stop. execute_effect_operation [] example_add empty_state None = (s', Err stop) \<and> same_view empty_state s'"
  using stopped_operation_changes_nothing [OF add_five_stops empty_state_wf(1)] add_five_stops by blast

text \<open>
  C6. Every executed operation keeps the state invariant: the maps stay in key order and the number
  of known bytes within \<^verbatim>\<open>MAX_KNOWN_STATE_BYTES\<close>; and no operation panics.
\<close>

theorem operation_keeps_invariant:
  assumes "execute_effect_operation spaces opn s img = (s', r)" and "state_wf s"
  shows "state_wf s' \<and> known_byte_count s' \<le> MAX_KNOWN_STATE_BYTES \<and> r \<noteq> Panic"
  using effect_operation_spec(1,2) [OF assms] by (simp add: state_wf_def)

theorem operation_keeps_invariant_witness:
  "state_wf (fst (execute_effect_operation [] example_add seeded_state None))"
proof -
  obtain s' r where "execute_effect_operation [] example_add seeded_state None = (s', r)" by force
  with operation_keeps_invariant [OF this seeded_state_wf] show ?thesis by simp
qed

section \<open>Whole runs\<close>

text \<open>
  C7. The path executor's unbounded loop returns on every input: with an error or a trace, never
  with a panic provided that the initial memory's own check returns, and once the checks before the loop have passed always with a trace.
\<close>

theorem path_always_returns:
  assumes "state_sorted s" and "\<And>im. img = Some im \<Longrightarrow> im_validate_for im snap s \<noteq> Panic"
  shows "\<exists>r. execute_concrete_path_inner snap s img start max_operations max_visits = Some r \<and> r \<noteq> Panic \<and>
    (\<forall>ctx start_address current. path_setup snap s img start max_operations max_visits = Ok (ctx, start_address, current) \<longrightarrow>
       is_ok r)"
  using assms by (rule concrete_path_returns)

theorem path_always_returns_witness:
  "\<exists>t. execute_concrete_path_inner example_snapshot empty_state None None 10 10 = Some (Ok t)"
proof -
  from example_setup [of None] obtain ctx a n where "path_setup example_snapshot empty_state None None 10 10 = Ok (ctx, a, n)"
    by (auto simp: is_ok_iff)
  with path_always_returns [OF empty_state_wf(2), of None example_snapshot None 10 10] show ?thesis
    by (auto simp: is_ok_iff)
qed

text \<open>
  C8. A returned path trace stays within both budgets, ends in a well-formed state within the byte
  limit, and claims neither semantic fidelity nor verification.
\<close>

theorem path_trace_bounds:
  assumes "execute_concrete_path_inner snap s img start max_operations max_visits = Some (Ok t)" and "state_sorted s"
  shows "length (pp_instruction_visits t) \<le> max_visits \<and>
    length (filter is_operation_event (pp_events t)) \<le> max_operations \<and>
    max_visits \<le> MAX_OPERATIONS \<and> max_operations \<le> MAX_OPERATIONS \<and>
    state_wf (pp_final_state t) \<and> pp_semantic_fidelity t = Unknown \<and> pp_verification t = NotRun"
  using concrete_path_trace [OF assms] by blast

theorem path_trace_bounds_witness:
  "\<exists>t. execute_concrete_path_inner example_snapshot empty_state None None 10 10 = Some (Ok t) \<and>
     length (pp_instruction_visits t) \<le> 10"
proof -
  from example_path [of None] obtain t where
    "execute_concrete_path_inner example_snapshot empty_state None None 10 10 = Some (Ok t)" by auto
  with path_trace_bounds [OF this empty_state_wf(2)] show ?thesis by blast
qed

text \<open>
  C9. A path run under an initial memory never ends with a state that contradicts a read-only byte,
  if the seed did not: stores into read-only addresses stop the run instead.
\<close>

theorem path_keeps_read_only:
  assumes "execute_concrete_path_inner snap s (Some im) start max_operations max_visits = Some (Ok t)"
    and "state_sorted s" and "coherent im s"
  shows "coherent im (pp_final_state t)"
  using coherent_run.trace_keeps [OF assms(1,2)] assms(3) by blast

definition example_memory :: initial_memory where
  "example_memory =
     \<lparr>im_byte = (\<lambda>sp a. if sp = ''ram'' \<and> a = 0x2000 then Some 7 else None),
      im_mapped = (\<lambda>sp a. sp = ''ram'' \<and> a = 0x2000), im_writable = (\<lambda>_ _. False),
      im_reject_unmapped_writes = False, im_validate_for = (\<lambda>_ _. Ok ())\<rparr>"

theorem path_keeps_read_only_witness:
  "\<exists>t. execute_concrete_path_inner example_snapshot empty_state (Some example_memory) None 10 10 = Some (Ok t) \<and>
     coherent example_memory (pp_final_state t)"
proof -
  have "im_validate_for example_memory example_snapshot empty_state = Ok ()" by (simp add: example_memory_def)
  with example_path [of "Some example_memory"] obtain t where
    t: "execute_concrete_path_inner example_snapshot empty_state (Some example_memory) None 10 10 = Some (Ok t)" by auto
  have "coherent example_memory empty_state" by (simp add: coherent_def space_bytes_def empty_state_def bm_get_def)
  with path_keeps_read_only [OF t empty_state_wf(2)] t show ?thesis by blast
qed

text \<open>
  C10. A prefix run executes an initial segment of the listed operations, in order and at most
  \<open>max_operations\<close> of them, and reports the end of the instructions only when it executed them all.
\<close>

theorem prefix_runs_in_order:
  assumes "execute_exact_prefix f s n = Ok t" and "state_wf s"
  shows "length (et_executed t) \<le> n \<and> state_wf (et_final_state t) \<and>
    map ex_source (et_executed t) =
      map so_source (take (length (et_executed t)) (concat (map si_operations (se_instructions f)))) \<and>
    (et_stop t = EndOfListedInstructions \<longrightarrow> length (et_executed t) = operation_count (se_instructions f))"
  using execute_exact_prefix_spec [OF assms] by blast

theorem prefix_runs_in_order_witness:
  "\<exists>t. execute_exact_prefix_raw example_function seeded_state 10 = Ok t \<and> length (et_executed t) \<le> 10"
proof -
  obtain t where t: "execute_exact_prefix (lower_semantics example_function) seeded_state 10 = Ok t"
    by (rule example_prefix)
  from prefix_runs_in_order [OF t seeded_state_wf] t show ?thesis by (auto simp: execute_exact_prefix_raw_def)
qed

section \<open>Import\<close>

text \<open>
  C11. Validation of an imported snapshot never panics: every malformed artifact is an error.
\<close>

theorem validation_never_panics: "validate_ghidra_snapshot s d \<noteq> Panic"
  by (rule validate_snapshot_not_Panic)

text \<open>
  C12. An accepted snapshot is well formed: distinct address spaces, strictly increasing instruction
  addresses in the entry's space, bounded operation lists with contiguous sequence indices, parseable
  offsets, and flow and call evidence that starts at selected instructions.
\<close>

theorem accepted_snapshot_well_formed:
  assumes "validate_ghidra_snapshot s d = Ok ()"
  shows "selection_wf s \<and> gs_binary_sha256 s = d"
  using validated_selection_wf [OF assms] validated_digest [OF assms] by blast

theorem accepted_snapshot_well_formed_witness: "selection_wf example_snapshot"
  using accepted_snapshot_well_formed [OF example_valid] by blast

text \<open>
  C13. The function IR of a validated snapshot always exists, and keeps the selected instructions,
  address spaces and entry unchanged.
\<close>

theorem function_ir_total:
  assumes "validate_ghidra_snapshot s (gs_binary_sha256 s) = Ok ()"
  shows "\<exists>f. Pcode_Validate.pcode_function_ir s = Ok f \<and> fi_instructions f = sf_instructions (gs_selected_function s) \<and>
    fi_address_spaces f = gs_address_spaces s \<and> fi_entry f = sf_entry (gs_selected_function s)"
  using pcode_function_ir_total [OF assms] pcode_function_ir_Ok by blast

theorem function_ir_total_witness: "\<exists>f. Pcode_Validate.pcode_function_ir example_snapshot = Ok f"
  using function_ir_total [of example_snapshot] example_valid by auto

section \<open>Lowering\<close>

text \<open>
  C14. Semantic lowering keeps every source operation once and in order, gives each its canonical
  effect, and reports exactly the opaque ones.
\<close>

theorem lowering_keeps_operations:
  "map (map so_source \<circ> si_operations) (se_instructions (lower_semantics f)) = map in_pcode (fi_instructions f) \<and>
   map (map so_effect \<circ> si_operations) (se_instructions (lower_semantics f)) =
     map (map lower_operation \<circ> in_pcode) (fi_instructions f) \<and>
   map dg_sequence_index (se_diagnostics (lower_semantics f)) =
     map op_sequence_index (filter (\<lambda>s. \<not> is_assign (lower_operation s)) (concat (map in_pcode (fi_instructions f))))"
proof -
  have "map dg_sequence_index (concat (map opaque_diagnostic ops)) =
      map op_sequence_index (filter (\<lambda>s. \<not> is_assign (lower_operation s)) ops)" for ops
  proof (induction ops)
    case (Cons s ops)
    then show ?case using opaque_diagnostic_cases [of s] by (cases "lower_operation s") (auto simp: is_assign_def)
  qed simp
  then show ?thesis
    by (simp add: lower_semantics_instructions lower_semantics_diagnostics semantic_of_operations o_def)
qed

text \<open>
  C15. State lowering never carries a claim the raw operation does not support. Every operation keeps its
  place and lists all its operands. An effect that is the canonical one of its raw operation is kept, and
  an access is called exact only if that effect is an assignment. Any other effect becomes an unknown
  one that may read memory, write memory, transfer control, write its output and clobber unlisted state,
  with no access called exact; and it gets one diagnostic at its address, in order.
\<close>

theorem state_lowering_rechecks:
  "list_all2 (list_all2 rechecked) (map si_operations (se_instructions f)) (map ti_operations (st_instructions (lower_state f))) \<and>
   (\<exists>ds. st_diagnostics (lower_state f) = se_diagnostics f @ ds \<and>
      list_all2 diagnosed
        (filter (\<lambda>opn. so_effect opn \<noteq> lower_operation (so_source opn)) (concat (map si_operations (se_instructions f)))) ds)"
  using state_rechecked state_diagnosed by (rule conjI)

section \<open>Control-flow evidence\<close>

text \<open>
  C16. A validated snapshot has a control-flow graph: its nodes are the selected instructions in order,
  each with exactly the edges and calls that leave it; its edges are the flow evidence that is not a
  call, in order, and its calls the call evidence followed by the calls only the flow shows (the call edges
  in order, each site, target and kind once and none that the evidence has), each anchored at the
  instruction with its address; a node is unresolved exactly when a successor is unknown.
\<close>

theorem control_flow_graph:
  assumes "validate_ghidra_snapshot snap (gs_binary_sha256 snap) = Ok ()"
  shows "\<exists>cfg. pcode_cfg_ir snap = Ok cfg \<and> cfg_wf snap cfg"
  using assms by (rule cfg_of_validated)

theorem control_flow_graph_witness:
  "\<exists>cfg. pcode_cfg_ir example_snapshot = Ok cfg \<and> cfg_wf example_snapshot cfg"
  using control_flow_graph [of example_snapshot] example_valid by (simp add: example_snapshot_def)

section \<open>Backward slices\<close>

text \<open>
  C17. A slice explains its operands: when the boundaries it reports are literal constants and values at
  function entry only, any two executions along the fallthrough chain that start from states agreeing on
  the reported entry values reach the selected operation with equal selected inputs, whatever their other
  registers, memories and initial images hold.
\<close>

theorem slice_explains_operands:
  assumes "backward_pcode_slice snap target = Some (Ok r)" and "pcode_cfg_ir snap = Ok cfg"
    and "\<forall>b \<in> set (bs_boundaries r). bd_kind b \<in> {SbConstant, SbEntryValue}"
    and "reaches cfg spaces img start (tg_instruction_index target) (unat (tg_operation_index target)) s"
    and "reaches cfg spaces img' start' (tg_instruction_index target) (unat (tg_operation_index target)) t"
    and "agree (entry_values r) start start'"
  shows "agree (set (selected_inputs target (sp_source (hd (bs_steps r))))) s t"
  using backward_slice_explains [OF assms(1-3)] assms(4-6) unfolding explained_def by blast

theorem slice_explains_operands_witness:
  "\<exists>cfg s t. pcode_cfg_ir example_snapshot = Ok cfg \<and> reaches cfg [] None (run_state []) 0 1 s \<and>
     reaches cfg [] None (run_state other_memory) 0 1 t \<and>
     read_varnode_wide s (vnode ''unique'' ''0x100'' 8) = read_varnode_wide t (vnode ''unique'' ''0x100'' 8)"
proof -
  obtain cfg where cfg: "pcode_cfg_ir example_snapshot = Ok cfg" by (rule example_cfg)
  from example_slice_clean obtain r where r: "backward_pcode_slice example_snapshot add_target = Some (Ok r)"
    and kinds: "\<forall>b \<in> set (bs_boundaries r). bd_kind b \<in> {SbConstant, SbEntryValue}"
    and source: "sp_source (hd (bs_steps r)) = add_five" by blast
  have "\<exists>s. reaches cfg [] None (run_state []) 0 1 s" by (rule run_state_reaches [OF cfg]) simp
  then obtain s where s: "reaches cfg [] None (run_state []) 0 1 s" ..
  have "\<exists>t. reaches cfg [] None (run_state other_memory) 0 1 t" by (rule run_state_reaches [OF cfg]) simp
  then obtain t where t: "reaches cfg [] None (run_state other_memory) 0 1 t" ..
  have "read_varnode_wide (run_state []) v = read_varnode_wide (run_state other_memory) v" for v
    by (rule run_state_agree)
  with slice_explains_operands [OF r cfg kinds, of "[]" None "run_state []" s None "run_state other_memory" t] s t
  have "agree (set (op_inputs add_five)) s t" by (simp add: add_target_def selected_inputs_def source agree_def)
  then have "read_varnode_wide s (vnode ''unique'' ''0x100'' 8) = read_varnode_wide t (vnode ''unique'' ''0x100'' 8)"
    by (simp add: agree_def)
  with cfg s t show ?thesis by blast
qed

text \<open>
  C18. The backward slice always returns, without a panic; a slice it returns is within its budgets of 512
  operations, 64 instructions and 1024 boundaries, starts with the selected operation, lists only operations
  of the function at their sites, is marked truncated exactly when a budget boundary is among its
  boundaries, and never claims its path proven.
\<close>

theorem slice_always_returns:
  "\<exists>q. backward_pcode_slice snap target = Some q \<and> q \<noteq> Panic \<and>
     (\<forall>r. q = Ok r \<longrightarrow> (\<exists>cfg. pcode_cfg_ir snap = Ok cfg \<and> slice_wf cfg target r))"
  by (rule backward_slice_total)

theorem slice_always_returns_witness:
  "\<exists>r. backward_pcode_slice example_snapshot add_target = Some (Ok r) \<and>
     (\<exists>cfg. pcode_cfg_ir example_snapshot = Ok cfg \<and> slice_wf cfg add_target r)"
proof -
  from example_slice_clean obtain r where "backward_pcode_slice example_snapshot add_target = Some (Ok r)" by blast
  with slice_always_returns [of example_snapshot add_target] show ?thesis by auto
qed

section \<open>Simplification\<close>

text \<open>
  C19. The checked simplification does not change what a function computes: from every concrete state and
  under every budget the prefix run of the simplified function ends in the same state, after the same
  number of operations with the same outputs and memory accesses, and stops for the same reason.
\<close>

theorem simplification_preserves_runs:
  assumes "simplify_checked f = Ok art"
  shows "result_matches (execute_exact_prefix_raw f s n) (execute_exact_prefix_raw (sm_after art) s n)"
  using assms by (rule simplified_runs_alike)

theorem simplification_preserves_runs_witness:
  "\<exists>art. simplify_checked example_function = Ok art \<and>
     result_matches (execute_exact_prefix_raw example_function seeded_state 10)
       (execute_exact_prefix_raw (sm_after art) seeded_state 10)"
  using simplification_preserves_runs [of example_function _ seeded_state 10] example_artifact by metis

text \<open>
  C20. The record of the simplification is exact: it lists, in order, the positions where the simplified
  function differs from the original and nothing else, each with the operation before and after, its
  source address and its sequence index.
\<close>

theorem simplification_record_exact:
  assumes "simplify_checked f = Ok art"
  shows "map site_of (sm_rewrites art) = changed_sites (fi_instructions f) (fi_instructions (sm_after art)) \<and>
    (\<forall>rw \<in> set (sm_rewrites art). describes (fi_instructions f) (fi_instructions (sm_after art)) rw)"
  using rewrites_exact [OF assms] by blast

theorem simplification_record_exact_witness:
  "\<exists>art. simplify_checked example_function = Ok art \<and>
     changed_sites (fi_instructions example_function) (fi_instructions (sm_after art)) = [(0, 0)]"
  using simplification_record_exact [of example_function] example_artifact by metis

section \<open>Reports\<close>

text \<open>
  C21. The coverage report counts what the lowered function contains: its totals, one row per opcode and
  mnemonic in key order with that row's exact and opaque operations, the first 256 opaque sites in
  order, and as omitted exactly the sites that are not shown.
\<close>

theorem coverage_report_exact:
  assumes "pcode_coverage_report snap = Ok report" and "Pcode_Validate.pcode_function_ir snap = Ok f"
    and "ops = concat (map si_operations (se_instructions (lower_semantics f)))"
  shows "cv_operations report = length ops \<and> cv_exact_assignments report = exact_count ops \<and>
    cv_exact_assignments report + cv_opaque_effects report = cv_operations report \<and>
    cv_by_opcode report = map (row_of ops) (sorted_list_of_set (opcode_key ` set ops)) \<and>
    cv_opaque_sites report = take MAX_OPAQUE_SITES (site_list ops) \<and>
    cv_omitted_opaque_sites report + length (cv_opaque_sites report) = cv_opaque_effects report"
  using coverage_report_counts [OF assms(1,2)] unfolding assms(3) by simp

theorem coverage_report_exact_witness:
  "\<exists>report. pcode_coverage_report example_snapshot = Ok report \<and>
     cv_exact_assignments report + cv_opaque_effects report = cv_operations report"
proof -
  obtain report where r: "pcode_coverage_report example_snapshot = Ok report"
    by (simp add: pcode_coverage_report_def example_function_ir Let_def)
  from coverage_report_exact [OF this example_function_ir refl] r show ?thesis by blast
qed

text \<open>
  C22. The capability report of a validated snapshot always exists, and its counts are those of the
  classification of the function's opaque operations: reads, writes, conditional and stopping operations,
  calls, the nodes whose control is open, the first 256 sites and the number of sites left out.
\<close>

theorem capability_report_exact:
  assumes "validate_ghidra_snapshot snap (gs_binary_sha256 snap) = Ok ()" and "digest_of snap = Ok d"
  shows "\<exists>r. pcode_capability_report digest_of snap = Ok r \<and> capability_wf snap r"
  using assms by (rule capability_report_total)

theorem capability_report_exact_witness:
  "\<exists>r. pcode_capability_report (\<lambda>_. Ok example_digest) example_snapshot = Ok r \<and> capability_wf example_snapshot r"
  using capability_report_exact [of example_snapshot "\<lambda>_. Ok example_digest"] example_valid by (simp add: example_snapshot_def)

text \<open>
  C23. An operation the capability report lists as stopping ends a concrete path when it is reached,
  whatever the state, the initial memory and the budgets, a branch, call or return included. There are
  two exceptions: a LOAD or STORE of more than eight bytes, and a BRANCHIND whose recorded source address
  lies in another space than its instruction.
\<close>

theorem stopping_operations_stop:
  assumes "lower_operation source = Opaque cl reason mr mw mc mo"
    and "classify_opaque source cl reason (se_address_spaces (pc_semantic ctx)) = Ok (kind, Stops, why)"
    and "operation_step ctx i (canonical source) ps = Inl ps'"
  shows "(\<exists>x a. ph_events ps' = ph_events ps @ [EffectEvent x] \<and> ex_memory_access x = Some a \<and> 8 < ma_width_bytes a) \<or>
    op_opcode source = 6 \<and> pa_space (op_source_address source) \<noteq> pa_space (si_address i)"
  using assms by (rule stopping_operation_leaves)

theorem stopping_operations_stop_witness:
  "\<exists>ps' x a. operation_step wide_context (semantic_of (example_instructions ! 0)) (canonical wide_load) (start_path empty_state 0) = Inl ps' \<and>
     ph_events ps' = [EffectEvent x] \<and> ex_memory_access x = Some a \<and> 8 < ma_width_bytes a"
proof -
  obtain ps' where step: "operation_step wide_context (semantic_of (example_instructions ! 0)) (canonical wide_load)
      (start_path empty_state 0) = Inl ps'" using wide_load_steps by blast
  obtain why where "classify_opaque wide_load MemoryRead load_reason (se_address_spaces (pc_semantic wide_context)) =
      Ok (CapMemoryRead, Stops, why)"
    using wide_load_class by (auto simp: map_ok_def wide_context_spaces)
  from stopping_operations_stop [OF wide_load_lowering this step] step show ?thesis by (simp add: start_path_def)
qed

text \<open>
  C24. A non-scalar operation that executes, in whatever state and over whatever initial memory, is listed
  by the capability report as one that requires concrete state, unless it is a LOAD or STORE of more than
  eight bytes: then, although it executes, the report always lists it as stopping.
\<close>

theorem executed_memory_classification:
  assumes "lower_operation source = Opaque cl reason mr mw mc mo"
    and "classify_opaque source cl reason spaces = Ok (kind, status, why)"
    and "execute_effect_operation spaces (canonical source) s img = (s', Ok x)"
  shows "status = (case ex_memory_access x of Some a \<Rightarrow> if 8 < ma_width_bytes a then Stops else RequiresConcreteState
    | None \<Rightarrow> RequiresConcreteState)"
  using assms by (rule executed_classification)

theorem executed_memory_classification_witness:
  "\<exists>s' x. execute_effect_operation (gs_address_spaces example_snapshot) (canonical wide_load) empty_state (Some zero_image) = (s', Ok x) \<and>
     (\<exists>a. ex_memory_access x = Some a \<and> 8 < ma_width_bytes a)"
proof -
  obtain s' x where run: "execute_effect_operation (gs_address_spaces example_snapshot) (canonical wide_load) empty_state
      (Some zero_image) = (s', Ok x)" using wide_load_runs by blast
  obtain why where "classify_opaque wide_load MemoryRead load_reason (gs_address_spaces example_snapshot) =
      Ok (CapMemoryRead, Stops, why)"
    using wide_load_class by (auto simp: map_ok_def)
  from executed_memory_classification [OF wide_load_lowering this run] run show ?thesis by (auto split: option.splits if_splits)
qed

section \<open>State\<close>

text \<open>
  C25. A varnode written reads back as the value modulo its width.
\<close>

theorem varnode_roundtrip:
  assumes "write_varnode_wide s node v = Ok s'"
  shows "read_varnode_wide s' node = Ok (Some (take_bit (bits_of node) v))"
  using assms by (rule read_back)

theorem varnode_roundtrip_witness:
  "\<exists>s'. write_varnode_wide empty_state (vnode ''register'' ''0x10'' 2) 0x12345 = Ok s' \<and>
     read_varnode_wide s' (vnode ''register'' ''0x10'' 2) = Ok (Some 0x2345)"
proof -
  obtain s' where w: "write_varnode_wide empty_state (vnode ''register'' ''0x10'' 2) 0x12345 = Ok s'"
    using example_write by blast
  have "take_bit (bits_of (vnode ''register'' ''0x10'' 2)) (0x12345 :: u128) = 0x2345" by (simp add: bits_of_def vnode_def)
  with varnode_roundtrip [OF w] w show ?thesis by simp
qed

text \<open>
  C26. A write leaves every varnode that shares no byte with it unchanged, whatever its width or space.
\<close>

theorem varnode_frame:
  assumes "write_varnode_wide s node v = Ok s'" and "nodes_disjoint node other"
  shows "read_varnode_wide s' other = read_varnode_wide s other"
  using assms by (rule read_frame)

theorem varnode_frame_witness:
  "\<exists>s'. write_varnode_wide empty_state (vnode ''register'' ''0x10'' 2) 0x12345 = Ok s' \<and>
     read_varnode_wide s' (vnode ''register'' ''0x12'' 8) = Ok None"
proof -
  obtain s' where w: "write_varnode_wide empty_state (vnode ''register'' ''0x10'' 2) 0x12345 = Ok s'"
    using example_write by blast
  have "nodes_disjoint (vnode ''register'' ''0x10'' 2) (vnode ''register'' ''0x12'' 8)"
    by (simp add: nodes_disjoint_def node_start_def node_len_def vnode_def example_hex)
  moreover have "read_varnode_wide empty_state (vnode ''register'' ''0x12'' 8) = Ok None" by (simp add: example_reads)
  ultimately show ?thesis using varnode_frame [OF w] w by metis
qed

section \<open>Text\<close>

text \<open>
  C27. The hexadecimal notation of a trace round-trips: a value printed with \<^verbatim>\<open>0x{:x}\<close> parses back,
  as an address offset and as a trace value.
\<close>

theorem hex_roundtrip: "hex_u64 (fmt_hex a) = Ok a \<and> parse_trace_value (fmt_hex v) = Ok v"
  by (simp add: hex_u64_fmt parse_trace_value_fmt)

section \<open>Initial memory\<close>

text \<open>
  C28. The read-only image built from an ELF knows exactly the immutable bytes: an address of the image
  base's space has a byte if and only if some offset of the file backs it through a readable, not
  writable segment, shifted by the load bias, and Ghidra lists it in a loaded, initialized, read-only
  block; the byte is the one at that offset.
\<close>

theorem image_holds_exactly_immutable_bytes:
  assumes "image_from_elf h binary snap = Ok img"
  shows "\<exists>elf. ho_parse_elf h binary = Ok elf \<and>
    (\<forall>sp a b. image_byte img sp a = Some b \<longleftrightarrow>
       sp = pa_space (pr_image_base (gs_program snap)) \<and> (\<exists>i. immutable_at snap elf a i \<and> b = binary ! i))"
  by (rule image_holds_immutable_bytes [OF assms])

theorem image_holds_exactly_immutable_bytes_witness:
  "image_byte example_image ''ram'' 2 = Some 0x4c \<longleftrightarrow>
     (\<exists>i. immutable_at mapped_snapshot example_elf 2 i \<and> 0x4c = example_binary ! i)"
proof -
  from image_holds_exactly_immutable_bytes [OF example_image_built] obtain elf where
    "ho_parse_elf example_host example_binary = Ok elf" and
    "\<forall>sp a b. image_byte example_image sp a = Some b \<longleftrightarrow>
       sp = pa_space (pr_image_base (gs_program mapped_snapshot)) \<and> (\<exists>i. immutable_at mapped_snapshot elf a i \<and> b = example_binary ! i)"
    by blast
  then show ?thesis by (simp del: example_segment_simps)
qed

text \<open>
  C29. Materializing the image as one contiguous window never panics, succeeds exactly when the span of
  the regions fits the limit, and the window with its mask of known bytes says of every address what
  the image's lookup says.
\<close>

theorem image_window_agrees:
  assumes "image_from_elf h binary snap = Ok img" and "length binary < 2 ^ 64"
  shows "materialize_window img max_bytes \<noteq> Panic \<and>
    (is_ok (materialize_window img max_bytes) \<longleftrightarrow> window_span img \<le> max_bytes) \<and>
    (\<forall>w. materialize_window img max_bytes = Ok w \<longrightarrow> length (rw_bytes w) = window_span img \<and> window_agrees img w)"
proof -
  from image_from_elf_run [OF assms(1)] have "image_wf img" "ri_binary img = binary" by blast+
  with assms(2) window_materializes [of img max_bytes] show ?thesis by simp
qed

theorem image_window_agrees_witness:
  "is_ok (materialize_window example_image 4) \<and> \<not> is_ok (materialize_window example_image 3)"
proof -
  have "length example_binary < 2 ^ 64" by (simp add: example_binary_def)
  from image_window_agrees [OF example_image_built this, of 4] image_window_agrees [OF example_image_built this, of 3]
  show ?thesis by (simp add: window_span_def example_image_def)
qed

text \<open>
  C30. The process memory built from an ELF is determined address by address. An address is mapped if
  and only if a readable segment covers it and Ghidra lists it in a block with the segment's
  permissions; writable if that block is. Its initial byte is known if no dynamic relocation writes it,
  and then is the file's byte or the zero of a segment's tail, or if the one relocation that writes it
  is a wholly mapped \<^verbatim>\<open>R_X86_64_RELATIVE\<close> that shares no byte with another, and then is a byte of the
  biased addend.
\<close>

theorem process_memory_exact:
  assumes "process_from_elf_version h binary snap max_bytes v = Ok m" and "length binary < 2 ^ 64"
  shows "\<exists>elf rs. ho_parse_elf h binary = Ok elf \<and> dynamic_relocations h binary elf v = Ok rs \<and>
    (\<forall>sp a. is_mapped m sp a \<longleftrightarrow> sp = pm_space m \<and> (\<exists>source w. loaded_at snap elf a source w)) \<and>
    (\<forall>sp a. is_writable m sp a \<longleftrightarrow> sp = pm_space m \<and> (\<exists>source. loaded_at snap elf a source True)) \<and>
    (\<forall>sp a b. initial_byte m sp a = Some b \<longleftrightarrow> sp = pm_space m \<and> (\<exists>source w. loaded_at snap elf a source w \<and>
       (if writers (load_bias_of snap elf) rs a = [] then b = content binary source
        else lone_relative (load_bias_of snap elf) v rs (is_mapped m (pm_space m)) a b)))"
  by (rule process_memory_by_address [OF assms])

theorem process_memory_exact_witness:
  "is_mapped example_process ''ram'' 0x10 \<longleftrightarrow> (\<exists>source w. loaded_at mapped_snapshot example_elf 0x10 source w)"
proof -
  have "length example_binary < 2 ^ 64" by (simp add: example_binary_def)
  from process_memory_exact [OF example_process_built [unfolded process_from_elf_def] this]
  have "is_mapped example_process sp a \<longleftrightarrow>
      sp = pm_space example_process \<and> (\<exists>source w. loaded_at mapped_snapshot example_elf a source w)" for sp a
    by (auto simp del: example_segment_simps)
  then show ?thesis by (simp add: example_process_def)
qed

text \<open>
  C31. A process memory accepted from its serialized form is the one its binary and snapshot determine,
  is bound to them and passes the validation every run repeats, and stays within the caller's limit and
  the artifact limit of one MiB; so no forged byte or mask reaches a run.
\<close>

theorem parsed_process_memory_is_canonical:
  assumes "parse_bound from_slice h json binary snap max_bytes = Ok m" and "length binary < 2 ^ 64"
  shows "process_from_elf_version h binary snap max_bytes (pm_schema_version m) = Ok m \<and>
    process_validate_for_snapshot h m snap = Ok () \<and> pm_bound_to_binary m \<and>
    pm_binary_sha256 m = gs_binary_sha256 snap \<and> length (pm_bytes m) \<le> max_bytes \<and> length (pm_bytes m) \<le> 1048576"
proof -
  from assms(1) obtain parsed where canonical: "process_from_elf_version h binary snap max_bytes (pm_schema_version parsed) = Ok m"
    and same: "parsed\<lparr>pm_bound_to_binary := True\<rparr> = m"
    by (auto simp: parse_bound_def split: if_splits)
  from same have "pm_schema_version m = pm_schema_version parsed" by auto
  with canonical have built: "process_from_elf_version h binary snap max_bytes (pm_schema_version m) = Ok m" by simp
  note fields = process_fields [OF built assms(2)]
  from built process_validates [OF built assms(2)] fields show ?thesis
    by (auto simp: PCODE_ELF_PROCESS_MEMORY_MAX_BYTES_def)
qed

theorem parsed_process_memory_is_canonical_witness:
  "parse_bound (\<lambda>_. Ok (example_process\<lparr>pm_bound_to_binary := False\<rparr>)) example_host [0x7b] example_binary mapped_snapshot 64 =
     Ok example_process \<and>
   process_validate_for_snapshot example_host example_process mapped_snapshot = Ok ()"
proof -
  have bound: "pm_bound_to_binary example_process" "pm_schema_version example_process = PCODE_ELF_PROCESS_MEMORY_VERSION"
    by (simp_all add: example_process_def PCODE_ELF_PROCESS_MEMORY_VERSION_def)
  then have "parse_bound (\<lambda>_. Ok (example_process\<lparr>pm_bound_to_binary := False\<rparr>)) example_host [0x7b] example_binary
      mapped_snapshot 64 = Ok example_process"
    using example_process_built by (simp add: parse_bound_def process_from_elf_def PCODE_ELF_PROCESS_MEMORY_MAX_BYTES_def)
  moreover have "length example_binary < 2 ^ 64" by (simp add: example_binary_def)
  ultimately show ?thesis using parsed_process_memory_is_canonical by blast
qed

text \<open>
  C32. Building the process memory never panics, whatever the binary and the snapshot, provided that the
  parsers and the serializer return: no subtraction, slice, index or fill of the construction and of
  the relocation leaves its range.
\<close>

theorem process_memory_never_panics:
  assumes "host_total h" and "length binary < 2 ^ 64"
  shows "process_from_elf_version h binary snap max_bytes v \<noteq> Panic"
  by (rule process_no_panic [OF assms])

theorem process_memory_never_panics_witness:
  "process_from_elf_version example_host [0x7f] mapped_snapshot 64 1 \<noteq> Panic"
proof -
  have "host_total example_host" "length [0x7f :: u8] < 2 ^ 64" by (simp_all add: host_total_def)
  then show ?thesis by (rule process_memory_never_panics)
qed

text \<open>
  C33. Accepted allocations are at most one stack and one heap, together at most one MiB, in the
  process's space; no address of an allocation is mapped by the ELF, and no address lies in both.
\<close>

theorem accepted_allocations_disjoint:
  assumes "allocations_validate_for h al snap pm = Ok ()"
  shows "length (ac_regions al) \<le> 2 \<and> distinct (map al_kind (ac_regions al)) \<and>
    (\<Sum>r \<leftarrow> ac_regions al. unat (al_byte_len r)) \<le> 1048576 \<and>
    (\<forall>sp a. allocation_contains al sp a \<longrightarrow> sp = pm_space pm \<and> \<not> is_mapped pm sp a \<and>
       (\<exists>!r. r \<in> set (ac_regions al) \<and> in_allocation r a))"
proof -
  note valid = allocations_validated [OF assms]
  have "sp = pm_space pm \<and> \<not> is_mapped pm sp a \<and> (\<exists>!r. r \<in> set (ac_regions al) \<and> in_allocation r a)"
    if "allocation_contains al sp a" for sp a
  proof -
    from that obtain r where r: "r \<in> set (ac_regions al)" "al_space r = sp" "in_allocation r a"
      unfolding allocation_contains_iff by blast
    from valid(5) r have "\<exists>!r. r \<in> set (ac_regions al) \<and> in_allocation r a" by (intro ex1I [of _ r]) blast+
    moreover from valid(4) r(1) have "al_space r = pm_space pm" "\<forall>a. in_allocation r a \<longrightarrow> \<not> is_mapped pm (pm_space pm) a"
      by simp_all
    ultimately show ?thesis using r by simp
  qed
  with valid(1-3) show ?thesis by simp
qed

theorem accepted_allocations_disjoint_witness:
  "allocation_contains example_allocations ''ram'' 0x7010 \<and> \<not> is_mapped example_process ''ram'' 0x7010"
proof -
  have "allocation_contains example_allocations ''ram'' 0x7010" by code_simp
  with accepted_allocations_disjoint [OF example_allocations_valid] show ?thesis by blast
qed

text \<open>
  C34. Over each of the three initial memories, a path that returns a trace leaves a state that honours
  the memory: no known byte contradicts a byte the memory knows and does not let the run write, and
  with declared allocations no known byte lies outside the mappings and allocations.
\<close>

theorem runs_honour_initial_memory:
  assumes "state_sorted s"
  shows "(execute_concrete_path_with_image h snap s img start max_operations max_visits = Some (Ok t) \<longrightarrow>
      honours (image_memory h img) (pp_final_state t)) \<and>
    (execute_concrete_path_with_process_memory h snap s pm start max_operations max_visits = Some (Ok t) \<longrightarrow>
      honours (process_memory h pm) (pp_final_state t)) \<and>
    (execute_concrete_path_with_allocations h snap s pm al start max_operations max_visits = Some (Ok t) \<longrightarrow>
      honours (allocated_memory h pm al) (pp_final_state t))"
  unfolding execute_concrete_path_with_image_def execute_concrete_path_with_process_memory_def
    execute_concrete_path_with_allocations_def
  by (intro conjI impI; drule image_provider.run_honours [OF _ assms] process_provider.run_honours [OF _ assms]
      allocated_provider.run_honours [OF _ assms]; simp)

theorem runs_honour_initial_memory_witness:
  "\<exists>t. execute_concrete_path_with_allocations example_host mapped_snapshot example_seeded example_process
       example_allocations None 10 10 = Some (Ok t) \<and>
     honours (allocated_memory example_host example_process example_allocations) (pp_final_state t)"
proof -
  obtain t where "execute_concrete_path_with_allocations example_host mapped_snapshot example_seeded example_process
      example_allocations None 10 10 = Some (Ok t)"
    using mapped_path [OF example_accepted(3)] unfolding execute_concrete_path_with_allocations_def by blast
  with runs_honour_initial_memory [OF example_seeded_wf(2)] show ?thesis by blast
qed

section \<open>Seeds\<close>

text \<open>
  C35. An accepted seed file becomes the state that knows exactly the bytes it declares: it names the
  snapshot's binary and entry, its entries claim pairwise disjoint byte ranges of registers and RAM,
  every known byte is the little-endian byte of the one entry that claims it, no temporary is known,
  and every entry reads back as its declared value.
\<close>

theorem seed_is_exact:
  assumes "parse_pcode_seed from_slice bytes snap = Ok s"
  shows "\<exists>seed cs. from_slice bytes = Ok seed \<and> sd_binary_sha256 seed = gs_binary_sha256 snap \<and>
    sd_entry seed = sf_entry (gs_selected_function snap) \<and> declares snap seed cs \<and> known_exactly cs s \<and>
    sorted_wrt claims_disjoint cs \<and> state_wf s \<and> cs_unique_bytes s = [] \<and> reads_back s seed"
  using assms by (rule parse_seed_exact)

theorem seed_is_exact_witness: "state_wf example_seeded \<and> reads_back example_seeded example_seed"
proof -
  from seed_is_exact [OF example_seed_parsed] obtain seed where
    "Ok example_seed = (Ok seed :: (seed_file, string) result)" "state_wf example_seeded" "reads_back example_seeded seed"
    by blast
  then show ?thesis by simp
qed

text \<open>
  C36. Parsing a seed file never panics, provided that the JSON decoder returns: the multiplication and
  the shift that compute the bound of a value, and the additions that walk a byte range, each of which
  panics on overflow, are never reached with operands that overflow, whatever widths and offsets the
  file declares.
\<close>

theorem seed_never_panics:
  assumes "from_slice bytes \<noteq> Panic"
  shows "parse_pcode_seed from_slice bytes snap \<noteq> Panic"
  using assms by (rule parse_seed_no_panic)

theorem seed_never_panics_witness: "parse_pcode_seed (\<lambda>_. Err ''expected value'') [0x7b] mapped_snapshot \<noteq> Panic"
  by (rule seed_never_panics) simp

section \<open>Interprocedural paths\<close>

text \<open>
  C37. The loop of the call path returns on every list of snapshots, state, memory and budgets: with an
  error or a trace, never with a panic, provided that the parsers and serializers it calls return. It
  runs at most \<^verbatim>\<open>MAX_SEGMENTS\<close> segments, whether it ends in a trace or in an error.
\<close>

theorem call_path_always_returns:
  assumes "services_total services" and "state_sorted s"
  shows "(\<exists>r. execute_concrete_call_path_inner services snapshots s img allocated binary max_operations max_visits max_depth = Some r \<and>
      r \<noteq> Panic \<and> (\<forall>t. r = Ok t \<longrightarrow> length (it_segments t) \<le> MAX_SEGMENTS)) \<and>
    (\<forall>ctx root. call_setup services snapshots img allocated binary max_operations max_visits max_depth = Ok (ctx, root) \<longrightarrow>
      (\<exists>st r. run_loop (call_step ctx) (start_calls root s (length snapshots)) = Some (Some (st, r)) \<and>
         length (ck_segments st) \<le> MAX_SEGMENTS))"
  using call_path_bounded [OF assms] call_path_segments [OF assms] by blast

theorem call_path_always_returns_witness:
  "\<exists>r. execute_concrete_call_path_inner calls_services [root_snapshot, callee_snapshot] return_state None None None 10 10 4 = Some r \<and>
     r \<noteq> Panic \<and> (\<forall>t. r = Ok t \<longrightarrow> length (it_segments t) \<le> MAX_SEGMENTS)"
  using call_path_always_returns [OF calls_services_total return_state_wf(2)] by blast

text \<open>
  C38. A returned interprocedural trace is a run of the machine of nested calls: every segment is a
  concrete path of the function on top, from the address and state the one before left; a callee is
  entered only with agreeing call evidence and at the entry of a loaded snapshot, an import is replaced
  only by the contract of its ELF link, and a callee comes back only to the continuation its caller
  recorded. The last segment explains the stop, and the final state agrees with the initial memory.
\<close>

theorem call_path_is_nested:
  assumes "execute_concrete_call_path_inner services snapshots s img allocated binary max_operations max_visits max_depth = Some (Ok t)"
    and "services_total services" and "state_sorted s"
  shows "\<exists>ctx root st w. call_setup services snapshots img allocated binary max_operations max_visits max_depth = Ok (ctx, root) \<and>
    nested_calls ctx s w \<and> ends_at ctx st (it_stop t) w \<and> it_segments t = ck_segments st \<and> it_calls t = ck_calls st \<and>
    it_contracted_imports t = ck_imports st \<and> it_final_state t = ck_state st \<and> memory_kept ctx (it_final_state t)"
proof -
  from call_trace_nested [OF assms] obtain ctx root st w where
    "call_setup services snapshots img allocated binary max_operations max_visits max_depth = Ok (ctx, root)"
    "nested_calls ctx s w" "calls_ok ctx st" "ends_at ctx st (it_stop t) w"
    "it_segments t = ck_segments st" "it_calls t = ck_calls st" "it_contracted_imports t = ck_imports st" "it_final_state t = ck_state st"
    by blast
  with ends_at_kept show ?thesis by metis
qed

theorem call_path_is_nested_witness:
  "\<exists>t ctx w st. execute_concrete_call_path_inner calls_services [root_snapshot, callee_snapshot] return_state None None None 10 10 4 = Some (Ok t) \<and>
     it_stop t = PathReturn root_return \<and> nested_calls ctx return_state w \<and> ends_at ctx st (it_stop t) w"
proof -
  from calls_run_example obtain t where
    t: "execute_concrete_call_path_inner calls_services [root_snapshot, callee_snapshot] return_state None None None 10 10 4 = Some (Ok t)"
    "it_stop t = PathReturn root_return" by blast
  from call_path_is_nested [OF t(1) calls_services_total return_state_wf(2)] t show ?thesis by blast
qed

text \<open>
  C39. A returned interprocedural trace counts exactly what its segments executed, within all budgets,
  and when it ends in the return of the root every call has been matched by a return: there is one
  segment for every call, every return, every contracted import, and the last one.
\<close>

theorem call_path_counts:
  assumes "execute_concrete_call_path_inner services snapshots s img allocated binary max_operations max_visits max_depth = Some (Ok t)"
    and "services_total services" and "state_sorted s"
  shows "it_executed_operations t = sum_list (map (segment_operations \<circ> sg_path) (it_segments t)) \<and>
    it_instruction_visits t = sum_list (map (length \<circ> pp_instruction_visits \<circ> sg_path) (it_segments t)) \<and>
    it_executed_operations t \<le> max_operations \<and> it_instruction_visits t \<le> max_visits \<and>
    length (it_segments t) \<le> MAX_SEGMENTS \<and> max_operations \<le> MAX_OPERATIONS \<and> max_visits \<le> MAX_OPERATIONS \<and>
    max_depth \<le> MAX_CALL_DEPTH \<and> (\<forall>tr \<in> set (it_calls t). 1 \<le> tr_depth tr \<and> tr_depth tr \<le> max_depth) \<and>
    (\<forall>source. it_stop t = PathReturn source \<longrightarrow>
       length (it_segments t) = 2 * length (it_calls t) + length (it_contracted_imports t) + 1)"
proof -
  from call_trace_nested [OF assms] obtain ctx root st w where
    ctx: "call_setup services snapshots img allocated binary max_operations max_visits max_depth = Ok (ctx, root)"
    and nested: "nested_calls ctx s w" and ok: "calls_ok ctx st" and ends: "ends_at ctx st (it_stop t) w"
    and trace: "it_segments t = ck_segments st" "it_calls t = ck_calls st" "it_contracted_imports t = ck_imports st"
      "it_executed_operations t = ck_executed st" "it_instruction_visits t = ck_visits st" by blast
  have "length (ck_segments st) = 2 * length (ck_calls st) + length (ck_imports st) + 1" if "it_stop t = PathReturn source" for source
    using returned_counts [OF nested] ends that by simp
  with ok call_setup_ok(9-14) [OF ctx assms(2)] trace show ?thesis by (simp add: calls_ok_def)
qed

theorem call_path_counts_witness:
  "\<exists>t. execute_concrete_call_path_inner calls_services [root_snapshot, callee_snapshot] return_state None None None 10 10 4 = Some (Ok t) \<and>
     length (it_segments t) = 2 * length (it_calls t) + length (it_contracted_imports t) + 1 \<and> it_executed_operations t \<le> 10"
proof -
  from calls_run_example obtain t where
    t: "execute_concrete_call_path_inner calls_services [root_snapshot, callee_snapshot] return_state None None None 10 10 4 = Some (Ok t)"
    "it_stop t = PathReturn root_return" by blast
  from call_path_counts [OF t(1) calls_services_total return_state_wf(2)] t show ?thesis by blast
qed

text \<open>
  C40. When the contract of \<^verbatim>\<open>strlen\<close> applies, its result is the length of the terminated string of known,
  mapped or allocated bytes at \<^verbatim>\<open>RDI\<close>; the return slot at \<^verbatim>\<open>RSP\<close> holds the caller's continuation; and the
  state after it is exactly what the calling convention leaves: the result in \<^verbatim>\<open>RAX\<close>, \<^verbatim>\<open>RSP\<close> popped, the
  callee-saved registers as before, no other register or temporary known, and memory untouched.
\<close>

theorem strlen_contract_exact:
  assumes "apply_strlen_contract snap s pm al continuation = Ok (s', count)" and "state_wf s"
  shows "\<exists>pointer stack_pointer return_address.
    read_varnode s (saved_node snap ''RDI'') = Ok (Some pointer) \<and> string_length_is s pm al pointer (unat count) \<and> unat count < 4096 \<and>
    read_varnode s (saved_node snap ''RSP'') = Ok (Some stack_pointer) \<and>
    read_memory s (pm_space pm) stack_pointer 8 = Ok (Some return_address) \<and>
    pa_space continuation = pm_space pm \<and> hex_u64 (pa_offset continuation) = Ok return_address \<and>
    state_wf s' \<and> cs_memory_bytes s' = cs_memory_bytes s \<and> cs_unique_bytes s' = [] \<and>
    bm_get (cs_register_bytes s') = strlen_registers snap count (stack_pointer + 8) (bm_get (cs_register_bytes s))"
  using assms by (rule strlen_contract_spec)

theorem strlen_contract_exact_witness:
  "\<exists>s' pointer. apply_strlen_contract strlen_snapshot strlen_state example_process example_allocations (ram_at ''0x1005'') = Ok (s', 1) \<and>
     string_length_is strlen_state example_process example_allocations pointer 1 \<and> cs_memory_bytes s' = cs_memory_bytes strlen_state"
proof -
  from strlen_example obtain s' where
    run: "apply_strlen_contract strlen_snapshot strlen_state example_process example_allocations (ram_at ''0x1005'') = Ok (s', 1)" by blast
  from strlen_contract_exact [OF run strlen_state_wf] run show ?thesis by auto
qed

end
